(* ===== verification/Prelude.thy ===== *)
theory Prelude
  imports Main "HOL-Library.Char_ord" "HOL-Library.List_Lexorder" "HOL-Library.Product_Lexorder"
begin

text \<open>
  What every component shares: results of operations that may raise (a sum, the error on the left),
  the three SQL statements the repositories are written with (\<open>SELECT ... LIMIT 1\<close>, \<open>UPDATE ... WHERE\<close>
  with its row count, \<open>INSERT\<close>) over tables that are lists of rows in rowid order, and the few facts
  about Python text that the validators use.

  A text of the program is a HOL string, a list of characters whose codes are the code points
  0 to 255; the order of strings is the order of their codes, which is the BINARY collation SQLite
  sorts with.
\<close>

named_theorems result_simps \<open>inversion of results of operations\<close>
named_theorems sql_simps \<open>reading a table after a statement\<close>

section \<open>Results of operations that may raise\<close>

definition andthen :: "'e + 'a \<Rightarrow> ('a \<Rightarrow> 'e + 'b) \<Rightarrow> 'e + 'b" where
  "andthen r f = (case r of Inl e \<Rightarrow> Inl e | Inr x \<Rightarrow> f x)"

lemma andthen_Inl [simp]: "andthen (Inl e) f = Inl e"
  and andthen_Inr [simp]: "andthen (Inr x) f = f x"
  by (simp_all add: andthen_def)

lemma andthen_eq_Inr [result_simps]: "andthen r f = Inr y \<longleftrightarrow> (\<exists>x. r = Inr x \<and> f x = Inr y)"
  by (cases r) simp_all

lemma andthen_eq_Inl [result_simps]:
  "andthen r f = Inl e \<longleftrightarrow> r = Inl e \<or> (\<exists>x. r = Inr x \<and> f x = Inl e)"
  by (cases r) simp_all

lemma if_Inl_eq_Inr [result_simps]: "(if b then Inl e else r) = Inr y \<longleftrightarrow> \<not> b \<and> r = Inr y"
  and if_eq_Inr_Inl [result_simps]: "(if b then r else Inl e) = Inr y \<longleftrightarrow> b \<and> r = Inr y"
  by simp_all

lemma option_case_Inl_eq_Inr [result_simps]:
  "(case x of None \<Rightarrow> Inl e | Some a \<Rightarrow> f a) = Inr y \<longleftrightarrow> (\<exists>a. x = Some a \<and> f a = Inr y)"
  by (cases x) simp_all

definition is_ok :: "'e + 'a \<Rightarrow> bool" where
  "is_ok r = (case r of Inl _ \<Rightarrow> False | Inr _ \<Rightarrow> True)"

lemma is_ok_simps [simp]: "\<not> is_ok (Inl e)" "is_ok (Inr x)"
  by (simp_all add: is_ok_def)

section \<open>Statements over a table\<close>

definition fetchone :: "('r \<Rightarrow> bool) \<Rightarrow> 'r list \<Rightarrow> 'r option" where
  "fetchone p rows = List.find p rows"

definition sql_update :: "('r \<Rightarrow> bool) \<Rightarrow> ('r \<Rightarrow> 'r) \<Rightarrow> 'r list \<Rightarrow> 'r list" where
  "sql_update p f rows = map (\<lambda>r. if p r then f r else r) rows"

definition rowcount :: "('r \<Rightarrow> bool) \<Rightarrow> 'r list \<Rightarrow> nat" where
  "rowcount p rows = length (filter p rows)"

lemma fetchone_Nil [simp]: "fetchone p [] = None"
  and fetchone_Cons [simp]: "fetchone p (r # rows) = (if p r then Some r else fetchone p rows)"
  by (simp_all add: fetchone_def)

lemma fetchone_SomeD: "fetchone p rows = Some r \<Longrightarrow> r \<in> set rows \<and> p r"
  by (induction rows) (auto split: if_splits)

lemma fetchone_None_iff: "fetchone p rows = None \<longleftrightarrow> (\<forall>r \<in> set rows. \<not> p r)"
  by (induction rows) auto

lemma fetchone_append: "fetchone p (xs @ ys) = (case fetchone p xs of None \<Rightarrow> fetchone p ys | Some r \<Rightarrow> Some r)"
  by (induction xs) auto

lemma fetchone_exists: "r \<in> set rows \<Longrightarrow> p r \<Longrightarrow> \<exists>r'. fetchone p rows = Some r'"
  by (induction rows) auto

lemma sql_update_Nil [simp]: "sql_update p f [] = []"
  and sql_update_Cons [simp]: "sql_update p f (r # rows) = (if p r then f r else r) # sql_update p f rows"
  by (simp_all add: sql_update_def)

lemma length_sql_update [simp]: "length (sql_update p f rows) = length rows"
  by (simp add: sql_update_def)

lemma set_sql_update: "set (sql_update p f rows) = f ` {r \<in> set rows. p r} \<union> {r \<in> set rows. \<not> p r}"
  by (induction rows) auto

lemma in_sql_update [sql_simps]:
  "r \<in> set (sql_update p f rows) \<longleftrightarrow>
     (\<exists>r0 \<in> set rows. p r0 \<and> r = f r0) \<or> (r \<in> set rows \<and> \<not> p r)"
  by (auto simp: set_sql_update)

lemma sql_update_append [simp]: "sql_update p f (xs @ ys) = sql_update p f xs @ sql_update p f ys"
  by (simp add: sql_update_def)

lemma sql_update_id: "\<forall>r \<in> set rows. \<not> p r \<Longrightarrow> sql_update p f rows = rows"
  by (induction rows) auto

lemma map_sql_update: "(\<And>r. k (f r) = k r) \<Longrightarrow> map k (sql_update p f rows) = map k rows"
  by (simp add: sql_update_def)

text \<open>An update that keeps the key is seen by a later fetch by that key, and only under it.\<close>

lemma fetchone_key_update:
  assumes "\<And>r. k (f r) = k r"
  shows "fetchone (\<lambda>r. k r = x) (sql_update p f rows) =
           map_option (\<lambda>r. if p r then f r else r) (fetchone (\<lambda>r. k r = x) rows)"
  using assms by (induction rows) auto

lemma filter_sql_update_other:
  "(\<And>r. p r \<Longrightarrow> \<not> q r) \<Longrightarrow> (\<And>r. p r \<Longrightarrow> \<not> q (f r)) \<Longrightarrow>
     filter q (sql_update p f rows) = filter q rows"
  by (induction rows) auto

lemma distinct_fetchone:
  "distinct (map k rows) \<Longrightarrow> r \<in> set rows \<Longrightarrow> fetchone (\<lambda>r'. k r' = k r) rows = Some r"
  by (induction rows) (auto simp: image_iff)

lemma rowcount_pos: "rowcount p rows \<noteq> 0 \<longleftrightarrow> (\<exists>r \<in> set rows. p r)"
  by (auto simp: rowcount_def filter_empty_conv)

lemma distinct_rowcount_le_1:
  assumes "distinct (map k rows)" and "\<And>r. p r \<Longrightarrow> k r = x"
  shows "rowcount p rows \<le> 1"
  using assms
proof (induction rows)
  case (Cons r rows)
  then show ?case
  proof (cases "p r")
    case True
    with Cons.prems have "\<forall>r' \<in> set rows. \<not> p r'" by (auto simp: image_iff)
    then show ?thesis by (simp add: rowcount_def filter_empty_conv True)
  qed (simp_all add: rowcount_def)
qed (simp add: rowcount_def)

section \<open>Ordered reads\<close>

text \<open>\<open>ORDER BY key DESC LIMIT 1\<close> and \<open>ORDER BY key\<close>.\<close>

definition last_by :: "('r \<Rightarrow> 'k::linorder) \<Rightarrow> 'r list \<Rightarrow> 'r option" where
  "last_by key rows = (case rev (sort_key key rows) of [] \<Rightarrow> None | r # _ \<Rightarrow> Some r)"

lemma last_by_SomeE:
  assumes "last_by key rows = Some r"
  obtains ys where "sort_key key rows = ys @ [r]"
  using assms by (auto simp: last_by_def split: list.splits)

lemma last_by_SomeD:
  assumes "last_by key rows = Some r"
  shows "r \<in> set rows"
proof -
  obtain ys where "sort_key key rows = ys @ [r]" by (rule last_by_SomeE [OF assms])
  then have "r \<in> set (sort_key key rows)" by simp
  then show ?thesis by (simp only: set_sort)
qed

lemma last_by_None_iff [simp]: "last_by key rows = None \<longleftrightarrow> rows = []"
proof -
  have "rev (sort_key key rows) = [] \<longleftrightarrow> rows = []"
    by (metis length_0_conv length_rev length_sort)
  then show ?thesis by (auto simp: last_by_def split: list.splits)
qed

lemma last_by_max:
  assumes "last_by key rows = Some r" and "r' \<in> set rows"
  shows "key r' \<le> key r"
proof -
  obtain ys where ys: "sort_key key rows = ys @ [r]"
    by (rule last_by_SomeE [OF assms(1)])
  have "sorted (map key (ys @ [r]))" using sorted_sort_key [of key rows] ys by simp
  moreover have "r' \<in> set (ys @ [r])" using assms(2) ys set_sort [of key rows] by metis
  ultimately show ?thesis by (auto simp: sorted_append)
qed

section \<open>Texts\<close>

text \<open>\<open>str.strip\<close> removes the whitespace of the Latin-1 range; a text is blank when nothing is left.\<close>

definition py_space :: "char \<Rightarrow> bool" where
  "py_space c = (let n = of_char c :: nat in
     (9 \<le> n \<and> n \<le> 13) \<or> (28 \<le> n \<and> n \<le> 32) \<or> n = 133 \<or> n = 160)"

definition blank :: "string \<Rightarrow> bool" where
  "blank s = list_all py_space s"

definition py_digit :: "char \<Rightarrow> bool" where
  "py_digit c = (let n = of_char c :: nat in 48 \<le> n \<and> n \<le> 57)"

definition isdecimal :: "string \<Rightarrow> bool" where
  "isdecimal s = (s \<noteq> [] \<and> list_all py_digit s)"

definition hex_digit :: "char \<Rightarrow> bool" where
  "hex_digit c = (let n = of_char c :: nat in (48 \<le> n \<and> n \<le> 57) \<or> (97 \<le> n \<and> n \<le> 102))"

definition ascii_alnum :: "char \<Rightarrow> bool" where
  "ascii_alnum c = (let n = of_char c :: nat in (65 \<le> n \<and> n \<le> 90) \<or> (97 \<le> n \<and> n \<le> 122) \<or> (48 \<le> n \<and> n \<le> 57))"

lemma blank_Nil [simp]: "blank []"
  by (simp add: blank_def)

end
