(* ===== verification/JobModel.thy ===== *)
theory JobModel
  imports Prelude
begin

text \<open>
  The vocabulary of jobs: the errors (\<open>core/errors.py\<close>), the enumerations and records of
  \<open>core/jobs/model.py\<close>, the outcomes of \<open>core/jobs/external_operation.py\<close>, the transition tables of
  \<open>core/jobs/state_machine.py\<close>, and the validated authority values of \<open>core/jobs/resource_lease.py\<close>.
\<close>

named_theorems model_simps \<open>values of the enumerations\<close>

section \<open>Errors\<close>

datatype error_category =
  INVALID_REQUEST | WORKSPACE_INCOMPATIBLE | CONFLICT | RETRYABLE_RUNTIME
| POLICY_DENIED | RECIPE_FAILED | CANCELLED_ERROR | INTERNAL

fun error_category_value :: "error_category \<Rightarrow> string" where
  "error_category_value INVALID_REQUEST = ''invalid_request''"
| "error_category_value WORKSPACE_INCOMPATIBLE = ''workspace_incompatible''"
| "error_category_value CONFLICT = ''conflict''"
| "error_category_value RETRYABLE_RUNTIME = ''retryable_runtime''"
| "error_category_value POLICY_DENIED = ''policy_denied''"
| "error_category_value RECIPE_FAILED = ''recipe_failed''"
| "error_category_value CANCELLED_ERROR = ''cancelled''"
| "error_category_value INTERNAL = ''internal''"

text \<open>
  What an operation may raise: a \<open>DomainError\<close> with its code and category, or, from SQLite, an
  \<open>IntegrityError\<close> of the named constraint, which the transaction wrapper rolls back and re-raises.
\<close>

datatype store_error = DomainError string error_category | IntegrityError string

abbreviation conflict :: "string \<Rightarrow> store_error + 'a" where
  "conflict code \<equiv> Inl (DomainError code CONFLICT)"

abbreviation invalid :: "string \<Rightarrow> store_error + 'a" where
  "invalid code \<equiv> Inl (DomainError code INVALID_REQUEST)"

abbreviation job_cancelled :: "store_error + 'a" where
  "job_cancelled \<equiv> Inl (DomainError ''job_cancelled'' CANCELLED_ERROR)"

section \<open>Enumerations\<close>

datatype job_state = QUEUED | RUNNING | WAITING_FOR_INPUT | SUCCEEDED | FAILED | CANCELLED

datatype job_execution_owner = FOREGROUND | ENGINE

datatype attempt_state =
  A_PENDING | A_RUNNING | A_SUCCEEDED | A_FAILED | A_CANCELLED | A_INTERRUPTED | A_NEEDS_INPUT | A_SKIPPED

datatype challenge_state = C_PENDING | C_CONSUMED | C_CANCELLED

datatype external_outcome = O_PREPARED | O_STARTED | O_SUCCEEDED | O_FAILED | O_UNKNOWN

fun job_state_value :: "job_state \<Rightarrow> string" where
  "job_state_value QUEUED = ''queued''"
| "job_state_value RUNNING = ''running''"
| "job_state_value WAITING_FOR_INPUT = ''waiting_for_input''"
| "job_state_value SUCCEEDED = ''succeeded''"
| "job_state_value FAILED = ''failed''"
| "job_state_value CANCELLED = ''cancelled''"

fun attempt_state_value :: "attempt_state \<Rightarrow> string" where
  "attempt_state_value A_PENDING = ''pending''"
| "attempt_state_value A_RUNNING = ''running''"
| "attempt_state_value A_SUCCEEDED = ''succeeded''"
| "attempt_state_value A_FAILED = ''failed''"
| "attempt_state_value A_CANCELLED = ''cancelled''"
| "attempt_state_value A_INTERRUPTED = ''interrupted''"
| "attempt_state_value A_NEEDS_INPUT = ''needs_input''"
| "attempt_state_value A_SKIPPED = ''skipped''"

definition job_state_of :: "string \<Rightarrow> job_state option" where
  "job_state_of s = List.find (\<lambda>st. job_state_value st = s)
     [QUEUED, RUNNING, WAITING_FOR_INPUT, SUCCEEDED, FAILED, CANCELLED]"

definition error_category_of :: "string \<Rightarrow> error_category option" where
  "error_category_of s = List.find (\<lambda>c. error_category_value c = s)
     [INVALID_REQUEST, WORKSPACE_INCOMPATIBLE, CONFLICT, RETRYABLE_RUNTIME, POLICY_DENIED, RECIPE_FAILED,
      CANCELLED_ERROR, INTERNAL]"

lemma error_category_of_value [simp]: "error_category_of (error_category_value c) = Some c"
  by (cases c) (simp_all add: error_category_of_def)

lemma job_state_of_value [simp]: "job_state_of (job_state_value st) = Some st"
  by (cases st) (simp_all add: job_state_of_def)

lemma job_state_value_inject [simp]: "job_state_value a = job_state_value b \<longleftrightarrow> a = b"
  by (cases a; cases b) simp_all

lemma attempt_state_value_inject [simp]: "attempt_state_value a = attempt_state_value b \<longleftrightarrow> a = b"
  by (cases a; cases b) simp_all

instantiation job_state :: enum
begin

definition enum_job_state :: "job_state list" where
  "enum_job_state = [QUEUED, RUNNING, WAITING_FOR_INPUT, SUCCEEDED, FAILED, CANCELLED]"

definition enum_all_job_state :: "(job_state \<Rightarrow> bool) \<Rightarrow> bool" where
  "enum_all_job_state P = (P QUEUED \<and> P RUNNING \<and> P WAITING_FOR_INPUT \<and> P SUCCEEDED \<and> P FAILED \<and> P CANCELLED)"

definition enum_ex_job_state :: "(job_state \<Rightarrow> bool) \<Rightarrow> bool" where
  "enum_ex_job_state P = (P QUEUED \<or> P RUNNING \<or> P WAITING_FOR_INPUT \<or> P SUCCEEDED \<or> P FAILED \<or> P CANCELLED)"

instance
proof
  show "(UNIV :: job_state set) = set enum_class.enum"
  proof (intro equalityI subsetI)
    fix x :: job_state
    show "x \<in> set enum_class.enum" by (cases x) (simp_all add: enum_job_state_def)
  qed simp
  show "distinct (enum_class.enum :: job_state list)"
    by (simp add: enum_job_state_def)
  fix P :: "job_state \<Rightarrow> bool"
  show "enum_class.enum_all P = Ball UNIV P"
  proof (intro iffI ballI)
    fix x assume "enum_class.enum_all P"
    then show "P x" by (cases x) (simp_all add: enum_all_job_state_def)
  qed (simp add: enum_all_job_state_def)
  show "enum_class.enum_ex P = Bex UNIV P"
  proof (intro iffI)
    assume "Bex UNIV P"
    then obtain x where "P x" by blast
    then show "enum_class.enum_ex P" by (cases x) (auto simp: enum_ex_job_state_def)
  qed (auto simp: enum_ex_job_state_def)
qed

end

section \<open>Transition tables\<close>

definition TERMINAL_JOB_STATES :: "job_state list" where
  "TERMINAL_JOB_STATES = [SUCCEEDED, FAILED, CANCELLED]"

definition TERMINAL_ATTEMPT_STATES :: "attempt_state list" where
  "TERMINAL_ATTEMPT_STATES = [A_SUCCEEDED, A_FAILED, A_CANCELLED, A_INTERRUPTED, A_NEEDS_INPUT, A_SKIPPED]"

definition LEGAL_JOB_TRANSITIONS :: "(job_state \<times> job_state) list" where
  "LEGAL_JOB_TRANSITIONS =
    [(QUEUED, RUNNING), (QUEUED, CANCELLED),
     (RUNNING, WAITING_FOR_INPUT), (RUNNING, SUCCEEDED), (RUNNING, FAILED), (RUNNING, CANCELLED),
     (WAITING_FOR_INPUT, QUEUED), (WAITING_FOR_INPUT, FAILED), (WAITING_FOR_INPUT, CANCELLED)]"

definition LEGAL_ATTEMPT_TRANSITIONS :: "(attempt_state \<times> attempt_state) list" where
  "LEGAL_ATTEMPT_TRANSITIONS =
    [(A_PENDING, A_RUNNING), (A_PENDING, A_SKIPPED), (A_PENDING, A_CANCELLED),
     (A_RUNNING, A_SUCCEEDED), (A_RUNNING, A_FAILED), (A_RUNNING, A_CANCELLED),
     (A_RUNNING, A_INTERRUPTED), (A_RUNNING, A_NEEDS_INPUT)]"

definition job_terminal :: "job_state \<Rightarrow> bool" where
  "job_terminal st = List.member TERMINAL_JOB_STATES st"

definition attempt_terminal :: "attempt_state \<Rightarrow> bool" where
  "attempt_terminal st = List.member TERMINAL_ATTEMPT_STATES st"

definition transition_job :: "job_state \<Rightarrow> job_state \<Rightarrow> store_error + job_state" where
  "transition_job start end' =
    (if job_terminal start then conflict ''job_terminal''
     else if \<not> List.member LEGAL_JOB_TRANSITIONS (start, end') then conflict ''job_transition_invalid''
     else Inr end')"

definition transition_attempt :: "attempt_state \<Rightarrow> attempt_state \<Rightarrow> store_error + attempt_state" where
  "transition_attempt start end' =
    (if attempt_terminal start then conflict ''attempt_terminal''
     else if \<not> List.member LEGAL_ATTEMPT_TRANSITIONS (start, end') then conflict ''attempt_transition_invalid''
     else Inr end')"

lemma job_terminal_simps [simp]:
  "\<not> job_terminal QUEUED" "\<not> job_terminal RUNNING" "\<not> job_terminal WAITING_FOR_INPUT"
  "job_terminal SUCCEEDED" "job_terminal FAILED" "job_terminal CANCELLED"
  by (simp_all add: job_terminal_def TERMINAL_JOB_STATES_def)

lemma attempt_terminal_simps [simp]:
  "\<not> attempt_terminal A_PENDING" "\<not> attempt_terminal A_RUNNING"
  "attempt_terminal A_SUCCEEDED" "attempt_terminal A_FAILED" "attempt_terminal A_CANCELLED"
  "attempt_terminal A_INTERRUPTED" "attempt_terminal A_NEEDS_INPUT" "attempt_terminal A_SKIPPED"
  by (simp_all add: attempt_terminal_def TERMINAL_ATTEMPT_STATES_def)

lemma transition_job_InrD: "transition_job a b = Inr c \<Longrightarrow> c = b \<and> (a, b) \<in> set LEGAL_JOB_TRANSITIONS"
  by (auto simp: transition_job_def split: if_splits)

lemma transition_attempt_InrD:
  "transition_attempt a b = Inr c \<Longrightarrow> c = b \<and> (a, b) \<in> set LEGAL_ATTEMPT_TRANSITIONS"
  by (auto simp: transition_attempt_def split: if_splits)

lemma legal_job_start: "(a, b) \<in> set LEGAL_JOB_TRANSITIONS \<Longrightarrow> \<not> job_terminal a"
  by (auto simp: LEGAL_JOB_TRANSITIONS_def)

lemma legal_attempt_start: "(a, b) \<in> set LEGAL_ATTEMPT_TRANSITIONS \<Longrightarrow> \<not> attempt_terminal a"
  by (auto simp: LEGAL_ATTEMPT_TRANSITIONS_def)

text \<open>
  The two life cycles that only ever move forward, as orders: an attempt state or an outcome is below
  what it can still become.
\<close>

instantiation attempt_state :: order
begin

definition less_attempt_state :: "attempt_state \<Rightarrow> attempt_state \<Rightarrow> bool" where
  "a < b \<longleftrightarrow> a = A_PENDING \<and> b \<noteq> A_PENDING \<or> a = A_RUNNING \<and> attempt_terminal b"

definition less_eq_attempt_state :: "attempt_state \<Rightarrow> attempt_state \<Rightarrow> bool" where
  "a \<le> b \<longleftrightarrow> a = b \<or> a < (b :: attempt_state)"

instance
  by standard (auto simp: less_attempt_state_def less_eq_attempt_state_def)

end

instantiation external_outcome :: order
begin

definition less_external_outcome :: "external_outcome \<Rightarrow> external_outcome \<Rightarrow> bool" where
  "a < b \<longleftrightarrow> a = O_PREPARED \<and> b \<noteq> O_PREPARED \<or> a = O_STARTED \<and> b \<notin> {O_PREPARED, O_STARTED}"

definition less_eq_external_outcome :: "external_outcome \<Rightarrow> external_outcome \<Rightarrow> bool" where
  "a \<le> b \<longleftrightarrow> a = b \<or> a < (b :: external_outcome)"

instance
  by standard (auto simp: less_external_outcome_def less_eq_external_outcome_def)

end

lemma legal_attempt_less: "(a, b) \<in> set LEGAL_ATTEMPT_TRANSITIONS \<Longrightarrow> a < b"
  by (auto simp: LEGAL_ATTEMPT_TRANSITIONS_def less_attempt_state_def)

section \<open>Rows and values\<close>

record job_execution_binding =
  recipe_id :: string
  recipe_version :: int
  executor_id :: string
  executor_version :: int
  pack_id :: string
  pack_version :: string

definition job_execution_binding_valid :: "job_execution_binding \<Rightarrow> bool" where
  "job_execution_binding_valid b \<longleftrightarrow>
     \<not> blank (recipe_id b) \<and> \<not> blank (executor_id b) \<and> \<not> blank (pack_id b) \<and> \<not> blank (pack_version b)
     \<and> 1 \<le> recipe_version b \<and> 1 \<le> executor_version b"

record job =
  job_id :: string
  request_hash :: string
  principal :: string
  client_request_id :: "string option"
  execution_owner :: job_execution_owner
  state :: job_state
  cancellation_requested :: bool
  retry_of_job_id :: "string option"
  created_at :: string
  updated_at :: string

record attempt =
  attempt_id :: string
  a_job_id :: string
  a_step_id :: string
  a_state :: attempt_state
  a_token :: nat
  a_created_at :: string
  a_updated_at :: string

record challenge =
  challenge_id :: string
  c_job_id :: string
  c_attempt_id :: string
  c_state :: challenge_state
  prompt_json :: string
  response_json :: "string option"
  response_hash :: "string option"
  response_attempt_id :: "string option"
  c_created_at :: string
  c_updated_at :: string

record checkpoint_metadata =
  checkpoint_id :: string
  k_job_id :: string
  k_step_id :: string
  k_attempt_id :: string
  relative_path :: string
  schema_id :: string
  input_hash :: string
  output_hash :: string
  byte_length :: int
  metadata_json :: string
  k_created_at :: string

record job_event =
  event_id :: string
  e_job_id :: string
  sequence :: nat
  event_type :: string
  payload_json :: string
  e_created_at :: string

record external_operation =
  operation_id :: string
  o_job_id :: string
  o_step_id :: string
  o_attempt_id :: string
  provider :: string
  o_request_hash :: string
  operation_idempotency_key :: "string option"
  provider_request_id :: "string option"
  outcome :: external_outcome
  summary_json :: string
  o_created_at :: string
  o_updated_at :: string

definition LOCAL_USER_PRINCIPAL :: string where
  "LOCAL_USER_PRINCIPAL = ''local-user''"

section \<open>Execution authority\<close>

definition MIN_LEASE_TTL_SECONDS :: int where "MIN_LEASE_TTL_SECONDS = 1"
definition MAX_LEASE_TTL_SECONDS :: int where "MAX_LEASE_TTL_SECONDS = 300"

definition lease_ttl_valid :: "int \<Rightarrow> bool" where
  "lease_ttl_valid ttl_seconds \<longleftrightarrow> MIN_LEASE_TTL_SECONDS \<le> ttl_seconds \<and> ttl_seconds \<le> MAX_LEASE_TTL_SECONDS"

definition validate_lease_ttl :: "int \<Rightarrow> store_error + unit" where
  "validate_lease_ttl ttl_seconds =
    (if lease_ttl_valid ttl_seconds then Inr () else invalid ''resource_lease_ttl_invalid'')"

record execution_authority =
  owner_id :: string
  fencing_token :: nat

record job_execution_authority = execution_authority +
  x_job_id :: string

text \<open>
  The calls annotated with the base class \<open>ExecutionAuthority\<close> may be handed either kind.
\<close>

datatype any_authority = Leadership execution_authority | JobBound job_execution_authority

definition owner_id_valid :: "string \<Rightarrow> bool" where
  "owner_id_valid owner \<longleftrightarrow> \<not> blank owner \<and> \<not> isdecimal owner"

definition execution_authority :: "string \<Rightarrow> nat \<Rightarrow> store_error + execution_authority" where
  "execution_authority owner token =
    (if \<not> owner_id_valid owner \<or> token < 1 then invalid ''execution_authority_invalid''
     else Inr \<lparr>owner_id = owner, fencing_token = token\<rparr>)"

definition job_execution_authority :: "string \<Rightarrow> nat \<Rightarrow> string \<Rightarrow> store_error + job_execution_authority" where
  "job_execution_authority owner token jid =
    (if \<not> owner_id_valid owner \<or> token < 1 then invalid ''execution_authority_invalid''
     else if blank jid then invalid ''execution_authority_invalid''
     else Inr \<lparr>owner_id = owner, fencing_token = token, x_job_id = jid\<rparr>)"

lemma validate_lease_ttl_Inr [result_simps]: "validate_lease_ttl ttl = Inr u \<longleftrightarrow> lease_ttl_valid ttl"
  by (simp add: validate_lease_ttl_def)

end
