(* ===== verification/TypedIds.thy ===== *)
theory TypedIds
  imports JobModel "HOL-Library.Word"
begin

text \<open>
  Typed identifiers and digests (\<open>core/domain/ids.py\<close> and the two recognisers of
  \<open>adapters/jobs/sqlite_repository.py\<close>): \<open>new_typed_id\<close> lays a millisecond timestamp and ten random
  bytes out as a version 7 UUID and prints it; \<open>is_typed_uuid7\<close> accepts exactly the canonical print of
  such a UUID under a prefix. The clock and the random source are arguments.
\<close>

unbundle bit_operations_syntax

section \<open>Hexadecimal text\<close>

definition hex_char :: "nat \<Rightarrow> char" where
  "hex_char n = (if n < 10 then char_of (48 + n) else char_of (87 + n))"

text \<open>The last \<open>k\<close> hexadecimal digits of a number, most significant first (Python's \<open>"%0kx"\<close>).\<close>

fun hex_text :: "nat \<Rightarrow> nat \<Rightarrow> string" where
  "hex_text 0 n = []"
| "hex_text (Suc k) n = hex_text k (n div 16) @ [hex_char (n mod 16)]"

text \<open>\<open>str(UUID(int=n))\<close>.\<close>

definition uuid_text :: "nat \<Rightarrow> string" where
  "uuid_text n = (let h = hex_text 32 n in
     take 8 h @ ''-'' @ take 4 (drop 8 h) @ ''-'' @ take 4 (drop 12 h) @ ''-'' @
     take 4 (drop 16 h) @ ''-'' @ drop 20 h)"

section \<open>Minting\<close>

definition TYPED_ID_PREFIXES :: "string list" where
  "TYPED_ID_PREFIXES = [''job'', ''run'', ''att'', ''evt'', ''chl'', ''corr'', ''op'', ''bnd'', ''src'', ''rev'', ''art'', ''ev'']"

type_synonym byte = "8 word"

text \<open>\<open>int.from_bytes(bs, "big")\<close>, the value read so far in \<open>acc\<close>.\<close>

fun int_from_bytes :: "byte list \<Rightarrow> nat \<Rightarrow> nat" where
  "int_from_bytes [] acc = acc"
| "int_from_bytes (b # bs) acc = int_from_bytes bs (acc * 256 + unat b)"

definition uuid7_int :: "nat \<Rightarrow> byte list \<Rightarrow> nat" where
  "uuid7_int timestamp random_bytes =
    (let random_bits = drop_bit 6 (int_from_bytes random_bytes 0);
         rand_a = drop_bit 62 random_bits;
         rand_b = random_bits AND mask 62
     in push_bit 80 timestamp OR push_bit 76 7 OR push_bit 64 rand_a OR push_bit 62 2 OR rand_b)"

definition new_typed_id :: "string \<Rightarrow> int \<Rightarrow> byte list \<Rightarrow> store_error + string" where
  "new_typed_id prefix now_ms randomness =
    (if \<not> List.member TYPED_ID_PREFIXES prefix then Inl (DomainError ''typed_id_prefix_invalid'' INTERNAL)
     else if \<not> (0 \<le> now_ms \<and> now_ms < 2 ^ 48) then Inl (DomainError ''typed_id_timestamp_invalid'' INTERNAL)
     else if length randomness \<noteq> 10 then Inl (DomainError ''typed_id_randomness_invalid'' INTERNAL)
     else Inr (prefix @ ''_'' @ uuid_text (uuid7_int (nat now_ms) randomness)))"

section \<open>Recognising\<close>

text \<open>
  \<open>str(UUID(suffix)) == suffix\<close> with version 7 and the RFC 4122 variant: 36 characters, dashes at 8,
  13, 18 and 23, lower-case hexadecimal digits elsewhere, digit 14 is 7 and digit 19 is one of 8, 9, a, b.
\<close>

definition uuid7_char_ok :: "nat \<Rightarrow> char \<Rightarrow> bool" where
  "uuid7_char_ok i c =
    (if i \<in> {8, 13, 18, 23} then c = CHR ''-''
     else if i = 14 then c = CHR ''7''
     else if i = 19 then c \<in> set ''89ab''
     else hex_digit c)"

definition uuid7_text :: "string \<Rightarrow> bool" where
  "uuid7_text s = (length s = 36 \<and> (\<forall>(i, c) \<in> set (enumerate 0 s). uuid7_char_ok i c))"

definition is_typed_uuid7 :: "string \<Rightarrow> string \<Rightarrow> bool" where
  "is_typed_uuid7 value prefix =
    (take (length prefix + 1) value = prefix @ ''_'' \<and> uuid7_text (drop (length prefix + 1) value))"

definition is_sha256_digest :: "string \<Rightarrow> bool" where
  "is_sha256_digest value =
    (take 7 value = ''sha256:'' \<and> length value = 71 \<and> list_all hex_digit (drop 7 value))"

section \<open>Facts\<close>

lemma length_hex_text [simp]: "length (hex_text k n) = k"
  by (induction k arbitrary: n) auto

lemma hex_digit_hex_char: "n < 16 \<Longrightarrow> hex_digit (hex_char n)"
  by (simp add: hex_digit_def hex_char_def Let_def)

lemma hex_char_inj: "m < 16 \<Longrightarrow> n < 16 \<Longrightarrow> hex_char m = hex_char n \<longleftrightarrow> m = n"
proof -
  assume "m < 16" "n < 16"
  then have "m \<in> {0..<16}" "n \<in> {0..<16}" by auto
  then have "(of_char (hex_char m) :: nat) = of_char (hex_char n) \<longleftrightarrow> m = n"
    by (auto simp: hex_char_def)
  then show ?thesis by auto
qed

lemma nth_hex_text: "i < k \<Longrightarrow> hex_text k n ! i = hex_char (n div 16 ^ (k - Suc i) mod 16)"
proof (induction k arbitrary: n)
  case (Suc k)
  show ?case
  proof (cases "i < k")
    case True
    then have "hex_text (Suc k) n ! i = hex_char (n div 16 div 16 ^ (k - Suc i) mod 16)"
      by (simp add: nth_append Suc.IH)
    also have "n div 16 div 16 ^ (k - Suc i) = n div 16 ^ (k - i)"
      using True by (simp add: div_mult2_eq [symmetric] Suc_diff_Suc flip: power_Suc)
    finally show ?thesis by simp
  next
    case False
    with Suc.prems have "i = k" by simp
    then show ?thesis by (simp add: nth_append)
  qed
qed simp

lemma hex_text_inj: "m < 16 ^ k \<Longrightarrow> n < 16 ^ k \<Longrightarrow> hex_text k m = hex_text k n \<Longrightarrow> m = n"
proof (induction k arbitrary: m n)
  case (Suc k)
  then have "hex_text k (m div 16) = hex_text k (n div 16)" and "hex_char (m mod 16) = hex_char (n mod 16)"
    by simp_all
  moreover have "m div 16 < 16 ^ k" "n div 16 < 16 ^ k"
    using Suc.prems by (simp_all add: less_mult_imp_div_less mult.commute)
  ultimately have "m div 16 = n div 16" and "m mod 16 = n mod 16"
    using Suc.IH by (auto simp: hex_char_inj)
  then show ?case by (metis mult_div_mod_eq)
qed simp

lemma int_from_bytes_bound: "acc < 256 ^ m \<Longrightarrow> int_from_bytes bs acc < 256 ^ (m + length bs)"
proof (induction bs arbitrary: acc m)
  case (Cons b bs)
  have "unat b < 256" using unsigned_less [of b] by simp
  with Cons.prems have "acc * 256 + unat b < 256 ^ Suc m" by simp
  from Cons.IH [OF this] show ?case by simp
qed simp

lemma rand_a_bound:
  assumes "length bs = 10"
  shows "drop_bit 62 (drop_bit 6 (int_from_bytes bs 0)) < (2 :: nat) ^ 12"
proof -
  have "int_from_bytes bs 0 < 256 ^ 10"
    using int_from_bytes_bound [of 0 0 bs] assms by simp
  then show ?thesis by (simp add: drop_bit_eq_div less_mult_imp_div_less)
qed

lemma uuid7_version_digit:
  assumes "length bs = 10"
  shows "uuid7_int t bs div 16 ^ 19 mod 16 = 7"
proof -
  have a: "drop_bit 80 (int_from_bytes bs 0) = 0"
    using rand_a_bound [OF assms] by (simp add: drop_bit_eq_div)
  have "uuid7_int t bs div 16 ^ 19 mod 16 = take_bit 4 (drop_bit 76 (uuid7_int t bs))"
    by (simp add: drop_bit_eq_div take_bit_eq_mod)
  also have "\<dots> = 7"
    unfolding uuid7_int_def Let_def take_bit_eq_mask [symmetric]
    using a by (simp add: drop_bit_push_bit take_bit_push_bit drop_bit_take_bit)
  finally show ?thesis .
qed

lemma uuid7_variant_digit: "uuid7_int t bs div 16 ^ 15 mod 16 \<in> {8, 9, 10, 11}"
proof -
  define r where "r = drop_bit 6 (int_from_bytes bs 0)"
  have "uuid7_int t bs div 16 ^ 15 mod 16 = take_bit 4 (drop_bit 60 (uuid7_int t bs))"
    by (simp add: drop_bit_eq_div take_bit_eq_mod)
  also have "\<dots> = 8 OR take_bit 2 (drop_bit 60 r)"
    unfolding uuid7_int_def Let_def take_bit_eq_mask [symmetric] r_def [symmetric]
    by (simp add: drop_bit_push_bit take_bit_push_bit drop_bit_take_bit)
  finally have eq: "uuid7_int t bs div 16 ^ 15 mod 16 = 8 OR take_bit 2 (drop_bit 60 r)" .
  have "take_bit 2 (drop_bit 60 r) < 4" by (simp add: take_bit_eq_mod)
  then consider "take_bit 2 (drop_bit 60 r) = 0" | "take_bit 2 (drop_bit 60 r) = 1"
    | "take_bit 2 (drop_bit 60 r) = 2" | "take_bit 2 (drop_bit 60 r) = 3"
    by linarith
  then show ?thesis unfolding eq by cases simp_all
qed

lemma hex_char_version_variant:
  "hex_char 7 = CHR ''7''" "hex_char 8 = CHR ''8''" "hex_char 9 = CHR ''9''"
  "hex_char 10 = CHR ''a''" "hex_char 11 = CHR ''b''"
  by code_simp+

lemma uuid7_text_dashed:
  assumes "length h = 32" and "\<And>i. i < 32 \<Longrightarrow> hex_digit (h ! i)"
    and "h ! 12 = CHR ''7''" and "h ! 16 \<in> set ''89ab''"
  shows "uuid7_text (take 8 h @ ''-'' @ take 4 (drop 8 h) @ ''-'' @ take 4 (drop 12 h) @ ''-'' @
     take 4 (drop 16 h) @ ''-'' @ drop 20 h)"
proof -
  define c where "c = (!) h"
  have h: "h = map c [0..<32]" using assms(1) unfolding c_def by (metis map_nth)
  have digit: "\<And>i. i < 32 \<Longrightarrow> hex_digit (c i)" using assms(2) by (simp add: c_def)
  have "c 12 = CHR ''7''" "c 16 \<in> set ''89ab''" using assms(3,4) by (simp_all add: c_def)
  then have "c (Suc (Suc (Suc (Suc (Suc (Suc (Suc (Suc (Suc (Suc (Suc (Suc 0)))))))))))) = CHR ''7''"
    and "c (Suc (Suc (Suc (Suc (Suc (Suc (Suc (Suc (Suc (Suc (Suc (Suc (Suc (Suc (Suc (Suc 0))))))))))))))))
           \<in> set ''89ab''"
    by (simp_all add: numeral_eq_Suc)
  then show ?thesis
    unfolding h uuid7_text_def by (simp add: upt_conv_Cons uuid7_char_ok_def digit)
qed

lemma uuid_text_digits:
  fixes n :: nat
  assumes "n div 16 ^ 19 mod 16 = 7" and "n div 16 ^ 15 mod 16 \<in> {8, 9, 10, 11}"
  shows "uuid7_text (uuid_text n)"
  unfolding uuid_text_def Let_def
proof (rule uuid7_text_dashed)
  show "hex_digit (hex_text 32 n ! i)" if "i < 32" for i
    using that by (simp add: nth_hex_text hex_digit_hex_char)
  show "hex_text 32 n ! 12 = CHR ''7''"
    using assms(1) by (simp add: nth_hex_text hex_char_version_variant)
  show "hex_text 32 n ! 16 \<in> set ''89ab''"
    using assms(2) by (auto simp: nth_hex_text hex_char_version_variant)
qed simp

text \<open>C34: Every identifier the program draws passes the check it later applies to identifiers it is given: a prefix
  and the canonical text of a UUID of version 7 and the variant of RFC 4122, whatever the time and the random bytes are.\<close>

theorem new_typed_id_is_typed_uuid7:
  assumes "new_typed_id pre t bs = Inr v"
  shows "is_typed_uuid7 v pre"
  using assms uuid7_version_digit [of bs "nat t"] uuid7_variant_digit [of "nat t" bs]
  by (auto simp: new_typed_id_def is_typed_uuid7_def uuid_text_digits split: if_splits)

lemma new_typed_id_is_typed_uuid7_witness:
  "\<exists>v. new_typed_id ''job'' 1700000000000 (replicate 10 255) = Inr v \<and> is_typed_uuid7 v ''job''"
proof -
  obtain v where v: "new_typed_id ''job'' 1700000000000 (replicate 10 255) = Inr v"
    by (simp add: new_typed_id_def TYPED_ID_PREFIXES_def)
  from v new_typed_id_is_typed_uuid7 [OF v] show ?thesis by blast
qed

end
