(* ===== verification/JobResults.thy ===== *)
theory JobResults
  imports TypedIds
begin

text \<open>
  Results of a finished job: the plan the producer hands to the repository, the receipt of the portable
  commit, the produced result, and the checks of \<open>adapters/jobs/sqlite_repository.py\<close>,
  \<open>core/jobs/legacy_video_result.py\<close> and \<open>core/domain/production.py\<close> between them. Results are kept
  as values; their JSON text in the column \<open>result_json\<close> is not modelled. A numeric usage entry that is
  not an integer carries its text.
\<close>

section \<open>Values\<close>

datatype quality_overall = Q_PASS | Q_PASS_WITH_WARNINGS | Q_FAIL

datatype video_document_kind = KNOWLEDGE_NOTE | FAITHFUL_EDITION

datatype usage_value = UInt int | UFloat string | UStr string | UBool bool

record source_identity_binding =
  connector_id :: string
  canonical_identity :: string
  source_id :: string
  owning_bundle_id :: string
  manifest_sha256 :: string

record portable_commit_receipt =
  r_bundle_id :: string
  r_manifest_sha256 :: string
  commit_sha256 :: string
  workspace_relative_bundle_path :: string
  idempotent :: bool

record video_produced_document =
  document_kind :: video_document_kind
  draft_artifact_id :: string
  d_quality_report_artifact_id :: string
  d_quality_overall :: quality_overall
  d_publish_eligible :: bool

definition video_produced_document_valid :: "video_produced_document \<Rightarrow> bool" where
  "video_produced_document_valid d \<longleftrightarrow>
     is_typed_uuid7 (draft_artifact_id d) ''art''
     \<and> is_typed_uuid7 (d_quality_report_artifact_id d) ''art''
     \<and> draft_artifact_id d \<noteq> d_quality_report_artifact_id d"

text \<open>
  The plan and the result of a video job share their fields; the result adds those of the receipt.
\<close>

record video_result_plan =
  v_job_id :: string
  run_id :: string
  bundle_id :: string
  v_manifest_sha256 :: string
  v_source_id :: string
  source_revision_id :: string
  primary_draft_artifact_id :: string
  transcript_artifact_id :: string
  evidence_set_artifact_id :: string
  quality_report_artifact_id :: string
  display_asset_ids :: "string list"
  quality_overall :: quality_overall
  publish_eligible :: bool
  usage :: "(string \<times> usage_value) list"
  warnings :: "string list"
  documents :: "video_produced_document list"

record video_produce_result = video_result_plan +
  v_commit_sha256 :: string
  v_bundle_path :: string
  v_idempotent :: bool

record recipe_result_plan =
  result_kind :: string
  p_job_id :: string
  p_run_id :: string
  p_bundle_id :: string
  p_manifest_sha256 :: string
  p_source_id :: string
  p_source_revision_id :: string
  artifacts :: "(string \<times> string) list"
  p_quality_overall :: string
  p_publish_eligible :: bool
  p_usage :: "(string \<times> usage_value) list"
  p_warnings :: "string list"

record recipe_produce_result = recipe_result_plan +
  result_schema_version :: int
  p_commit_sha256 :: string
  p_bundle_path :: string
  p_idempotent :: bool

datatype job_result = VideoResult video_produce_result | RecipeResult recipe_produce_result

record job_completion =
  completion_result :: job_result
  completion_source :: source_identity_binding

section \<open>Video results\<close>

definition RESULT_USAGE_FIELDS :: "string list" where
  "RESULT_USAGE_FIELDS = [''input_tokens'', ''output_tokens'']"

fun usage_count_ok :: "usage_value \<Rightarrow> bool" where
  "usage_count_ok (UInt n) = (0 \<le> n)"
| "usage_count_ok _ = False"

abbreviation plan_invalid :: "store_error + 'a" where
  "plan_invalid \<equiv> Inl (DomainError ''job_result_plan_invalid'' INTERNAL)"

text \<open>
  \<open>d\<close> is the entry of the documents that repeats the plan's own primary fields.
\<close>

definition is_primary :: "('b) video_result_plan_scheme \<Rightarrow> video_produced_document \<Rightarrow> bool" where
  "is_primary plan d \<longleftrightarrow>
     draft_artifact_id d = primary_draft_artifact_id plan
     \<and> d_quality_report_artifact_id d = quality_report_artifact_id plan
     \<and> d_quality_overall d = quality_overall plan
     \<and> d_publish_eligible d = publish_eligible plan"

definition validate_result_plan :: "video_result_plan \<Rightarrow> store_error + unit" where
  "validate_result_plan plan =
    (if \<not> is_typed_uuid7 (v_job_id plan) ''job''
        \<or> \<not> is_typed_uuid7 (run_id plan) ''run''
        \<or> \<not> is_typed_uuid7 (bundle_id plan) ''bnd''
        \<or> \<not> is_sha256_digest (v_manifest_sha256 plan)
        \<or> \<not> is_typed_uuid7 (v_source_id plan) ''src''
        \<or> \<not> is_typed_uuid7 (source_revision_id plan) ''rev''
        \<or> list_ex (\<lambda>v. \<not> is_typed_uuid7 v ''art'')
            ([primary_draft_artifact_id plan, transcript_artifact_id plan, evidence_set_artifact_id plan,
              quality_report_artifact_id plan] @ display_asset_ids plan)
        \<or> \<not> distinct (display_asset_ids plan)
        \<or> \<not> distinct (map document_kind (documents plan))
        \<or> (documents plan \<noteq> [] \<and> \<not> list_ex (is_primary plan) (documents plan))
        \<or> list_ex blank (warnings plan)
        \<or> list_ex (\<lambda>(k, _). \<not> List.member RESULT_USAGE_FIELDS k) (usage plan)
        \<or> list_ex (\<lambda>(_, v). \<not> usage_count_ok v) (usage plan)
     then plan_invalid else Inr ())"

definition validate_result_plan_binding ::
    "string \<Rightarrow> video_result_plan \<Rightarrow> source_identity_binding \<Rightarrow> store_error + unit" where
  "validate_result_plan_binding jid plan b =
    (if blank (connector_id b) \<or> blank (canonical_identity b)
        \<or> \<not> is_typed_uuid7 (source_id b) ''src''
        \<or> \<not> is_typed_uuid7 (owning_bundle_id b) ''bnd''
        \<or> \<not> is_sha256_digest (manifest_sha256 b)
        \<or> v_job_id plan \<noteq> jid
        \<or> v_source_id plan \<noteq> source_id b
        \<or> bundle_id plan \<noteq> owning_bundle_id b
        \<or> v_manifest_sha256 plan \<noteq> manifest_sha256 b
     then plan_invalid else Inr ())"

abbreviation document_invalid :: "store_error + 'a" where
  "document_invalid \<equiv> Inl (DomainError ''video_result_document_invalid'' INTERNAL)"

text \<open>The checks of \<open>VideoProduceResult.__post_init__\<close>.\<close>

definition video_produce_result_init :: "video_produce_result \<Rightarrow> store_error + video_produce_result" where
  "video_produce_result_init r =
    (if \<not> distinct (map document_kind (documents r))
        \<or> \<not> distinct (map draft_artifact_id (documents r))
        \<or> \<not> distinct (map d_quality_report_artifact_id (documents r))
     then document_invalid
     else if documents r \<noteq> [] then
       (case fetchone (\<lambda>d. draft_artifact_id d = primary_draft_artifact_id r) (documents r) of
          None \<Rightarrow> document_invalid
        | Some d \<Rightarrow> if is_primary r d then Inr r else document_invalid)
     else Inr r)"

definition receipt_matches :: "portable_commit_receipt \<Rightarrow> string \<Rightarrow> string \<Rightarrow> bool" where
  "receipt_matches receipt bundle manifest \<longleftrightarrow>
     r_bundle_id receipt = bundle \<and> r_manifest_sha256 receipt = manifest
     \<and> is_sha256_digest (commit_sha256 receipt) \<and> workspace_relative_bundle_path receipt \<noteq> []"

definition result_from_plan_receipt ::
    "video_result_plan \<Rightarrow> portable_commit_receipt \<Rightarrow> store_error + video_produce_result" where
  "result_from_plan_receipt plan receipt =
    (if \<not> receipt_matches receipt (bundle_id plan) (v_manifest_sha256 plan)
     then Inl (DomainError ''portable_commit_receipt_invalid'' INTERNAL)
     else video_produce_result_init
       (video_result_plan.extend plan (video_produce_result.fields (commit_sha256 receipt)
          (workspace_relative_bundle_path receipt) (idempotent receipt))))"

section \<open>Recipe results\<close>

definition validate_recipe_result_plan ::
    "string \<Rightarrow> recipe_result_plan \<Rightarrow> source_identity_binding \<Rightarrow> store_error + unit" where
  "validate_recipe_result_plan jid plan b =
    (if blank (result_kind plan)
        \<or> p_job_id plan \<noteq> jid
        \<or> \<not> is_typed_uuid7 (p_job_id plan) ''job''
        \<or> \<not> is_typed_uuid7 (p_run_id plan) ''run''
        \<or> \<not> is_typed_uuid7 (p_bundle_id plan) ''bnd''
        \<or> \<not> is_sha256_digest (p_manifest_sha256 plan)
        \<or> \<not> is_typed_uuid7 (p_source_id plan) ''src''
        \<or> \<not> is_typed_uuid7 (p_source_revision_id plan) ''rev''
        \<or> artifacts plan = []
        \<or> list_ex (\<lambda>(role, a). blank role \<or> \<not> is_typed_uuid7 a ''art'') (artifacts plan)
        \<or> \<not> distinct (map snd (artifacts plan))
        \<or> blank (p_quality_overall plan)
        \<or> list_ex blank (p_warnings plan)
        \<or> blank (connector_id b) \<or> blank (canonical_identity b)
        \<or> p_source_id plan \<noteq> source_id b
        \<or> p_bundle_id plan \<noteq> owning_bundle_id b
        \<or> p_manifest_sha256 plan \<noteq> manifest_sha256 b
     then plan_invalid else Inr ())"

fun usage_value_ok :: "usage_value \<Rightarrow> bool" where
  "usage_value_ok (UBool _) = False"
| "usage_value_ok _ = True"

text \<open>The checks of \<open>RecipeProduceResult.__post_init__\<close>.\<close>

definition recipe_produce_result_init :: "recipe_produce_result \<Rightarrow> store_error + recipe_produce_result" where
  "recipe_produce_result_init r =
    (if result_schema_version r \<noteq> 1
        \<or> blank (result_kind r)
        \<or> \<not> is_typed_uuid7 (p_job_id r) ''job''
        \<or> \<not> is_typed_uuid7 (p_run_id r) ''run''
        \<or> \<not> is_typed_uuid7 (p_bundle_id r) ''bnd''
        \<or> \<not> is_sha256_digest (p_manifest_sha256 r)
        \<or> \<not> is_sha256_digest (p_commit_sha256 r)
        \<or> blank (p_bundle_path r)
        \<or> \<not> is_typed_uuid7 (p_source_id r) ''src''
        \<or> \<not> is_typed_uuid7 (p_source_revision_id r) ''rev''
        \<or> artifacts r = []
        \<or> list_ex (\<lambda>(role, a). blank role \<or> \<not> is_typed_uuid7 a ''art'') (artifacts r)
        \<or> blank (p_quality_overall r)
        \<or> list_ex (\<lambda>(k, v). blank k \<or> \<not> usage_value_ok v) (p_usage r)
        \<or> list_ex blank (p_warnings r)
     then Inl (DomainError ''job_result_invalid'' INTERNAL) else Inr r)"

definition recipe_result_from_plan_receipt ::
    "recipe_result_plan \<Rightarrow> portable_commit_receipt \<Rightarrow> store_error + recipe_produce_result" where
  "recipe_result_from_plan_receipt plan receipt =
    (if \<not> receipt_matches receipt (p_bundle_id plan) (p_manifest_sha256 plan)
     then Inl (DomainError ''portable_commit_receipt_invalid'' INTERNAL)
     else recipe_produce_result_init
       (recipe_result_plan.extend plan (recipe_produce_result.fields 1 (commit_sha256 receipt)
          (workspace_relative_bundle_path receipt) (idempotent receipt))))"

section \<open>Facts\<close>

lemma validate_result_plan_Inr [result_simps]:
  "validate_result_plan plan = Inr u \<Longrightarrow>
     distinct (map document_kind (documents plan)) \<and> (documents plan = [] \<or> list_ex (is_primary plan) (documents plan))"
  by (auto simp: validate_result_plan_def split: if_splits)

lemma result_from_plan_receipt_fields:
  assumes "result_from_plan_receipt plan receipt = Inr r"
  shows "video_result_plan.truncate r = plan \<and> v_commit_sha256 r = commit_sha256 receipt
         \<and> v_idempotent r = idempotent receipt \<and> receipt_matches receipt (bundle_id plan) (v_manifest_sha256 plan)"
  using assms
  by (auto simp: result_from_plan_receipt_def video_produce_result_init_def video_result_plan.defs
      video_produce_result.defs split: if_splits option.splits)

lemma recipe_result_from_plan_receipt_fields:
  assumes "recipe_result_from_plan_receipt plan receipt = Inr r"
  shows "recipe_result_plan.truncate r = plan \<and> p_commit_sha256 r = commit_sha256 receipt
         \<and> p_idempotent r = idempotent receipt \<and> receipt_matches receipt (p_bundle_id plan) (p_manifest_sha256 plan)"
  using assms
  by (auto simp: recipe_result_from_plan_receipt_def recipe_produce_result_init_def recipe_result_plan.defs
      recipe_produce_result.defs split: if_splits)

end
