(* ===== verification/SensitiveIdentifiers.thy ===== *)
theory SensitiveIdentifiers
  imports Prelude
begin

text \<open>
  The recogniser of secret-bearing field names, \<open>core/sensitive_identifiers.py\<close>. The two regular
  expressions are written out as scanners: \<open>segments\<close> are the maximal runs of ASCII letters and digits,
  \<open>tokens_of\<close> splits such a run at case changes and at digits.
\<close>

definition is_upper :: "char \<Rightarrow> bool" where
  "is_upper c = (let n = of_char c :: nat in 65 \<le> n \<and> n \<le> 90)"

definition is_lower :: "char \<Rightarrow> bool" where
  "is_lower c = (let n = of_char c :: nat in 97 \<le> n \<and> n \<le> 122)"

definition segment_char :: "char \<Rightarrow> bool" where
  "segment_char c = (is_upper c \<or> is_lower c \<or> py_digit c)"

text \<open>
  \<open>str.casefold\<close> and \<open>str.isalnum\<close> on the Latin-1 range. The micro sign, whose folded form lies outside
  the range, is left as it is; neither form can occur in a name of the tables.
\<close>

definition fold_char :: "char \<Rightarrow> string" where
  "fold_char c = (let n = of_char c :: nat in
     if is_upper c then [char_of (n + 32)]
     else if n = 223 then ''ss''
     else if 192 \<le> n \<and> n \<le> 222 \<and> n \<noteq> 215 then [char_of (n + 32)]
     else [c])"

definition casefold :: "string \<Rightarrow> string" where
  "casefold s = concat (map fold_char s)"

definition is_alnum :: "char \<Rightarrow> bool" where
  "is_alnum c = (let n = of_char c :: nat in
     segment_char c \<or> n \<in> {170, 178, 179, 181, 185, 186, 188, 189, 190}
     \<or> (192 \<le> n \<and> n \<noteq> 215 \<and> n \<noteq> 247))"

section \<open>Tables\<close>

definition SENSITIVE_FIELD_NAMES :: "string list" where
  "SENSITIVE_FIELD_NAMES =
    [''accesstoken'', ''apikey'', ''authtoken'', ''authorization'', ''cookie'', ''password'',
     ''refreshtoken'', ''secret'', ''setcookie'', ''token'', ''xapikey'']"

definition SENSITIVE_TOKENS :: "string list" where
  "SENSITIVE_TOKENS =
    [''authorization'', ''bearer'', ''cookie'', ''passwd'', ''password'', ''secret'', ''token'']"

definition KEY_QUALIFIERS :: "string list" where
  "KEY_QUALIFIERS = [''access'', ''api'', ''client'', ''encryption'', ''private'', ''signing'']"

section \<open>Scanners\<close>

function segments :: "string \<Rightarrow> string list" where
  "segments s =
    (let s' = dropWhile (\<lambda>c. \<not> segment_char c) s in
     if s' = [] then [] else takeWhile segment_char s' # segments (dropWhile segment_char s'))"
  by pat_completeness auto
termination
proof (relation "measure length")
  fix s s' :: string
  assume s': "s' = dropWhile (\<lambda>c. \<not> segment_char c) s" and ne: "s' \<noteq> []"
  have "segment_char (hd s')" using s' ne hd_dropWhile by metis
  then have "length (dropWhile segment_char s') < length s'"
    using ne by (cases s') (auto intro: le_imp_less_Suc length_dropWhile_le)
  also have "\<dots> \<le> length s" by (simp add: s' length_dropWhile_le)
  finally show "(dropWhile segment_char s', s) \<in> measure length" by simp
qed simp

declare segments.simps [simp del]

text \<open>
  One match of \<open>[A-Z]+(?=[A-Z][a-z]|\d|$)|[A-Z]?[a-z]+|\d+\<close> at the head of a segment: a run of capitals
  up to a digit or the end is taken whole, up to a lower-case letter it leaves its last capital to the
  next token, unless it is that capital alone.
\<close>

definition next_token :: "string \<Rightarrow> string \<times> string" where
  "next_token s =
    (if s = [] then ([], [])
     else if is_upper (hd s) then
       (let run = takeWhile is_upper s; after = dropWhile is_upper s in
        if after = [] \<or> \<not> is_lower (hd after) then (run, after)
        else if length run = 1 then (run @ takeWhile is_lower after, dropWhile is_lower after)
        else (butlast run, last run # after))
     else if is_lower (hd s) then (takeWhile is_lower s, dropWhile is_lower s)
     else (takeWhile py_digit s, dropWhile py_digit s))"

lemma takeWhile_hd: "s \<noteq> [] \<Longrightarrow> P (hd s) \<Longrightarrow> takeWhile P s \<noteq> []"
  by (cases s) auto

lemma next_token_append: "fst (next_token s) @ snd (next_token s) = s"
proof -
  have keep: "butlast (takeWhile is_upper s) @ last (takeWhile is_upper s) # dropWhile is_upper s = s"
    if "s \<noteq> []" "is_upper (hd s)"
    using takeWhile_hd [of s is_upper] that
    by (metis append.assoc append_Cons append_Nil append_butlast_last_id takeWhile_dropWhile_id)
  show ?thesis
    by (simp add: next_token_def Let_def keep del: takeWhile_eq_Nil_iff dropWhile_eq_Nil_conv)
qed

lemma next_token_ne:
  assumes "s \<noteq> []" and "list_all segment_char s"
  shows "fst (next_token s) \<noteq> []"
proof -
  have "is_upper (hd s) \<or> is_lower (hd s) \<or> py_digit (hd s)"
    using assms by (cases s) (simp_all add: segment_char_def)
  moreover have "butlast (takeWhile is_upper s) \<noteq> []"
    if "is_upper (hd s)" "length (takeWhile is_upper s) \<noteq> Suc 0"
    using takeWhile_hd [of s is_upper] that assms(1)
    by (cases "takeWhile is_upper s" rule: rev_cases) auto
  ultimately show ?thesis
    using assms(1) takeWhile_hd [of s]
    by (simp add: next_token_def Let_def del: takeWhile_eq_Nil_iff dropWhile_eq_Nil_conv) blast
qed

function tokens_of :: "string \<Rightarrow> string list" where
  "tokens_of s =
    (if s = [] \<or> fst (next_token s) = [] then []
     else fst (next_token s) # tokens_of (snd (next_token s)))"
  by pat_completeness auto
termination
proof (relation "measure length")
  fix s :: string
  assume "\<not> (s = [] \<or> fst (next_token s) = [])"
  moreover have "length s = length (fst (next_token s)) + length (snd (next_token s))"
    by (metis length_append next_token_append)
  ultimately show "(snd (next_token s), s) \<in> measure length" by simp
qed simp

declare tokens_of.simps [simp del]

definition identifier_tokens :: "string \<Rightarrow> string list" where
  "identifier_tokens s = map casefold (concat (map tokens_of (segments s)))"

definition is_sensitive_identifier :: "string \<Rightarrow> bool" where
  "is_sensitive_identifier s =
    (let normalized = filter is_alnum (casefold s); tokens = identifier_tokens s in
     List.member SENSITIVE_FIELD_NAMES normalized
     \<or> list_ex (List.member SENSITIVE_TOKENS) tokens
     \<or> (List.member tokens ''key'' \<and> list_ex (List.member KEY_QUALIFIERS) tokens))"

section \<open>The scanners lose nothing\<close>

lemma next_token_all:
  "list_all P s \<Longrightarrow> list_all P (snd (next_token s))"
  by (metis list_all_append next_token_append)

lemma concat_tokens_of: "list_all segment_char s \<Longrightarrow> concat (tokens_of s) = s"
proof (induction s rule: tokens_of.induct)
  case (1 s)
  show ?case
  proof (cases "s = []")
    case False
    then have ne: "fst (next_token s) \<noteq> []" using "1.prems" by (rule next_token_ne)
    then have "concat (tokens_of (snd (next_token s))) = snd (next_token s)"
      using False "1.prems" by (intro "1.IH") (simp_all add: next_token_all)
    then show ?thesis
      using False ne by (subst tokens_of.simps) (simp add: next_token_append)
  qed (simp add: tokens_of.simps)
qed

lemma segments_unfold:
  "dropWhile (\<lambda>c. \<not> segment_char c) s = [] \<Longrightarrow> segments s = []"
  "dropWhile (\<lambda>c. \<not> segment_char c) s = s' \<Longrightarrow> s' \<noteq> [] \<Longrightarrow>
     segments s = takeWhile segment_char s' # segments (dropWhile segment_char s')"
  by (subst segments.simps, simp add: Let_def)+

lemma segments_all: "seg \<in> set (segments s) \<Longrightarrow> seg \<noteq> [] \<and> list_all segment_char seg"
proof (induction s rule: segments.induct)
  case (1 s)
  define s' where "s' = dropWhile (\<lambda>c. \<not> segment_char c) s"
  have ne: "s' \<noteq> []" using "1.prems" segments_unfold(1) [of s] unfolding s'_def by force
  consider "seg = takeWhile segment_char s'" | "seg \<in> set (segments (dropWhile segment_char s'))"
    using "1.prems" segments_unfold(2) [OF s'_def [symmetric] ne] by auto
  then show ?case
  proof cases
    case 1
    have "segment_char (hd s')" using ne hd_dropWhile unfolding s'_def by metis
    then show ?thesis using ne 1 by (auto simp: list_all_iff takeWhile_hd dest: set_takeWhileD)
  next
    case 2
    then show ?thesis using "1.IH" [OF s'_def ne] by blast
  qed
qed

lemma concat_segments: "concat (segments s) = filter segment_char s"
proof (induction s rule: segments.induct)
  case (1 s)
  define s' where "s' = dropWhile (\<lambda>c. \<not> segment_char c) s"
  have skip: "filter segment_char s = filter segment_char s'"
    unfolding s'_def by (induction s) auto
  have run: "filter segment_char t = takeWhile segment_char t @ filter segment_char (dropWhile segment_char t)" for t
    by (induction t) auto
  show ?case
  proof (cases "s' = []")
    case True
    then show ?thesis using skip segments_unfold(1) [of s] by (simp add: s'_def)
  next
    case False
    then show ?thesis
      using "1.IH" [OF s'_def False] skip run [of s'] segments_unfold(2) [OF s'_def [symmetric] False]
      by simp
  qed
qed

lemma concat_identifier_tokens:
  "concat (concat (map tokens_of (segments s))) = filter segment_char s"
proof -
  have "concat (concat (map tokens_of segs)) = concat segs" if "\<forall>seg \<in> set segs. list_all segment_char seg" for segs
    using that by (induction segs) (simp_all add: concat_tokens_of)
  then show ?thesis using segments_all by (simp add: concat_segments)
qed

end
