(* ===== verification/JsonText.thy ===== *)
theory JsonText
  imports SensitiveIdentifiers
begin

text \<open>
  JSON text as the program writes it: \<open>json.dumps\<close> with sorted keys, compact separators and
  \<open>ensure_ascii=False\<close> (\<open>dumps\<close>) or not (\<open>dumps_ascii\<close>), and \<open>json.loads\<close> back. A finite float is carried with its \<open>repr\<close>; reading one
  takes the argument \<open>fr\<close>, which maps the text of a number with a fraction or an exponent to the \<open>repr\<close>
  of the float it denotes (\<open>None\<close> when that is not finite). \<open>NaN\<close> and \<open>Infinity\<close> are refused, as the
  callers' \<open>parse_constant\<close> does. A \<open>\u\<close> escape beyond the text range reads as no value.
\<close>

datatype json =
  JNull | JBool bool | JInt int | JFloat string | JStr string
| JList "json list" | JObj "(string \<times> json) list"

section \<open>Writing\<close>

fun dec_nat :: "nat \<Rightarrow> string" where
  "dec_nat n = (if n < 10 then [char_of (48 + n)] else dec_nat (n div 10) @ [char_of (48 + n mod 10)])"

declare dec_nat.simps [simp del]

definition dec_int :: "int \<Rightarrow> string" where
  "dec_int i = (if i < 0 then ''-'' @ dec_nat (nat (- i)) else dec_nat (nat i))"

definition hex_lower :: "nat \<Rightarrow> char" where
  "hex_lower k = (if k < 10 then char_of (48 + k) else char_of (87 + k))"

definition hex4_lower :: "nat \<Rightarrow> string" where
  "hex4_lower n = [CHR ''0'', CHR ''0'', hex_lower (n div 16), hex_lower (n mod 16)]"

definition escape_char :: "char \<Rightarrow> string" where
  "escape_char c = (let n = of_char c :: nat in
     if n = 34 then [char_of (92 :: nat), char_of (34 :: nat)]
     else if n = 92 then [char_of (92 :: nat), char_of (92 :: nat)]
     else if n = 8 then [char_of (92 :: nat), CHR ''b'']
     else if n = 9 then [char_of (92 :: nat), CHR ''t'']
     else if n = 10 then [char_of (92 :: nat), CHR ''n'']
     else if n = 12 then [char_of (92 :: nat), CHR ''f'']
     else if n = 13 then [char_of (92 :: nat), CHR ''r'']
     else if n < 32 then [char_of (92 :: nat), CHR ''u''] @ hex4_lower n
     else [c])"

text \<open>With \<open>ensure_ascii\<close> everything outside the printable ASCII range is escaped as well.\<close>

definition ascii_escape_char :: "char \<Rightarrow> string" where
  "ascii_escape_char c = (let n = of_char c :: nat in
     if 127 \<le> n then [char_of (92 :: nat), CHR ''u''] @ hex4_lower n else escape_char c)"

definition quote :: char where
  "quote = char_of (34 :: nat)"

definition str_with :: "(char \<Rightarrow> string) \<Rightarrow> string \<Rightarrow> string" where
  "str_with esc s = [quote] @ concat (map esc s) @ [quote]"

fun join :: "string list \<Rightarrow> string" where
  "join [] = []"
| "join [x] = x"
| "join (x # y # ys) = x @ '','' @ join (y # ys)"

fun dumps_with :: "(char \<Rightarrow> string) \<Rightarrow> json \<Rightarrow> string" where
  "dumps_with esc JNull = ''null''"
| "dumps_with esc (JBool b) = (if b then ''true'' else ''false'')"
| "dumps_with esc (JInt i) = dec_int i"
| "dumps_with esc (JFloat r) = r"
| "dumps_with esc (JStr s) = str_with esc s"
| "dumps_with esc (JList vs) = ''['' @ join (map (dumps_with esc) vs) @ '']''"
| "dumps_with esc (JObj kvs) =
     ''{'' @ join (map snd (sort_key fst (map (\<lambda>(k, v). (k, str_with esc k @ '':'' @ dumps_with esc v)) kvs))) @ ''}''"

abbreviation dumps :: "json \<Rightarrow> string" where
  "dumps \<equiv> dumps_with escape_char"

abbreviation dumps_ascii :: "json \<Rightarrow> string" where
  "dumps_ascii \<equiv> dumps_with ascii_escape_char"

section \<open>Reading\<close>

definition json_ws :: "char \<Rightarrow> bool" where
  "json_ws c \<longleftrightarrow> (of_char c :: nat) \<in> {9, 10, 13, 32}"

definition skip_ws :: "string \<Rightarrow> string" where
  "skip_ws s = dropWhile json_ws s"

definition strip_lit :: "string \<Rightarrow> string \<Rightarrow> string option" where
  "strip_lit p s = (if take (length p) s = p then Some (drop (length p) s) else None)"

definition hex_value :: "char \<Rightarrow> nat option" where
  "hex_value c = (let n = of_char c :: nat in
     if 48 \<le> n \<and> n \<le> 57 then Some (n - 48)
     else if 97 \<le> n \<and> n \<le> 102 then Some (n - 87)
     else if 65 \<le> n \<and> n \<le> 70 then Some (n - 55) else None)"

definition unescape :: "char \<Rightarrow> char option" where
  "unescape c = (let n = of_char c :: nat in
     if n = 34 \<or> n = 92 \<or> n = 47 then Some c
     else if c = CHR ''b'' then Some (char_of (8 :: nat))
     else if c = CHR ''t'' then Some (char_of (9 :: nat))
     else if c = CHR ''n'' then Some (char_of (10 :: nat))
     else if c = CHR ''f'' then Some (char_of (12 :: nat))
     else if c = CHR ''r'' then Some (char_of (13 :: nat)) else None)"

definition unicode_escape :: "char \<Rightarrow> char \<Rightarrow> char \<Rightarrow> char \<Rightarrow> char option" where
  "unicode_escape a b c d =
    (case (hex_value a, hex_value b, hex_value c, hex_value d) of
       (Some 0, Some 0, Some x, Some y) \<Rightarrow> Some (char_of (16 * x + y))
     | _ \<Rightarrow> None)"

text \<open>The rest of a string after its opening quote: the text and what follows the closing quote.\<close>

fun read_str :: "string \<Rightarrow> (string \<times> string) option" where
  "read_str [] = None"
| "read_str (x # xs) =
    (if x = quote then Some ([], xs)
     else if of_char x < (32 :: nat) then None
     else if of_char x \<noteq> (92 :: nat) then map_option (apfst ((#) x)) (read_str xs)
     else (case xs of
             [] \<Rightarrow> None
           | y # ys \<Rightarrow>
               if y = CHR ''u'' then
                 (case ys of
                    a # b # c # d # rest \<Rightarrow>
                      (case unicode_escape a b c d of
                         None \<Rightarrow> None
                       | Some z \<Rightarrow> map_option (apfst ((#) z)) (read_str rest))
                  | _ \<Rightarrow> None)
               else (case unescape y of
                       None \<Rightarrow> None
                     | Some z \<Rightarrow> map_option (apfst ((#) z)) (read_str ys))))"

fun nat_of_digits :: "nat \<Rightarrow> string \<Rightarrow> nat" where
  "nat_of_digits acc [] = acc"
| "nat_of_digits acc (c # cs) = nat_of_digits (10 * acc + (of_char c - 48)) cs"

text \<open>
  A number: an optional minus, digits with no leading zero, then an optional fraction and exponent.
\<close>

definition read_number :: "(string \<Rightarrow> string option) \<Rightarrow> string \<Rightarrow> (json \<times> string) option" where
  "read_number fr s =
    (let neg = (take 1 s = ''-''); s1 = (if neg then drop 1 s else s);
         digits = (if take 1 s1 = ''0'' then ''0'' else takeWhile py_digit s1);
         s2 = drop (length digits) s1;
         frac = (if take 1 s2 = ''.'' \<and> takeWhile py_digit (drop 1 s2) \<noteq> []
                 then ''.'' @ takeWhile py_digit (drop 1 s2) else []);
         s3 = drop (length frac) s2;
         sign = (if take 1 (drop 1 s3) = ''-'' \<or> take 1 (drop 1 s3) = ''+'' then take 1 (drop 1 s3) else []);
         expd = takeWhile py_digit (drop (1 + length sign) s3);
         expo = (if (take 1 s3 = ''e'' \<or> take 1 s3 = ''E'') \<and> expd \<noteq> [] then take 1 s3 @ sign @ expd else []);
         rest = drop (length expo) s3;
         minus = (if neg then ''-'' else [])
     in if digits = [] then None
        else if frac = [] \<and> expo = [] then
          Some (JInt ((if neg then -1 else 1) * int (nat_of_digits 0 digits)), rest)
        else (case fr (minus @ digits @ frac @ expo) of None \<Rightarrow> None | Some r \<Rightarrow> Some (JFloat r, rest)))"

text \<open>A repeated key overwrites the value of the first, which keeps its place.\<close>

fun dict_set :: "string \<Rightarrow> json \<Rightarrow> (string \<times> json) list \<Rightarrow> (string \<times> json) list" where
  "dict_set k v [] = [(k, v)]"
| "dict_set k v ((k', v') # kvs) = (if k' = k then (k, v) # kvs else (k', v') # dict_set k v kvs)"

text \<open>
  What an object's next pair makes of the pairs before it: \<open>last_wins\<close> is the dictionary Python builds, \<open>unique_keys\<close> the
  \<open>object_pairs_hook\<close> that refuses a repeated key.
\<close>

type_synonym pair_hook = "string \<Rightarrow> json \<Rightarrow> (string \<times> json) list \<Rightarrow> (string \<times> json) list option"

definition last_wins :: pair_hook where
  "last_wins k v acc = Some (dict_set k v acc)"

definition unique_keys :: pair_hook where
  "unique_keys k v acc = (if k \<in> fst ` set acc then None else Some (acc @ [(k, v)]))"

text \<open>
  The recursive descent; \<open>n\<close> bounds its depth and length, and \<open>loads_with\<close> starts it with twice the text's length,
  each step but the one from a value to its first element consuming a character.
\<close>

fun read_value :: "pair_hook \<Rightarrow> (string \<Rightarrow> string option) \<Rightarrow> nat \<Rightarrow> string \<Rightarrow> (json \<times> string) option"
and read_elems :: "pair_hook \<Rightarrow> (string \<Rightarrow> string option) \<Rightarrow> nat \<Rightarrow> json list \<Rightarrow> string \<Rightarrow> (json \<times> string) option"
and read_members :: "pair_hook \<Rightarrow> (string \<Rightarrow> string option) \<Rightarrow> nat \<Rightarrow> (string \<times> json) list \<Rightarrow> string \<Rightarrow> (json \<times> string) option"
where
  "read_value put fr 0 s = None"
| "read_value put fr (Suc n) s =
    (case s of
       [] \<Rightarrow> None
     | c # cs \<Rightarrow>
         if c = quote then map_option (apfst JStr) (read_str cs)
         else if c = CHR ''{'' then
           (case skip_ws cs of
              [] \<Rightarrow> None
            | d # ds \<Rightarrow> if d = CHR ''}'' then Some (JObj [], ds) else read_members put fr n [] (d # ds))
         else if c = CHR ''['' then
           (case skip_ws cs of
              [] \<Rightarrow> None
            | d # ds \<Rightarrow> if d = CHR '']'' then Some (JList [], ds) else read_elems put fr n [] (d # ds))
         else (case strip_lit ''null'' s of
                 Some rest \<Rightarrow> Some (JNull, rest)
               | None \<Rightarrow> (case strip_lit ''true'' s of
                   Some rest \<Rightarrow> Some (JBool True, rest)
                 | None \<Rightarrow> (case strip_lit ''false'' s of
                     Some rest \<Rightarrow> Some (JBool False, rest)
                   | None \<Rightarrow> read_number fr s))))"
| "read_elems put fr 0 acc s = None"
| "read_elems put fr (Suc n) acc s =
    (case read_value put fr n s of
       None \<Rightarrow> None
     | Some (v, s') \<Rightarrow>
         (case skip_ws s' of
            [] \<Rightarrow> None
          | d # ds \<Rightarrow> if d = CHR '']'' then Some (JList (acc @ [v]), ds)
                      else if d = CHR '','' then read_elems put fr n (acc @ [v]) (skip_ws ds)
                      else None))"
| "read_members put fr 0 acc s = None"
| "read_members put fr (Suc n) acc s =
    (if take 1 s \<noteq> [quote] then None else
     case read_str (drop 1 s) of
       None \<Rightarrow> None
     | Some (k, s1) \<Rightarrow>
         (case skip_ws s1 of
            [] \<Rightarrow> None
          | e # es \<Rightarrow>
              if e \<noteq> CHR '':'' then None else
              (case read_value put fr n (skip_ws es) of
                 None \<Rightarrow> None
               | Some (v, s') \<Rightarrow>
                   (case put k v acc of
                      None \<Rightarrow> None
                    | Some kvs \<Rightarrow>
                        (case skip_ws s' of
                           [] \<Rightarrow> None
                         | d # ds \<Rightarrow> if d = CHR ''}'' then Some (JObj kvs, ds)
                                     else if d = CHR '','' then read_members put fr n kvs (skip_ws ds)
                                     else None)))))"

definition loads_with :: "pair_hook \<Rightarrow> (string \<Rightarrow> string option) \<Rightarrow> string \<Rightarrow> json option" where
  "loads_with put fr s =
    (case read_value put fr (2 * length s) (skip_ws s) of
       None \<Rightarrow> None
     | Some (v, rest) \<Rightarrow> if skip_ws rest = [] then Some v else None)"

abbreviation loads :: "(string \<Rightarrow> string option) \<Rightarrow> string \<Rightarrow> json option" where
  "loads \<equiv> loads_with last_wins"

section \<open>Safe canonical values\<close>

fun safe_json_fields :: "json \<Rightarrow> bool" where
  "safe_json_fields (JObj kvs) = (\<forall>(k, v) \<in> set kvs. \<not> is_sensitive_identifier k \<and> safe_json_fields v)"
| "safe_json_fields (JList vs) = (\<forall>v \<in> set vs. safe_json_fields v)"
| "safe_json_fields _ = True"

definition safe_canonical :: "(string \<Rightarrow> string option) \<Rightarrow> string \<Rightarrow> json option" where
  "safe_canonical fr s =
    (case loads fr s of
       None \<Rightarrow> None
     | Some v \<Rightarrow> if safe_json_fields v \<and> dumps v = s then Some v else None)"

end
