(* ===== verification/JobTables.thy ===== *)
theory JobTables
  imports JobResults JsonText
begin

text \<open>
  The tables of the workspace job store and the connection-level helpers of
  \<open>adapters/jobs/sqlite_repository.py\<close>. A table is the list of its rows in rowid order. What a transaction
  draws from outside the database is in an \<open>env\<close>: the clock in milliseconds, the wall-clock text (one
  reading per transaction), and the identifiers \<open>new_typed_id\<close> mints (the one drawn for a table that holds
  \<open>n\<close> rows is \<open>new_id e pre n\<close>, so that every insertion draws its own), the library's \<open>float\<close> text and SHA-256. SQLite's constraints are checks
  of the insertions: a violated one is an \<open>IntegrityError\<close> and no new store.
\<close>

named_theorems store_simps \<open>reading a store after a helper\<close>

section \<open>Errors as they are stored\<close>

record error_detail =
  code :: string
  category :: error_category
  message :: string
  details :: "(string \<times> json) list"

definition encode_error :: "error_detail \<Rightarrow> store_error + string" where
  "encode_error d =
    (if code d = [] \<or> message d = [] \<or> \<not> safe_json_fields (JObj (details d))
     then invalid ''job_error_invalid''
     else Inr (dumps (JObj
       [(''code'', JStr (code d)), (''category'', JStr (error_category_value (category d))),
        (''message'', JStr (message d)), (''details'', JObj (details d))])))"

definition decode_error :: "(string \<Rightarrow> string option) \<Rightarrow> string \<Rightarrow> store_error + error_detail" where
  "decode_error fr payload =
    (case loads fr payload of
       Some (JObj kvs) \<Rightarrow>
         (case (map_of kvs ''code'', map_of kvs ''category'', map_of kvs ''message'', map_of kvs ''details'') of
            (Some (JStr c), Some (JStr cat), Some (JStr m), Some (JObj ds)) \<Rightarrow>
              (case error_category_of cat of
                 Some k \<Rightarrow> Inr \<lparr>code = c, category = k, message = m, details = ds\<rparr>
               | None \<Rightarrow> Inl (DomainError ''job_error_invalid'' INTERNAL))
          | _ \<Rightarrow> Inl (DomainError ''job_error_invalid'' INTERNAL))
     | _ \<Rightarrow> Inl (DomainError ''job_error_invalid'' INTERNAL))"

section \<open>The store\<close>

record env =
  clock :: int
  utc :: string
  new_id :: "string \<Rightarrow> nat \<Rightarrow> string"
  float_repr :: "string \<Rightarrow> string option"
  sha256_digest :: "string \<Rightarrow> string"

record job_row = job +
  request_json :: "string option"
  result :: "job_result option"
  error_json :: "string option"

record step_row =
  s_job_id :: string
  s_step_id :: string
  s_step_name :: string
  s_ordinal :: nat

record scheduler_lease =
  sl_owner :: string
  sl_token :: nat
  sl_expires_at :: int
  sl_heartbeat_at :: int

record job_lease =
  l_job_id :: string
  l_owner :: string
  generation :: nat
  l_expires_at :: int
  l_heartbeat_at :: int
  worker_launch_count :: nat

record source_row = source_identity_binding +
  src_updated_at :: string

record store =
  jobs :: "job_row list"
  steps :: "step_row list"
  attempts :: "attempt list"
  events :: "job_event list"
  challenges :: "challenge list"
  operations :: "external_operation list"
  checkpoints :: "checkpoint_metadata list"
  lease :: "scheduler_lease option"
  source_identities :: "source_row list"
  bindings :: "(string \<times> job_execution_binding) list"
  job_leases :: "job_lease list"

definition empty_store :: store where
  "empty_store = \<lparr>jobs = [], steps = [], attempts = [], events = [], challenges = [], operations = [],
     checkpoints = [], lease = None, source_identities = [], bindings = [], job_leases = []\<rparr>"

section \<open>Fetching one row\<close>

definition get_row :: "store \<Rightarrow> string \<Rightarrow> job_row option" where
  "get_row s jid = fetchone (\<lambda>r. job_id r = jid) (jobs s)"

definition job_from_row :: "job_row \<Rightarrow> job" where
  "job_from_row r = \<lparr>job_id = job_id r, request_hash = request_hash r, principal = principal r,
     client_request_id = client_request_id r, execution_owner = execution_owner r, state = state r,
     cancellation_requested = cancellation_requested r, retry_of_job_id = retry_of_job_id r,
     created_at = created_at r, updated_at = updated_at r\<rparr>"

definition get_job :: "store \<Rightarrow> string \<Rightarrow> store_error + job" where
  "get_job s jid = (case get_row s jid of None \<Rightarrow> invalid ''job_not_found'' | Some r \<Rightarrow> Inr (job_from_row r))"

definition get_attempt_row :: "store \<Rightarrow> string \<Rightarrow> attempt option" where
  "get_attempt_row s aid = fetchone (\<lambda>a. attempt_id a = aid) (attempts s)"

definition get_attempt :: "store \<Rightarrow> string \<Rightarrow> store_error + attempt" where
  "get_attempt s aid = (case get_attempt_row s aid of None \<Rightarrow> invalid ''attempt_not_found'' | Some a \<Rightarrow> Inr a)"

definition get_challenge_row :: "store \<Rightarrow> string \<Rightarrow> challenge option" where
  "get_challenge_row s cid = fetchone (\<lambda>c. challenge_id c = cid) (challenges s)"

definition get_challenge :: "store \<Rightarrow> string \<Rightarrow> store_error + challenge" where
  "get_challenge s cid =
    (case get_challenge_row s cid of None \<Rightarrow> invalid ''challenge_not_found'' | Some c \<Rightarrow> Inr c)"

definition get_operation_row :: "store \<Rightarrow> string \<Rightarrow> external_operation option" where
  "get_operation_row s oid = fetchone (\<lambda>x. operation_id x = oid) (operations s)"

definition get_external_operation :: "store \<Rightarrow> string \<Rightarrow> store_error + external_operation" where
  "get_external_operation s oid =
    (case get_operation_row s oid of None \<Rightarrow> invalid ''external_operation_not_found'' | Some x \<Rightarrow> Inr x)"

definition get_execution_binding :: "store \<Rightarrow> string \<Rightarrow> store_error + job_execution_binding" where
  "get_execution_binding s jid =
    (case map_of (bindings s) jid of
       None \<Rightarrow> Inl (DomainError ''job_execution_binding_missing'' WORKSPACE_INCOMPATIBLE)
     | Some b \<Rightarrow> if job_execution_binding_valid b then Inr b
                 else Inl (DomainError ''job_execution_binding_invalid'' WORKSPACE_INCOMPATIBLE))"

definition get_lease :: "store \<Rightarrow> string \<Rightarrow> job_lease option" where
  "get_lease s jid = fetchone (\<lambda>l. l_job_id l = jid) (job_leases s)"

section \<open>Updates\<close>

definition update_job :: "string \<Rightarrow> (job_row \<Rightarrow> job_row) \<Rightarrow> store \<Rightarrow> store" where
  "update_job jid f s = s\<lparr>jobs := sql_update (\<lambda>r. job_id r = jid) f (jobs s)\<rparr>"

definition update_attempt :: "string \<Rightarrow> (attempt \<Rightarrow> attempt) \<Rightarrow> store \<Rightarrow> store" where
  "update_attempt aid f s = s\<lparr>attempts := sql_update (\<lambda>a. attempt_id a = aid) f (attempts s)\<rparr>"

definition update_challenges :: "(challenge \<Rightarrow> bool) \<Rightarrow> (challenge \<Rightarrow> challenge) \<Rightarrow> store \<Rightarrow> store" where
  "update_challenges p f s = s\<lparr>challenges := sql_update p f (challenges s)\<rparr>"

definition update_operations ::
    "(external_operation \<Rightarrow> bool) \<Rightarrow> (external_operation \<Rightarrow> external_operation) \<Rightarrow> store \<Rightarrow> store" where
  "update_operations p f s = s\<lparr>operations := sql_update p f (operations s)\<rparr>"

definition update_leases :: "(job_lease \<Rightarrow> bool) \<Rightarrow> (job_lease \<Rightarrow> job_lease) \<Rightarrow> store \<Rightarrow> store" where
  "update_leases p f s = s\<lparr>job_leases := sql_update p f (job_leases s)\<rparr>"

definition clear_launches :: "string \<Rightarrow> store \<Rightarrow> store" where
  "clear_launches jid s = update_leases (\<lambda>l. l_job_id l = jid) (\<lambda>l. l\<lparr>worker_launch_count := 0\<rparr>) s"

definition set_job_state :: "env \<Rightarrow> string \<Rightarrow> job_state \<Rightarrow> store \<Rightarrow> store" where
  "set_job_state e jid st s = update_job jid (\<lambda>r. r\<lparr>state := st, updated_at := utc e\<rparr>) s"

definition set_attempt_state :: "env \<Rightarrow> string \<Rightarrow> attempt_state \<Rightarrow> store \<Rightarrow> store" where
  "set_attempt_state e aid st s = update_attempt aid (\<lambda>a. a\<lparr>a_state := st, a_updated_at := utc e\<rparr>) s"

definition set_attempt_running :: "env \<Rightarrow> string \<Rightarrow> nat \<Rightarrow> store \<Rightarrow> store" where
  "set_attempt_running e aid token s =
     update_attempt aid (\<lambda>a. a\<lparr>a_state := A_RUNNING, a_token := token, a_updated_at := utc e\<rparr>) s"

section \<open>Events\<close>

definition JOB_STATE_EVENT_TYPE :: string where
  "JOB_STATE_EVENT_TYPE = ''job.state.v1''"

definition JOB_CANCEL_REQUESTED_EVENT_TYPE :: string where
  "JOB_CANCEL_REQUESTED_EVENT_TYPE = ''job.cancel-requested.v1''"

definition STAGE_CHANGED_EVENT_TYPE :: string where
  "STAGE_CHANGED_EVENT_TYPE = ''stage.changed.v1''"

definition INTERNAL_JOB_EVENT_TYPES :: "string list" where
  "INTERNAL_JOB_EVENT_TYPES =
    [JOB_STATE_EVENT_TYPE, JOB_CANCEL_REQUESTED_EVENT_TYPE, STAGE_CHANGED_EVENT_TYPE]"

definition job_events :: "store \<Rightarrow> string \<Rightarrow> job_event list" where
  "job_events s jid = filter (\<lambda>v. e_job_id v = jid) (events s)"

text \<open>\<open>COALESCE(MAX(sequence), 0) + 1\<close>\<close>

definition next_sequence :: "store \<Rightarrow> string \<Rightarrow> nat" where
  "next_sequence s jid = Suc (foldr max (map sequence (job_events s jid)) 0)"

definition insert_event :: "env \<Rightarrow> string \<Rightarrow> string \<Rightarrow> string \<Rightarrow> store \<Rightarrow> store_error + (job_event \<times> store)" where
  "insert_event e jid ty payload s =
    (let v = \<lparr>event_id = new_id e ''evt'' (length (events s)), e_job_id = jid, sequence = next_sequence s jid,
              event_type = ty, payload_json = payload, e_created_at = utc e\<rparr>
     in if get_row s jid = None then Inl (IntegrityError ''events.job_id'')
        else if List.member (map event_id (events s)) (event_id v) then Inl (IntegrityError ''events.event_id'')
        else Inr (v, s\<lparr>events := events s @ [v]\<rparr>))"

definition job_state_payload :: "job_state \<Rightarrow> string" where
  "job_state_payload st = dumps (JObj [(''state'', JStr (job_state_value st))])"

definition insert_job_state_event :: "env \<Rightarrow> string \<Rightarrow> job_state \<Rightarrow> store \<Rightarrow> store_error + (job_event \<times> store)" where
  "insert_job_state_event e jid st s = insert_event e jid JOB_STATE_EVENT_TYPE (job_state_payload st) s"

definition stage_payload :: "attempt \<Rightarrow> string" where
  "stage_payload a = dumps (JObj
     [(''schema_version'', JInt 1), (''stage'', JStr (a_step_id a)), (''state'', JStr (attempt_state_value (a_state a))),
      (''attempt_id'', JStr (attempt_id a)), (''generation'', JInt (int (a_token a)))])"

definition insert_stage_changed_event :: "env \<Rightarrow> attempt \<Rightarrow> store \<Rightarrow> store_error + (job_event \<times> store)" where
  "insert_stage_changed_event e a s = insert_event e (a_job_id a) STAGE_CHANGED_EVENT_TYPE (stage_payload a) s"

text \<open>Reads the attempt back and announces it: the pair of calls after every attempt update.\<close>

definition announce_attempt :: "env \<Rightarrow> string \<Rightarrow> store \<Rightarrow> store_error + (attempt \<times> store)" where
  "announce_attempt e aid s =
     andthen (get_attempt s aid) (\<lambda>a.
     andthen (insert_stage_changed_event e a s) (\<lambda>(_, s'). Inr (a, s')))"

text \<open>\<open>[a-z][a-z0-9]*(?:[._-][a-z0-9]+)*\<close>\<close>

definition event_word_char :: "char \<Rightarrow> bool" where
  "event_word_char c = (is_lower c \<or> py_digit c)"

fun event_tail :: "bool \<Rightarrow> string \<Rightarrow> bool" where
  "event_tail after_word [] = after_word"
| "event_tail after_word (c # cs) =
    (if event_word_char c then event_tail True cs
     else after_word \<and> c \<in> set ''._-'' \<and> event_tail False cs)"

definition event_type_ok :: "string \<Rightarrow> bool" where
  "event_type_ok ty = (ty \<noteq> [] \<and> is_lower (hd ty) \<and> event_tail True (tl ty))"

definition validate_initial_events :: "env \<Rightarrow> (string \<times> string) list \<Rightarrow> store_error + unit" where
  "validate_initial_events e evs =
    (if list_all (\<lambda>(ty, payload). \<not> List.member INTERNAL_JOB_EVENT_TYPES ty \<and> event_type_ok ty
           \<and> safe_canonical (float_repr e) payload \<noteq> None) evs
     then Inr () else invalid ''job_event_invalid'')"

fun insert_events :: "env \<Rightarrow> string \<Rightarrow> (string \<times> string) list \<Rightarrow> store \<Rightarrow> store_error + store" where
  "insert_events e jid [] s = Inr s"
| "insert_events e jid ((ty, payload) # evs) s =
     andthen (insert_event e jid ty payload s) (\<lambda>(_, s'). insert_events e jid evs s')"

section \<open>Attempts\<close>

definition create_attempt_conn :: "env \<Rightarrow> string \<Rightarrow> string \<Rightarrow> store \<Rightarrow> store_error + (attempt \<times> store)" where
  "create_attempt_conn e jid step s =
    (let s1 = (if (\<exists>r \<in> set (steps s). s_job_id r = jid \<and> s_step_id r = step) then s
               else s\<lparr>steps := steps s @ [\<lparr>s_job_id = jid, s_step_id = step, s_step_name = step, s_ordinal = 0\<rparr>]\<rparr>);
         aid = new_id e ''att'' (length (attempts s));
         a = \<lparr>attempt_id = aid, a_job_id = jid, a_step_id = step, a_state = A_PENDING, a_token = 0,
              a_created_at = utc e, a_updated_at = utc e\<rparr>
     in if get_attempt_row s aid \<noteq> None then Inl (IntegrityError ''attempts.attempt_id'')
        else announce_attempt e aid (s1\<lparr>attempts := attempts s @ [a]\<rparr>))"

definition unsettled :: "attempt \<Rightarrow> bool" where
  "unsettled a \<longleftrightarrow> a_state a = A_PENDING \<or> a_state a = A_RUNNING"

text \<open>\<open>... state IN (pending, running) ORDER BY created_at DESC, attempt_id DESC LIMIT 1\<close>\<close>

definition active_attempt :: "store \<Rightarrow> string \<Rightarrow> attempt option" where
  "active_attempt s jid =
     last_by (\<lambda>a. (a_created_at a, attempt_id a)) (filter (\<lambda>a. a_job_id a = jid \<and> unsettled a) (attempts s))"

definition ensure_attempts_settled :: "string \<Rightarrow> store \<Rightarrow> store_error + unit" where
  "ensure_attempts_settled jid s =
    (if \<exists>a \<in> set (attempts s). a_job_id a = jid \<and> unsettled a then conflict ''attempt_not_settled'' else Inr ())"

definition ensure_no_other_unsettled_attempts :: "string \<Rightarrow> string \<Rightarrow> store \<Rightarrow> store_error + unit" where
  "ensure_no_other_unsettled_attempts jid aid s =
    (if \<exists>a \<in> set (attempts s). a_job_id a = jid \<and> attempt_id a \<noteq> aid \<and> unsettled a
     then conflict ''attempt_not_settled'' else Inr ())"

text \<open>The loop over the selected rows, each updated only while its state is still the selected one.\<close>

fun cancel_rows :: "env \<Rightarrow> attempt list \<Rightarrow> store \<Rightarrow> store_error + store" where
  "cancel_rows e [] s = Inr s"
| "cancel_rows e (r # rs) s =
    (let p = (\<lambda>a. attempt_id a = attempt_id r \<and> a_state a = a_state r);
         s1 = s\<lparr>attempts := sql_update p (\<lambda>a. a\<lparr>a_state := A_CANCELLED, a_updated_at := utc e\<rparr>) (attempts s)\<rparr>
     in if rowcount p (attempts s) = 1
        then andthen (announce_attempt e (attempt_id r) s1) (\<lambda>(_, s2). cancel_rows e rs s2)
        else cancel_rows e rs s1)"

definition transition_attempts_to_cancelled ::
    "env \<Rightarrow> string \<Rightarrow> attempt_state list \<Rightarrow> store \<Rightarrow> store_error + store" where
  "transition_attempts_to_cancelled e jid sts s =
     cancel_rows e (sort_key (\<lambda>a. (a_created_at a, attempt_id a))
       (filter (\<lambda>a. a_job_id a = jid \<and> List.member sts (a_state a)) (attempts s))) s"

section \<open>Authority\<close>

abbreviation job_claim_fenced :: "store_error + 'a" where
  "job_claim_fenced \<equiv> conflict ''job_claim_fenced''"

definition assert_job_authority :: "env \<Rightarrow> string \<Rightarrow> job_execution_authority \<Rightarrow> store \<Rightarrow> store_error + unit" where
  "assert_job_authority e jid auth s =
    (if x_job_id auth \<noteq> jid then job_claim_fenced
     else if \<exists>l \<in> set (job_leases s). l_job_id l = jid \<and> l_owner l = owner_id auth
               \<and> generation l = fencing_token auth \<and> clock e < l_expires_at l
     then Inr () else job_claim_fenced)"

definition assert_no_bound_job_claim :: "string \<Rightarrow> store \<Rightarrow> store_error + unit" where
  "assert_no_bound_job_claim jid s =
    (if \<exists>l \<in> set (job_leases s). l_job_id l = jid then job_claim_fenced else Inr ())"

text \<open>A call with an authority is checked against the job's claim, a call without one needs an unclaimed job.\<close>

definition assert_optional_authority ::
    "env \<Rightarrow> string \<Rightarrow> job_execution_authority option \<Rightarrow> store \<Rightarrow> store_error + unit" where
  "assert_optional_authority e jid auth s =
    (case auth of None \<Rightarrow> assert_no_bound_job_claim jid s | Some a \<Rightarrow> assert_job_authority e jid a s)"

definition assert_execution_authority ::
    "env \<Rightarrow> string \<Rightarrow> string \<Rightarrow> any_authority \<Rightarrow> store \<Rightarrow> store_error + attempt" where
  "assert_execution_authority e jid aid authority s =
    (case authority of
       Leadership _ \<Rightarrow> job_claim_fenced
     | JobBound auth \<Rightarrow>
         andthen (get_attempt s aid) (\<lambda>a.
           if a_job_id a \<noteq> jid \<or> a_state a \<noteq> A_RUNNING \<or> a_token a < 1 \<or> a_token a \<noteq> fencing_token auth
           then conflict ''attempt_fenced''
           else andthen (assert_job_authority e jid auth s) (\<lambda>_. Inr a)))"

definition validate_owner_id :: "string \<Rightarrow> store_error + unit" where
  "validate_owner_id owner =
    (if owner_id_valid owner then Inr () else invalid ''execution_authority_invalid'')"

section \<open>Cancellation\<close>

definition settle_cancelled_job_if_idle :: "env \<Rightarrow> string \<Rightarrow> store \<Rightarrow> store_error + store" where
  "settle_cancelled_job_if_idle e jid s =
    (case get_row s jid of
       None \<Rightarrow> Inr s
     | Some r \<Rightarrow>
         if \<not> cancellation_requested r then Inr s
         else if \<exists>a \<in> set (attempts s). a_job_id a = jid \<and> a_state a = A_RUNNING then Inr s
         else if job_terminal (state r) then Inr s
         else andthen (transition_job (state r) CANCELLED) (\<lambda>next.
              andthen (insert_job_state_event e jid next (set_job_state e jid next s)) (\<lambda>(_, s'). Inr s')))"

definition settle_claimed_cancellation :: "env \<Rightarrow> string \<Rightarrow> store \<Rightarrow> store_error + store" where
  "settle_claimed_cancellation e jid s =
    (let s1 = update_operations (\<lambda>x. o_job_id x = jid \<and> outcome x = O_STARTED)
                (\<lambda>x. x\<lparr>outcome := O_UNKNOWN, o_updated_at := utc e\<rparr>) s
     in andthen (transition_attempts_to_cancelled e jid [A_PENDING, A_RUNNING] s1)
          (settle_cancelled_job_if_idle e jid))"

end
