(* ===== verification/StoreSteps.thy ===== *)
theory StoreSteps
  imports JobTables
begin

text \<open>
  What the job store promises, as a step relation: the atomic, guarded changes every operation is made of.
  An operation refines it when its result is reached by finitely many of these steps (\<open>runs\<close>). The
  invariants are proved once over the steps, and the operations inherit them.
\<close>

named_theorems step_intros \<open>parts of operations that are sequences of steps\<close>

section \<open>The steps\<close>

definition user_event_type :: "string \<Rightarrow> bool" where
  "user_event_type ty \<longleftrightarrow> \<not> List.member INTERNAL_JOB_EVENT_TYPES ty"

definition settled :: "string \<Rightarrow> store \<Rightarrow> bool" where
  "settled jid s \<longleftrightarrow> (\<forall>a \<in> set (attempts s). a_job_id a = jid \<longrightarrow> \<not> unsettled a)"

definition none_running :: "string \<Rightarrow> store \<Rightarrow> bool" where
  "none_running jid s \<longleftrightarrow> (\<forall>a \<in> set (attempts s). a_job_id a = jid \<longrightarrow> a_state a \<noteq> A_RUNNING)"

definition job_live :: "store \<Rightarrow> string \<Rightarrow> bool" where
  "job_live s jid \<longleftrightarrow> (\<exists>r. get_row s jid = Some r \<and> \<not> job_terminal (state r))"

text \<open>A job in work: running and not asked to stop.\<close>

definition job_working :: "store \<Rightarrow> string \<Rightarrow> bool" where
  "job_working s jid \<longleftrightarrow> (\<exists>r. get_row s jid = Some r \<and> state r = RUNNING \<and> \<not> cancellation_requested r)"

definition not_cancelled :: "store \<Rightarrow> string \<Rightarrow> bool" where
  "not_cancelled s jid \<longleftrightarrow> (\<exists>r. get_row s jid = Some r \<and> \<not> cancellation_requested r)"

text \<open>What has to hold for a job to enter a state.\<close>

fun may_enter :: "store \<Rightarrow> job_row \<Rightarrow> job_state \<Rightarrow> bool" where
  "may_enter s r SUCCEEDED \<longleftrightarrow> \<not> cancellation_requested r \<and> settled (job_id r) s"
| "may_enter s r FAILED \<longleftrightarrow> settled (job_id r) s"
| "may_enter s r CANCELLED \<longleftrightarrow> cancellation_requested r \<and> none_running (job_id r) s"
| "may_enter s r _ \<longleftrightarrow> True"

definition move_row :: "string \<Rightarrow> job_state \<Rightarrow> job_result option \<Rightarrow> string option \<Rightarrow> job_row \<Rightarrow> job_row" where
  "move_row now st res err r = r\<lparr>state := st, updated_at := now,
     result := (if res = None then result r else res), error_json := (if err = None then error_json r else err)\<rparr>"

definition op_key :: "external_operation \<Rightarrow> string \<times> string \<times> string \<times> string" where
  "op_key x = (o_job_id x, o_step_id x, provider x, o_request_hash x)"

definition OUTCOME_MOVES :: "(external_outcome \<times> external_outcome) list" where
  "OUTCOME_MOVES = [(O_PREPARED, O_STARTED), (O_STARTED, O_SUCCEEDED), (O_STARTED, O_FAILED), (O_STARTED, O_UNKNOWN)]"

definition same_operation :: "external_operation \<Rightarrow> external_operation \<Rightarrow> bool" where
  "same_operation x y \<longleftrightarrow> operation_id y = operation_id x \<and> op_key y = op_key x \<and> o_created_at y = o_created_at x
     \<and> operation_idempotency_key y = operation_idempotency_key x"

definition source_key :: "('a) source_identity_binding_scheme \<Rightarrow> string \<times> string" where
  "source_key b = (connector_id b, canonical_identity b)"

inductive store_step :: "store \<Rightarrow> store \<Rightarrow> bool" where
  create: "get_row s (job_id r) = None \<Longrightarrow> state r = QUEUED \<Longrightarrow> \<not> cancellation_requested r \<Longrightarrow>
    result r = None \<Longrightarrow> error_json r = None \<Longrightarrow>
    \<forall>r' \<in> set (jobs s). client_request_id r \<noteq> None \<and> principal r' = principal r
      \<longrightarrow> client_request_id r' \<noteq> client_request_id r \<Longrightarrow>
    job_execution_binding_valid b \<Longrightarrow> map_of (bindings s) (job_id r) = None \<Longrightarrow>
    list_all (user_event_type \<circ> fst) evs \<Longrightarrow>
    insert_events e (job_id r) evs (s\<lparr>jobs := jobs s @ [r], bindings := bindings s @ [(job_id r, b)]\<rparr>) = Inr s1 \<Longrightarrow>
    insert_job_state_event e (job_id r) QUEUED s1 = Inr (v, s') \<Longrightarrow> store_step s s'"
| tell: "job_live s jid \<Longrightarrow> ty \<noteq> JOB_STATE_EVENT_TYPE \<Longrightarrow> insert_event e jid ty payload s = Inr (v, s') \<Longrightarrow>
    store_step s s'"
| request_cancel: "job_live s jid \<Longrightarrow>
    store_step s (update_job jid (\<lambda>r. r\<lparr>cancellation_requested := True, updated_at := now\<rparr>) s)"
| move: "get_row s jid = Some r \<Longrightarrow> (state r, st) \<in> set LEGAL_JOB_TRANSITIONS \<Longrightarrow> may_enter s r st \<Longrightarrow>
    (res \<noteq> None \<Longrightarrow> st = SUCCEEDED) \<Longrightarrow> (err \<noteq> None \<Longrightarrow> st = FAILED) \<Longrightarrow>
    insert_job_state_event e jid st (update_job jid (move_row now st res err) s) = Inr (v, s') \<Longrightarrow> store_step s s'"
| attempt_new: "job_live s jid \<Longrightarrow> create_attempt_conn e jid step s = Inr (a, s') \<Longrightarrow> store_step s s'"
| attempt_start: "get_attempt_row s aid = Some a \<Longrightarrow> a_state a = A_PENDING \<Longrightarrow> job_working s (a_job_id a) \<Longrightarrow>
    get_lease s (a_job_id a) = Some l \<Longrightarrow> generation l = token \<Longrightarrow>
    announce_attempt e aid (set_attempt_running e aid token s) = Inr (a', s') \<Longrightarrow> store_step s s'"
| attempt_settle: "get_attempt_row s aid = Some a \<Longrightarrow> (a_state a, st) \<in> set LEGAL_ATTEMPT_TRANSITIONS \<Longrightarrow>
    st \<noteq> A_RUNNING \<Longrightarrow> announce_attempt e aid (set_attempt_state e aid st s) = Inr (a', s') \<Longrightarrow> store_step s s'"
| claim_new: "get_row s (l_job_id l) \<noteq> None \<Longrightarrow> get_lease s (l_job_id l) = None \<Longrightarrow> 1 \<le> generation l \<Longrightarrow>
    (\<And>a. a \<in> set (attempts s) \<Longrightarrow> a_job_id a = l_job_id l \<Longrightarrow> a_token a < generation l) \<Longrightarrow>
    store_step s (s\<lparr>job_leases := job_leases s @ [l]\<rparr>)"
| claim_update: "(\<And>l. l_job_id (f l) = l_job_id l) \<Longrightarrow>
    (\<And>l. p l \<Longrightarrow> generation l < generation (f l) \<or> generation (f l) = generation l \<and> l_owner (f l) = l_owner l) \<Longrightarrow>
    store_step s (update_leases p f s)"
| lead: "(lease s = None \<Longrightarrow> 1 \<le> sl_token l) \<Longrightarrow>
    (\<And>l0. lease s = Some l0 \<Longrightarrow> sl_token l0 < sl_token l \<or> sl_token l = sl_token l0 \<and> sl_owner l = sl_owner l0) \<Longrightarrow>
    store_step s (s\<lparr>lease := Some l\<rparr>)"
| ask: "get_challenge_row s (challenge_id c) = None \<Longrightarrow> c_state c = C_PENDING \<Longrightarrow> response_attempt_id c = None \<Longrightarrow>
    job_live s (c_job_id c) \<Longrightarrow>
    (\<And>c'. c' \<in> set (challenges s) \<Longrightarrow> c_job_id c' = c_job_id c \<Longrightarrow> c_state c' \<noteq> C_PENDING) \<Longrightarrow>
    store_step s (s\<lparr>challenges := challenges s @ [c]\<rparr>)"
| withdraw: "store_step s (update_challenges (\<lambda>c. c_job_id c = jid \<and> c_state c = C_PENDING)
     (\<lambda>c. c\<lparr>c_state := C_CANCELLED, c_updated_at := now\<rparr>) s)"
| consume: "get_challenge_row s cid = Some c \<Longrightarrow> c_state c \<noteq> C_CONSUMED \<Longrightarrow> c_job_id c = jid \<Longrightarrow>
    get_attempt_row s aid = Some a \<Longrightarrow> a_job_id a = jid \<Longrightarrow>
    store_step s (update_challenges (\<lambda>c. challenge_id c = cid) (\<lambda>c. c\<lparr>c_state := C_CONSUMED,
      response_json := Some rj, response_hash := Some rh, response_attempt_id := Some aid, c_updated_at := now\<rparr>) s)"
| op_new: "get_operation_row s (operation_id x) = None \<Longrightarrow> outcome x = O_PREPARED \<Longrightarrow>
    job_working s (o_job_id x) \<Longrightarrow>
    (\<And>y. y \<in> set (operations s) \<Longrightarrow> op_key y = op_key x \<Longrightarrow> outcome y = O_FAILED) \<Longrightarrow>
    store_step s (s\<lparr>operations := operations s @ [x]\<rparr>)"
| op_reassign: "store_step s (update_operations (\<lambda>x. operation_id x = oid \<and> o_attempt_id x = prev \<and> outcome x = O_PREPARED)
     (\<lambda>x. x\<lparr>o_attempt_id := aid, o_updated_at := now\<rparr>) s)"
| op_advance: "(\<And>x. x \<in> set (operations s) \<Longrightarrow> p x \<Longrightarrow> (outcome x, outcome (f x)) \<in> set OUTCOME_MOVES
      \<and> (outcome (f x) = O_STARTED \<or> outcome (f x) = O_SUCCEEDED \<longrightarrow> not_cancelled s (o_job_id x))) \<Longrightarrow>
    (\<And>x. same_operation x (f x)) \<Longrightarrow> (\<And>x. o_attempt_id (f x) = o_attempt_id x) \<Longrightarrow>
    store_step s (update_operations p f s)"
| checkpoint: "\<forall>k' \<in> set (checkpoints s). checkpoint_id k' \<noteq> checkpoint_id k \<Longrightarrow> job_working s (k_job_id k) \<Longrightarrow>
    store_step s (s\<lparr>checkpoints := checkpoints s @ [k]\<rparr>)"
| source: "(distinct (map source_key (source_identities s)) \<Longrightarrow> distinct (map source_key rows)) \<Longrightarrow>
    store_step s (s\<lparr>source_identities := rows\<rparr>)"

inductive_cases store_step_cases: "store_step s s'"

section \<open>Sequences of steps\<close>

definition ids_ok :: "store \<Rightarrow> bool" where
  "ids_ok s \<longleftrightarrow> distinct (map job_id (jobs s)) \<and> distinct (map attempt_id (attempts s))
     \<and> distinct (map challenge_id (challenges s)) \<and> distinct (map operation_id (operations s))
     \<and> distinct (map l_job_id (job_leases s)) \<and> distinct (map fst (bindings s))"

definition runs :: "store \<Rightarrow> store \<Rightarrow> bool" where
  "runs s s' \<longleftrightarrow> (ids_ok s \<longrightarrow> store_step\<^sup>*\<^sup>* s s')"

text \<open>The tables an inserted event, an announced attempt leave alone.\<close>

lemma insert_event_frame:
  assumes "insert_event e jid ty payload s = Inr (v, s')"
  shows "s' = s\<lparr>events := events s @ [v]\<rparr> \<and> e_job_id v = jid \<and> event_type v = ty \<and> payload_json v = payload
     \<and> sequence v = next_sequence s jid \<and> get_row s jid \<noteq> None"
  using assms by (auto simp: insert_event_def Let_def split: if_splits)

lemma insert_job_state_event_frame:
  assumes "insert_job_state_event e jid st s = Inr (v, s')"
  shows "s' = s\<lparr>events := events s @ [v]\<rparr> \<and> e_job_id v = jid \<and> event_type v = JOB_STATE_EVENT_TYPE
     \<and> payload_json v = job_state_payload st \<and> sequence v = next_sequence s jid \<and> get_row s jid \<noteq> None"
  using insert_event_frame [OF assms [unfolded insert_job_state_event_def]] .

lemma get_attempt_Inr [result_simps]: "get_attempt s aid = Inr a \<longleftrightarrow> get_attempt_row s aid = Some a"
  by (auto simp: get_attempt_def split: option.splits)

lemma get_job_Inr [result_simps]: "get_job s jid = Inr j \<longleftrightarrow> (\<exists>r. get_row s jid = Some r \<and> j = job_from_row r)"
  by (auto simp: get_job_def split: option.splits)

lemma announce_attempt_frame:
  assumes "announce_attempt e aid s = Inr (a, s')"
  shows "\<exists>v. s' = s\<lparr>events := events s @ [v]\<rparr> \<and> e_job_id v = a_job_id a \<and> event_type v = STAGE_CHANGED_EVENT_TYPE
     \<and> sequence v = next_sequence s (a_job_id a) \<and> get_attempt_row s aid = Some a \<and> get_row s (a_job_id a) \<noteq> None"
  using assms
  by (auto simp: announce_attempt_def insert_stage_changed_event_def result_simps dest!: insert_event_frame)

lemma job_from_row_simps [simp]:
  "job_id (job_from_row r) = job_id r" "state (job_from_row r) = state r"
  "cancellation_requested (job_from_row r) = cancellation_requested r" "principal (job_from_row r) = principal r"
  "client_request_id (job_from_row r) = client_request_id r" "request_hash (job_from_row r) = request_hash r"
  "execution_owner (job_from_row r) = execution_owner r" "retry_of_job_id (job_from_row r) = retry_of_job_id r"
  "created_at (job_from_row r) = created_at r" "updated_at (job_from_row r) = updated_at r"
  by (simp_all add: job_from_row_def)

lemma insert_events_frame:
  "insert_events e jid evs s = Inr s' \<Longrightarrow>
     \<exists>vs. s' = s\<lparr>events := events s @ vs\<rparr> \<and> map (\<lambda>v. (e_job_id v, event_type v, payload_json v)) vs
       = map (\<lambda>(ty, payload). (jid, ty, payload)) evs"
proof (induction evs arbitrary: s)
  case (Cons ev evs)
  obtain ty payload where ev: "ev = (ty, payload)" by (cases ev)
  from Cons.prems obtain v s1 where
    v: "insert_event e jid ty payload s = Inr (v, s1)" and rest: "insert_events e jid evs s1 = Inr s'"
    by (auto simp: result_simps ev)
  note fr = insert_event_frame [OF v]
  from Cons.IH [OF rest] obtain vs where
    "s' = s1\<lparr>events := events s1 @ vs\<rparr>"
    "map (\<lambda>v. (e_job_id v, event_type v, payload_json v)) vs = map (\<lambda>(ty, payload). (jid, ty, payload)) evs"
    by auto
  with fr show ?case by (intro exI [of _ "v # vs"]) (auto simp: ev)
qed (auto intro: exI [of _ "[]"])

lemma create_attempt_conn_frame:
  assumes "create_attempt_conn e jid step s = Inr (a, s')"
  shows "\<exists>v sts. s' = s\<lparr>steps := sts, attempts := attempts s @ [a], events := events s @ [v]\<rparr>
     \<and> a_job_id a = jid \<and> a_step_id a = step \<and> a_state a = A_PENDING \<and> a_token a = 0
     \<and> get_attempt_row s (attempt_id a) = None \<and> e_job_id v = jid \<and> event_type v = STAGE_CHANGED_EVENT_TYPE
     \<and> sequence v = next_sequence s jid \<and> get_row s jid \<noteq> None"
proof -
  define sts where "sts = (if (\<exists>r \<in> set (steps s). s_job_id r = jid \<and> s_step_id r = step) then steps s
    else steps s @ [\<lparr>s_job_id = jid, s_step_id = step, s_step_name = step, s_ordinal = 0\<rparr>])"
  define aid where "aid = new_id e ''att'' (length (attempts s))"
  define a0 where "a0 = \<lparr>attempt_id = aid, a_job_id = jid, a_step_id = step, a_state = A_PENDING, a_token = 0,
    a_created_at = utc e, a_updated_at = utc e\<rparr>"
  define s1 where "s1 = s\<lparr>steps := sts, attempts := attempts s @ [a0]\<rparr>"
  have fresh: "get_attempt_row s aid = None" and ann: "announce_attempt e aid s1 = Inr (a, s')"
    using assms by (auto simp: create_attempt_conn_def Let_def sts_def aid_def a0_def s1_def split: if_splits)
  then have "get_attempt_row s1 aid = Some a0"
    by (simp add: get_attempt_row_def s1_def fetchone_append) (simp add: a0_def)
  moreover have "next_sequence s1 j = next_sequence s j" "get_row s1 j = get_row s j" for j
    by (simp_all add: next_sequence_def job_events_def get_row_def s1_def)
  ultimately obtain v where v: "s' = s1\<lparr>events := events s1 @ [v]\<rparr>" "e_job_id v = jid"
      "event_type v = STAGE_CHANGED_EVENT_TYPE" "sequence v = next_sequence s jid" "get_row s jid \<noteq> None"
      and a: "a = a0"
    using announce_attempt_frame [OF ann] by (auto simp: a0_def)
  show ?thesis
  proof (intro exI conjI)
    show "s' = s\<lparr>steps := sts, attempts := attempts s @ [a], events := events s @ [v]\<rparr>"
      using v(1) a by (simp add: s1_def)
  qed (use v a fresh in \<open>simp_all add: a0_def\<close>)
qed

lemma move_row_simps [simp]:
  "job_id (move_row now st res err r) = job_id r" "state (move_row now st res err r) = st"
  "cancellation_requested (move_row now st res err r) = cancellation_requested r"
  "client_request_id (move_row now st res err r) = client_request_id r"
  "principal (move_row now st res err r) = principal r" "request_hash (move_row now st res err r) = request_hash r"
  "execution_owner (move_row now st res err r) = execution_owner r"
  "retry_of_job_id (move_row now st res err r) = retry_of_job_id r"
  "created_at (move_row now st res err r) = created_at r" "request_json (move_row now st res err r) = request_json r"
  "result (move_row now st res err r) = (if res = None then result r else res)"
  "error_json (move_row now st res err r) = (if err = None then error_json r else err)"
  by (simp_all add: move_row_def)

lemma map_key_update [simp]:
  "(\<And>r. k (f r) = k r) \<Longrightarrow> map k (sql_update p f rows) = map k rows"
  by (rule map_sql_update)

lemma get_row_None: "get_row s jid = None \<longleftrightarrow> jid \<notin> job_id ` set (jobs s)"
  by (auto simp: get_row_def fetchone_None_iff)

lemma get_row_SomeD: "get_row s jid = Some r \<Longrightarrow> r \<in> set (jobs s) \<and> job_id r = jid"
  by (auto simp: get_row_def dest: fetchone_SomeD)

lemma get_attempt_row_None: "get_attempt_row s aid = None \<longleftrightarrow> aid \<notin> attempt_id ` set (attempts s)"
  by (auto simp: get_attempt_row_def fetchone_None_iff)

lemma get_attempt_row_SomeD: "get_attempt_row s aid = Some a \<Longrightarrow> a \<in> set (attempts s) \<and> attempt_id a = aid"
  by (auto simp: get_attempt_row_def dest: fetchone_SomeD)

lemma get_challenge_row_None: "get_challenge_row s cid = None \<longleftrightarrow> cid \<notin> challenge_id ` set (challenges s)"
  by (auto simp: get_challenge_row_def fetchone_None_iff)

lemma get_challenge_row_SomeD: "get_challenge_row s cid = Some c \<Longrightarrow> c \<in> set (challenges s) \<and> challenge_id c = cid"
  by (auto simp: get_challenge_row_def dest: fetchone_SomeD)

lemma get_operation_row_None: "get_operation_row s oid = None \<longleftrightarrow> oid \<notin> operation_id ` set (operations s)"
  by (auto simp: get_operation_row_def fetchone_None_iff)

lemma get_operation_row_SomeD: "get_operation_row s oid = Some x \<Longrightarrow> x \<in> set (operations s) \<and> operation_id x = oid"
  by (auto simp: get_operation_row_def dest: fetchone_SomeD)

lemma get_lease_None: "get_lease s jid = None \<longleftrightarrow> jid \<notin> l_job_id ` set (job_leases s)"
  by (auto simp: get_lease_def fetchone_None_iff)

lemma get_lease_SomeD: "get_lease s jid = Some l \<Longrightarrow> l \<in> set (job_leases s) \<and> l_job_id l = jid"
  by (auto simp: get_lease_def dest: fetchone_SomeD)

lemmas row_simps =
  get_row_None get_attempt_row_None get_challenge_row_None get_operation_row_None get_lease_None
lemmas row_dests =
  get_row_SomeD get_attempt_row_SomeD get_challenge_row_SomeD get_operation_row_SomeD get_lease_SomeD
lemmas frame_dests =
  insert_job_state_event_frame insert_event_frame announce_attempt_frame insert_events_frame create_attempt_conn_frame
lemmas store_updates =
  update_job_def update_attempt_def update_challenges_def update_operations_def update_leases_def
  set_attempt_running_def set_attempt_state_def set_job_state_def clear_launches_def

lemma ids_ok_step:
  assumes "store_step s s'" and "ids_ok s"
  shows "ids_ok s'"
  using assms
proof cases
  case (create r b evs e s1 v)
  from create obtain vs where "s1 = s\<lparr>jobs := jobs s @ [r], bindings := bindings s @ [(job_id r, b)], events := events s @ vs\<rparr>"
    using insert_events_frame by fastforce
  with create assms(2) show ?thesis
    by (auto simp: ids_ok_def row_simps map_of_eq_None_iff dest!: insert_job_state_event_frame)
qed (use assms(2) in \<open>(auto simp: ids_ok_def row_simps store_updates same_operation_def dest!: frame_dests)\<close>)

lemma runs_refl [step_intros, simp]: "runs s s"
  by (simp add: runs_def)

lemma ids_ok_rtrancl: "store_step\<^sup>*\<^sup>* s s' \<Longrightarrow> ids_ok s \<Longrightarrow> ids_ok s'"
  by (induction rule: rtranclp_induct) (auto dest: ids_ok_step)

lemma runs_trans [trans]: "runs s s1 \<Longrightarrow> runs s1 s2 \<Longrightarrow> runs s s2"
  using ids_ok_rtrancl by (fastforce simp: runs_def)

lemma step_runs: "store_step s s' \<Longrightarrow> runs s s'"
  by (auto simp: runs_def)

lemma runsI: "(ids_ok s \<Longrightarrow> runs s s') \<Longrightarrow> runs s s'"
  by (simp add: runs_def)

section \<open>The helpers are sequences of steps\<close>

lemma set_job_state_move: "set_job_state e jid st s = update_job jid (move_row (utc e) st None None) s"
proof -
  have "(\<lambda>r. r\<lparr>state := st, updated_at := utc e\<rparr>) = move_row (utc e) st None None"
  proof (rule ext)
    fix r show "r\<lparr>state := st, updated_at := utc e\<rparr> = move_row (utc e) st None None r"
      by (cases r) (simp add: move_row_def)
  qed
  then show ?thesis by (simp add: set_job_state_def)
qed

lemma job_move_runs:
  assumes "insert_job_state_event e jid st (set_job_state e jid st s) = Inr (v, s')"
    and "get_row s jid = Some r" and "(state r, st) \<in> set LEGAL_JOB_TRANSITIONS" and "may_enter s r st"
  shows "runs s s'"
  using assms(1) unfolding set_job_state_move
  by (intro step_runs store_step.move [OF assms(2-4), where res = None and err = None]) simp_all

lemma attempt_settle_runs:
  assumes "announce_attempt e aid (set_attempt_state e aid st s) = Inr (a', s')"
    and "get_attempt_row s aid = Some a" and "(a_state a, st) \<in> set LEGAL_ATTEMPT_TRANSITIONS" and "st \<noteq> A_RUNNING"
  shows "runs s s'"
  by (rule step_runs, rule attempt_settle [OF assms(2-4,1)])

lemma legal_cancel: "unsettled a \<Longrightarrow> (a_state a, A_CANCELLED) \<in> set LEGAL_ATTEMPT_TRANSITIONS"
  by (auto simp: unsettled_def LEGAL_ATTEMPT_TRANSITIONS_def)

text \<open>Under unique identifiers a conditional update of one attempt is an update by its identifier, or none.\<close>

lemma attempt_update_by_id:
  assumes "ids_ok s" and "get_attempt_row s aid = Some a" and "q a"
  shows "sql_update (\<lambda>a. attempt_id a = aid \<and> q a) f (attempts s) = sql_update (\<lambda>a. attempt_id a = aid) f (attempts s)"
proof -
  have a: "a \<in> set (attempts s)" "attempt_id a = aid" using assms(2) by (auto dest: get_attempt_row_SomeD)
  have "b = a" if "b \<in> set (attempts s)" "attempt_id b = aid" for b
    using assms(1) a that by (auto simp: ids_ok_def distinct_map dest: inj_onD)
  then show ?thesis using assms(3) by (auto simp: sql_update_def)
qed

lemma cancel_rows_runs:
  "cancel_rows e rs s = Inr s' \<Longrightarrow> \<forall>r \<in> set rs. unsettled r \<Longrightarrow> runs s s'"
proof (induction rs arbitrary: s)
  case (Cons r rs)
  let ?p = "\<lambda>a. attempt_id a = attempt_id r \<and> a_state a = a_state r"
  let ?s1 = "s\<lparr>attempts := sql_update ?p (\<lambda>a. a\<lparr>a_state := A_CANCELLED, a_updated_at := utc e\<rparr>) (attempts s)\<rparr>"
  show ?case
  proof (rule runsI)
    assume ids: "ids_ok s"
    show "runs s s'"
    proof (cases "rowcount ?p (attempts s) = 1")
      case True
      with Cons.prems obtain a' s2 where ann: "announce_attempt e (attempt_id r) ?s1 = Inr (a', s2)"
        and rest: "cancel_rows e rs s2 = Inr s'"
        by (auto simp: result_simps Let_def split: prod.splits)
      have "\<exists>a \<in> set (attempts s). ?p a"
        using True rowcount_pos [of ?p "attempts s"] by simp
      then obtain a where a: "get_attempt_row s (attempt_id r) = Some a" "a_state a = a_state r"
        using ids by (auto simp: get_attempt_row_def ids_ok_def dest: distinct_fetchone)
      then have "?s1 = set_attempt_state e (attempt_id r) A_CANCELLED s"
        using attempt_update_by_id [OF ids a(1), of "\<lambda>a. a_state a = a_state r"]
        by (simp add: set_attempt_state_def update_attempt_def)
      with ann a Cons.prems have "runs s s2"
        by (intro attempt_settle_runs [OF _ a(1)]) (auto intro!: legal_cancel simp: unsettled_def)
      moreover have "runs s2 s'"
        using Cons.IH [OF rest] Cons.prems by simp
      ultimately show ?thesis by (rule runs_trans)
    next
      case False
      moreover have "rowcount ?p (attempts s) \<le> 1"
        using ids by (intro distinct_rowcount_le_1 [where k = attempt_id]) (auto simp: ids_ok_def)
      ultimately have none: "\<forall>a \<in> set (attempts s). \<not> ?p a"
        using rowcount_pos [of ?p "attempts s"] by (simp add: le_Suc_eq)
      then have "?s1 = s" by (simp add: sql_update_id)
      with Cons False show ?thesis by (simp add: Let_def)
    qed
  qed
qed simp

lemma transition_attempts_to_cancelled_runs:
  assumes "transition_attempts_to_cancelled e jid sts s = Inr s'" and "set sts \<subseteq> {A_PENDING, A_RUNNING}"
  shows "runs s s'"
  using assms by (intro cancel_rows_runs) (auto simp: transition_attempts_to_cancelled_def unsettled_def)

lemma settle_cancelled_job_if_idle_runs:
  assumes "settle_cancelled_job_if_idle e jid s = Inr s'"
  shows "runs s s'"
proof (cases "s' = s")
  case False
  with assms obtain r st v where r: "get_row s jid = Some r" "cancellation_requested r"
      "\<forall>a \<in> set (attempts s). a_job_id a = jid \<longrightarrow> a_state a \<noteq> A_RUNNING"
      and st: "JobModel.transition_job (state r) CANCELLED = Inr st"
      and ev: "insert_job_state_event e jid st (set_job_state e jid st s) = Inr (v, s')"
    by (auto simp: settle_cancelled_job_if_idle_def result_simps split: option.splits if_splits)
  from transition_job_InrD [OF st] have "st = CANCELLED" "(state r, st) \<in> set LEGAL_JOB_TRANSITIONS" by auto
  with r show ?thesis
    by (intro job_move_runs [OF ev]) (auto simp: none_running_def dest: get_row_SomeD)
qed simp

lemma mark_started_unknown_runs:
  assumes "\<And>x. p x \<Longrightarrow> outcome x = O_STARTED"
  shows "runs s (update_operations p (\<lambda>x. x\<lparr>outcome := O_UNKNOWN, o_updated_at := now\<rparr>) s)"
  by (rule step_runs, rule op_advance) (auto simp: OUTCOME_MOVES_def same_operation_def op_key_def dest: assms)

lemma settle_claimed_cancellation_runs:
  assumes "settle_claimed_cancellation e jid s = Inr s'"
  shows "runs s s'"
proof -
  define s1 where "s1 = update_operations (\<lambda>x. o_job_id x = jid \<and> outcome x = O_STARTED)
                (\<lambda>x. x\<lparr>outcome := O_UNKNOWN, o_updated_at := utc e\<rparr>) s"
  from assms obtain s2 where s2: "transition_attempts_to_cancelled e jid [A_PENDING, A_RUNNING] s1 = Inr s2"
    and s': "settle_cancelled_job_if_idle e jid s2 = Inr s'"
    by (auto simp: settle_claimed_cancellation_def Let_def result_simps s1_def)
  have "runs s s1" unfolding s1_def by (rule mark_started_unknown_runs) simp
  also have "runs s1 s2" by (rule transition_attempts_to_cancelled_runs [OF s2]) simp
  also have "runs s2 s'" by (rule settle_cancelled_job_if_idle_runs [OF s'])
  finally show ?thesis .
qed

end
