(* ===== verification/JobLifecycle.thy ===== *)
theory JobLifecycle
  imports StoreSteps
begin

text \<open>
  The life of a job and of its attempts: creation with an idempotency key, attempts and their start,
  takeover and transitions, cancellation, the event stream. Each operation of the repository is a function
  from the store before the transaction to the value it returns and the store it commits, or to the
  error it raises, in which case nothing is committed.
\<close>

section \<open>Creating a job\<close>

definition DEFAULT_EXECUTION_BINDING :: job_execution_binding where
  "DEFAULT_EXECUTION_BINDING = \<lparr>recipe_id = ''alltonote.legacy'', recipe_version = 1,
     executor_id = ''alltonote.video'', executor_version = 1, pack_id = ''media-basic'',
     pack_version = ''legacy-v1''\<rparr>"

definition validate_request_json :: "env \<Rightarrow> string \<Rightarrow> string option \<Rightarrow> store_error + unit" where
  "validate_request_json e rhash rjson =
    (case rjson of
       None \<Rightarrow> Inr ()
     | Some text \<Rightarrow>
         (case safe_canonical (float_repr e) text of
            Some (JObj _) \<Rightarrow> if sha256_digest e text = rhash then Inr () else invalid ''job_request_json_invalid''
          | _ \<Rightarrow> invalid ''job_request_json_invalid''))"

definition validate_execution_binding :: "job_execution_binding \<Rightarrow> store_error + unit" where
  "validate_execution_binding b =
    (if job_execution_binding_valid b then Inr () else invalid ''job_execution_binding_invalid'')"

definition insert_execution_binding ::
    "string \<Rightarrow> job_execution_binding \<Rightarrow> store \<Rightarrow> store_error + store" where
  "insert_execution_binding jid b s =
    (if map_of (bindings s) jid \<noteq> None then Inl (IntegrityError ''job_execution_bindings.job_id'')
     else Inr (s\<lparr>bindings := bindings s @ [(jid, b)]\<rparr>))"

definition find_request :: "store \<Rightarrow> string \<Rightarrow> string option \<Rightarrow> job_row option" where
  "find_request s prin crid =
    (if crid = None then None
     else fetchone (\<lambda>r. principal r = prin \<and> client_request_id r = crid) (jobs s))"

text \<open>\<open>_create_job\<close>: the job of a known idempotency key, or a new queued one; the flag tells which.\<close>

definition create_job_conn ::
    "env \<Rightarrow> string \<Rightarrow> string option \<Rightarrow> string \<Rightarrow> string option \<Rightarrow> string option \<Rightarrow> job_execution_owner
      \<Rightarrow> store \<Rightarrow> store_error + ((job \<times> bool) \<times> store)" where
  "create_job_conn e rhash rjson prin crid retry_of owner s =
    (case find_request s prin crid of
       Some r \<Rightarrow>
         if request_hash r \<noteq> rhash \<or> retry_of_job_id r \<noteq> retry_of then conflict ''idempotency_conflict''
         else Inr ((job_from_row r, False), s)
     | None \<Rightarrow>
         let jid = new_id e ''job'' (length (jobs s));
             r = \<lparr>job_id = jid, request_hash = rhash, principal = prin, client_request_id = crid,
                  execution_owner = owner, state = QUEUED, cancellation_requested = False,
                  retry_of_job_id = retry_of, created_at = utc e, updated_at = utc e,
                  request_json = rjson, result = None, error_json = None\<rparr>
         in if get_row s jid \<noteq> None then Inl (IntegrityError ''jobs.job_id'')
            else if retry_of \<noteq> None \<and> get_row s (the retry_of) = None then Inl (IntegrityError ''jobs.retry_of_job_id'')
            else Inr ((job_from_row r, True), s\<lparr>jobs := jobs s @ [r]\<rparr>))"

text \<open>What both creating calls do with a new job, and with the events of a repeated request.\<close>

definition open_job ::
    "env \<Rightarrow> string \<Rightarrow> job_execution_binding \<Rightarrow> (string \<times> string) list \<Rightarrow> store \<Rightarrow> store_error + store" where
  "open_job e jid b evs s =
     andthen (insert_execution_binding jid b s) (\<lambda>s1.
     andthen (insert_events e jid evs s1) (\<lambda>s2.
     andthen (insert_job_state_event e jid QUEUED s2) (\<lambda>(_, s3). Inr s3)))"

definition stored_events :: "store \<Rightarrow> string \<Rightarrow> nat \<Rightarrow> (string \<times> string) list" where
  "stored_events s jid n = take n (map (\<lambda>v. (event_type v, payload_json v))
     (sort_key sequence (filter (\<lambda>v. event_type v \<noteq> JOB_STATE_EVENT_TYPE) (job_events s jid))))"

definition create_job ::
    "env \<Rightarrow> string \<Rightarrow> string option \<Rightarrow> string \<Rightarrow> string option \<Rightarrow> string option \<Rightarrow> (string \<times> string) list
      \<Rightarrow> job_execution_binding option \<Rightarrow> job_execution_owner \<Rightarrow> store \<Rightarrow> store_error + (job \<times> store)" where
  "create_job e rhash rjson prin crid retry_of evs binding owner s =
     andthen (validate_request_json e rhash rjson) (\<lambda>_.
     andthen (validate_initial_events e evs) (\<lambda>_.
     let b = (case binding of None \<Rightarrow> DEFAULT_EXECUTION_BINDING | Some b \<Rightarrow> b) in
     andthen (validate_execution_binding b) (\<lambda>_.
     andthen (create_job_conn e rhash rjson prin crid retry_of owner s) (\<lambda>((j, created), s1).
       if created then andthen (open_job e (job_id j) b evs s1) (\<lambda>s2. Inr (j, s2))
       else if execution_owner j \<noteq> owner then conflict ''idempotency_conflict''
       else andthen (get_execution_binding s1 (job_id j)) (\<lambda>b'.
            if b' \<noteq> b then conflict ''idempotency_conflict''
            else if evs \<noteq> [] \<and> stored_events s1 (job_id j) (length evs) \<noteq> evs then conflict ''idempotency_conflict''
            else Inr (j, s1))))))"

section \<open>Attempts\<close>

definition create_attempt ::
    "env \<Rightarrow> string \<Rightarrow> string \<Rightarrow> job_execution_authority option \<Rightarrow> store \<Rightarrow> store_error + (attempt \<times> store)" where
  "create_attempt e jid step authority s =
     andthen (get_job s jid) (\<lambda>j.
     andthen (assert_optional_authority e jid authority s) (\<lambda>_.
       if job_terminal (state j) then conflict ''job_terminal''
       else if cancellation_requested j then job_cancelled
       else create_attempt_conn e jid step s))"

definition start_attempt ::
    "env \<Rightarrow> string \<Rightarrow> job_execution_authority \<Rightarrow> store \<Rightarrow> store_error + (attempt \<times> store)" where
  "start_attempt e aid authority s =
     andthen (get_attempt s aid) (\<lambda>a.
       if a_state a = A_RUNNING then conflict ''attempt_fenced''
       else andthen (transition_attempt (a_state a) A_RUNNING) (\<lambda>_.
            andthen (get_job s (a_job_id a)) (\<lambda>j.
              if state j \<noteq> RUNNING then conflict ''attempt_job_not_running''
              else if cancellation_requested j then job_cancelled
              else andthen (assert_job_authority e (a_job_id a) authority s) (\<lambda>_.
                   announce_attempt e aid (set_attempt_running e aid (fencing_token authority) s)))))"

definition take_over_running_attempt ::
    "env \<Rightarrow> string \<Rightarrow> string \<Rightarrow> job_execution_authority \<Rightarrow> store \<Rightarrow> store_error + (attempt \<times> store)" where
  "take_over_running_attempt e jid aid authority s =
     andthen (get_job s jid) (\<lambda>j.
     andthen (get_attempt s aid) (\<lambda>a.
     andthen (assert_job_authority e jid authority s) (\<lambda>_.
       if state j \<noteq> RUNNING \<or> a_job_id a \<noteq> jid \<or> a_state a \<noteq> A_RUNNING then conflict ''attempt_takeover_invalid''
       else if fencing_token authority \<le> a_token a then conflict ''attempt_takeover_not_fenced''
       else if cancellation_requested j then
         andthen (settle_claimed_cancellation e jid s) (\<lambda>s1.
         andthen (get_attempt s1 aid) (\<lambda>a1. Inr (a1, s1)))
       else
         andthen (announce_attempt e aid (set_attempt_state e aid A_INTERRUPTED s)) (\<lambda>(_, s1).
         andthen (create_attempt_conn e jid (a_step_id a) s1) (\<lambda>(replacement, s2).
           let p = (\<lambda>b. attempt_id b = attempt_id replacement \<and> a_state b = A_PENDING);
               run = (\<lambda>b. b\<lparr>a_state := A_RUNNING, a_token := fencing_token authority, a_updated_at := utc e\<rparr>)
           in announce_attempt e (attempt_id replacement) (s2\<lparr>attempts := sql_update p run (attempts s2)\<rparr>))))))"

definition transition_attempt_op ::
    "env \<Rightarrow> string \<Rightarrow> attempt_state \<Rightarrow> job_execution_authority option \<Rightarrow> store \<Rightarrow> store_error + (attempt \<times> store)" where
  "transition_attempt_op e aid st authority s =
    (if st = A_RUNNING then conflict ''attempt_start_required''
     else andthen (get_attempt s aid) (\<lambda>a.
          andthen
            (if a_state a = A_RUNNING then
               (case authority of
                  None \<Rightarrow> conflict ''execution_authority_required''
                | Some auth \<Rightarrow>
                    andthen (assert_execution_authority e (a_job_id a) (attempt_id a) (JobBound auth) s) (\<lambda>_. Inr ()))
             else assert_optional_authority e (a_job_id a) authority s) (\<lambda>_.
          andthen (transition_attempt (a_state a) st) (\<lambda>next.
          andthen (announce_attempt e aid (set_attempt_state e aid next s)) (\<lambda>(a', s1).
          andthen (settle_cancelled_job_if_idle e (a_job_id a) s1) (\<lambda>s2. Inr (a', s2)))))))"

section \<open>The job's own transitions\<close>

definition transition_job_op ::
    "env \<Rightarrow> string \<Rightarrow> job_state \<Rightarrow> job_execution_authority option \<Rightarrow> store \<Rightarrow> store_error + (job \<times> store)" where
  "transition_job_op e jid st authority s =
     andthen (get_job s jid) (\<lambda>j.
     andthen (assert_optional_authority e jid authority s) (\<lambda>_.
       if st = SUCCEEDED \<or> st = CANCELLED then conflict ''job_terminal_transition_guarded''
       else andthen (transition_job (state j) st) (\<lambda>next.
            andthen (if job_terminal next then ensure_attempts_settled jid s else Inr ()) (\<lambda>_.
            andthen (insert_job_state_event e jid next (set_job_state e jid next s)) (\<lambda>(_, s1).
            andthen (get_job s1 jid) (\<lambda>j1. Inr (j1, s1)))))))"

definition cancel_challenges :: "env \<Rightarrow> string \<Rightarrow> store \<Rightarrow> store" where
  "cancel_challenges e jid s = update_challenges (\<lambda>c. c_job_id c = jid \<and> c_state c = C_PENDING)
     (\<lambda>c. c\<lparr>c_state := C_CANCELLED, c_updated_at := utc e\<rparr>) s"

definition cancel_job :: "env \<Rightarrow> string \<Rightarrow> store \<Rightarrow> store_error + (job \<times> store)" where
  "cancel_job e jid s =
     andthen (get_job s jid) (\<lambda>j.
       if job_terminal (state j) then Inr (j, if state j = CANCELLED then cancel_challenges e jid s else s)
       else andthen
              (if cancellation_requested j then Inr s
               else andthen (insert_event e jid JOB_CANCEL_REQUESTED_EVENT_TYPE (dumps (JObj [(''requested'', JBool True)]))
                      (s\<lparr>jobs := sql_update (\<lambda>r. job_id r = jid \<and> \<not> cancellation_requested r)
                          (\<lambda>r. r\<lparr>cancellation_requested := True, updated_at := utc e\<rparr>) (jobs s)\<rparr>))
                      (\<lambda>(_, s1). Inr s1)) (\<lambda>s1.
            andthen (transition_attempts_to_cancelled e jid [A_PENDING] s1) (\<lambda>s2.
            andthen (settle_cancelled_job_if_idle e jid (cancel_challenges e jid s2)) (\<lambda>s3.
            andthen (get_job s3 jid) (\<lambda>j3. Inr (j3, s3))))))"

definition append_event :: "env \<Rightarrow> string \<Rightarrow> string \<Rightarrow> string \<Rightarrow> store \<Rightarrow> store_error + (job_event \<times> store)" where
  "append_event e jid ty payload s =
     andthen (validate_initial_events e [(ty, payload)]) (\<lambda>_.
     andthen (get_job s jid) (\<lambda>j.
       if job_terminal (state j) then conflict ''job_event_terminal'' else insert_event e jid ty payload s))"

section \<open>The operations are sequences of steps\<close>

lemma validate_initial_events_user:
  "validate_initial_events e evs = Inr u \<Longrightarrow> list_all (user_event_type \<circ> fst) evs"
  by (auto simp: validate_initial_events_def user_event_type_def list_all_iff split: if_splits)

lemma find_request_None:
  "find_request s prin crid = None \<longleftrightarrow>
     (crid \<noteq> None \<longrightarrow> (\<forall>r \<in> set (jobs s). principal r = prin \<longrightarrow> client_request_id r \<noteq> crid))"
  by (auto simp: find_request_def fetchone_None_iff)

lemma create_job_conn_Inr:
  assumes "create_job_conn e rhash rjson prin crid retry_of owner s = Inr ((j, created), s1)"
  shows "created \<and> (\<exists>r. s1 = s\<lparr>jobs := jobs s @ [r]\<rparr> \<and> j = job_from_row r \<and> get_row s (job_id r) = None \<and> state r = QUEUED
            \<and> \<not> cancellation_requested r \<and> result r = None \<and> error_json r = None \<and> client_request_id r = crid
            \<and> principal r = prin \<and> request_hash r = rhash \<and> retry_of_job_id r = retry_of \<and> execution_owner r = owner
            \<and> request_json r = rjson \<and> find_request s prin crid = None)
       \<or> \<not> created \<and> s1 = s \<and> (\<exists>r. find_request s prin crid = Some r \<and> j = job_from_row r \<and> request_hash r = rhash
            \<and> retry_of_job_id r = retry_of)"
proof (cases "find_request s prin crid")
  case None
  with assms show ?thesis
    by (auto simp: create_job_conn_def Let_def split: if_splits)
next
  case (Some r)
  with assms show ?thesis
    by (auto simp: create_job_conn_def split: if_splits)
qed

lemma open_job_runs:
  assumes "open_job e (job_id r) b evs (s\<lparr>jobs := jobs s @ [r]\<rparr>) = Inr s'"
    and "get_row s (job_id r) = None" "state r = QUEUED" "\<not> cancellation_requested r" "result r = None" "error_json r = None"
    and "find_request s (principal r) (client_request_id r) = None"
    and "job_execution_binding_valid b" and "list_all (user_event_type \<circ> fst) evs"
  shows "runs s s'"
proof -
  from assms(1) obtain s2 v where
    none: "map_of (bindings s) (job_id r) = None" and
    ev: "insert_events e (job_id r) evs (s\<lparr>jobs := jobs s @ [r], bindings := bindings s @ [(job_id r, b)]\<rparr>) = Inr s2"
      "insert_job_state_event e (job_id r) QUEUED s2 = Inr (v, s')"
    by (auto simp: open_job_def insert_execution_binding_def result_simps split: if_splits)
  have "\<forall>r' \<in> set (jobs s). client_request_id r \<noteq> None \<and> principal r' = principal r
      \<longrightarrow> client_request_id r' \<noteq> client_request_id r"
    using assms(7) by (auto simp: find_request_None)
  then show ?thesis
    by (rule step_runs [OF create [OF assms(2-6) _ assms(8) none assms(9) ev]])
qed

lemma create_job_runs:
  assumes "create_job e rhash rjson prin crid retry_of evs binding owner s = Inr (j, s')"
  shows "runs s s'"
proof -
  define b where "b = (case binding of None \<Rightarrow> DEFAULT_EXECUTION_BINDING | Some b \<Rightarrow> b)"
  from assms obtain created s1 where
    evs: "list_all (user_event_type \<circ> fst) evs" and b: "job_execution_binding_valid b" and
    conn: "create_job_conn e rhash rjson prin crid retry_of owner s = Inr ((j, created), s1)" and
    rest: "if created then open_job e (job_id j) b evs s1 = Inr s' else s' = s1"
    by (auto simp: create_job_def Let_def result_simps validate_execution_binding_def b_def
        dest: validate_initial_events_user split: if_splits)
  show ?thesis
  proof (cases created)
    case True
    with create_job_conn_Inr [OF conn] obtain r where
      "s1 = s\<lparr>jobs := jobs s @ [r]\<rparr>" "j = job_from_row r" "get_row s (job_id r) = None" "state r = QUEUED"
      "\<not> cancellation_requested r" "result r = None" "error_json r = None"
      "find_request s (principal r) (client_request_id r) = None"
      by auto
    with True rest evs b show ?thesis by (intro open_job_runs) auto
  next
    case False
    with create_job_conn_Inr [OF conn] rest show ?thesis by simp
  qed
qed

lemma assert_job_authority_Inr:
  "assert_job_authority e jid auth s = Inr u \<Longrightarrow>
     x_job_id auth = jid \<and> (\<exists>l \<in> set (job_leases s). l_job_id l = jid \<and> l_owner l = owner_id auth
        \<and> generation l = fencing_token auth \<and> clock e < l_expires_at l)"
  by (auto simp: assert_job_authority_def split: if_splits)

text \<open>The lease an authority was checked against is the one lease of its job.\<close>

lemma authority_lease:
  assumes "assert_job_authority e jid auth s = Inr u" and "ids_ok s"
  shows "\<exists>l. get_lease s jid = Some l \<and> generation l = fencing_token auth \<and> l_owner l = owner_id auth
     \<and> clock e < l_expires_at l"
  using assert_job_authority_Inr [OF assms(1)] assms(2)
  by (auto simp: get_lease_def ids_ok_def dest!: distinct_fetchone)

lemma create_attempt_runs:
  assumes "create_attempt e jid step authority s = Inr (a, s')"
  shows "runs s s'"
  using assms
  by (intro step_runs, intro attempt_new [where e = e and jid = jid and step = step and a = a])
     (auto simp: create_attempt_def result_simps job_live_def split: if_splits)

lemma start_attempt_runs:
  assumes "start_attempt e aid authority s = Inr (a', s')"
  shows "runs s s'"
proof (rule runsI)
  assume "ids_ok s"
  from assms obtain a st r where a: "get_attempt_row s aid = Some a" and tr: "transition_attempt (a_state a) A_RUNNING = Inr st"
    and r: "get_row s (a_job_id a) = Some r" "state r = RUNNING" "\<not> cancellation_requested r"
    and auth: "assert_job_authority e (a_job_id a) authority s = Inr ()"
    and ann: "announce_attempt e aid (set_attempt_running e aid (fencing_token authority) s) = Inr (a', s')"
    by (auto simp: start_attempt_def result_simps split: if_splits)
  from transition_attempt_InrD [OF tr] have "a_state a = A_PENDING" by (auto simp: LEGAL_ATTEMPT_TRANSITIONS_def)
  moreover obtain l where "get_lease s (a_job_id a) = Some l" "generation l = fencing_token authority"
    using authority_lease [OF auth \<open>ids_ok s\<close>] by blast
  ultimately show "runs s s'"
    using a r ann by (intro step_runs attempt_start) (auto simp: job_working_def)
qed

lemma take_over_running_attempt_runs:
  assumes "take_over_running_attempt e jid aid authority s = Inr (a', s')"
  shows "runs s s'"
proof (rule runsI)
  assume ids: "ids_ok s"
  from assms obtain r a where r: "get_row s jid = Some r" "state r = RUNNING"
    and a: "get_attempt_row s aid = Some a" "a_job_id a = jid" "a_state a = A_RUNNING"
    and auth: "assert_job_authority e jid authority s = Inr ()"
    and rest: "if cancellation_requested r then \<exists>s1. settle_claimed_cancellation e jid s = Inr s1 \<and> s' = s1
      else \<exists>b s1 new s2. announce_attempt e aid (set_attempt_state e aid A_INTERRUPTED s) = Inr (b, s1)
        \<and> create_attempt_conn e jid (a_step_id a) s1 = Inr (new, s2)
        \<and> announce_attempt e (attempt_id new) (s2\<lparr>attempts := sql_update
             (\<lambda>b. attempt_id b = attempt_id new \<and> a_state b = A_PENDING)
             (\<lambda>b. b\<lparr>a_state := A_RUNNING, a_token := fencing_token authority, a_updated_at := utc e\<rparr>) (attempts s2)\<rparr>)
             = Inr (a', s')"
    by (auto simp: take_over_running_attempt_def result_simps Let_def split: if_splits)
  show "runs s s'"
  proof (cases "cancellation_requested r")
    case True
    with rest show ?thesis by (auto intro: settle_claimed_cancellation_runs)
  next
    case False
    with rest obtain b s1 new s2 where
      s1: "announce_attempt e aid (set_attempt_state e aid A_INTERRUPTED s) = Inr (b, s1)" and
      s2: "create_attempt_conn e jid (a_step_id a) s1 = Inr (new, s2)" and
      s3: "announce_attempt e (attempt_id new) (s2\<lparr>attempts := sql_update
             (\<lambda>b. attempt_id b = attempt_id new \<and> a_state b = A_PENDING)
             (\<lambda>b. b\<lparr>a_state := A_RUNNING, a_token := fencing_token authority, a_updated_at := utc e\<rparr>) (attempts s2)\<rparr>)
             = Inr (a', s')"
      by auto
    obtain v1 where f1: "s1 = (set_attempt_state e aid A_INTERRUPTED s)\<lparr>events := events s @ [v1]\<rparr>"
      using announce_attempt_frame [OF s1] by (auto simp: store_updates)
    obtain v2 sts where f2: "s2 = s1\<lparr>steps := sts, attempts := attempts s1 @ [new], events := events s1 @ [v2]\<rparr>"
        "a_job_id new = jid" "a_state new = A_PENDING" "get_attempt_row s1 (attempt_id new) = None"
      using create_attempt_conn_frame [OF s2] by blast
    have same: "get_row s1 jid = get_row s jid" "get_row s2 jid = get_row s jid" "get_lease s2 jid = get_lease s jid"
      by (simp_all add: f1 f2 get_row_def get_lease_def store_updates)
    have 1: "runs s s1"
      using a by (intro attempt_settle_runs [OF s1 a(1)]) (auto simp: LEGAL_ATTEMPT_TRANSITIONS_def)
    have 2: "runs s1 s2"
      using r same by (intro step_runs, intro attempt_new [OF _ s2]) (auto simp: job_live_def)
    have new: "get_attempt_row s2 (attempt_id new) = Some new"
      using f2 by (simp add: get_attempt_row_def fetchone_append)
    have ids2: "ids_ok s2"
      using 1 2 ids by (auto simp: runs_def dest: ids_ok_rtrancl)
    obtain l where l: "get_lease s jid = Some l" "generation l = fencing_token authority"
      using authority_lease [OF auth ids] by blast
    have "announce_attempt e (attempt_id new) (set_attempt_running e (attempt_id new) (fencing_token authority) s2) = Inr (a', s')"
      using s3 attempt_update_by_id [OF ids2 new, of "\<lambda>a. a_state a = A_PENDING"] f2
      by (simp add: set_attempt_running_def update_attempt_def)
    then have "runs s2 s'"
      using r same l f2 False by (intro step_runs, intro attempt_start [OF new]) (auto simp: job_working_def)
    with 1 2 show ?thesis by (meson runs_trans)
  qed
qed

lemma transition_attempt_op_runs:
  assumes "transition_attempt_op e aid st authority s = Inr (a', s')"
  shows "runs s s'"
proof -
  from assms obtain a nxt s1 where st: "st \<noteq> A_RUNNING" and a: "get_attempt_row s aid = Some a"
    and tr: "transition_attempt (a_state a) st = Inr nxt"
    and ann: "announce_attempt e aid (set_attempt_state e aid nxt s) = Inr (a', s1)"
    and idle: "settle_cancelled_job_if_idle e (a_job_id a) s1 = Inr s'"
    by (auto simp: transition_attempt_op_def result_simps split: if_splits)
  have "runs s s1"
    using transition_attempt_InrD [OF tr] st by (intro attempt_settle_runs [OF ann a]) auto
  also have "runs s1 s'" by (rule settle_cancelled_job_if_idle_runs [OF idle])
  finally show ?thesis .
qed

lemma ensure_attempts_settled_Inr: "ensure_attempts_settled jid s = Inr u \<longleftrightarrow> settled jid s"
  by (auto simp: ensure_attempts_settled_def settled_def)

lemma transition_job_op_runs:
  assumes "transition_job_op e jid st authority s = Inr (j, s')"
  shows "runs s s'"
proof -
  from assms obtain r nxt v where r: "get_row s jid = Some r" and st: "st \<noteq> SUCCEEDED" "st \<noteq> CANCELLED"
    and tr: "transition_job (state r) st = Inr nxt"
    and settled: "job_terminal nxt \<Longrightarrow> settled jid s"
    and ev: "insert_job_state_event e jid nxt (set_job_state e jid nxt s) = Inr (v, s')"
    by (auto simp: transition_job_op_def result_simps ensure_attempts_settled_Inr split: if_splits)
  from transition_job_InrD [OF tr] have "nxt = st" "(state r, nxt) \<in> set LEGAL_JOB_TRANSITIONS" by auto
  moreover from this have "may_enter s r nxt"
    using st settled r by (cases nxt) (auto dest: get_row_SomeD)
  ultimately show ?thesis using r by (intro job_move_runs [OF ev]) auto
qed

lemma cancel_challenges_runs: "runs s (cancel_challenges e jid s)"
  unfolding cancel_challenges_def by (rule step_runs [OF withdraw])

lemma job_update_by_id:
  assumes "ids_ok s" and "get_row s jid = Some r" and "q r"
  shows "s\<lparr>jobs := sql_update (\<lambda>r. job_id r = jid \<and> q r) f (jobs s)\<rparr> = update_job jid f s"
proof -
  have r: "r \<in> set (jobs s)" "job_id r = jid" using assms(2) by (auto dest: get_row_SomeD)
  have "b = r" if "b \<in> set (jobs s)" "job_id b = jid" for b
    using assms(1) r that by (auto simp: ids_ok_def distinct_map dest: inj_onD)
  then have "sql_update (\<lambda>r. job_id r = jid \<and> q r) f (jobs s) = sql_update (\<lambda>r. job_id r = jid) f (jobs s)"
    using assms(3) unfolding sql_update_def by (intro map_cong) auto
  then show ?thesis by (simp add: update_job_def)
qed

lemma get_row_update_job:
  assumes "\<And>r. job_id (f r) = job_id r"
  shows "get_row (update_job jid f s) k = map_option (\<lambda>r. if job_id r = jid then f r else r) (get_row s k)"
  using assms by (simp add: get_row_def update_job_def fetchone_key_update)

lemma cancel_job_runs:
  assumes "cancel_job e jid s = Inr (j, s')"
  shows "runs s s'"
proof (rule runsI)
  assume ids: "ids_ok s"
  from assms obtain r where r: "get_row s jid = Some r"
    by (auto simp: cancel_job_def result_simps)
  show "runs s s'"
  proof (cases "job_terminal (state r)")
    case True
    with assms r show ?thesis by (auto simp: cancel_job_def result_simps cancel_challenges_runs split: if_splits)
  next
    case False
    let ?req = "\<lambda>r. r\<lparr>cancellation_requested := True, updated_at := utc e\<rparr>"
    from assms r False obtain s1 s2 where
      s1: "if cancellation_requested r then s1 = s else \<exists>v. insert_event e jid JOB_CANCEL_REQUESTED_EVENT_TYPE
         (dumps (JObj [(''requested'', JBool True)]))
         (s\<lparr>jobs := sql_update (\<lambda>r. job_id r = jid \<and> \<not> cancellation_requested r) ?req (jobs s)\<rparr>) = Inr (v, s1)"
      and s2: "transition_attempts_to_cancelled e jid [A_PENDING] s1 = Inr s2"
      and s3: "settle_cancelled_job_if_idle e jid (cancel_challenges e jid s2) = Inr s'"
      by (auto simp: cancel_job_def result_simps split: if_splits)
    have "runs s s1"
    proof (cases "cancellation_requested r")
      case True
      with s1 show ?thesis by simp
    next
      case not: False
      with s1 obtain v where v: "insert_event e jid JOB_CANCEL_REQUESTED_EVENT_TYPE
          (dumps (JObj [(''requested'', JBool True)])) (update_job jid ?req s) = Inr (v, s1)"
        using job_update_by_id [OF ids r, of "\<lambda>r. \<not> cancellation_requested r" ?req] by auto
      have "runs s (update_job jid ?req s)"
        using r False by (intro step_runs request_cancel) (auto simp: job_live_def)
      also have "runs (update_job jid ?req s) s1"
        using r False
        by (intro step_runs, intro tell [OF _ _ v])
           (auto simp: job_live_def get_row_update_job get_row_SomeD JOB_CANCEL_REQUESTED_EVENT_TYPE_def JOB_STATE_EVENT_TYPE_def)
      finally show ?thesis .
    qed
    also have "runs s1 s2" by (rule transition_attempts_to_cancelled_runs [OF s2]) simp
    also have "runs s2 (cancel_challenges e jid s2)" by (rule cancel_challenges_runs)
    also have "runs (cancel_challenges e jid s2) s'" by (rule settle_cancelled_job_if_idle_runs [OF s3])
    finally show ?thesis .
  qed
qed

lemma append_event_runs:
  assumes "append_event e jid ty payload s = Inr (v, s')"
  shows "runs s s'"
  using assms
  by (intro step_runs, intro tell [of s jid ty e payload v s'])
     (auto simp: append_event_def result_simps job_live_def user_event_type_def INTERNAL_JOB_EVENT_TYPES_def
       dest: validate_initial_events_user split: if_splits)

end
