(* ===== verification/Fencing.thy ===== *)
theory Fencing
  imports Prelude
begin

text \<open>
  The contracts of leases with fencing tokens, and what a client may conclude from them. The scheduler lease
  and the job claims of the store and the machine's resource leases are instances: the first two give
  every token one owner for ever, the machine lease may hand a token to another process.
\<close>

locale fencing_tokens =
  fixes inv :: "'st \<Rightarrow> bool"
    and change :: "'st \<Rightarrow> 'st \<Rightarrow> bool"
    and token_of :: "'st \<Rightarrow> nat"
  assumes inv_kept: "change st st' \<Longrightarrow> inv st \<Longrightarrow> inv st'"
    and token_mono: "change st st' \<Longrightarrow> inv st \<Longrightarrow> token_of st \<le> token_of st'"
begin

lemma inv_later: "change\<^sup>*\<^sup>* st st' \<Longrightarrow> inv st \<Longrightarrow> inv st'"
  by (induction rule: rtranclp_induct) (auto dest: inv_kept)

lemma token_mono_later: "change\<^sup>*\<^sup>* st st' \<Longrightarrow> inv st \<Longrightarrow> token_of st \<le> token_of st'"
  by (induction rule: rtranclp_induct) (auto dest: token_mono inv_later intro: order_trans)

lemma superseded_for_ever: "t < token_of st \<Longrightarrow> change\<^sup>*\<^sup>* st st' \<Longrightarrow> inv st \<Longrightarrow> token_of st' \<noteq> t"
  using token_mono_later by (metis leD)

end

locale owned_tokens = fencing_tokens inv change token_of
  for inv :: "'st \<Rightarrow> bool" and change :: "'st \<Rightarrow> 'st \<Rightarrow> bool" and token_of :: "'st \<Rightarrow> nat" +
  fixes owner_of :: "'st \<Rightarrow> 'o"
  assumes owner_kept: "change st st' \<Longrightarrow> inv st \<Longrightarrow> 0 < token_of st \<Longrightarrow> token_of st' = token_of st
      \<Longrightarrow> owner_of st' = owner_of st"
begin

lemma one_owner_per_token:
  assumes "change\<^sup>*\<^sup>* st st'" and "inv st" and "0 < token_of st" and "token_of st' = token_of st"
  shows "owner_of st' = owner_of st"
  using assms
proof (induction rule: rtranclp_induct)
  case (step y z)
  have inv: "inv y" using step.hyps step.prems inv_later by auto
  have "token_of st \<le> token_of y" "token_of y \<le> token_of z"
    using token_mono [OF step.hyps(2) inv] token_mono_later [OF step.hyps(1)] step.prems by auto
  with step.prems have "token_of y = token_of st" "token_of z = token_of y" by auto
  with step inv show ?case using owner_kept [of y z] by simp
qed simp

end

text \<open>A lease that is granted for a time: the free lease goes to whoever asks, the live one only to its owner.\<close>

locale timed_lease = owned_tokens inv change token_of owner_of
  for inv :: "'st \<Rightarrow> bool" and change :: "'st \<Rightarrow> 'st \<Rightarrow> bool" and token_of :: "'st \<Rightarrow> nat" and owner_of :: "'st \<Rightarrow> 'o" +
  fixes expires_of :: "'st \<Rightarrow> int"
    and acquire :: "int \<Rightarrow> 'o \<Rightarrow> int \<Rightarrow> 'st \<Rightarrow> (nat \<times> 'st) option"
  assumes grant_changes: "acquire now owner ttl st = Some (t, st') \<Longrightarrow> inv st \<Longrightarrow> change st st'"
    and grant_holds: "acquire now owner ttl st = Some (t, st') \<Longrightarrow> inv st \<Longrightarrow>
      token_of st' = t \<and> 0 < t \<and> owner_of st' = owner \<and> now < expires_of st'"
    and grant_renews: "acquire now owner ttl st = Some (t, st') \<Longrightarrow> inv st \<Longrightarrow> 0 < token_of st \<Longrightarrow> now < expires_of st \<Longrightarrow>
      owner = owner_of st \<and> t = token_of st"
    and grant_fences: "acquire now owner ttl st = Some (t, st') \<Longrightarrow> inv st \<Longrightarrow>
      \<not> (0 < token_of st \<and> now < expires_of st) \<Longrightarrow> token_of st < t"
begin

definition holds :: "int \<Rightarrow> 'o \<Rightarrow> nat \<Rightarrow> 'st \<Rightarrow> bool" where
  "holds now owner t st \<longleftrightarrow> 0 < t \<and> token_of st = t \<and> owner_of st = owner \<and> now < expires_of st"

lemma granted_holds: "acquire now owner ttl st = Some (t, st') \<Longrightarrow> inv st \<Longrightarrow> holds now owner t st'"
  using grant_holds by (simp add: holds_def)

text \<open>No one is granted a lease that another owner holds.\<close>

lemma mutual_exclusion:
  assumes "holds now owner t st" and "inv st" and "acquire now owner' ttl st = Some (t', st')"
  shows "owner' = owner \<and> t' = t"
  using assms grant_renews [OF assms(3,2)] by (auto simp: holds_def)

text \<open>Once the lease has gone to another owner, the earlier authority never holds again.\<close>

lemma fenced_for_ever:
  assumes "inv st" "0 < token_of st" "owner_of st = owner" "token_of st = t"
    and "acquire now owner' ttl st = Some (t', st1)" and "owner' \<noteq> owner" and "change\<^sup>*\<^sup>* st1 st2"
  shows "\<not> holds now2 owner2 t st2"
proof -
  have "\<not> (0 < token_of st \<and> now < expires_of st)"
    using assms grant_renews by blast
  then have "t < t'" using grant_fences [OF assms(5,1)] assms(4) by simp
  moreover have "token_of st1 = t'" using grant_holds [OF assms(5,1)] by simp
  moreover have "inv st1" using grant_changes [OF assms(5,1)] inv_kept assms(1) by blast
  ultimately show ?thesis using superseded_for_ever [of t st1 st2] assms(7) by (auto simp: holds_def)
qed

end

end
