(* ===== verification/JobClaims.thy ===== *)
theory JobClaims
  imports JobLifecycle Fencing
begin

text \<open>
  Who may work on a job: the workspace's scheduler lease, and the execution lease of each job, which a
  claim creates, renews or takes over and whose generation is the fencing token of the claim. The two
  are instances of one contract, the locale \<open>timed_lease\<close>.
\<close>

section \<open>The scheduler lease\<close>

definition acquire_scheduler_lease ::
    "env \<Rightarrow> string \<Rightarrow> int \<Rightarrow> store \<Rightarrow> store_error + (execution_authority \<times> store)" where
  "acquire_scheduler_lease e owner ttl_seconds s =
     andthen (validate_lease_ttl ttl_seconds) (\<lambda>_.
     andthen (validate_owner_id owner) (\<lambda>_.
     let now_ms = clock e;
         expires = now_ms + ttl_seconds * 1000;
         granted = (\<lambda>token s1. andthen (execution_authority owner token) (\<lambda>auth. Inr (auth, s1)))
     in case lease s of
          None \<Rightarrow> granted 1 (s\<lparr>lease := Some \<lparr>sl_owner = owner, sl_token = 1, sl_expires_at = expires,
                                  sl_heartbeat_at = now_ms\<rparr>\<rparr>)
        | Some l \<Rightarrow>
            if now_ms < sl_expires_at l then
              if sl_owner l \<noteq> owner then conflict ''scheduler_busy''
              else granted (sl_token l) (s\<lparr>lease := Some (l\<lparr>sl_expires_at := expires, sl_heartbeat_at := now_ms\<rparr>)\<rparr>)
            else granted (sl_token l + 1) (s\<lparr>lease := Some \<lparr>sl_owner = owner, sl_token = sl_token l + 1,
                    sl_expires_at = expires, sl_heartbeat_at = now_ms\<rparr>\<rparr>)))"

definition heartbeat_scheduler_lease ::
    "env \<Rightarrow> any_authority \<Rightarrow> int \<Rightarrow> store \<Rightarrow> store_error + (any_authority \<times> store)" where
  "heartbeat_scheduler_lease e authority ttl_seconds s =
    (case authority of
       JobBound _ \<Rightarrow> invalid ''scheduler_authority_invalid''
     | Leadership auth \<Rightarrow>
         andthen (validate_lease_ttl ttl_seconds) (\<lambda>_.
         let now_ms = clock e in
         case lease s of
           Some l \<Rightarrow>
             if sl_owner l = owner_id auth \<and> sl_token l = fencing_token auth \<and> now_ms < sl_expires_at l
             then Inr (authority, s\<lparr>lease := Some (l\<lparr>sl_expires_at := now_ms + ttl_seconds * 1000,
                                                    sl_heartbeat_at := now_ms\<rparr>)\<rparr>)
             else conflict ''scheduler_lease_lost''
         | None \<Rightarrow> conflict ''scheduler_lease_lost''))"

definition release_scheduler_lease :: "any_authority \<Rightarrow> store \<Rightarrow> store_error + (bool \<times> store)" where
  "release_scheduler_lease authority s =
    (case authority of
       JobBound _ \<Rightarrow> invalid ''scheduler_authority_invalid''
     | Leadership auth \<Rightarrow>
         (case lease s of
            Some l \<Rightarrow>
              if sl_owner l = owner_id auth \<and> sl_token l = fencing_token auth
              then Inr (True, s\<lparr>lease := Some (l\<lparr>sl_expires_at := 0\<rparr>)\<rparr>)
              else Inr (False, s)
          | None \<Rightarrow> Inr (False, s)))"

section \<open>The claim of a job\<close>

record persisted_job_claim =
  claim_job_value :: job
  claim_binding :: job_execution_binding
  claim_authority :: job_execution_authority
  claim_active_attempt :: "attempt option"

definition first_generation :: "store \<Rightarrow> string \<Rightarrow> nat" where
  "first_generation s jid = Suc (foldr max (map a_token (filter (\<lambda>a. a_job_id a = jid) (attempts s))) 0)"

text \<open>The lease part of \<open>claim_job\<close>: the fencing token, and the store with the lease.\<close>

definition bind_claim :: "env \<Rightarrow> string \<Rightarrow> string \<Rightarrow> int \<Rightarrow> store \<Rightarrow> store_error + (nat \<times> store)" where
  "bind_claim e jid owner ttl_seconds s =
    (let now_ms = clock e; expires = now_ms + ttl_seconds * 1000 in
     case get_lease s jid of
       None \<Rightarrow>
         let token = first_generation s jid in
         Inr (token, s\<lparr>job_leases := job_leases s @ [\<lparr>l_job_id = jid, l_owner = owner, generation = token,
                l_expires_at = expires, l_heartbeat_at = now_ms, worker_launch_count = 0\<rparr>]\<rparr>)
     | Some l \<Rightarrow>
         if now_ms < l_expires_at l then
           if l_owner l \<noteq> owner then conflict ''scheduler_busy''
           else Inr (generation l,
                  update_leases (\<lambda>l'. l_job_id l' = jid \<and> l_owner l' = owner \<and> generation l' = generation l)
                    (\<lambda>l'. l'\<lparr>l_expires_at := expires, l_heartbeat_at := now_ms\<rparr>) s)
         else Inr (generation l + 1,
                update_leases (\<lambda>l'. l_job_id l' = jid)
                  (\<lambda>l'. l'\<lparr>l_owner := owner, generation := generation l + 1, l_expires_at := expires,
                          l_heartbeat_at := now_ms\<rparr>) s))"

text \<open>The part after it: the pending attempt, if there is one, starts under the claim's token.\<close>

definition resume_attempt :: "env \<Rightarrow> string \<Rightarrow> nat \<Rightarrow> store \<Rightarrow> store_error + (attempt option \<times> store)" where
  "resume_attempt e jid token s =
    (case active_attempt s jid of
       None \<Rightarrow> Inr (None, s)
     | Some a \<Rightarrow>
         if a_state a = A_PENDING then
           andthen (announce_attempt e (attempt_id a)
              (s\<lparr>attempts := sql_update (\<lambda>b. attempt_id b = attempt_id a \<and> a_state b = A_PENDING)
                  (\<lambda>b. b\<lparr>a_state := A_RUNNING, a_token := token, a_updated_at := utc e\<rparr>) (attempts s)\<rparr>))
             (\<lambda>(a', s'). Inr (Some a', s'))
         else Inr (Some a, s))"

definition claim_job ::
    "env \<Rightarrow> string \<Rightarrow> string \<Rightarrow> int \<Rightarrow> store \<Rightarrow> store_error + (persisted_job_claim \<times> store)" where
  "claim_job e jid owner ttl_seconds s =
     andthen (validate_lease_ttl ttl_seconds) (\<lambda>_.
     andthen (validate_owner_id owner) (\<lambda>_.
     andthen (get_job s jid) (\<lambda>j.
       if state j \<noteq> QUEUED \<and> state j \<noteq> RUNNING then conflict ''job_not_claimable''
       else
         andthen (get_execution_binding s jid) (\<lambda>b.
         andthen (bind_claim e jid owner ttl_seconds s) (\<lambda>(token, s1).
         andthen (job_execution_authority owner token jid) (\<lambda>auth.
           if cancellation_requested j then
             andthen (settle_claimed_cancellation e jid s1) (\<lambda>s2.
             andthen (get_job s2 jid) (\<lambda>j2.
               Inr (\<lparr>claim_job_value = j2, claim_binding = b, claim_authority = auth, claim_active_attempt = None\<rparr>, s2)))
           else
             andthen (if state j = QUEUED then
                        andthen (insert_job_state_event e jid RUNNING (set_job_state e jid RUNNING s1)) (\<lambda>(_, s2).
                        andthen (get_job s2 jid) (\<lambda>j2. Inr (j2, s2)))
                      else Inr (j, s1)) (\<lambda>(j2, s2).
             andthen (resume_attempt e jid token s2) (\<lambda>(a, s3).
               Inr (\<lparr>claim_job_value = j2, claim_binding = b, claim_authority = auth, claim_active_attempt = a\<rparr>, s3)))))))))"

definition owned_lease :: "job_execution_authority \<Rightarrow> job_lease \<Rightarrow> bool" where
  "owned_lease auth l \<longleftrightarrow> l_job_id l = x_job_id auth \<and> l_owner l = owner_id auth \<and> generation l = fencing_token auth"

definition heartbeat_job_claim ::
    "env \<Rightarrow> job_execution_authority \<Rightarrow> int \<Rightarrow> store \<Rightarrow> store_error + (job_execution_authority \<times> store)" where
  "heartbeat_job_claim e auth ttl_seconds s =
     andthen (validate_lease_ttl ttl_seconds) (\<lambda>_.
     let now_ms = clock e; p = (\<lambda>l. owned_lease auth l \<and> now_ms < l_expires_at l) in
     if rowcount p (job_leases s) \<noteq> 1 then job_claim_fenced
     else Inr (auth, update_leases p
            (\<lambda>l. l\<lparr>l_expires_at := now_ms + ttl_seconds * 1000, l_heartbeat_at := now_ms\<rparr>) s))"

definition release_job_claim :: "job_execution_authority \<Rightarrow> store \<Rightarrow> store_error + (bool \<times> store)" where
  "release_job_claim auth s =
     Inr (rowcount (owned_lease auth) (job_leases s) = 1,
          update_leases (owned_lease auth) (\<lambda>l. l\<lparr>l_expires_at := 0\<rparr>) s)"

section \<open>Worker launches\<close>

definition get_engine_worker_launch_count :: "string \<Rightarrow> store \<Rightarrow> store_error + nat" where
  "get_engine_worker_launch_count jid s =
     andthen (get_job s jid) (\<lambda>_.
       Inr (case get_lease s jid of None \<Rightarrow> 0 | Some l \<Rightarrow> worker_launch_count l))"

definition record_engine_worker_launch ::
    "env \<Rightarrow> string \<Rightarrow> job_execution_authority \<Rightarrow> store \<Rightarrow> store_error + (nat \<times> store)" where
  "record_engine_worker_launch e jid auth s =
     andthen (get_job s jid) (\<lambda>j.
     andthen (assert_job_authority e jid auth s) (\<lambda>_.
       if state j \<noteq> RUNNING then conflict ''engine_worker_launch_not_running''
       else let s1 = update_leases (\<lambda>l. l_job_id l = jid) (\<lambda>l. l\<lparr>worker_launch_count := worker_launch_count l + 1\<rparr>) s
            in case get_lease s1 jid of
                 Some l \<Rightarrow> Inr (worker_launch_count l, s1)
               | None \<Rightarrow> Inl (IntegrityError ''worker_launch_count'')))"

definition clear_engine_worker_launches ::
    "string \<Rightarrow> job_execution_authority \<Rightarrow> store \<Rightarrow> store_error + (bool \<times> store)" where
  "clear_engine_worker_launches jid auth s =
     andthen (get_job s jid) (\<lambda>_.
       let p = (\<lambda>l. l_job_id l = jid \<and> l_owner l = owner_id auth \<and> generation l = fencing_token auth) in
       case fetchone p (job_leases s) of
         None \<Rightarrow> job_claim_fenced
       | Some l \<Rightarrow>
           if worker_launch_count l \<noteq> 0
           then Inr (True, update_leases p (\<lambda>l. l\<lparr>worker_launch_count := 0\<rparr>) s)
           else Inr (False, s))"

section \<open>What every step keeps of the leases\<close>

lemma get_lease_update_leases:
  assumes "\<And>l. l_job_id (f l) = l_job_id l"
  shows "get_lease (update_leases p f s) jid = map_option (\<lambda>l. if p l then f l else l) (get_lease s jid)"
  using assms by (simp add: get_lease_def update_leases_def fetchone_key_update)

lemma create_frame:
  assumes "insert_events e jid evs s0 = Inr s1" "insert_job_state_event e jid st s1 = Inr (v, s')"
  shows "\<exists>vs. s' = s0\<lparr>events := events s0 @ vs @ [v]\<rparr> \<and> list_all (\<lambda>v. e_job_id v = jid) vs
    \<and> map (\<lambda>v. (event_type v, payload_json v)) vs = evs \<and> e_job_id v = jid
    \<and> event_type v = JOB_STATE_EVENT_TYPE \<and> payload_json v = job_state_payload st"
proof -
  obtain vs where vs: "s1 = s0\<lparr>events := events s0 @ vs\<rparr>"
      "map (\<lambda>v. (e_job_id v, event_type v, payload_json v)) vs = map (\<lambda>(ty, payload). (jid, ty, payload)) evs"
    using insert_events_frame [OF assms(1)] by blast
  from vs(2) have "list_all (\<lambda>v. e_job_id v = jid) vs \<and> map (\<lambda>v. (event_type v, payload_json v)) vs = evs"
  proof (induction vs arbitrary: evs)
    case (Cons v vs)
    then show ?case by (cases evs) auto
  qed simp
  with vs show ?thesis using insert_job_state_event_frame [OF assms(2)] by auto
qed

lemma step_job_lease:
  assumes "store_step s s'" and "get_lease s jid = Some l"
  shows "\<exists>l'. get_lease s' jid = Some l'
    \<and> (generation l < generation l' \<or> generation l' = generation l \<and> l_owner l' = l_owner l)"
  using assms(1)
proof cases
  case (create r b evs e s1 v)
  then show ?thesis using assms(2) create_frame by (fastforce simp: get_lease_def)
next
  case (claim_new l0)
  then show ?thesis using assms(2) by (auto simp: get_lease_def fetchone_append)
next
  case (claim_update f p)
  then show ?thesis using assms(2) by (auto simp: get_lease_update_leases)
qed (use assms(2) in \<open>(auto simp: get_lease_def store_updates dest!: frame_dests)\<close>)

lemma step_scheduler_lease:
  assumes "store_step s s'" and "lease s = Some l"
  shows "\<exists>l'. lease s' = Some l' \<and> (sl_token l < sl_token l' \<or> sl_token l' = sl_token l \<and> sl_owner l' = sl_owner l)"
  using assms(1)
proof cases
  case (create r b evs e s1 v)
  then show ?thesis using assms(2) create_frame by fastforce
qed (use assms(2) in \<open>(auto simp: store_updates dest!: frame_dests)\<close>)

section \<open>The operations are sequences of steps\<close>

lemma cancel_rows_frame:
  "cancel_rows e rs s = Inr s' \<Longrightarrow> jobs s' = jobs s \<and> job_leases s' = job_leases s \<and> lease s' = lease s
     \<and> challenges s' = challenges s \<and> operations s' = operations s"
proof (induction rs arbitrary: s)
  case (Cons r rs)
  then show ?case
    by (fastforce simp: result_simps Let_def split: if_splits prod.splits dest!: announce_attempt_frame)
qed simp

lemma settle_idle_frame:
  "settle_cancelled_job_if_idle e jid s = Inr s' \<Longrightarrow> job_leases s' = job_leases s \<and> lease s' = lease s
     \<and> attempts s' = attempts s \<and> challenges s' = challenges s \<and> operations s' = operations s"
  by (auto simp: settle_cancelled_job_if_idle_def result_simps store_updates split: option.splits if_splits
      dest!: insert_job_state_event_frame)

lemma settle_claimed_frame:
  "settle_claimed_cancellation e jid s = Inr s' \<Longrightarrow> job_leases s' = job_leases s \<and> lease s' = lease s
     \<and> challenges s' = challenges s"
  by (auto simp: settle_claimed_cancellation_def Let_def result_simps transition_attempts_to_cancelled_def
      store_updates dest!: cancel_rows_frame settle_idle_frame)

lemma bind_claim_cases:
  assumes "bind_claim e jid owner ttl s = Inr (token, s1)"
  shows "get_lease s jid = None \<and> token = first_generation s jid \<and> s1 = s\<lparr>job_leases := job_leases s @
           [\<lparr>l_job_id = jid, l_owner = owner, generation = token, l_expires_at = clock e + ttl * 1000,
             l_heartbeat_at = clock e, worker_launch_count = 0\<rparr>]\<rparr>
    \<or> (\<exists>l. get_lease s jid = Some l \<and> clock e < l_expires_at l \<and> l_owner l = owner \<and> token = generation l
         \<and> s1 = update_leases (\<lambda>l'. l_job_id l' = jid \<and> l_owner l' = owner \<and> generation l' = generation l)
               (\<lambda>l'. l'\<lparr>l_expires_at := clock e + ttl * 1000, l_heartbeat_at := clock e\<rparr>) s)
    \<or> (\<exists>l. get_lease s jid = Some l \<and> l_expires_at l \<le> clock e \<and> token = Suc (generation l)
         \<and> s1 = update_leases (\<lambda>l'. l_job_id l' = jid) (\<lambda>l'. l'\<lparr>l_owner := owner, generation := Suc (generation l),
               l_expires_at := clock e + ttl * 1000, l_heartbeat_at := clock e\<rparr>) s)"
  using assms by (auto simp: bind_claim_def Let_def split: option.splits if_splits)

text \<open>After it, the job's lease is the claim.\<close>

lemma bind_claim_lease:
  assumes "bind_claim e jid owner ttl s = Inr (token, s1)"
  shows "\<exists>l. get_lease s1 jid = Some l \<and> l_owner l = owner \<and> generation l = token \<and> l_expires_at l = clock e + ttl * 1000"
  using bind_claim_cases [OF assms]
proof (elim disjE exE conjE)
  assume "get_lease s jid = None" "s1 = s\<lparr>job_leases := job_leases s @
           [\<lparr>l_job_id = jid, l_owner = owner, generation = token, l_expires_at = clock e + ttl * 1000,
             l_heartbeat_at = clock e, worker_launch_count = 0\<rparr>]\<rparr>"
  then show ?thesis by (simp add: get_lease_def fetchone_append)
qed (auto simp: get_lease_update_leases dest: get_lease_SomeD)

lemma bind_claim_frame:
  assumes "bind_claim e jid owner ttl s = Inr (token, s1)"
  shows "jobs s1 = jobs s \<and> attempts s1 = attempts s \<and> challenges s1 = challenges s \<and> operations s1 = operations s
    \<and> events s1 = events s \<and> lease s1 = lease s"
  using bind_claim_cases [OF assms] by (auto simp: store_updates)

lemma max_less_first_generation: "a \<in> set (attempts s) \<Longrightarrow> a_job_id a = jid \<Longrightarrow> a_token a < first_generation s jid"
proof -
  have *: "x \<in> set xs \<Longrightarrow> x \<le> foldr max xs (0::nat)" for x xs
    by (induction xs) auto
  assume "a \<in> set (attempts s)" "a_job_id a = jid"
  then have "a_token a \<in> set (map a_token (filter (\<lambda>a. a_job_id a = jid) (attempts s)))" by auto
  from * [OF this] show ?thesis by (simp add: first_generation_def)
qed

lemma bind_claim_runs:
  assumes "bind_claim e jid owner ttl s = Inr (token, s1)" and "get_row s jid \<noteq> None"
  shows "runs s s1"
proof (rule runsI)
  assume ids: "ids_ok s"
  have one: "l' = l" if "get_lease s jid = Some l" "l' \<in> set (job_leases s)" "l_job_id l' = jid" for l l'
    using ids that by (auto simp: ids_ok_def distinct_map dest!: get_lease_SomeD dest: inj_onD)
  from bind_claim_cases [OF assms(1)] show "runs s s1"
  proof (elim disjE exE conjE)
    assume "get_lease s jid = None" "token = first_generation s jid" "s1 = s\<lparr>job_leases := job_leases s @
           [\<lparr>l_job_id = jid, l_owner = owner, generation = token, l_expires_at = clock e + ttl * 1000,
             l_heartbeat_at = clock e, worker_launch_count = 0\<rparr>]\<rparr>"
    with assms(2) show ?thesis
      by (auto intro!: step_runs claim_new max_less_first_generation) (simp_all add: first_generation_def)
  next
    fix l assume l: "get_lease s jid = Some l"
      and s1: "s1 = update_leases (\<lambda>l'. l_job_id l' = jid) (\<lambda>l'. l'\<lparr>l_owner := owner, generation := Suc (generation l),
               l_expires_at := clock e + ttl * 1000, l_heartbeat_at := clock e\<rparr>) s"
    have "s1 = update_leases (\<lambda>l'. l' = l) (\<lambda>l'. l'\<lparr>l_owner := owner, generation := Suc (generation l),
               l_expires_at := clock e + ttl * 1000, l_heartbeat_at := clock e\<rparr>) s"
      unfolding s1 update_leases_def sql_update_def
      by (intro arg_cong [where f = "\<lambda>x. s\<lparr>job_leases := x\<rparr>"] map_cong) (use l one in \<open>auto dest: get_lease_SomeD\<close>)
    then show ?thesis by (auto intro!: step_runs claim_update)
  qed (auto intro!: step_runs claim_update)
qed

lemma resume_attempt_frame:
  "resume_attempt e jid token s = Inr (a, s') \<Longrightarrow> jobs s' = jobs s \<and> job_leases s' = job_leases s \<and> lease s' = lease s"
  by (auto simp: resume_attempt_def result_simps split: option.splits if_splits dest!: announce_attempt_frame)

lemma active_attempt_SomeD:
  assumes "active_attempt s jid = Some a"
  shows "a \<in> set (attempts s) \<and> a_job_id a = jid \<and> unsettled a"
  using last_by_SomeD [OF assms [unfolded active_attempt_def]] by auto

lemma resume_attempt_runs:
  assumes "resume_attempt e jid token s = Inr (a', s')" and "job_working s jid"
    and "get_lease s jid = Some l" "generation l = token"
  shows "runs s s'"
proof (rule runsI)
  assume ids: "ids_ok s"
  show "runs s s'"
  proof (cases "active_attempt s jid")
    case None
    with assms(1) show ?thesis by (simp add: resume_attempt_def)
  next
    case (Some a)
    then have a: "a \<in> set (attempts s)" "a_job_id a = jid" by (auto dest: active_attempt_SomeD)
    with ids have row: "get_attempt_row s (attempt_id a) = Some a"
      by (auto simp: get_attempt_row_def ids_ok_def dest: distinct_fetchone)
    show ?thesis
    proof (cases "a_state a = A_PENDING")
      case True
      with Some assms(1) obtain a2 where "announce_attempt e (attempt_id a)
          (s\<lparr>attempts := sql_update (\<lambda>b. attempt_id b = attempt_id a \<and> a_state b = A_PENDING)
             (\<lambda>b. b\<lparr>a_state := A_RUNNING, a_token := token, a_updated_at := utc e\<rparr>) (attempts s)\<rparr>) = Inr (a2, s')"
        by (auto simp: resume_attempt_def result_simps)
      then have "announce_attempt e (attempt_id a) (set_attempt_running e (attempt_id a) token s) = Inr (a2, s')"
        using attempt_update_by_id [OF ids row, of "\<lambda>a. a_state a = A_PENDING"] True
        by (simp add: set_attempt_running_def update_attempt_def)
      with a assms True show ?thesis by (intro step_runs attempt_start [OF row]) auto
    next
      case False
      with Some assms(1) show ?thesis by (simp add: resume_attempt_def)
    qed
  qed
qed

lemma job_execution_authority_Inr:
  "job_execution_authority owner token jid = Inr auth \<Longrightarrow>
     owner_id auth = owner \<and> fencing_token auth = token \<and> x_job_id auth = jid \<and> 1 \<le> token"
  by (auto simp: job_execution_authority_def split: if_splits)

lemma execution_authority_Inr:
  "execution_authority owner token = Inr auth \<Longrightarrow> owner_id auth = owner \<and> fencing_token auth = token \<and> 1 \<le> token"
  by (auto simp: execution_authority_def split: if_splits)

text \<open>A successful claim, part by part.\<close>

lemma claim_job_Inr:
  assumes "claim_job e jid owner ttl s = Inr (c, s')"
  obtains r b token s1 where "lease_ttl_valid ttl" "owner_id_valid owner" "get_row s jid = Some r" "state r = QUEUED \<or> state r = RUNNING"
    "get_execution_binding s jid = Inr b" "claim_binding c = b"
    "bind_claim e jid owner ttl s = Inr (token, s1)"
    "job_execution_authority owner token jid = Inr (claim_authority c)"
    "cancellation_requested r \<longrightarrow> settle_claimed_cancellation e jid s1 = Inr s'"
    "\<not> cancellation_requested r \<longrightarrow> (\<exists>s2. (if state r = QUEUED then \<exists>v.
        insert_job_state_event e jid RUNNING (set_job_state e jid RUNNING s1) = Inr (v, s2) else s2 = s1)
      \<and> resume_attempt e jid token s2 = Inr (claim_active_attempt c, s'))"
  using assms
  by (auto simp: claim_job_def result_simps validate_owner_id_def split: if_splits prod.splits)

lemma claim_job_runs:
  assumes "claim_job e jid owner ttl s = Inr (c, s')"
  shows "runs s s'"
proof -
  obtain r token s1 where r: "get_row s jid = Some r" "state r = QUEUED \<or> state r = RUNNING"
    and bind: "bind_claim e jid owner ttl s = Inr (token, s1)"
    and can: "cancellation_requested r \<longrightarrow> settle_claimed_cancellation e jid s1 = Inr s'"
    and go: "\<not> cancellation_requested r \<longrightarrow> (\<exists>s2. (if state r = QUEUED then \<exists>v.
        insert_job_state_event e jid RUNNING (set_job_state e jid RUNNING s1) = Inr (v, s2) else s2 = s1)
      \<and> resume_attempt e jid token s2 = Inr (claim_active_attempt c, s'))"
    by (rule claim_job_Inr [OF assms]) (rule that; assumption)
  have 1: "runs s s1" using bind_claim_runs [OF bind] r by simp
  have r1: "get_row s1 jid = Some r" using bind_claim_frame [OF bind] r by (simp add: get_row_def)
  obtain l where l: "get_lease s1 jid = Some l" "generation l = token" using bind_claim_lease [OF bind] by blast
  show ?thesis
  proof (cases "cancellation_requested r")
    case True
    with 1 can show ?thesis by (blast intro: runs_trans settle_claimed_cancellation_runs)
  next
    case False
    with go obtain s2 where s2: "if state r = QUEUED then \<exists>v.
        insert_job_state_event e jid RUNNING (set_job_state e jid RUNNING s1) = Inr (v, s2) else s2 = s1"
      and res: "resume_attempt e jid token s2 = Inr (claim_active_attempt c, s')" by blast
    have "runs s1 s2 \<and> job_working s2 jid \<and> get_lease s2 jid = Some l"
    proof (cases "state r = QUEUED")
      case True
      with s2 obtain v where v: "insert_job_state_event e jid RUNNING (set_job_state e jid RUNNING s1) = Inr (v, s2)" by auto
      have "runs s1 s2" using True by (intro job_move_runs [OF v r1]) (auto simp: LEGAL_JOB_TRANSITIONS_def)
      moreover have "get_row s2 jid = get_row (set_job_state e jid RUNNING s1) jid"
        using insert_job_state_event_frame [OF v] by (auto simp: get_row_def)
      then have "get_row s2 jid = Some (move_row (utc e) RUNNING None None r)"
        using r1 by (auto simp: set_job_state_move get_row_update_job dest: get_row_SomeD)
      ultimately show ?thesis
        using r1 l False insert_job_state_event_frame [OF v] by (auto simp: job_working_def get_lease_def store_updates)
    next
      case not_queued: False
      with s2 r r1 l False show ?thesis by (auto simp: job_working_def)
    qed
    with 1 res l show ?thesis by (blast intro: runs_trans resume_attempt_runs)
  qed
qed

text \<open>The lease after a successful claim.\<close>

lemma claim_job_lease:
  assumes "claim_job e jid owner ttl s = Inr (c, s')"
  shows "\<exists>l s1. bind_claim e jid owner ttl s = Inr (fencing_token (claim_authority c), s1)
    \<and> get_lease s' jid = Some l \<and> l_owner l = owner \<and> generation l = fencing_token (claim_authority c)
    \<and> owner_id (claim_authority c) = owner \<and> x_job_id (claim_authority c) = jid \<and> 1 \<le> generation l
    \<and> l_expires_at l = clock e + ttl * 1000 \<and> lease_ttl_valid ttl"
proof -
  obtain r token s1 where ttl: "lease_ttl_valid ttl" and "get_row s jid = Some r" and bind: "bind_claim e jid owner ttl s = Inr (token, s1)"
    and auth: "job_execution_authority owner token jid = Inr (claim_authority c)"
    and can: "cancellation_requested r \<longrightarrow> settle_claimed_cancellation e jid s1 = Inr s'"
    and go: "\<not> cancellation_requested r \<longrightarrow> (\<exists>s2. (if state r = QUEUED then \<exists>v.
        insert_job_state_event e jid RUNNING (set_job_state e jid RUNNING s1) = Inr (v, s2) else s2 = s1)
      \<and> resume_attempt e jid token s2 = Inr (claim_active_attempt c, s'))"
    by (rule claim_job_Inr [OF assms], rule that, assumption+)
  have "job_leases s' = job_leases s1"
  proof (cases "cancellation_requested r")
    case True
    with can have "settle_claimed_cancellation e jid s1 = Inr s'" by simp
    then show ?thesis by (simp add: settle_claimed_frame)
  next
    case False
    with go show ?thesis
      by (auto split: if_splits simp: store_updates dest!: resume_attempt_frame insert_job_state_event_frame)
  qed
  then have "get_lease s' jid = get_lease s1 jid" by (simp add: get_lease_def)
  with bind_claim_lease [OF bind] bind ttl job_execution_authority_Inr [OF auth] show ?thesis by auto
qed

lemma heartbeat_job_claim_runs: "heartbeat_job_claim e auth ttl s = Inr (a, s') \<Longrightarrow> runs s s'"
  by (auto simp: heartbeat_job_claim_def Let_def result_simps split: if_splits intro!: step_runs claim_update)

lemma release_job_claim_runs: "release_job_claim auth s = Inr (b, s') \<Longrightarrow> runs s s'"
  by (auto simp: release_job_claim_def intro!: step_runs claim_update)

lemma record_engine_worker_launch_runs: "record_engine_worker_launch e jid auth s = Inr (n, s') \<Longrightarrow> runs s s'"
  by (auto simp: record_engine_worker_launch_def Let_def result_simps split: if_splits intro!: step_runs claim_update)

lemma clear_engine_worker_launches_runs: "clear_engine_worker_launches jid auth s = Inr (b, s') \<Longrightarrow> runs s s'"
  by (auto simp: clear_engine_worker_launches_def Let_def result_simps split: if_splits)
     (rule step_runs, rule claim_update, simp_all)

lemma acquire_scheduler_lease_runs: "acquire_scheduler_lease e owner ttl s = Inr (a, s') \<Longrightarrow> runs s s'"
  by (auto simp: acquire_scheduler_lease_def Let_def result_simps split: option.splits if_splits
      intro!: step_runs lead dest!: execution_authority_Inr)

lemma heartbeat_scheduler_lease_runs:
  "heartbeat_scheduler_lease e authority ttl s = Inr (a, s') \<Longrightarrow> runs s s'"
  by (auto simp: heartbeat_scheduler_lease_def Let_def result_simps split: any_authority.splits option.splits if_splits
      intro!: step_runs lead)

lemma release_scheduler_lease_runs: "release_scheduler_lease authority s = Inr (b, s') \<Longrightarrow> runs s s'"
  by (auto simp: release_scheduler_lease_def split: any_authority.splits option.splits if_splits
      intro!: step_runs lead)

section \<open>The contract of leases, for both\<close>

definition scheduler_token :: "store \<Rightarrow> nat" where
  "scheduler_token s = (case lease s of None \<Rightarrow> 0 | Some l \<Rightarrow> sl_token l)"

definition scheduler_owner :: "store \<Rightarrow> string" where
  "scheduler_owner s = (case lease s of None \<Rightarrow> [] | Some l \<Rightarrow> sl_owner l)"

definition scheduler_expiry :: "store \<Rightarrow> int" where
  "scheduler_expiry s = (case lease s of None \<Rightarrow> 0 | Some l \<Rightarrow> sl_expires_at l)"

definition scheduler_grant :: "env \<Rightarrow> int \<Rightarrow> string \<Rightarrow> int \<Rightarrow> store \<Rightarrow> (nat \<times> store) option" where
  "scheduler_grant e now owner ttl s =
    (case acquire_scheduler_lease (e\<lparr>clock := now\<rparr>) owner ttl s of
       Inl _ \<Rightarrow> None | Inr (auth, s') \<Rightarrow> Some (fencing_token auth, s'))"

definition claim_token :: "string \<Rightarrow> store \<Rightarrow> nat" where
  "claim_token jid s = (case get_lease s jid of None \<Rightarrow> 0 | Some l \<Rightarrow> generation l)"

definition claim_owner :: "string \<Rightarrow> store \<Rightarrow> string" where
  "claim_owner jid s = (case get_lease s jid of None \<Rightarrow> [] | Some l \<Rightarrow> l_owner l)"

definition claim_expiry :: "string \<Rightarrow> store \<Rightarrow> int" where
  "claim_expiry jid s = (case get_lease s jid of None \<Rightarrow> 0 | Some l \<Rightarrow> l_expires_at l)"

definition claim_grant :: "env \<Rightarrow> string \<Rightarrow> int \<Rightarrow> string \<Rightarrow> int \<Rightarrow> store \<Rightarrow> (nat \<times> store) option" where
  "claim_grant e jid now owner ttl s =
    (case claim_job (e\<lparr>clock := now\<rparr>) jid owner ttl s of
       Inl _ \<Rightarrow> None | Inr (c, s') \<Rightarrow> Some (fencing_token (claim_authority c), s'))"

lemma steps_job_lease:
  assumes "store_step\<^sup>*\<^sup>* s s'" and "get_lease s jid = Some l"
  shows "\<exists>l'. get_lease s' jid = Some l'
    \<and> (generation l < generation l' \<or> generation l' = generation l \<and> l_owner l' = l_owner l)"
  using assms
proof (induction rule: rtranclp_induct)
  case (step y z)
  then obtain l1 where "get_lease y jid = Some l1"
      "generation l < generation l1 \<or> generation l1 = generation l \<and> l_owner l1 = l_owner l" by blast
  then show ?case using step_job_lease [OF step.hyps(2)] by fastforce
qed auto

lemma steps_scheduler_lease:
  assumes "store_step\<^sup>*\<^sup>* s s'" and "lease s = Some l"
  shows "\<exists>l'. lease s' = Some l' \<and> (sl_token l < sl_token l' \<or> sl_token l' = sl_token l \<and> sl_owner l' = sl_owner l)"
  using assms
proof (induction rule: rtranclp_induct)
  case (step y z)
  then obtain l1 where "lease y = Some l1"
      "sl_token l < sl_token l1 \<or> sl_token l1 = sl_token l \<and> sl_owner l1 = sl_owner l" by blast
  then show ?case using step_scheduler_lease [OF step.hyps(2)] by fastforce
qed auto

interpretation scheduler: timed_lease ids_ok "store_step\<^sup>*\<^sup>*" scheduler_token scheduler_owner scheduler_expiry
    "scheduler_grant e" for e
proof (unfold_locales, goal_cases)
  case (1 st st')
  then show ?case by (rule ids_ok_rtrancl)
next
  case (2 st st')
  then show ?case using steps_scheduler_lease [OF 2(1)] by (fastforce simp: scheduler_token_def split: option.splits)
next
  case (3 st st')
  then show ?case using steps_scheduler_lease [OF 3(1)]
    by (fastforce simp: scheduler_token_def scheduler_owner_def split: option.splits)
next
  case (4 now owner ttl st t st')
  then show ?case
    using acquire_scheduler_lease_runs [of "e\<lparr>clock := now\<rparr>" owner ttl st _ st']
    by (auto simp: scheduler_grant_def runs_def split: sum.splits)
next
  case (5 now owner ttl st t st')
  then show ?case
    by (auto simp: scheduler_grant_def acquire_scheduler_lease_def Let_def result_simps scheduler_token_def
        scheduler_owner_def scheduler_expiry_def lease_ttl_valid_def MIN_LEASE_TTL_SECONDS_def
        split: sum.splits option.splits if_splits dest!: execution_authority_Inr)
next
  case (6 now owner ttl st t st')
  then show ?case
    by (auto simp: scheduler_grant_def acquire_scheduler_lease_def Let_def result_simps scheduler_token_def
        scheduler_owner_def scheduler_expiry_def
        split: sum.splits option.splits if_splits dest!: execution_authority_Inr)
next
  case (7 now owner ttl st t st')
  then show ?case
    by (auto simp: scheduler_grant_def acquire_scheduler_lease_def Let_def result_simps scheduler_token_def
        scheduler_owner_def scheduler_expiry_def
        split: sum.splits option.splits if_splits dest!: execution_authority_Inr)
qed

text \<open>Before it is bound, a job's lease is missing, live or expired; this is how the new token relates to it.\<close>

lemma bind_claim_token:
  assumes "bind_claim e jid owner ttl s = Inr (token, s1)"
  shows "0 < claim_token jid s \<and> clock e < claim_expiry jid s \<longrightarrow> owner = claim_owner jid s \<and> token = claim_token jid s"
    and "\<not> (0 < claim_token jid s \<and> clock e < claim_expiry jid s) \<longrightarrow> claim_token jid s < token
      \<or> token = claim_token jid s \<and> token = 0"
  using bind_claim_cases [OF assms]
  by (auto simp: claim_token_def claim_owner_def claim_expiry_def first_generation_def)

interpretation claims: timed_lease ids_ok "store_step\<^sup>*\<^sup>*" "claim_token jid" "claim_owner jid" "claim_expiry jid"
    "claim_grant e jid" for e jid
proof (unfold_locales, goal_cases)
  case (1 st st')
  then show ?case by (rule ids_ok_rtrancl)
next
  case (2 st st')
  then show ?case using steps_job_lease [OF 2(1), of jid] by (fastforce simp: claim_token_def split: option.splits)
next
  case (3 st st')
  then show ?case using steps_job_lease [OF 3(1), of jid]
    by (fastforce simp: claim_token_def claim_owner_def split: option.splits)
next
  case (4 now owner ttl st t st')
  then show ?case
    using claim_job_runs [of "e\<lparr>clock := now\<rparr>" jid owner ttl st _ st']
    by (auto simp: claim_grant_def runs_def split: sum.splits)
next
  case (5 now owner ttl st t st')
  then obtain c where c: "claim_job (e\<lparr>clock := now\<rparr>) jid owner ttl st = Inr (c, st')" "t = fencing_token (claim_authority c)"
    by (auto simp: claim_grant_def split: sum.splits)
  show ?case
    using claim_job_lease [OF c(1)] c(2)
    by (auto simp: claim_token_def claim_owner_def claim_expiry_def lease_ttl_valid_def MIN_LEASE_TTL_SECONDS_def)
next
  case (6 now owner ttl st t st')
  then obtain c where c: "claim_job (e\<lparr>clock := now\<rparr>) jid owner ttl st = Inr (c, st')" "t = fencing_token (claim_authority c)"
    by (auto simp: claim_grant_def split: sum.splits)
  show ?case
    using claim_job_lease [OF c(1)] c(2) 6 bind_claim_token(1) [of "e\<lparr>clock := now\<rparr>" jid owner ttl st t] by auto
next
  case (7 now owner ttl st t st')
  then obtain c where c: "claim_job (e\<lparr>clock := now\<rparr>) jid owner ttl st = Inr (c, st')" "t = fencing_token (claim_authority c)"
    by (auto simp: claim_grant_def split: sum.splits)
  show ?case
    using claim_job_lease [OF c(1)] c(2) 7 bind_claim_token(2) [of "e\<lparr>clock := now\<rparr>" jid owner ttl st t] by auto
qed

text \<open>An accepted authority is the holder of the job's lease.\<close>

lemma authority_holds:
  assumes "assert_job_authority e jid auth s = Inr u" and "ids_ok s" and "1 \<le> fencing_token auth"
  shows "claims.holds jid (clock e) (owner_id auth) (fencing_token auth) s"
  using authority_lease [OF assms(1,2)] assms(3)
  by (auto simp: claims.holds_def claim_token_def claim_owner_def claim_expiry_def)

end
