(* ===== verification/StoreInvariants.thy ===== *)
theory StoreInvariants
  imports JobClaims
begin

text \<open>
  What every step keeps of the store. Each group of tables has its own predicate; \<open>store_ok\<close> is their
  conjunction. How one row may differ in a later store is the subject of \<open>StoreHistory\<close>.
\<close>

section \<open>Invariants\<close>

definition jobs_ok :: "store \<Rightarrow> bool" where
  "jobs_ok s \<longleftrightarrow> (\<forall>r \<in> set (jobs s). (state r = SUCCEEDED \<longrightarrow> \<not> cancellation_requested r)
     \<and> (state r = CANCELLED \<longrightarrow> cancellation_requested r)
     \<and> (result r \<noteq> None \<longrightarrow> state r = SUCCEEDED) \<and> (error_json r \<noteq> None \<longrightarrow> state r = FAILED))"

definition keys_ok :: "store \<Rightarrow> bool" where
  "keys_ok s \<longleftrightarrow> (\<forall>r \<in> set (jobs s). \<forall>r' \<in> set (jobs s). client_request_id r \<noteq> None
     \<and> client_request_id r' = client_request_id r \<and> principal r' = principal r \<longrightarrow> job_id r' = job_id r)"

definition bindings_ok :: "store \<Rightarrow> bool" where
  "bindings_ok s \<longleftrightarrow> (\<forall>r \<in> set (jobs s). \<exists>b. map_of (bindings s) (job_id r) = Some b \<and> job_execution_binding_valid b)"

definition owners_ok :: "store \<Rightarrow> bool" where
  "owners_ok s \<longleftrightarrow> (\<forall>a \<in> set (attempts s). get_row s (a_job_id a) \<noteq> None)
     \<and> (\<forall>v \<in> set (events s). get_row s (e_job_id v) \<noteq> None)
     \<and> (\<forall>l \<in> set (job_leases s). get_row s (l_job_id l) \<noteq> None)"

definition events_ok :: "store \<Rightarrow> bool" where
  "events_ok s \<longleftrightarrow> (\<forall>jid. map sequence (job_events s jid) = [1..<Suc (length (job_events s jid))])"

definition state_events :: "store \<Rightarrow> string \<Rightarrow> job_event list" where
  "state_events s jid = filter (\<lambda>v. event_type v = JOB_STATE_EVENT_TYPE) (job_events s jid)"

definition mirrored :: "store \<Rightarrow> bool" where
  "mirrored s \<longleftrightarrow> (\<forall>r \<in> set (jobs s). state_events s (job_id r) \<noteq> []
     \<and> payload_json (last (state_events s (job_id r))) = job_state_payload (state r))"

definition attempts_ok :: "store \<Rightarrow> bool" where
  "attempts_ok s \<longleftrightarrow> (\<forall>r \<in> set (jobs s). (state r = SUCCEEDED \<or> state r = FAILED \<longrightarrow> settled (job_id r) s)
     \<and> (state r = CANCELLED \<longrightarrow> none_running (job_id r) s))"

text \<open>The stream of a job that succeeded or failed ends with the announcement of that state.\<close>

definition streams_closed :: "store \<Rightarrow> bool" where
  "streams_closed s \<longleftrightarrow> (\<forall>r \<in> set (jobs s). state r = SUCCEEDED \<or> state r = FAILED \<longrightarrow>
     job_events s (job_id r) \<noteq> [] \<and> event_type (last (job_events s (job_id r))) = JOB_STATE_EVENT_TYPE)"

definition tokens_ok :: "store \<Rightarrow> bool" where
  "tokens_ok s \<longleftrightarrow> (\<forall>l \<in> set (job_leases s). 1 \<le> generation l)
     \<and> (\<forall>a \<in> set (attempts s). (a_state a = A_PENDING \<longrightarrow> a_token a = 0) \<and> (a_state a = A_RUNNING \<longrightarrow> 1 \<le> a_token a)
          \<and> a_token a \<le> claim_token (a_job_id a) s)"

definition challenges_ok :: "store \<Rightarrow> bool" where
  "challenges_ok s \<longleftrightarrow> (\<forall>c \<in> set (challenges s). \<forall>c' \<in> set (challenges s).
      c_state c = C_PENDING \<and> c_state c' = C_PENDING \<and> c_job_id c = c_job_id c' \<longrightarrow> challenge_id c = challenge_id c')"

definition answers_ok :: "store \<Rightarrow> bool" where
  "answers_ok s \<longleftrightarrow> (\<forall>c \<in> set (challenges s). c_state c = C_CONSUMED \<longrightarrow>
     (\<exists>aid a. response_attempt_id c = Some aid \<and> get_attempt_row s aid = Some a \<and> a_job_id a = c_job_id c))"

definition operations_ok :: "store \<Rightarrow> bool" where
  "operations_ok s \<longleftrightarrow> (\<forall>x \<in> set (operations s). \<forall>y \<in> set (operations s).
     op_key x = op_key y \<and> outcome x \<noteq> O_FAILED \<and> outcome y \<noteq> O_FAILED \<longrightarrow> operation_id x = operation_id y)"

definition sources_ok :: "store \<Rightarrow> bool" where
  "sources_ok s \<longleftrightarrow> distinct (map source_key (source_identities s))"

definition store_ok :: "store \<Rightarrow> bool" where
  "store_ok s \<longleftrightarrow> ids_ok s \<and> jobs_ok s \<and> keys_ok s \<and> bindings_ok s \<and> owners_ok s \<and> events_ok s \<and> mirrored s
     \<and> attempts_ok s \<and> streams_closed s \<and> tokens_ok s \<and> challenges_ok s \<and> answers_ok s \<and> operations_ok s \<and> sources_ok s"

lemma store_ok_empty: "store_ok empty_store"
  by (simp add: store_ok_def empty_store_def ids_ok_def jobs_ok_def keys_ok_def bindings_ok_def owners_ok_def
      events_ok_def job_events_def mirrored_def attempts_ok_def streams_closed_def tokens_ok_def challenges_ok_def
      answers_ok_def operations_ok_def sources_ok_def)

section \<open>The steps by what they change\<close>

definition stage_event :: "store \<Rightarrow> string \<Rightarrow> job_event \<Rightarrow> bool" where
  "stage_event s jid v \<longleftrightarrow> e_job_id v = jid \<and> event_type v = STAGE_CHANGED_EVENT_TYPE \<and> sequence v = next_sequence s jid"

definition state_event :: "store \<Rightarrow> string \<Rightarrow> job_state \<Rightarrow> job_event \<Rightarrow> bool" where
  "state_event s jid st v \<longleftrightarrow> e_job_id v = jid \<and> event_type v = JOB_STATE_EVENT_TYPE
     \<and> payload_json v = job_state_payload st \<and> sequence v = next_sequence s jid"

text \<open>The sequence numbers of the events a transaction inserts one after another for one job.\<close>

fun consecutive :: "nat \<Rightarrow> job_event list \<Rightarrow> bool" where
  "consecutive n [] \<longleftrightarrow> True"
| "consecutive n (v # vs) \<longleftrightarrow> sequence v = n \<and> consecutive (Suc n) vs"

lemma foldr_max_snoc: "foldr max (xs @ [n]) 0 = max (foldr max xs 0) (n::nat)"
  by (induction xs) auto

lemma next_sequence_append:
  assumes "e_job_id v = jid" and "sequence v = next_sequence s jid"
  shows "next_sequence (s\<lparr>events := events s @ [v]\<rparr>) jid = Suc (next_sequence s jid)"
  using assms by (simp add: next_sequence_def job_events_def foldr_max_snoc del: foldr_append)

lemma insert_events_consecutive:
  "insert_events e jid evs s = Inr s' \<Longrightarrow> \<exists>vs. s' = s\<lparr>events := events s @ vs\<rparr> \<and> list_all (\<lambda>v. e_job_id v = jid) vs
     \<and> map (\<lambda>v. (event_type v, payload_json v)) vs = evs \<and> consecutive (next_sequence s jid) vs
     \<and> next_sequence s' jid = next_sequence s jid + length vs"
proof (induction evs arbitrary: s)
  case (Cons ev evs)
  obtain ty payload where ev: "ev = (ty, payload)" by (cases ev)
  from Cons.prems obtain v s1 where
    v: "insert_event e jid ty payload s = Inr (v, s1)" and rest: "insert_events e jid evs s1 = Inr s'"
    by (auto simp: result_simps ev)
  note fr = insert_event_frame [OF v]
  then have n: "next_sequence s1 jid = Suc (next_sequence s jid)" using next_sequence_append [of v jid s] by simp
  from Cons.IH [OF rest] obtain vs where
    "s' = s1\<lparr>events := events s1 @ vs\<rparr>" "list_all (\<lambda>v. e_job_id v = jid) vs"
    "map (\<lambda>v. (event_type v, payload_json v)) vs = evs" "consecutive (next_sequence s1 jid) vs"
    "next_sequence s' jid = next_sequence s1 jid + length vs"
    by auto
  with fr n show ?case by (intro exI [of _ "v # vs"]) (auto simp: ev)
qed (auto intro: exI [of _ "[]"])

lemma step_shape [consumes 1, case_names create tell request_cancel move attempt_new attempt_start attempt_settle
    claim_new claim_update lead ask withdraw consume op_new op_reassign op_advance checkpoint source]:
  assumes "store_step s s'"
  obtains
    (create) r b vs v where "s' = s\<lparr>jobs := jobs s @ [r], bindings := bindings s @ [(job_id r, b)], events := events s @ vs @ [v]\<rparr>"
      "get_row s (job_id r) = None" "state r = QUEUED" "\<not> cancellation_requested r" "result r = None" "error_json r = None"
      "\<forall>r' \<in> set (jobs s). client_request_id r \<noteq> None \<and> principal r' = principal r
         \<longrightarrow> client_request_id r' \<noteq> client_request_id r"
      "job_execution_binding_valid b" "map_of (bindings s) (job_id r) = None"
      "list_all (\<lambda>v. e_job_id v = job_id r \<and> user_event_type (event_type v)) vs"
      "consecutive (next_sequence s (job_id r)) (vs @ [v])"
      "e_job_id v = job_id r" "event_type v = JOB_STATE_EVENT_TYPE" "payload_json v = job_state_payload QUEUED"
  | (tell) v where "s' = s\<lparr>events := events s @ [v]\<rparr>" "job_live s (e_job_id v)" "event_type v \<noteq> JOB_STATE_EVENT_TYPE"
      "sequence v = next_sequence s (e_job_id v)"
  | (request_cancel) jid now where "job_live s jid"
      "s' = s\<lparr>jobs := sql_update (\<lambda>r. job_id r = jid) (\<lambda>r. r\<lparr>cancellation_requested := True, updated_at := now\<rparr>) (jobs s)\<rparr>"
  | (move) jid r st res err now v where "get_row s jid = Some r" "(state r, st) \<in> set LEGAL_JOB_TRANSITIONS"
      "may_enter s r st" "res \<noteq> None \<longrightarrow> st = SUCCEEDED" "err \<noteq> None \<longrightarrow> st = FAILED" "state_event s jid st v"
      "s' = s\<lparr>jobs := sql_update (\<lambda>r. job_id r = jid) (move_row now st res err) (jobs s), events := events s @ [v]\<rparr>"
  | (attempt_new) a v sts where "job_live s (a_job_id a)" "a_state a = A_PENDING" "a_token a = 0"
      "get_attempt_row s (attempt_id a) = None" "stage_event s (a_job_id a) v"
      "s' = s\<lparr>steps := sts, attempts := attempts s @ [a], events := events s @ [v]\<rparr>"
  | (attempt_start) aid a l now v where "get_attempt_row s aid = Some a" "a_state a = A_PENDING" "job_working s (a_job_id a)"
      "get_lease s (a_job_id a) = Some l" "stage_event s (a_job_id a) v"
      "s' = s\<lparr>attempts := sql_update (\<lambda>a. attempt_id a = aid)
         (\<lambda>a. a\<lparr>a_state := A_RUNNING, a_token := generation l, a_updated_at := now\<rparr>) (attempts s), events := events s @ [v]\<rparr>"
  | (attempt_settle) aid a st now v where "get_attempt_row s aid = Some a" "(a_state a, st) \<in> set LEGAL_ATTEMPT_TRANSITIONS"
      "st \<noteq> A_RUNNING" "stage_event s (a_job_id a) v"
      "s' = s\<lparr>attempts := sql_update (\<lambda>a. attempt_id a = aid)
         (\<lambda>a. a\<lparr>a_state := st, a_updated_at := now\<rparr>) (attempts s), events := events s @ [v]\<rparr>"
  | (claim_new) l where "get_row s (l_job_id l) \<noteq> None" "get_lease s (l_job_id l) = None" "1 \<le> generation l"
      "\<forall>a \<in> set (attempts s). a_job_id a = l_job_id l \<longrightarrow> a_token a < generation l" "s' = s\<lparr>job_leases := job_leases s @ [l]\<rparr>"
  | (claim_update) f p where "\<forall>l. l_job_id (f l) = l_job_id l"
      "\<forall>l. p l \<longrightarrow> generation l < generation (f l) \<or> generation (f l) = generation l \<and> l_owner (f l) = l_owner l"
      "s' = s\<lparr>job_leases := sql_update p f (job_leases s)\<rparr>"
  | (lead) l where "s' = s\<lparr>lease := Some l\<rparr>"
  | (ask) c where "get_challenge_row s (challenge_id c) = None" "c_state c = C_PENDING" "response_attempt_id c = None"
      "job_live s (c_job_id c)" "\<forall>c' \<in> set (challenges s). c_job_id c' = c_job_id c \<longrightarrow> c_state c' \<noteq> C_PENDING"
      "s' = s\<lparr>challenges := challenges s @ [c]\<rparr>"
  | (withdraw) jid now where "s' = s\<lparr>challenges := sql_update (\<lambda>c. c_job_id c = jid \<and> c_state c = C_PENDING)
      (\<lambda>c. c\<lparr>c_state := C_CANCELLED, c_updated_at := now\<rparr>) (challenges s)\<rparr>"
  | (consume) cid c aid a rj rh now where "get_challenge_row s cid = Some c" "c_state c \<noteq> C_CONSUMED"
      "get_attempt_row s aid = Some a" "a_job_id a = c_job_id c"
      "s' = s\<lparr>challenges := sql_update (\<lambda>c. challenge_id c = cid) (\<lambda>c. c\<lparr>c_state := C_CONSUMED,
        response_json := Some rj, response_hash := Some rh, response_attempt_id := Some aid, c_updated_at := now\<rparr>) (challenges s)\<rparr>"
  | (op_new) x where "get_operation_row s (operation_id x) = None" "outcome x = O_PREPARED" "job_working s (o_job_id x)"
      "\<forall>y \<in> set (operations s). op_key y = op_key x \<longrightarrow> outcome y = O_FAILED" "s' = s\<lparr>operations := operations s @ [x]\<rparr>"
  | (op_reassign) oid prev aid now where "s' = s\<lparr>operations := sql_update
      (\<lambda>x. operation_id x = oid \<and> o_attempt_id x = prev \<and> outcome x = O_PREPARED)
      (\<lambda>x. x\<lparr>o_attempt_id := aid, o_updated_at := now\<rparr>) (operations s)\<rparr>"
  | (op_advance) f p where "\<forall>x \<in> set (operations s). p x \<longrightarrow> (outcome x, outcome (f x)) \<in> set OUTCOME_MOVES
      \<and> (outcome (f x) = O_STARTED \<or> outcome (f x) = O_SUCCEEDED \<longrightarrow> not_cancelled s (o_job_id x))"
      "\<forall>x. same_operation x (f x)" "\<forall>x. o_attempt_id (f x) = o_attempt_id x" "s' = s\<lparr>operations := sql_update p f (operations s)\<rparr>"
  | (checkpoint) k where "\<forall>k' \<in> set (checkpoints s). checkpoint_id k' \<noteq> checkpoint_id k" "job_working s (k_job_id k)"
      "s' = s\<lparr>checkpoints := checkpoints s @ [k]\<rparr>"
  | (source) rows where "distinct (map source_key (source_identities s)) \<longrightarrow> distinct (map source_key rows)"
      "s' = s\<lparr>source_identities := rows\<rparr>"
  using assms
proof cases
  case c: (create r b evs e s1 v)
  let ?s0 = "s\<lparr>jobs := jobs s @ [r], bindings := bindings s @ [(job_id r, b)]\<rparr>"
  obtain vs where vs: "s1 = ?s0\<lparr>events := events s @ vs\<rparr>" "list_all (\<lambda>v. e_job_id v = job_id r) vs"
    "map (\<lambda>v. (event_type v, payload_json v)) vs = evs" "consecutive (next_sequence ?s0 (job_id r)) vs"
    "next_sequence s1 (job_id r) = next_sequence ?s0 (job_id r) + length vs"
    using insert_events_consecutive [OF c(10)] by auto
  have n: "next_sequence ?s0 (job_id r) = next_sequence s (job_id r)" by (simp add: next_sequence_def job_events_def)
  note v = insert_job_state_event_frame [OF c(11)]
  have snoc: "consecutive n vs \<Longrightarrow> sequence v = n + length vs \<Longrightarrow> consecutive n (vs @ [v])" for n
    by (induction vs arbitrary: n) auto
  have user: "list_all (\<lambda>v. e_job_id v = job_id r \<and> user_event_type (event_type v)) vs"
    using vs(2,3) c(9) by (auto simp: list_all_iff)
  show ?thesis
    by (rule create) (use c vs v n snoc user in auto)
next
  case (tell jid ty e payload v)
  with that(2) show ?thesis by (auto dest!: insert_event_frame)
next
  case (request_cancel jid now)
  with that(3) show ?thesis by (auto simp: store_updates)
next
  case m: (move jid r st res err e now v)
  show ?thesis
    by (rule move [OF m(1-3)])
       (use m insert_job_state_event_frame [OF m(6)] in \<open>auto simp: store_updates state_event_def next_sequence_def job_events_def\<close>)
next
  case m: (attempt_new jid e step a)
  show ?thesis
    using create_attempt_conn_frame [OF m(2)] m(1) that(5) by (auto simp: stage_event_def)
next
  case m: (attempt_start aid a l token e a')
  have "a_job_id a' = a_job_id a" if "get_attempt_row (set_attempt_running e aid token s) aid = Some a'"
    using m(1) that by (auto simp: get_attempt_row_def store_updates fetchone_key_update split: if_splits)
  then show ?thesis
    using announce_attempt_frame [OF m(6)] m that(6)
    by (auto simp: stage_event_def store_updates next_sequence_def job_events_def)
next
  case m: (attempt_settle aid a st e a')
  have "a_job_id a' = a_job_id a" if "get_attempt_row (set_attempt_state e aid st s) aid = Some a'"
    using m(1) that by (auto simp: get_attempt_row_def store_updates fetchone_key_update split: if_splits)
  then show ?thesis
    using announce_attempt_frame [OF m(4)] m that(7)
    by (auto simp: stage_event_def store_updates next_sequence_def job_events_def)
next
  case (claim_new l)
  with that(8) show ?thesis by blast
next
  case (claim_update f p)
  with that(9) show ?thesis by (auto simp: store_updates)
next
  case (lead l)
  with that(10) show ?thesis by blast
next
  case (ask c)
  with that(11) show ?thesis by blast
next
  case (withdraw jid now)
  with that(12) show ?thesis by (auto simp: store_updates)
next
  case (consume cid c jid aid a rj rh now)
  with that(13) show ?thesis by (auto simp: store_updates)
next
  case (op_new x)
  with that(14) show ?thesis by blast
next
  case (op_reassign oid prev aid now)
  with that(15) show ?thesis by (auto simp: store_updates)
next
  case (op_advance p f)
  with that(16) show ?thesis by (auto simp: store_updates)
next
  case (checkpoint k)
  with that(17) show ?thesis by blast
next
  case (source rows)
  with that(18) show ?thesis by blast
qed

section \<open>Every step keeps the invariants\<close>

lemma row_unique:
  "ids_ok s \<Longrightarrow> get_row s jid = Some r \<Longrightarrow> r' \<in> set (jobs s) \<Longrightarrow> job_id r' = jid \<Longrightarrow> r' = r"
  by (auto simp: ids_ok_def distinct_map dest!: get_row_SomeD dest: inj_onD)

lemma attempt_unique:
  "ids_ok s \<Longrightarrow> get_attempt_row s aid = Some a \<Longrightarrow> a' \<in> set (attempts s) \<Longrightarrow> attempt_id a' = aid \<Longrightarrow> a' = a"
  by (auto simp: ids_ok_def distinct_map dest!: get_attempt_row_SomeD dest: inj_onD)

lemma row_get: "ids_ok s \<Longrightarrow> r \<in> set (jobs s) \<Longrightarrow> get_row s (job_id r) = Some r"
  by (auto simp: get_row_def ids_ok_def dest: distinct_fetchone)

lemma image_sql_update [simp]: "(\<And>r. k (f r) = k r) \<Longrightarrow> k ` set (sql_update p f rows) = k ` set rows"
  by (induction rows) auto

lemma ball_update_one:
  assumes "\<And>y. y \<in> set rows \<Longrightarrow> k y = x \<Longrightarrow> y = r" and "r \<in> set rows" and "k r = x"
  shows "(\<forall>y \<in> set (sql_update (\<lambda>y. k y = x) f rows). P y) \<longleftrightarrow> P (f r) \<and> (\<forall>y \<in> set rows. k y \<noteq> x \<longrightarrow> P y)"
proof -
  have "{y \<in> set rows. k y = x} = {r}" using assms by blast
  then show ?thesis unfolding set_sql_update by auto
qed

lemma ball_update_job:
  assumes "ids_ok s" and "get_row s jid = Some r"
  shows "(\<forall>y \<in> set (sql_update (\<lambda>y. job_id y = jid) f (jobs s)). P y)
    \<longleftrightarrow> P (f r) \<and> (\<forall>y \<in> set (jobs s). job_id y \<noteq> jid \<longrightarrow> P y)"
  using assms row_unique [OF assms] by (intro ball_update_one) (auto dest: get_row_SomeD)

lemma ball_update_attempt:
  assumes "ids_ok s" and "get_attempt_row s aid = Some a"
  shows "(\<forall>y \<in> set (sql_update (\<lambda>y. attempt_id y = aid) f (attempts s)). P y)
    \<longleftrightarrow> P (f a) \<and> (\<forall>y \<in> set (attempts s). attempt_id y \<noteq> aid \<longrightarrow> P y)"
  using assms attempt_unique [OF assms] by (intro ball_update_one) (auto dest: get_attempt_row_SomeD)

lemma get_row_image: "get_row s jid = Some r \<Longrightarrow> jid \<in> job_id ` set (jobs s)"
  by (auto dest: get_row_SomeD)

lemma jobs_ok_step:
  assumes "store_step s s'" and "ids_ok s" and "jobs_ok s"
  shows "jobs_ok s'"
  using assms(1)
proof (cases rule: step_shape)
  case (create r b vs v)
  then show ?thesis using assms(3) by (simp add: jobs_ok_def)
next
  case (request_cancel jid now)
  then obtain r where r: "get_row s jid = Some r" "\<not> job_terminal (state r)" by (auto simp: job_live_def)
  have "state r \<noteq> SUCCEEDED" "r \<in> set (jobs s)" using r by (auto dest: get_row_SomeD)
  with assms(3) r request_cancel(2) show ?thesis
    unfolding jobs_ok_def by (simp add: ball_update_job [OF assms(2) r(1)])
next
  case (move jid r st res err now v)
  have "\<not> job_terminal (state r)" using move legal_job_start by blast
  moreover have "r \<in> set (jobs s)" using move by (auto dest: get_row_SomeD)
  ultimately have "result r = None" "error_json r = None"
    using assms(3) unfolding jobs_ok_def by fastforce+
  moreover have "(st = SUCCEEDED \<longrightarrow> \<not> cancellation_requested r) \<and> (st = CANCELLED \<longrightarrow> cancellation_requested r)"
    using move(3) by (cases st) auto
  ultimately show ?thesis
    using assms(3) move(4,5,7) unfolding jobs_ok_def
    by (cases res; cases err) (simp_all add: ball_update_job [OF assms(2) move(1)])
qed (use assms(3) in \<open>simp_all add: jobs_ok_def\<close>)

lemma keys_ok_image: "keys_ok s \<longleftrightarrow> (\<forall>(i, p, c) \<in> (\<lambda>r. (job_id r, principal r, client_request_id r)) ` set (jobs s).
    \<forall>(i', p', c') \<in> (\<lambda>r. (job_id r, principal r, client_request_id r)) ` set (jobs s). c \<noteq> None \<and> c' = c \<and> p' = p \<longrightarrow> i' = i)"
  by (simp add: keys_ok_def)

lemma keys_ok_cong:
  assumes "keys_ok s"
    and "(\<lambda>r. (job_id r, principal r, client_request_id r)) ` set (jobs s')
       = (\<lambda>r. (job_id r, principal r, client_request_id r)) ` set (jobs s)"
  shows "keys_ok s'"
  using assms(1) unfolding keys_ok_image assms(2) .

lemma keys_ok_step:
  assumes "store_step s s'" and "keys_ok s"
  shows "keys_ok s'"
  using assms(1)
proof (cases rule: step_shape)
  case (create r b vs v)
  have "keys_ok (s\<lparr>jobs := jobs s @ [r]\<rparr>)"
  proof -
    have new: "\<not> (client_request_id r \<noteq> None \<and> client_request_id r' = client_request_id r \<and> principal r' = principal r)"
      if "r' \<in> set (jobs s)" for r'
      using create(7) that by blast
    show ?thesis unfolding keys_ok_def
    proof (intro ballI impI)
      fix x y assume "x \<in> set (jobs (s\<lparr>jobs := jobs s @ [r]\<rparr>))" "y \<in> set (jobs (s\<lparr>jobs := jobs s @ [r]\<rparr>))"
        and eq: "client_request_id x \<noteq> None \<and> client_request_id y = client_request_id x \<and> principal y = principal x"
      then consider "x \<in> set (jobs s)" "y \<in> set (jobs s)" | "x = r" "y = r" | "x = r" "y \<in> set (jobs s)" | "x \<in> set (jobs s)" "y = r"
        by auto
      then show "job_id y = job_id x"
      proof cases
        case 1
        with assms(2) eq show ?thesis unfolding keys_ok_def by blast
      next
        case 3
        with new [of y] eq show ?thesis by simp
      next
        case 4
        with new [of x] eq show ?thesis by simp
      qed simp
    qed
  qed
  moreover have "jobs s' = jobs (s\<lparr>jobs := jobs s @ [r]\<rparr>)" using create(1) by simp
  ultimately show ?thesis unfolding keys_ok_def by (simp only:)
qed (rule keys_ok_cong [OF assms(2)], simp)+

lemma bindings_ok_image: "bindings_ok s \<longleftrightarrow> (\<forall>i \<in> job_id ` set (jobs s). \<exists>b. map_of (bindings s) i = Some b \<and> job_execution_binding_valid b)"
  by (simp add: bindings_ok_def)

lemma bindings_ok_step:
  assumes "store_step s s'" and "bindings_ok s"
  shows "bindings_ok s'"
  using assms(1)
proof (cases rule: step_shape)
  case (create r b vs v)
  then show ?thesis using assms(2) by (auto simp: bindings_ok_def map_add_def split: option.splits)
qed (use assms(2) in \<open>simp_all add: bindings_ok_image\<close>)

lemma owners_ok_sets: "owners_ok s \<longleftrightarrow> a_job_id ` set (attempts s) \<union> e_job_id ` set (events s) \<union> l_job_id ` set (job_leases s)
    \<subseteq> job_id ` set (jobs s)"
  by (auto simp: owners_ok_def row_simps)

lemma owners_ok_step:
  assumes "store_step s s'" and "owners_ok s"
  shows "owners_ok s'"
  using assms(1)
proof (cases rule: step_shape)
  case (create r b vs v)
  then show ?thesis using assms(2) by (auto simp: owners_ok_sets list_all_iff)
next
  case (tell v)
  then show ?thesis using assms(2) by (auto simp: owners_ok_sets job_live_def get_row_image)
next
  case (move jid r st res err now v)
  then show ?thesis using assms(2) get_row_image [OF move(1)] by (simp add: owners_ok_sets state_event_def)
next
  case (attempt_new a v sts)
  then show ?thesis using assms(2) by (auto simp: owners_ok_sets job_live_def stage_event_def get_row_image)
next
  case (attempt_start aid a l now v)
  then have "a_job_id a \<in> job_id ` set (jobs s)" using assms(2) by (auto simp: owners_ok_sets dest!: get_attempt_row_SomeD)
  with attempt_start assms(2) show ?thesis by (simp add: owners_ok_sets stage_event_def)
next
  case (attempt_settle aid a st now v)
  then have "a_job_id a \<in> job_id ` set (jobs s)" using assms(2) by (auto simp: owners_ok_sets dest!: get_attempt_row_SomeD)
  with attempt_settle assms(2) show ?thesis by (simp add: owners_ok_sets stage_event_def)
next
  case (claim_new l)
  then show ?thesis using assms(2) by (auto simp: owners_ok_sets row_simps)
qed (use assms(2) in \<open>simp_all add: owners_ok_sets\<close>)

section \<open>The event streams\<close>

lemma foldr_max_upt: "foldr max [1..<Suc n] 0 = n"
  by (induction n) (simp_all add: foldr_max_snoc del: foldr_append)

lemma next_sequence_ok:
  assumes "events_ok s"
  shows "next_sequence s jid = Suc (length (job_events s jid))"
proof -
  have "map sequence (job_events s jid) = [1..<Suc (length (job_events s jid))]"
    using assms by (simp only: events_ok_def)
  then show ?thesis by (simp only: next_sequence_def foldr_max_upt)
qed

lemma consecutive_map: "consecutive n vs \<longleftrightarrow> map sequence vs = [n..<n + length vs]"
  by (induction vs arbitrary: n) (auto simp: upt_conv_Cons simp del: upt_Suc)

lemma events_ok_append:
  assumes "events_ok s" and "list_all (\<lambda>v. e_job_id v = jid) vs" and "consecutive (next_sequence s jid) vs"
    and "events s' = events s @ vs"
  shows "events_ok s'"
  unfolding events_ok_def
proof (intro allI)
  fix k
  have old: "map sequence (job_events s k) = [1..<Suc (length (job_events s k))]"
    using assms(1) by (simp only: events_ok_def)
  have "filter (\<lambda>v. e_job_id v = k) vs = (if k = jid then vs else [])"
    using assms(2) by (induction vs) auto
  then have new: "job_events s' k = job_events s k @ (if k = jid then vs else [])"
    using assms(4) by (simp add: job_events_def)
  show "map sequence (job_events s' k) = [1..<Suc (length (job_events s' k))]"
  proof (cases "k = jid")
    case True
    have "map sequence vs = [Suc (length (job_events s k))..<Suc (length (job_events s k)) + length vs]"
      using assms(3) True next_sequence_ok [OF assms(1)] by (simp add: consecutive_map)
    then show ?thesis
      using old new True upt_add_eq_append [of 1 "Suc (length (job_events s k))" "length vs"] by simp
  qed (use old new in simp)
qed

lemma events_ok_events: "events s' = events s \<Longrightarrow> events_ok s \<Longrightarrow> events_ok s'"
  unfolding events_ok_def job_events_def by simp

lemma events_ok_one:
  assumes "events_ok s" and "sequence v = next_sequence s (e_job_id v)" and "events s' = events s @ [v]"
  shows "events_ok s'"
  using assms(2,3) by (intro events_ok_append [OF assms(1), of "e_job_id v" "[v]"]) simp_all

lemma events_ok_step:
  assumes "store_step s s'" and "events_ok s"
  shows "events_ok s'"
  using assms(1)
proof (cases rule: step_shape)
  case (create r b vs v)
  then show ?thesis
    by (intro events_ok_append [OF assms(2), of "job_id r" "vs @ [v]"]) (auto simp: list_all_iff)
next
  case (move jid r st res err now v)
  then show ?thesis by (intro events_ok_one [OF assms(2)]) (auto simp: state_event_def)
next
  case (attempt_new a v sts)
  then show ?thesis by (intro events_ok_one [OF assms(2)]) (auto simp: stage_event_def)
next
  case (attempt_start aid a l now v)
  then show ?thesis by (intro events_ok_one [OF assms(2)]) (auto simp: stage_event_def)
next
  case (attempt_settle aid a st now v)
  then show ?thesis by (intro events_ok_one [OF assms(2)]) (auto simp: stage_event_def)
next
  case (tell v)
  then show ?thesis by (intro events_ok_one [OF assms(2)]) auto
qed (rule events_ok_events [OF _ assms(2)], simp)+

lemma event_types [simp]: "STAGE_CHANGED_EVENT_TYPE \<noteq> JOB_STATE_EVENT_TYPE" "JOB_STATE_EVENT_TYPE \<noteq> STAGE_CHANGED_EVENT_TYPE"
  by (simp_all add: STAGE_CHANGED_EVENT_TYPE_def JOB_STATE_EVENT_TYPE_def)

text \<open>An event that announces no job state, and one of another job, leave a job's announcements alone.\<close>

lemma state_events_snoc:
  assumes "events s' = events s @ [v]"
  shows "state_events s' jid = state_events s jid @ (if e_job_id v = jid \<and> event_type v = JOB_STATE_EVENT_TYPE then [v] else [])"
  using assms by (simp add: state_events_def job_events_def)

lemma state_events_same: "events s' = events s \<Longrightarrow> state_events s' jid = state_events s jid"
  by (simp add: state_events_def job_events_def)

definition mirrors :: "store \<Rightarrow> string \<Rightarrow> job_state \<Rightarrow> bool" where
  "mirrors s jid st \<longleftrightarrow> state_events s jid \<noteq> [] \<and> payload_json (last (state_events s jid)) = job_state_payload st"

lemma mirrored_image: "mirrored s \<longleftrightarrow> (\<forall>(jid, st) \<in> (\<lambda>r. (job_id r, state r)) ` set (jobs s). mirrors s jid st)"
  by (simp add: mirrored_def mirrors_def)

lemma mirrored_other:
  assumes "mirrored s" and "(\<lambda>r. (job_id r, state r)) ` set (jobs s') = (\<lambda>r. (job_id r, state r)) ` set (jobs s)"
    and "\<And>jid. state_events s' jid = state_events s jid"
  shows "mirrored s'"
  using assms by (simp add: mirrored_image mirrors_def)

lemma mirrored_step:
  assumes "store_step s s'" and "ids_ok s" and "owners_ok s" and "mirrored s"
  shows "mirrored s'"
  using assms(1)
proof (cases rule: step_shape)
  case (create r b vs v)
  have "e_job_id x \<noteq> job_id r" if "x \<in> set (events s)" for x
    using assms(3) create(2) that unfolding owners_ok_def by metis
  then have "job_events s (job_id r) = []" by (simp add: job_events_def filter_empty_conv)
  moreover have "filter (\<lambda>v. event_type v = JOB_STATE_EVENT_TYPE) vs = []"
    using create(10) by (auto simp: list_all_iff filter_empty_conv user_event_type_def INTERNAL_JOB_EVENT_TYPES_def)
  moreover have "filter (\<lambda>v. e_job_id v = job_id r) vs = vs"
    using create(10) by (auto simp: list_all_iff filter_id_conv)
  ultimately have new: "mirrors s' (job_id r) QUEUED"
    using create(1,12-14) by (simp add: mirrors_def state_events_def job_events_def)
  have other: "state_events s' k = state_events s k" if "k \<noteq> job_id r" for k
  proof -
    have "filter (\<lambda>v. e_job_id v = k) vs = []" using create(10) that by (auto simp: list_all_iff filter_empty_conv)
    then show ?thesis using create(1,12) that by (simp add: state_events_def job_events_def)
  qed
  have old: "mirrors s' (job_id x) (state x)" if "x \<in> set (jobs s)" for x
  proof -
    have "job_id x \<noteq> job_id r" using create(2) that unfolding row_simps by (metis imageI)
    then show ?thesis using assms(4) that by (simp add: mirrored_def mirrors_def other)
  qed
  show ?thesis
    unfolding mirrored_image using create(1,3) new old by simp
next
  case (tell v)
  then show ?thesis by (intro mirrored_other [OF assms(4)]) (auto simp: state_events_snoc)
next
  case (request_cancel jid now)
  then have "events s' = events s" by simp
  with request_cancel show ?thesis by (intro mirrored_other [OF assms(4)] state_events_same) simp_all
next
  case (move jid r st res err now v)
  have ev: "state_events s' k = state_events s k @ (if k = jid then [v] else [])" for k
    using move(6,7) by (subst state_events_snoc [of s' s v]) (auto simp: state_event_def)
  show ?thesis
    using assms(4) move(6,7) unfolding mirrored_def ev
    by (simp add: ball_update_job [OF assms(2) move(1)] get_row_SomeD [OF move(1)] state_event_def)
next
  case (attempt_new a v sts)
  then show ?thesis by (intro mirrored_other [OF assms(4)]) (auto simp: state_events_snoc stage_event_def)
next
  case (attempt_start aid a l now v)
  then show ?thesis by (intro mirrored_other [OF assms(4)]) (auto simp: state_events_snoc stage_event_def)
next
  case (attempt_settle aid a st now v)
  then show ?thesis by (intro mirrored_other [OF assms(4)]) (auto simp: state_events_snoc stage_event_def)
qed (rule mirrored_other [OF assms(4) _ state_events_same], simp, simp)+

section \<open>Attempts of finished jobs\<close>

lemma legal_targets: "(x, st) \<in> set LEGAL_ATTEMPT_TRANSITIONS \<Longrightarrow> st \<noteq> A_PENDING"
  by (auto simp: LEGAL_ATTEMPT_TRANSITIONS_def)

lemma live_not_terminal:
  "ids_ok s \<Longrightarrow> job_live s jid \<Longrightarrow> r \<in> set (jobs s) \<Longrightarrow> job_id r = jid \<Longrightarrow> \<not> job_terminal (state r)"
  unfolding job_live_def using row_unique by blast

lemma working_live: "job_working s jid \<Longrightarrow> job_live s jid"
  by (auto simp: job_working_def job_live_def)

definition attempts_fit :: "store \<Rightarrow> string \<Rightarrow> job_state \<Rightarrow> bool" where
  "attempts_fit s jid st \<longleftrightarrow> (st = SUCCEEDED \<or> st = FAILED \<longrightarrow> settled jid s) \<and> (st = CANCELLED \<longrightarrow> none_running jid s)"

lemma attempts_ok_image: "attempts_ok s \<longleftrightarrow> (\<forall>(jid, st) \<in> (\<lambda>r. (job_id r, state r)) ` set (jobs s). attempts_fit s jid st)"
  by (simp add: attempts_ok_def attempts_fit_def)

lemma attempts_fit_same: "attempts s' = attempts s \<Longrightarrow> attempts_fit s' = attempts_fit s"
  by (intro ext) (simp add: attempts_fit_def settled_def none_running_def)

lemma attempts_ok_same:
  assumes "attempts_ok s" and "(\<lambda>r. (job_id r, state r)) ` set (jobs s') = (\<lambda>r. (job_id r, state r)) ` set (jobs s)"
    and "attempts s' = attempts s"
  shows "attempts_ok s'"
  using assms(1) unfolding attempts_ok_image assms(2) attempts_fit_same [OF assms(3)] .

lemma attempts_ok_touch:
  assumes "ids_ok s" and "attempts_ok s" and "jobs s' = jobs s" and "job_live s jid"
    and "\<And>a. a \<in> set (attempts s') \<Longrightarrow> a_job_id a \<noteq> jid \<Longrightarrow> a \<in> set (attempts s)"
  shows "attempts_ok s'"
proof -
  have "attempts_fit s' (job_id r) (state r)" if r: "r \<in> set (jobs s)" for r
  proof (cases "job_id r = jid")
    case True
    with live_not_terminal [OF assms(1,4) r] show ?thesis by (cases "state r") (auto simp: attempts_fit_def)
  next
    case False
    have "attempts_fit s (job_id r) (state r)" using assms(2) r by (auto simp: attempts_ok_image)
    then show ?thesis using assms(5) False by (auto simp: attempts_fit_def settled_def none_running_def)
  qed
  then show ?thesis using assms(3) by (auto simp: attempts_ok_image)
qed

lemma attempts_ok_step:
  assumes "store_step s s'" and "ids_ok s" and "attempts_ok s"
  shows "attempts_ok s'"
  using assms(1)
proof (cases rule: step_shape)
  case (create r b vs v)
  have "attempts_fit s' = attempts_fit s" using create(1) by (intro attempts_fit_same) simp
  then show ?thesis using assms(3) create(1,3) by (simp add: attempts_ok_image) (simp add: attempts_fit_def)
next
  case (move jid r st res err now v)
  have same: "attempts_fit s' = attempts_fit s" using move(7) by (intro attempts_fit_same) simp
  have "attempts_fit s jid st" using move(1,3) by (cases st) (auto simp: attempts_fit_def dest: get_row_SomeD)
  moreover have "\<forall>y \<in> set (jobs s). attempts_fit s (job_id y) (state y)" using assms(3) by (simp add: attempts_ok_image)
  ultimately have "\<forall>y \<in> set (jobs s'). attempts_fit s (job_id y) (state y)"
    using move(7) by (simp add: ball_update_job [OF assms(2) move(1)] get_row_SomeD [OF move(1)])
  then show ?thesis by (simp add: attempts_ok_image same)
next
  case (attempt_new a v sts)
  then show ?thesis by (intro attempts_ok_touch [OF assms(2,3), of s' "a_job_id a"]) auto
next
  case (attempt_start aid a l now v)
  have "a' = a" if "a' \<in> set (attempts s)" "attempt_id a' = aid" for a'
    using attempt_unique [OF assms(2) attempt_start(1)] that .
  then show ?thesis using attempt_start
    by (intro attempts_ok_touch [OF assms(2,3), of s' "a_job_id a"]) (auto simp: working_live in_sql_update)
next
  case (attempt_settle aid a st now v)
  have "st \<noteq> A_PENDING" using attempt_settle(2) by (rule legal_targets)
  then have "attempts_fit s jid k \<Longrightarrow> attempts_fit s' jid k" for jid k
    using attempt_settle(3,5) by (auto simp: attempts_fit_def settled_def none_running_def unsettled_def in_sql_update)
  then show ?thesis using assms(3) attempt_settle(5) by (auto simp: attempts_ok_image)
qed (rule attempts_ok_same [OF assms(3)], simp, simp)+

text \<open>Nothing is added to the stream of a job that succeeded or failed.\<close>

definition closed_stream :: "store \<Rightarrow> string \<Rightarrow> bool" where
  "closed_stream s jid \<longleftrightarrow> job_events s jid \<noteq> [] \<and> event_type (last (job_events s jid)) = JOB_STATE_EVENT_TYPE"

lemma streams_closed_iff:
  "streams_closed s \<longleftrightarrow> (\<forall>(jid, st) \<in> (\<lambda>r. (job_id r, state r)) ` set (jobs s). st = SUCCEEDED \<or> st = FAILED \<longrightarrow> closed_stream s jid)"
  by (simp add: streams_closed_def closed_stream_def)

lemma streams_closedD:
  "streams_closed s \<Longrightarrow> r \<in> set (jobs s) \<Longrightarrow> state r = SUCCEEDED \<or> state r = FAILED \<Longrightarrow> closed_stream s (job_id r)"
  unfolding streams_closed_def closed_stream_def by blast

lemma job_events_snoc: "events s' = events s @ [v] \<Longrightarrow> job_events s' jid = job_events s jid @ (if e_job_id v = jid then [v] else [])"
  by (simp add: job_events_def)

lemma streams_closed_one:
  assumes "ids_ok s" and "streams_closed s" and "jobs s' = jobs s" and "events s' = events s @ [v]"
    and "\<And>r. r \<in> set (jobs s) \<Longrightarrow> job_id r = e_job_id v \<Longrightarrow> state r \<noteq> SUCCEEDED \<and> state r \<noteq> FAILED"
  shows "streams_closed s'"
proof -
  have "closed_stream s' (job_id r)" if "r \<in> set (jobs s)" "state r = SUCCEEDED \<or> state r = FAILED" for r
  proof -
    have "e_job_id v \<noteq> job_id r" using assms(5) [of r] that by auto
    then have "job_events s' (job_id r) = job_events s (job_id r)" by (simp add: job_events_snoc [OF assms(4)])
    then show ?thesis using streams_closedD [OF assms(2) that] by (simp add: closed_stream_def)
  qed
  then show ?thesis using assms(3) unfolding streams_closed_def closed_stream_def by simp
qed

lemma streams_closed_same:
  assumes "streams_closed s" and "(\<lambda>r. (job_id r, state r)) ` set (jobs s') = (\<lambda>r. (job_id r, state r)) ` set (jobs s)"
    and "events s' = events s"
  shows "streams_closed s'"
  using assms by (simp add: streams_closed_iff closed_stream_def job_events_def)

lemma unsettled_job_open:
  assumes "attempts_ok s" and "a \<in> set (attempts s)" and "unsettled a" and "r \<in> set (jobs s)" and "job_id r = a_job_id a"
  shows "state r \<noteq> SUCCEEDED \<and> state r \<noteq> FAILED"
  using assms unfolding attempts_ok_def settled_def by metis

lemma streams_closed_step:
  assumes "store_step s s'" and "ids_ok s" and "attempts_ok s" and "streams_closed s"
  shows "streams_closed s'"
  using assms(1)
proof (cases rule: step_shape)
  case (create r b vs v)
  have "closed_stream s' (job_id x)" if "x \<in> set (jobs s)" "state x = SUCCEEDED \<or> state x = FAILED" for x
  proof -
    have "job_id x \<noteq> job_id r" using create(2) that unfolding row_simps by (metis imageI)
    moreover from this have "filter (\<lambda>v. e_job_id v = job_id x) vs = []" using create(10) by (auto simp: list_all_iff filter_empty_conv)
    ultimately have "job_events s' (job_id x) = job_events s (job_id x)" using create(1,12) by (simp add: job_events_def)
    then show ?thesis using streams_closedD [OF assms(4) that(1,2)] by (simp add: closed_stream_def)
  qed
  then show ?thesis using create(1,3) by (auto simp: streams_closed_def closed_stream_def)
next
  case (tell v)
  then show ?thesis
    using live_not_terminal [OF assms(2) tell(2)] by (intro streams_closed_one [OF assms(2,4)]) fastforce+
next
  case (request_cancel jid now)
  then show ?thesis by (intro streams_closed_same [OF assms(4)]) simp_all
next
  case (move jid r st res err now v)
  have je: "job_events s' k = job_events s k @ (if k = jid then [v] else [])" for k
    using job_events_snoc [of s' s v k] move(6,7) by (auto simp: state_event_def)
  have new: "closed_stream s' jid"
    using move(6) by (simp add: closed_stream_def je state_event_def)
  have "closed_stream s' (job_id x)" if "x \<in> set (jobs s)" "state x = SUCCEEDED \<or> state x = FAILED" "job_id x \<noteq> jid" for x
    using streams_closedD [OF assms(4) that(1,2)] that(3) by (simp add: closed_stream_def je)
  with new have "(st = SUCCEEDED \<or> st = FAILED \<longrightarrow> closed_stream s' jid) \<and> (\<forall>y \<in> set (jobs s). job_id y \<noteq> jid \<longrightarrow>
      state y = SUCCEEDED \<or> state y = FAILED \<longrightarrow> closed_stream s' (job_id y))"
    by blast
  moreover have jobs: "jobs s' = sql_update (\<lambda>y. job_id y = jid) (move_row now st res err) (jobs s)" using move(7) by simp
  ultimately have "\<forall>y \<in> set (jobs s'). state y = SUCCEEDED \<or> state y = FAILED \<longrightarrow> closed_stream s' (job_id y)"
    unfolding jobs ball_update_job [OF assms(2) move(1)] using get_row_SomeD [OF move(1)] by simp
  then show ?thesis by (simp add: streams_closed_def closed_stream_def)
next
  case (attempt_new a v sts)
  then show ?thesis
    using live_not_terminal [OF assms(2) attempt_new(1)]
    by (intro streams_closed_one [OF assms(2,4)]) (fastforce simp: stage_event_def)+
next
  case (attempt_start aid a l now v)
  then show ?thesis
    using live_not_terminal [OF assms(2) working_live [OF attempt_start(3)]]
    by (intro streams_closed_one [OF assms(2,4)]) (fastforce simp: stage_event_def)+
next
  case (attempt_settle aid a st now v)
  have "unsettled a" using attempt_settle(2) by (auto simp: LEGAL_ATTEMPT_TRANSITIONS_def unsettled_def)
  then show ?thesis
    using attempt_settle unsettled_job_open [OF assms(3)]
    by (intro streams_closed_one [OF assms(2,4)]) (auto simp: stage_event_def dest!: get_attempt_row_SomeD)
qed (rule streams_closed_same [OF assms(4)], simp, simp)+

section \<open>Tokens\<close>

definition token_fits :: "store \<Rightarrow> attempt \<Rightarrow> bool" where
  "token_fits s a \<longleftrightarrow> (a_state a = A_PENDING \<longrightarrow> a_token a = 0) \<and> (a_state a = A_RUNNING \<longrightarrow> 1 \<le> a_token a)
     \<and> a_token a \<le> claim_token (a_job_id a) s"

lemma tokens_ok_iff: "tokens_ok s \<longleftrightarrow> (\<forall>l \<in> set (job_leases s). 1 \<le> generation l) \<and> (\<forall>a \<in> set (attempts s). token_fits s a)"
  by (simp add: tokens_ok_def token_fits_def)

lemma claim_token_same: "job_leases s' = job_leases s \<Longrightarrow> claim_token jid s' = claim_token jid s"
  by (simp add: claim_token_def get_lease_def)

lemma token_fits_same: "job_leases s' = job_leases s \<Longrightarrow> token_fits s a \<Longrightarrow> token_fits s' a"
  by (simp add: token_fits_def claim_token_def get_lease_def)

lemma tokens_ok_same: "tokens_ok s \<Longrightarrow> job_leases s' = job_leases s \<Longrightarrow> attempts s' = attempts s \<Longrightarrow> tokens_ok s'"
  by (auto simp: tokens_ok_iff intro: token_fits_same)

lemma tokens_ok_step:
  assumes "store_step s s'" and "ids_ok s" and "tokens_ok s"
  shows "tokens_ok s'"
  using assms(1)
proof (cases rule: step_shape)
  case (attempt_new a v sts)
  then have "job_leases s' = job_leases s" by simp
  with attempt_new assms(3) show ?thesis
    by (auto simp: tokens_ok_iff intro: token_fits_same) (simp add: token_fits_def)
next
  case (attempt_start aid a l now v)
  have leases: "job_leases s' = job_leases s" using attempt_start(6) by simp
  have atts: "attempts s' = sql_update (\<lambda>a. attempt_id a = aid)
      (\<lambda>a. a\<lparr>a_state := A_RUNNING, a_token := generation l, a_updated_at := now\<rparr>) (attempts s)"
    using attempt_start(6) by simp
  have "token_fits s' (a\<lparr>a_state := A_RUNNING, a_token := generation l, a_updated_at := now\<rparr>)"
    using assms(3) attempt_start(4) get_lease_SomeD [OF attempt_start(4)]
    by (simp add: token_fits_def claim_token_same [OF leases]) (simp add: claim_token_def tokens_ok_iff)
  moreover have "\<forall>y \<in> set (attempts s). token_fits s' y"
    using assms(3) token_fits_same [OF leases] by (simp add: tokens_ok_iff)
  ultimately show ?thesis
    using assms(3) unfolding tokens_ok_iff leases atts ball_update_attempt [OF assms(2) attempt_start(1)] by blast
next
  case (attempt_settle aid a st now v)
  have leases: "job_leases s' = job_leases s" using attempt_settle(5) by simp
  have atts: "attempts s' = sql_update (\<lambda>a. attempt_id a = aid) (\<lambda>a. a\<lparr>a_state := st, a_updated_at := now\<rparr>) (attempts s)"
    using attempt_settle(5) by simp
  have fits: "\<forall>y \<in> set (attempts s). token_fits s' y"
    using assms(3) token_fits_same [OF leases] by (simp add: tokens_ok_iff)
  then have "token_fits s' a" using get_attempt_row_SomeD [OF attempt_settle(1)] by blast
  then have "token_fits s' (a\<lparr>a_state := st, a_updated_at := now\<rparr>)"
    using attempt_settle(3) legal_targets [OF attempt_settle(2)] by (simp add: token_fits_def)
  with fits show ?thesis
    using assms(3) unfolding tokens_ok_iff leases atts ball_update_attempt [OF assms(2) attempt_settle(1)] by blast
next
  case (claim_new l)
  have "claim_token jid s \<le> claim_token jid s'" for jid
    using claim_new(2,5) by (auto simp: claim_token_def get_lease_def fetchone_append split: option.splits)
  then have "token_fits s a \<Longrightarrow> token_fits s' a" for a by (auto simp: token_fits_def intro: order_trans)
  then show ?thesis using assms(3) claim_new(3,5) by (auto simp: tokens_ok_iff)
next
  case (claim_update f p)
  have le: "p l \<Longrightarrow> generation l \<le> generation (f l)" for l using claim_update(2) by (metis less_imp_le_nat order_refl)
  have "get_lease s' jid = map_option (\<lambda>l. if p l then f l else l) (get_lease s jid)" for jid
    using claim_update(1,3) by (simp add: get_lease_def fetchone_key_update)
  then have "claim_token jid s \<le> claim_token jid s'" for jid
    using le by (auto simp: claim_token_def split: option.splits)
  then have "token_fits s a \<Longrightarrow> token_fits s' a" for a by (auto simp: token_fits_def intro: order_trans)
  moreover have "\<forall>l \<in> set (job_leases s'). 1 \<le> generation l"
    using assms(3) claim_update(3) le by (fastforce simp: tokens_ok_iff in_sql_update)
  ultimately show ?thesis using assms(3) claim_update(3) by (auto simp: tokens_ok_iff)
qed (rule tokens_ok_same [OF assms(3)], simp, simp)+

section \<open>Challenges, operations and sources\<close>

lemma challenges_ok_same: "challenges_ok s \<Longrightarrow> challenges s' = challenges s \<Longrightarrow> challenges_ok s'"
  unfolding challenges_ok_def by (simp only:)

lemma challenges_ok_fewer:
  assumes "challenges_ok s" and "challenges s' = sql_update p f (challenges s)"
    and "\<And>c. c_state (f c) \<noteq> C_PENDING"
  shows "challenges_ok s'"
  unfolding challenges_ok_def
proof (intro ballI impI)
  fix c c' assume "c \<in> set (challenges s')" "c' \<in> set (challenges s')"
    and pending: "c_state c = C_PENDING \<and> c_state c' = C_PENDING \<and> c_job_id c = c_job_id c'"
  then have "c \<in> set (challenges s)" "c' \<in> set (challenges s)" using assms(2,3) by (auto simp: in_sql_update)
  then show "challenge_id c = challenge_id c'" using assms(1) pending unfolding challenges_ok_def by blast
qed

lemma challenges_ok_step:
  assumes "store_step s s'" and "challenges_ok s"
  shows "challenges_ok s'"
  using assms(1)
proof (cases rule: step_shape)
  case (ask c)
  show ?thesis unfolding challenges_ok_def
  proof (intro ballI impI)
    fix x y assume xy: "x \<in> set (challenges s')" "y \<in> set (challenges s')"
      and pending: "c_state x = C_PENDING \<and> c_state y = C_PENDING \<and> c_job_id x = c_job_id y"
    from xy ask(6) consider "x \<in> set (challenges s)" "y \<in> set (challenges s)" | "x = c" "y = c"
      | "x = c" "y \<in> set (challenges s)" | "x \<in> set (challenges s)" "y = c" by auto
    then show "challenge_id x = challenge_id y"
    proof cases
      case 1
      then show ?thesis using assms(2) pending unfolding challenges_ok_def by blast
    next
      case 3
      then show ?thesis using ask(5) pending by metis
    next
      case 4
      then show ?thesis using ask(5) pending by metis
    qed simp
  qed
next
  case (withdraw jid now)
  then have "challenges s' = sql_update (\<lambda>c. c_job_id c = jid \<and> c_state c = C_PENDING)
      (\<lambda>c. c\<lparr>c_state := C_CANCELLED, c_updated_at := now\<rparr>) (challenges s)" by simp
  then show ?thesis by (rule challenges_ok_fewer [OF assms(2)]) simp
next
  case (consume cid c aid a rj rh now)
  then have "challenges s' = sql_update (\<lambda>c. challenge_id c = cid) (\<lambda>c. c\<lparr>c_state := C_CONSUMED,
        response_json := Some rj, response_hash := Some rh, response_attempt_id := Some aid, c_updated_at := now\<rparr>) (challenges s)"
    by simp
  then show ?thesis by (rule challenges_ok_fewer [OF assms(2)]) simp
qed (rule challenges_ok_same [OF assms(2)], simp)+

definition answered :: "store \<Rightarrow> challenge \<Rightarrow> bool" where
  "answered s c \<longleftrightarrow> (c_state c = C_CONSUMED \<longrightarrow>
     (\<exists>aid. response_attempt_id c = Some aid \<and> (aid, c_job_id c) \<in> (\<lambda>a. (attempt_id a, a_job_id a)) ` set (attempts s)))"

lemma answers_ok_iff:
  assumes "ids_ok s"
  shows "answers_ok s \<longleftrightarrow> (\<forall>c \<in> set (challenges s). answered s c)"
proof -
  have "(\<exists>a. get_attempt_row s aid = Some a \<and> a_job_id a = jid)
      \<longleftrightarrow> (aid, jid) \<in> (\<lambda>a. (attempt_id a, a_job_id a)) ` set (attempts s)" for aid jid
    using assms by (auto simp: get_attempt_row_def ids_ok_def dest: distinct_fetchone fetchone_SomeD intro!: rev_image_eqI)
  then show ?thesis unfolding answers_ok_def answered_def by auto
qed

lemma answered_later:
  assumes "(\<lambda>a. (attempt_id a, a_job_id a)) ` set (attempts s) \<subseteq> (\<lambda>a. (attempt_id a, a_job_id a)) ` set (attempts s')"
    and "answered s c"
  shows "answered s' c"
  using assms unfolding answered_def by blast

lemma answers_ok_same:
  assumes "ids_ok s" "ids_ok s'" "answers_ok s" and "challenges s' = challenges s"
    and "(\<lambda>a. (attempt_id a, a_job_id a)) ` set (attempts s) \<subseteq> (\<lambda>a. (attempt_id a, a_job_id a)) ` set (attempts s')"
  shows "answers_ok s'"
  using assms(3,4) answered_later [OF assms(5)] by (simp add: answers_ok_iff [OF assms(1)] answers_ok_iff [OF assms(2)])

lemma answers_ok_step:
  assumes "store_step s s'" and "ids_ok s" and "answers_ok s"
  shows "answers_ok s'"
proof -
  have ids': "ids_ok s'" using assms(1,2) by (rule ids_ok_step)
  have old: "\<forall>c \<in> set (challenges s). answered s c" using assms(3) answers_ok_iff [OF assms(2)] by simp
  show ?thesis
    using assms(1)
  proof (cases rule: step_shape)
    case (ask c)
    have "answered s' x" if "answered s x" for x by (rule answered_later [OF _ that]) (use ask in simp)
    then show ?thesis using old ask(2,6) unfolding answers_ok_iff [OF ids'] by (auto simp: answered_def [of _ c])
  next
    case (withdraw jid now)
    have "answered s' x" if "answered s x" for x by (rule answered_later [OF _ that]) (use withdraw in simp)
    then show ?thesis using old withdraw unfolding answers_ok_iff [OF ids'] by (auto simp: in_sql_update answered_def)
  next
    case (consume cid c aid a rj rh now)
    have keep: "answered s' x" if "answered s x" for x by (rule answered_later [OF _ that]) (use consume in simp)
    have att: "(aid, c_job_id c) \<in> (\<lambda>a. (attempt_id a, a_job_id a)) ` set (attempts s')"
      using consume(3-5) get_attempt_row_SomeD [OF consume(3)] by force
    have one: "x = c" if "x \<in> set (challenges s)" "challenge_id x = cid" for x
      using assms(2) consume(1) that by (auto simp: ids_ok_def distinct_map dest!: get_challenge_row_SomeD dest: inj_onD)
    have "answered s' y" if y: "y \<in> set (challenges s')" for y
    proof (cases "challenge_id y = cid")
      case True
      then obtain x where "x \<in> set (challenges s)" "challenge_id x = cid" "y = x\<lparr>c_state := C_CONSUMED,
          response_json := Some rj, response_hash := Some rh, response_attempt_id := Some aid, c_updated_at := now\<rparr>"
        using y consume(5) by (auto simp: in_sql_update)
      with one [of x] att show ?thesis by (simp add: answered_def)
    next
      case False
      then have "y \<in> set (challenges s)" using y consume(5) by (auto simp: in_sql_update)
      then show ?thesis using old keep by blast
    qed
    then show ?thesis unfolding answers_ok_iff [OF ids'] by blast
  qed (rule answers_ok_same [OF assms(2) ids' assms(3)], simp, simp add: subset_insertI)+
qed

lemma operations_ok_same: "operations_ok s \<Longrightarrow> operations s' = operations s \<Longrightarrow> operations_ok s'"
  unfolding operations_ok_def by (simp only:)

lemma operations_ok_update:
  assumes "operations_ok s" and "operations s' = sql_update p f (operations s)"
    and "\<And>x. x \<in> set (operations s) \<Longrightarrow> p x \<Longrightarrow> operation_id (f x) = operation_id x \<and> op_key (f x) = op_key x \<and> outcome x \<noteq> O_FAILED"
  shows "operations_ok s'"
proof -
  have origin: "\<exists>x0 \<in> set (operations s). operation_id x = operation_id x0 \<and> op_key x = op_key x0
      \<and> (outcome x \<noteq> O_FAILED \<longrightarrow> outcome x0 \<noteq> O_FAILED)" if "x \<in> set (operations s')" for x
    using that assms(2,3) by (fastforce simp: in_sql_update)
  show ?thesis unfolding operations_ok_def
  proof (intro ballI impI)
    fix x y assume "x \<in> set (operations s')" "y \<in> set (operations s')"
      and xy: "op_key x = op_key y \<and> outcome x \<noteq> O_FAILED \<and> outcome y \<noteq> O_FAILED"
    from origin [OF this(1)] origin [OF this(2)] obtain x0 y0 where
      "x0 \<in> set (operations s)" "operation_id x = operation_id x0" "op_key x = op_key x0" "outcome x \<noteq> O_FAILED \<longrightarrow> outcome x0 \<noteq> O_FAILED"
      "y0 \<in> set (operations s)" "operation_id y = operation_id y0" "op_key y = op_key y0" "outcome y \<noteq> O_FAILED \<longrightarrow> outcome y0 \<noteq> O_FAILED"
      by blast
    then show "operation_id x = operation_id y" using assms(1) xy unfolding operations_ok_def by metis
  qed
qed

lemma operations_ok_step:
  assumes "store_step s s'" and "operations_ok s"
  shows "operations_ok s'"
  using assms(1)
proof (cases rule: step_shape)
  case (op_new x)
  show ?thesis unfolding operations_ok_def
  proof (intro ballI impI)
    fix y z assume yz: "y \<in> set (operations s')" "z \<in> set (operations s')"
      and eq: "op_key y = op_key z \<and> outcome y \<noteq> O_FAILED \<and> outcome z \<noteq> O_FAILED"
    from yz op_new(5) consider "y \<in> set (operations s)" "z \<in> set (operations s)" | "y = x" "z = x"
      | "y = x" "z \<in> set (operations s)" | "y \<in> set (operations s)" "z = x" by auto
    then show "operation_id y = operation_id z"
    proof cases
      case 1
      then show ?thesis using assms(2) eq unfolding operations_ok_def by blast
    next
      case 3
      then show ?thesis using op_new(4) eq by metis
    next
      case 4
      then show ?thesis using op_new(4) eq by metis
    qed simp
  qed
next
  case (op_reassign oid prev aid now)
  then have "operations s' = sql_update (\<lambda>x. operation_id x = oid \<and> o_attempt_id x = prev \<and> outcome x = O_PREPARED)
      (\<lambda>x. x\<lparr>o_attempt_id := aid, o_updated_at := now\<rparr>) (operations s)" by simp
  then show ?thesis by (rule operations_ok_update [OF assms(2)]) (simp add: op_key_def)
next
  case (op_advance f p)
  then have ops: "operations s' = sql_update p f (operations s)" by simp
  show ?thesis
    by (rule operations_ok_update [OF assms(2) ops])
       (use op_advance(1,2) in \<open>auto simp: same_operation_def OUTCOME_MOVES_def\<close>)
qed (rule operations_ok_same [OF assms(2)], simp)+

lemma sources_ok_step:
  assumes "store_step s s'" and "sources_ok s"
  shows "sources_ok s'"
  using assms(1)
proof (cases rule: step_shape)
  case (source rows)
  then show ?thesis using assms(2) by (simp add: sources_ok_def)
qed (use assms(2) in \<open>simp_all add: sources_ok_def\<close>)

lemma store_ok_step: "store_step s s' \<Longrightarrow> store_ok s \<Longrightarrow> store_ok s'"
  unfolding store_ok_def
  by (blast intro: ids_ok_step jobs_ok_step keys_ok_step bindings_ok_step owners_ok_step events_ok_step mirrored_step
      attempts_ok_step streams_closed_step tokens_ok_step challenges_ok_step answers_ok_step operations_ok_step sources_ok_step)

end
