(* ===== verification/StoreHistory.thy ===== *)
theory StoreHistory
  imports StoreInvariants
begin

text \<open>
  What stays true of a row for ever: how a job, an attempt, an operation, a challenge may differ in any later
  store, and that events, bindings and checkpoints are only appended.
\<close>

section \<open>Rows in later stores\<close>

definition row_later :: "job_row \<Rightarrow> job_row \<Rightarrow> bool" where
  "row_later r r' \<longleftrightarrow> job_id r' = job_id r \<and> request_hash r' = request_hash r \<and> request_json r' = request_json r
     \<and> principal r' = principal r \<and> client_request_id r' = client_request_id r \<and> execution_owner r' = execution_owner r
     \<and> retry_of_job_id r' = retry_of_job_id r \<and> created_at r' = created_at r
     \<and> (state r, state r') \<in> (set LEGAL_JOB_TRANSITIONS)\<^sup>*
     \<and> (cancellation_requested r \<longrightarrow> cancellation_requested r') \<and> (job_terminal (state r) \<longrightarrow> r' = r)"

definition attempt_later :: "attempt \<Rightarrow> attempt \<Rightarrow> bool" where
  "attempt_later a a' \<longleftrightarrow> attempt_id a' = attempt_id a \<and> a_job_id a' = a_job_id a \<and> a_step_id a' = a_step_id a
     \<and> a_created_at a' = a_created_at a \<and> a_state a \<le> a_state a' \<and> (a_state a \<noteq> A_PENDING \<longrightarrow> a_token a' = a_token a)
     \<and> (attempt_terminal (a_state a) \<longrightarrow> a' = a)"

definition operation_later :: "external_operation \<Rightarrow> external_operation \<Rightarrow> bool" where
  "operation_later x x' \<longleftrightarrow> same_operation x x' \<and> outcome x \<le> outcome x'
     \<and> (outcome x \<noteq> O_PREPARED \<longrightarrow> o_attempt_id x' = o_attempt_id x)
     \<and> (outcome x \<noteq> O_PREPARED \<and> outcome x \<noteq> O_STARTED \<longrightarrow> x' = x)"

definition challenge_later :: "challenge \<Rightarrow> challenge \<Rightarrow> bool" where
  "challenge_later c c' \<longleftrightarrow> challenge_id c' = challenge_id c \<and> c_job_id c' = c_job_id c \<and> c_attempt_id c' = c_attempt_id c
     \<and> prompt_json c' = prompt_json c \<and> (c_state c \<noteq> C_PENDING \<longrightarrow> c_state c' \<noteq> C_PENDING) \<and> (c_state c = C_CONSUMED \<longrightarrow> c' = c)"

definition all_later :: "('r \<Rightarrow> 'r \<Rightarrow> bool) \<Rightarrow> 'r list \<Rightarrow> 'r list \<Rightarrow> bool" where
  "all_later R xs ys \<longleftrightarrow> length xs \<le> length ys \<and> (\<forall>i < length xs. R (xs ! i) (ys ! i))"

definition store_later :: "store \<Rightarrow> store \<Rightarrow> bool" where
  "store_later s s' \<longleftrightarrow> all_later row_later (jobs s) (jobs s') \<and> all_later attempt_later (attempts s) (attempts s')
     \<and> all_later operation_later (operations s) (operations s') \<and> all_later challenge_later (challenges s) (challenges s')
     \<and> all_later (=) (events s) (events s') \<and> all_later (=) (bindings s) (bindings s')
     \<and> all_later (=) (checkpoints s) (checkpoints s')"

lemma all_later_refl: "(\<And>x. R x x) \<Longrightarrow> all_later R xs xs"
  by (simp add: all_later_def)

lemma all_later_trans:
  assumes "transp R" and "all_later R xs ys" and "all_later R ys zs"
  shows "all_later R xs zs"
  using assms(2,3) transpD [OF assms(1)] unfolding all_later_def by (meson le_trans less_le_trans)

lemma all_later_append: "(\<And>x. R x x) \<Longrightarrow> all_later R xs (xs @ ys)"
  by (simp add: all_later_def nth_append)

lemma all_later_update:
  assumes "\<And>x. R x x" and "\<And>x. x \<in> set xs \<Longrightarrow> p x \<Longrightarrow> R x (f x)"
  shows "all_later R xs (sql_update p f xs)"
  using assms by (simp add: all_later_def sql_update_def)

lemma all_later_in: "all_later R xs ys \<Longrightarrow> x \<in> set xs \<Longrightarrow> \<exists>y \<in> set ys. R x y"
  unfolding all_later_def by (metis in_set_conv_nth less_le_trans)

lemma all_later_eq: "all_later (=) xs ys \<longleftrightarrow> (\<exists>zs. ys = xs @ zs)"
proof
  assume later: "all_later (=) xs ys"
  have "take (length xs) ys = xs"
    by (rule nth_equalityI) (use later in \<open>auto simp: all_later_def\<close>)
  then show "\<exists>zs. ys = xs @ zs" by (metis append_take_drop_id)
qed (auto simp: all_later_append)

lemma row_later_refl [simp]: "row_later r r" and attempt_later_refl [simp]: "attempt_later a a"
  and operation_later_refl [simp]: "operation_later x x" and challenge_later_refl [simp]: "challenge_later c c"
  by (simp_all add: row_later_def attempt_later_def operation_later_def same_operation_def challenge_later_def)

lemma row_later_trans: "transp row_later"
proof (rule transpI)
  fix x y z show "row_later x y \<Longrightarrow> row_later y z \<Longrightarrow> row_later x z"
    by (cases "job_terminal (state x)") (simp_all add: row_later_def, metis rtrancl_trans)
qed

lemma attempt_later_trans: "transp attempt_later"
  by (rule transpI) (auto simp: attempt_later_def less_eq_attempt_state_def less_attempt_state_def)

lemma operation_later_trans: "transp operation_later"
  by (rule transpI) (auto simp: operation_later_def same_operation_def less_eq_external_outcome_def less_external_outcome_def)

lemma challenge_later_trans: "transp challenge_later"
  by (rule transpI) (auto simp: challenge_later_def)

lemma store_later_refl: "store_later s s"
  by (simp add: store_later_def all_later_refl)

lemma store_later_trans: "store_later s s1 \<Longrightarrow> store_later s1 s2 \<Longrightarrow> store_later s s2"
  unfolding store_later_def
  by (elim conjE, intro conjI)
     (blast intro: all_later_trans [OF row_later_trans] all_later_trans [OF attempt_later_trans]
        all_later_trans [OF operation_later_trans] all_later_trans [OF challenge_later_trans] all_later_trans [OF transp_on_equality])+

lemmas later_intros = all_later_refl all_later_append all_later_update

lemma step_later:
  assumes "store_step s s'" and "ids_ok s"
  shows "store_later s s'"
  using assms(1)
proof (cases rule: step_shape)
  case (request_cancel jid now)
  have "row_later r (r\<lparr>cancellation_requested := True, updated_at := now\<rparr>)" if "r \<in> set (jobs s)" "job_id r = jid" for r
    using live_not_terminal [OF assms(2) request_cancel(1) that] by (simp add: row_later_def)
  then show ?thesis using request_cancel(2) by (simp add: store_later_def later_intros)
next
  case (move jid r st res err now v)
  have "row_later r' (move_row now st res err r')" if "r' \<in> set (jobs s)" "job_id r' = jid" for r'
    using row_unique [OF assms(2) move(1) that] legal_job_start [OF move(2)] move(2) by (simp add: row_later_def)
  then show ?thesis using move(7) by (simp add: store_later_def later_intros)
next
  case (attempt_start aid a l now v)
  have "attempt_later x (x\<lparr>a_state := A_RUNNING, a_token := generation l, a_updated_at := now\<rparr>)"
    if "x \<in> set (attempts s)" "attempt_id x = aid" for x
    using attempt_unique [OF assms(2) attempt_start(1) that] attempt_start(2)
    by (simp add: attempt_later_def less_eq_attempt_state_def less_attempt_state_def)
  then show ?thesis using attempt_start(6) by (simp add: store_later_def later_intros)
next
  case (attempt_settle aid a st now v)
  have "attempt_later x (x\<lparr>a_state := st, a_updated_at := now\<rparr>)" if "x \<in> set (attempts s)" "attempt_id x = aid" for x
    using attempt_unique [OF assms(2) attempt_settle(1) that] attempt_settle(2)
    by (simp add: attempt_later_def less_eq_attempt_state_def legal_attempt_less legal_attempt_start)
  then show ?thesis using attempt_settle(5) by (simp add: store_later_def later_intros)
next
  case (withdraw jid now)
  have "challenge_later c (c\<lparr>c_state := C_CANCELLED, c_updated_at := now\<rparr>)" if "c_state c = C_PENDING" for c
    using that by (simp add: challenge_later_def)
  then have "all_later challenge_later (challenges s) (challenges s')"
    using withdraw by (auto intro!: all_later_update)
  with withdraw show ?thesis by (simp add: store_later_def later_intros)
next
  case (consume cid c aid a rj rh now)
  have "challenge_later x (x\<lparr>c_state := C_CONSUMED, response_json := Some rj, response_hash := Some rh,
      response_attempt_id := Some aid, c_updated_at := now\<rparr>)" if "x \<in> set (challenges s)" "challenge_id x = cid" for x
  proof -
    have "x = c"
      using assms(2) consume(1) that by (auto simp: ids_ok_def distinct_map dest!: get_challenge_row_SomeD dest: inj_onD)
    with consume(2) show ?thesis by (simp add: challenge_later_def)
  qed
  with consume(5) show ?thesis by (simp add: store_later_def later_intros)
next
  case (op_reassign oid prev aid now)
  have "operation_later x (x\<lparr>o_attempt_id := aid, o_updated_at := now\<rparr>)" if "outcome x = O_PREPARED" for x
    using that by (simp add: operation_later_def same_operation_def op_key_def)
  then have "all_later operation_later (operations s) (operations s')"
    using op_reassign by (auto intro!: all_later_update)
  with op_reassign show ?thesis by (simp add: store_later_def later_intros)
next
  case (op_advance f p)
  have "operation_later x (f x)" if "x \<in> set (operations s)" "p x" for x
    using op_advance(1-3) that
    by (auto simp: operation_later_def OUTCOME_MOVES_def less_eq_external_outcome_def less_external_outcome_def)
  with op_advance(4) show ?thesis by (simp add: store_later_def later_intros)
qed (simp_all add: store_later_def later_intros)

lemma steps_later:
  assumes "store_step\<^sup>*\<^sup>* s s'" and "ids_ok s"
  shows "store_later s s'"
  using assms
proof (induction rule: rtranclp_induct)
  case (step y z)
  then show ?case using step_later [OF step.hyps(2)] ids_ok_rtrancl store_later_trans by blast
qed (rule store_later_refl)

text \<open>The same, for a row read by its key.\<close>

lemma job_later:
  assumes "store_later s s'" and "ids_ok s'" and "get_row s jid = Some r"
  shows "\<exists>r'. get_row s' jid = Some r' \<and> row_later r r'"
proof -
  have "r \<in> set (jobs s)" "job_id r = jid" using assms(3) by (auto dest: get_row_SomeD)
  then obtain r' where "r' \<in> set (jobs s')" "row_later r r'"
    using assms(1) by (auto simp: store_later_def dest: all_later_in)
  then show ?thesis using assms(2) row_get [of s' r'] \<open>job_id r = jid\<close> by (auto simp: row_later_def)
qed

lemma operation_row_later:
  assumes "store_later s s'" and "ids_ok s'" and "get_operation_row s oid = Some x"
  shows "\<exists>x'. get_operation_row s' oid = Some x' \<and> operation_later x x'"
proof -
  have "x \<in> set (operations s)" "operation_id x = oid" using assms(3) by (auto dest: get_operation_row_SomeD)
  then obtain x' where x': "x' \<in> set (operations s')" "operation_later x x'"
    using assms(1) by (auto simp: store_later_def dest: all_later_in)
  then have "operation_id x' = oid" using \<open>operation_id x = oid\<close> by (simp add: operation_later_def same_operation_def)
  then show ?thesis using assms(2) x' by (auto simp: get_operation_row_def ids_ok_def dest: distinct_fetchone)
qed

lemma attempt_row_later:
  assumes "store_later s s'" and "ids_ok s'" and "get_attempt_row s aid = Some a"
  shows "\<exists>a'. get_attempt_row s' aid = Some a' \<and> attempt_later a a'"
proof -
  have "a \<in> set (attempts s)" "attempt_id a = aid" using assms(3) by (auto dest: get_attempt_row_SomeD)
  then obtain a' where a': "a' \<in> set (attempts s')" "attempt_later a a'"
    using assms(1) by (auto simp: store_later_def dest: all_later_in)
  then have "attempt_id a' = aid" using \<open>attempt_id a = aid\<close> by (simp add: attempt_later_def)
  then show ?thesis using assms(2) a' by (auto simp: get_attempt_row_def ids_ok_def dest: distinct_fetchone)
qed

lemma binding_later:
  "store_later s s' \<Longrightarrow> map_of (bindings s) jid = Some b \<Longrightarrow> map_of (bindings s') jid = Some b"
  by (auto simp: store_later_def all_later_eq map_add_def)

lemma events_later: "store_later s s' \<Longrightarrow> \<exists>vs. job_events s' jid = job_events s jid @ vs"
  by (auto simp: store_later_def all_later_eq job_events_def)

text \<open>No step adds to the stream of a job that succeeded or failed.\<close>

lemma finished_stream_step:
  assumes "store_step s s'" and "attempts_ok s" and "get_row s jid = Some r" and "state r = SUCCEEDED \<or> state r = FAILED"
  shows "job_events s' jid = job_events s jid"
proof -
  have dead: "\<not> job_live s jid" using assms(3,4) by (auto simp: job_live_def)
  have other: ?thesis if "events s' = events s @ [v]" "e_job_id v \<noteq> jid" for v
    using that by (simp add: job_events_def)
  show ?thesis
    using assms(1)
  proof (cases rule: step_shape)
    case (create r0 b vs v)
    have "job_id r0 \<noteq> jid" using create(2) assms(3) by auto
    moreover from this have "filter (\<lambda>v. e_job_id v = jid) vs = []"
      using create(10) by (auto simp: list_all_iff filter_empty_conv)
    ultimately show ?thesis using create(1,12) by (simp add: job_events_def)
  next
    case (tell v)
    with dead show ?thesis by (intro other [of v]) auto
  next
    case (move jid' r' st res err now v)
    have "jid' \<noteq> jid" using move(1) assms(3,4) legal_job_start [OF move(2)] by auto
    with move(6,7) show ?thesis by (intro other [of v]) (auto simp: state_event_def)
  next
    case (attempt_new a v sts)
    with dead show ?thesis by (intro other [of v]) (auto simp: stage_event_def)
  next
    case (attempt_start aid a l now v)
    with dead show ?thesis by (intro other [of v]) (auto simp: stage_event_def dest: working_live)
  next
    case (attempt_settle aid a st now v)
    have "unsettled a" using attempt_settle(2) by (auto simp: LEGAL_ATTEMPT_TRANSITIONS_def unsettled_def)
    then have "a_job_id a \<noteq> jid"
      using unsettled_job_open [OF assms(2)] get_attempt_row_SomeD [OF attempt_settle(1)] get_row_SomeD [OF assms(3)] assms(4)
      by metis
    with attempt_settle(4,5) show ?thesis by (intro other [of v]) (auto simp: stage_event_def)
  qed (simp_all add: job_events_def)
qed

lemma finished_stream_steps:
  assumes "store_step\<^sup>*\<^sup>* s s'" and "store_ok s" and "get_row s jid = Some r" and "state r = SUCCEEDED \<or> state r = FAILED"
  shows "job_events s' jid = job_events s jid"
  using assms(1)
proof (induction rule: rtranclp_induct)
  case (step y z)
  have ok: "store_ok y" using step.hyps(1) assms(2) by (induction rule: rtranclp_induct) (auto dest: store_ok_step)
  then have ids: "ids_ok y" and atts: "attempts_ok y" by (auto simp: store_ok_def)
  have "get_row y jid = Some r"
    using job_later [OF steps_later [OF step.hyps(1)] ids assms(3)] assms(2,4) by (auto simp: row_later_def store_ok_def)
  from finished_stream_step [OF step.hyps(2) atts this assms(4)] step.IH show ?case by simp
qed simp

end
