(* ===== verification/Challenges.thy ===== *)
theory Challenges
  imports JobLifecycle
begin

text \<open>
  Jobs that wait for a person: a challenge is asked on behalf of an attempt that needs input, or when the
  outcome of an external operation is unknown, and answered once; and the retry of a finished job as a new
  one, which must confirm every operation whose outcome is unknown.
\<close>

section \<open>Asking\<close>

definition ensure_no_pending_challenge :: "string \<Rightarrow> store \<Rightarrow> store_error + unit" where
  "ensure_no_pending_challenge jid s =
    (if \<exists>c \<in> set (challenges s). c_job_id c = jid \<and> c_state c = C_PENDING
     then conflict ''challenge_pending_exists'' else Inr ())"

definition insert_challenge ::
    "env \<Rightarrow> string \<Rightarrow> string \<Rightarrow> string \<Rightarrow> store \<Rightarrow> store_error + (string \<times> store)" where
  "insert_challenge e jid aid prompt s =
    (let cid = new_id e ''chl'' (length (challenges s)) in
     if get_challenge_row s cid \<noteq> None then Inl (IntegrityError ''challenges.challenge_id'')
     else Inr (cid, s\<lparr>challenges := challenges s @
       [\<lparr>challenge_id = cid, c_job_id = jid, c_attempt_id = aid, c_state = C_PENDING, prompt_json = prompt,
         response_json = None, response_hash = None, response_attempt_id = None,
         c_created_at = utc e, c_updated_at = utc e\<rparr>]\<rparr>))"

text \<open>Moves the job to waiting, forgets its worker launches and announces the state.\<close>

definition wait_for_input :: "env \<Rightarrow> string \<Rightarrow> job_state \<Rightarrow> store \<Rightarrow> store_error + store" where
  "wait_for_input e jid st s =
     andthen (insert_job_state_event e jid st (clear_launches jid (set_job_state e jid st s))) (\<lambda>(_, s'). Inr s')"

definition create_challenge ::
    "env \<Rightarrow> string \<Rightarrow> string \<Rightarrow> string \<Rightarrow> store \<Rightarrow> store_error + (challenge \<times> store)" where
  "create_challenge e jid aid prompt s =
     andthen (get_job s jid) (\<lambda>j.
       if state j \<noteq> RUNNING then conflict ''challenge_job_not_running''
       else andthen (get_attempt s aid) (\<lambda>a.
         if a_job_id a \<noteq> jid \<or> a_state a \<noteq> A_NEEDS_INPUT then conflict ''challenge_attempt_invalid''
         else andthen (ensure_no_pending_challenge jid s) (\<lambda>_.
              andthen (insert_challenge e jid aid prompt s) (\<lambda>(cid, s1).
              andthen (transition_job (state j) WAITING_FOR_INPUT) (\<lambda>st.
              andthen (wait_for_input e jid st s1) (\<lambda>s2.
              andthen (get_challenge s2 cid) (\<lambda>c. Inr (c, s2))))))))"

definition unknown_operation_ids :: "(external_operation \<Rightarrow> bool) \<Rightarrow> store \<Rightarrow> string list" where
  "unknown_operation_ids p s = map operation_id
     (sort_key operation_id (filter (\<lambda>x. p x \<and> outcome x = O_UNKNOWN) (operations s)))"

definition external_outcome_prompt :: "string list \<Rightarrow> string" where
  "external_outcome_prompt ids =
     dumps (JObj [(''code'', JStr ''external_outcome_unknown''), (''operation_ids'', JList (map JStr ids))])"

definition pause_for_external_outcome_atomic ::
    "env \<Rightarrow> string \<Rightarrow> string \<Rightarrow> job_execution_authority \<Rightarrow> store \<Rightarrow> store_error + (challenge option \<times> store)" where
  "pause_for_external_outcome_atomic e jid aid authority s =
     andthen (get_job s jid) (\<lambda>j.
       if state j \<noteq> RUNNING then conflict ''challenge_job_not_running''
       else andthen (assert_execution_authority e jid aid (JobBound authority) s) (\<lambda>a.
         if cancellation_requested j
         then andthen (settle_claimed_cancellation e jid s) (\<lambda>s1. Inr (None, s1))
         else
           let ids = unknown_operation_ids (\<lambda>x. o_job_id x = jid \<and> o_step_id x = a_step_id a) s in
           if ids = [] then conflict ''external_outcome_unknown_required''
           else andthen (ensure_no_pending_challenge jid s) (\<lambda>_.
                andthen (announce_attempt e aid (set_attempt_state e aid A_NEEDS_INPUT s)) (\<lambda>(_, s1).
                andthen (insert_challenge e jid aid (external_outcome_prompt ids) s1) (\<lambda>(cid, s2).
                andthen (wait_for_input e jid WAITING_FOR_INPUT s2) (\<lambda>s3.
                andthen (get_challenge s3 cid) (\<lambda>c. Inr (Some c, s3))))))))"

section \<open>Answering\<close>

definition respond_challenge_atomic ::
    "env \<Rightarrow> string \<Rightarrow> string \<Rightarrow> string \<Rightarrow> string \<Rightarrow> store \<Rightarrow> store_error + ((job \<times> attempt) \<times> store)" where
  "respond_challenge_atomic e jid cid rhash rjson s =
     andthen (get_job s jid) (\<lambda>j.
     andthen (get_challenge s cid) (\<lambda>c.
       if c_job_id c \<noteq> jid then conflict ''challenge_job_mismatch''
       else if c_state c = C_CONSUMED then
         if response_hash c \<noteq> Some rhash then conflict ''challenge_response_conflict''
         else (case response_attempt_id c of
                 None \<Rightarrow> Inl (DomainError ''challenge_response_invalid'' INTERNAL)
               | Some aid \<Rightarrow> andthen (get_attempt s aid) (\<lambda>a. Inr ((j, a), s)))
       else if state j \<noteq> WAITING_FOR_INPUT then conflict ''challenge_job_not_waiting''
       else andthen (get_attempt s (c_attempt_id c)) (\<lambda>source.
            andthen (create_attempt_conn e jid (a_step_id source) s) (\<lambda>(response, s1).
            let s2 = update_challenges (\<lambda>c. challenge_id c = cid)
                       (\<lambda>c. c\<lparr>c_state := C_CONSUMED, response_json := Some rjson, response_hash := Some rhash,
                              response_attempt_id := Some (attempt_id response), c_updated_at := utc e\<rparr>) s1 in
            andthen (transition_job (state j) QUEUED) (\<lambda>st.
            andthen (insert_job_state_event e jid st (set_job_state e jid st s2)) (\<lambda>(_, s3).
            andthen (get_job s3 jid) (\<lambda>j3. Inr ((j3, response), s3))))))))"

section \<open>Retrying\<close>

definition create_retry_job_atomic ::
    "env \<Rightarrow> string \<Rightarrow> job_state \<Rightarrow> string list \<Rightarrow> string \<Rightarrow> (string \<times> string) list \<Rightarrow> store
      \<Rightarrow> store_error + (job \<times> store)" where
  "create_retry_job_atomic e original expected confirmed crid evs s =
     andthen (validate_initial_events e evs) (\<lambda>_.
     andthen (get_job s original) (\<lambda>o'.
       if \<not> job_terminal (state o') then conflict ''retry_original_not_terminal''
       else if state o' \<noteq> expected then conflict ''retry_original_state_conflict''
       else if client_request_id o' = Some crid then conflict ''retry_client_request_id_reused''
       else if \<not> distinct confirmed then invalid ''retry_unknown_operations_invalid''
       else if set confirmed \<noteq> set (unknown_operation_ids (\<lambda>x. o_job_id x = original) s)
            then conflict ''retry_unknown_operations_unconfirmed''
       else
         let rjson = (case get_row s original of Some r \<Rightarrow> request_json r | None \<Rightarrow> None) in
         andthen (create_job_conn e (request_hash o') rjson (principal o') (Some crid) (Some (job_id o'))
                    (execution_owner o') s) (\<lambda>((j, created), s1).
           if created then
             andthen (get_execution_binding s1 (job_id o')) (\<lambda>b.
             andthen (open_job e (job_id j) b evs s1) (\<lambda>s2. Inr (j, s2)))
           else if evs \<noteq> [] \<and> stored_events s1 (job_id j) (length evs) \<noteq> evs then conflict ''idempotency_conflict''
           else Inr (j, s1))))"

section \<open>The operations are sequences of steps\<close>

lemma transition_job_Inr: "transition_job a b = Inr c \<longleftrightarrow> c = b \<and> (a, b) \<in> set LEGAL_JOB_TRANSITIONS"
  by (auto simp: transition_job_def dest: legal_job_start)

lemma insert_challenge_frame:
  assumes "insert_challenge e jid aid prompt s = Inr (cid, s1)"
  shows "\<exists>c. s1 = s\<lparr>challenges := challenges s @ [c]\<rparr> \<and> get_challenge_row s (challenge_id c) = None
    \<and> c_state c = C_PENDING \<and> c_job_id c = jid \<and> c_attempt_id c = aid \<and> response_attempt_id c = None"
  using assms by (auto simp: insert_challenge_def Let_def split: if_splits)

lemma insert_challenge_runs:
  assumes "insert_challenge e jid aid prompt s = Inr (cid, s1)" and "job_live s jid"
    and "ensure_no_pending_challenge jid s = Inr u"
  shows "runs s s1"
  using insert_challenge_frame [OF assms(1)] assms(2,3)
  by (auto simp: ensure_no_pending_challenge_def split: if_splits intro!: step_runs ask)

lemma clear_launches_runs: "runs s (clear_launches jid s)"
  unfolding clear_launches_def by (rule step_runs, rule claim_update) simp_all

lemma wait_for_input_runs:
  assumes "wait_for_input e jid st s = Inr s'" and "get_row s jid = Some r"
    and "(state r, st) \<in> set LEGAL_JOB_TRANSITIONS" and "\<not> job_terminal st"
  shows "runs s s'"
proof -
  from assms(1) obtain v where v: "insert_job_state_event e jid st (clear_launches jid (set_job_state e jid st s)) = Inr (v, s')"
    by (auto simp: wait_for_input_def result_simps)
  have "clear_launches jid (set_job_state e jid st s) = set_job_state e jid st (clear_launches jid s)"
    by (simp add: store_updates)
  with v have v': "insert_job_state_event e jid st (set_job_state e jid st (clear_launches jid s)) = Inr (v, s')" by simp
  have "runs s (clear_launches jid s)" by (rule clear_launches_runs)
  also have "runs (clear_launches jid s) s'"
  proof (rule job_move_runs [OF v' _ assms(3)])
    show "get_row (clear_launches jid s) jid = Some r"
      using assms(2) by (simp add: get_row_def store_updates)
    show "may_enter (clear_launches jid s) r st"
      using assms(4) by (cases st) simp_all
  qed
  finally show ?thesis .
qed

lemma create_challenge_runs:
  assumes "create_challenge e jid aid prompt s = Inr (c, s')"
  shows "runs s s'"
proof -
  from assms obtain r cid s1 where r: "get_row s jid = Some r" "state r = RUNNING"
    and none: "ensure_no_pending_challenge jid s = Inr ()"
    and ins: "insert_challenge e jid aid prompt s = Inr (cid, s1)"
    and wait: "wait_for_input e jid WAITING_FOR_INPUT s1 = Inr s'"
    by (auto simp: create_challenge_def result_simps transition_job_Inr split: if_splits)
  have "runs s s1"
    using r by (intro insert_challenge_runs [OF ins _ none]) (auto simp: job_live_def)
  also have "runs s1 s'"
    using r insert_challenge_frame [OF ins]
    by (intro wait_for_input_runs [OF wait]) (auto simp: get_row_def LEGAL_JOB_TRANSITIONS_def)
  finally show ?thesis .
qed

lemma assert_execution_authority_Inr:
  "assert_execution_authority e jid aid authority s = Inr a \<longleftrightarrow>
     (\<exists>auth. authority = JobBound auth \<and> get_attempt_row s aid = Some a \<and> a_job_id a = jid \<and> a_state a = A_RUNNING
        \<and> 1 \<le> a_token a \<and> a_token a = fencing_token auth \<and> assert_job_authority e jid auth s = Inr ())"
  by (auto simp: assert_execution_authority_def result_simps split: any_authority.splits if_splits)

lemma pause_for_external_outcome_atomic_runs:
  assumes "pause_for_external_outcome_atomic e jid aid authority s = Inr (c, s')"
  shows "runs s s'"
proof -
  from assms obtain r a where r: "get_row s jid = Some r" "state r = RUNNING"
    and a: "get_attempt_row s aid = Some a" "a_job_id a = jid" "a_state a = A_RUNNING"
    by (auto simp: pause_for_external_outcome_atomic_def result_simps assert_execution_authority_Inr split: if_splits)
  show ?thesis
  proof (cases "cancellation_requested r")
    case True
    with assms r show ?thesis
      by (auto simp: pause_for_external_outcome_atomic_def result_simps intro: settle_claimed_cancellation_runs)
  next
    case False
    with assms r a obtain b s1 cid s2 prompt where none: "ensure_no_pending_challenge jid s = Inr ()"
      and ann: "announce_attempt e aid (set_attempt_state e aid A_NEEDS_INPUT s) = Inr (b, s1)"
      and ins: "insert_challenge e jid aid prompt s1 = Inr (cid, s2)"
      and wait: "wait_for_input e jid WAITING_FOR_INPUT s2 = Inr s'"
      by (auto simp: pause_for_external_outcome_atomic_def result_simps Let_def split: if_splits)
    have same: "get_row s1 jid = get_row s jid" "challenges s1 = challenges s"
      using announce_attempt_frame [OF ann] by (auto simp: get_row_def store_updates)
    have "runs s s1"
      using a by (intro attempt_settle_runs [OF ann a(1)]) (auto simp: LEGAL_ATTEMPT_TRANSITIONS_def)
    also have "runs s1 s2"
      using r same none
      by (intro insert_challenge_runs [OF ins]) (auto simp: job_live_def ensure_no_pending_challenge_def)
    also have "runs s2 s'"
      using r same insert_challenge_frame [OF ins]
      by (intro wait_for_input_runs [OF wait]) (auto simp: get_row_def LEGAL_JOB_TRANSITIONS_def)
    finally show ?thesis .
  qed
qed

lemma respond_challenge_atomic_runs:
  assumes "respond_challenge_atomic e jid cid rhash rjson s = Inr ((j, a), s')"
  shows "runs s s'"
proof -
  from assms obtain r c where r: "get_row s jid = Some r" and c: "get_challenge_row s cid = Some c" "c_job_id c = jid"
    by (auto simp: respond_challenge_atomic_def get_challenge_def result_simps split: if_splits)
  show ?thesis
  proof (cases "c_state c = C_CONSUMED")
    case True
    with assms r c show ?thesis
      by (auto simp: respond_challenge_atomic_def get_challenge_def result_simps split: if_splits option.splits)
  next
    case False
    with assms r c obtain source :: attempt and s1 v where waiting: "state r = WAITING_FOR_INPUT"
      and att: "create_attempt_conn e jid (a_step_id source) s = Inr (a, s1)"
      and ev: "insert_job_state_event e jid QUEUED (set_job_state e jid QUEUED
         (update_challenges (\<lambda>c. challenge_id c = cid) (\<lambda>c. c\<lparr>c_state := C_CONSUMED, response_json := Some rjson,
            response_hash := Some rhash, response_attempt_id := Some (attempt_id a), c_updated_at := utc e\<rparr>) s1))
         = Inr (v, s')"
      by (auto simp: respond_challenge_atomic_def get_challenge_def result_simps Let_def transition_job_Inr split: if_splits)
    let ?s2 = "update_challenges (\<lambda>c. challenge_id c = cid) (\<lambda>c. c\<lparr>c_state := C_CONSUMED, response_json := Some rjson,
            response_hash := Some rhash, response_attempt_id := Some (attempt_id a), c_updated_at := utc e\<rparr>) s1"
    obtain v1 sts where f: "s1 = s\<lparr>steps := sts, attempts := attempts s @ [a], events := events s @ [v1]\<rparr>"
      "a_job_id a = jid" "get_attempt_row s (attempt_id a) = None"
      using create_attempt_conn_frame [OF att] by blast
    have same: "get_row s1 jid = Some r" "get_row ?s2 jid = Some r" "get_challenge_row s1 cid = Some c"
      using f r c by (simp_all add: get_row_def get_challenge_row_def store_updates)
    have row: "get_attempt_row s1 (attempt_id a) = Some a"
      using f by (simp add: get_attempt_row_def fetchone_append)
    have "runs s s1"
      using r waiting by (intro step_runs, intro attempt_new [OF _ att]) (auto simp: job_live_def)
    also have "runs s1 ?s2"
      by (rule step_runs, rule consume [OF same(3) False c(2) row f(2)])
    also have "runs ?s2 s'"
      using waiting same by (intro job_move_runs [OF ev]) (auto simp: LEGAL_JOB_TRANSITIONS_def)
    finally show ?thesis .
  qed
qed

lemma get_execution_binding_valid: "get_execution_binding s jid = Inr b \<Longrightarrow> job_execution_binding_valid b"
  by (auto simp: get_execution_binding_def split: option.splits if_splits)

lemma create_retry_job_atomic_runs:
  assumes "create_retry_job_atomic e original expected confirmed crid evs s = Inr (j, s')"
  shows "runs s s'"
proof -
  from assms obtain r created s1 where r: "get_row s original = Some r"
    and evs: "list_all (user_event_type \<circ> fst) evs"
    and conn: "create_job_conn e (request_hash r) (request_json r) (principal r) (Some crid) (Some (job_id r))
        (execution_owner r) s = Inr ((j, created), s1)"
    and rest: "if created then \<exists>b. get_execution_binding s1 (job_id r) = Inr b \<and> open_job e (job_id j) b evs s1 = Inr s'
      else s' = s1"
    by (auto simp: create_retry_job_atomic_def result_simps Let_def dest: validate_initial_events_user split: if_splits)
  show ?thesis
  proof (cases created)
    case True
    with create_job_conn_Inr [OF conn] obtain r' where
      "s1 = s\<lparr>jobs := jobs s @ [r']\<rparr>" "j = job_from_row r'" "get_row s (job_id r') = None" "state r' = QUEUED"
      "\<not> cancellation_requested r'" "result r' = None" "error_json r' = None"
      "find_request s (principal r') (client_request_id r') = None"
      by auto
    with True rest evs show ?thesis by (auto intro!: open_job_runs dest: get_execution_binding_valid)
  next
    case False
    with create_job_conn_Inr [OF conn] rest show ?thesis by simp
  qed
qed

end
