(* ===== verification/ExternalOps.thy ===== *)
theory ExternalOps
  imports Challenges
begin

text \<open>
  Calls to paid or irreversible external services, recorded before they are made: an operation is prepared,
  started, and finished as succeeded, failed or of unknown outcome, by the attempt that owns it under its job's
  current claim. One request of a step is one operation at a time.
\<close>

section \<open>Operations\<close>

text \<open>The operations of a request, latest first, and those of them with an outcome.\<close>

definition request_operations :: "string \<times> string \<times> string \<times> string \<Rightarrow> store \<Rightarrow> external_operation list" where
  "request_operations k s = rev (filter (\<lambda>x. op_key x = k) (operations s))"

definition by_outcome :: "external_outcome \<Rightarrow> external_operation list \<Rightarrow> string list" where
  "by_outcome out rows = map operation_id (filter (\<lambda>x. outcome x = out) rows)"

text \<open>A prepared operation is reused by its own attempt and handed to a newer one.\<close>

definition reuse_prepared ::
    "env \<Rightarrow> string \<Rightarrow> string \<Rightarrow> nat \<Rightarrow> store \<Rightarrow> store_error + (external_operation \<times> store)" where
  "reuse_prepared e oid aid token s =
     andthen (get_external_operation s oid) (\<lambda>x.
       if o_attempt_id x = aid then Inr (x, s)
       else andthen (get_attempt s (o_attempt_id x)) (\<lambda>previous.
         if a_token previous = token then conflict ''external_operation_in_progress''
         else if token < a_token previous then conflict ''attempt_fenced''
         else
           let p = (\<lambda>y. operation_id y = oid \<and> o_attempt_id y = o_attempt_id x \<and> outcome y = O_PREPARED);
               s1 = update_operations p (\<lambda>y. y\<lparr>o_attempt_id := aid, o_updated_at := utc e\<rparr>) s
           in if rowcount p (operations s) \<noteq> 1 then conflict ''external_operation_in_progress''
              else andthen (get_external_operation s1 oid) (\<lambda>y. Inr (y, s1))))"

definition insert_operation ::
    "env \<Rightarrow> string \<Rightarrow> string \<Rightarrow> string \<Rightarrow> string \<Rightarrow> string \<Rightarrow> string option \<Rightarrow> string \<Rightarrow> store
      \<Rightarrow> store_error + (external_operation \<times> store)" where
  "insert_operation e jid step aid prov rhash ikey summary s =
    (let oid = new_id e ''op'' (length (operations s));
         x = \<lparr>operation_id = oid, o_job_id = jid, o_step_id = step, o_attempt_id = aid, provider = prov,
              o_request_hash = rhash, operation_idempotency_key = ikey, provider_request_id = None,
              outcome = O_PREPARED, summary_json = summary, o_created_at = utc e, o_updated_at = utc e\<rparr>
     in if get_operation_row s oid \<noteq> None then Inl (IntegrityError ''external_operations.operation_id'')
        else Inr (x, s\<lparr>operations := operations s @ [x]\<rparr>))"

definition prepare_external_operation ::
    "env \<Rightarrow> string \<Rightarrow> string \<Rightarrow> string \<Rightarrow> string \<Rightarrow> string \<Rightarrow> string option \<Rightarrow> string \<Rightarrow> any_authority
      \<Rightarrow> int option \<Rightarrow> store \<Rightarrow> store_error + (external_operation \<times> store)" where
  "prepare_external_operation e jid step aid prov rhash ikey summary authority max_attempts s =
    (if \<exists>m \<in> set_option max_attempts. m < 1 then invalid ''external_attempt_budget_invalid''
     else
       let rows = request_operations (jid, step, prov, rhash) s in
       if by_outcome O_UNKNOWN rows \<noteq> [] then conflict ''external_outcome_unknown''
       else if by_outcome O_STARTED rows \<noteq> [] then conflict ''external_operation_in_progress''
       else if by_outcome O_SUCCEEDED rows \<noteq> []
         then andthen (get_external_operation s (hd (by_outcome O_SUCCEEDED rows))) (\<lambda>x. Inr (x, s))
       else andthen (get_job s jid) (\<lambda>j.
         if cancellation_requested j then job_cancelled
         else if state j \<noteq> RUNNING then conflict ''external_operation_job_not_running''
         else andthen (assert_execution_authority e jid aid authority s) (\<lambda>a.
           if a_step_id a \<noteq> step then conflict ''attempt_fenced''
           else if \<exists>m \<in> set_option max_attempts. m \<le> int (length (by_outcome O_FAILED rows))
             then conflict ''external_attempt_budget_exhausted''
           else if by_outcome O_PREPARED rows \<noteq> []
             then reuse_prepared e (hd (by_outcome O_PREPARED rows)) aid (a_token a) s
           else insert_operation e jid step aid prov rhash ikey summary s)))"

definition owned_operation :: "env \<Rightarrow> external_operation \<Rightarrow> any_authority \<Rightarrow> store \<Rightarrow> store_error + unit" where
  "owned_operation e x authority s =
     andthen (assert_execution_authority e (o_job_id x) (o_attempt_id x) authority s) (\<lambda>a.
       if a_step_id a \<noteq> o_step_id x then conflict ''attempt_fenced'' else Inr ())"

text \<open>\<open>UPDATE ... WHERE operation_id = ? AND outcome = ?\<close>, and the row read back.\<close>

definition advance_operation ::
    "string \<Rightarrow> external_outcome \<Rightarrow> (external_operation \<Rightarrow> external_operation) \<Rightarrow> store
      \<Rightarrow> store_error + (external_operation \<times> store)" where
  "advance_operation oid current f s =
    (let s1 = update_operations (\<lambda>x. operation_id x = oid \<and> outcome x = current) f s in
     andthen (get_external_operation s1 oid) (\<lambda>x. Inr (x, s1)))"

definition start_external_operation ::
    "env \<Rightarrow> string \<Rightarrow> any_authority \<Rightarrow> store \<Rightarrow> store_error + (external_operation \<times> store)" where
  "start_external_operation e oid authority s =
     andthen (get_external_operation s oid) (\<lambda>x.
       if by_outcome O_UNKNOWN (request_operations (op_key x) s) \<noteq> [] then conflict ''external_outcome_unknown''
       else if outcome x \<noteq> O_PREPARED then conflict ''external_operation_not_prepared''
       else andthen (get_job s (o_job_id x)) (\<lambda>j.
         if cancellation_requested j then job_cancelled
         else andthen (owned_operation e x authority s) (\<lambda>_.
              advance_operation oid O_PREPARED (\<lambda>y. y\<lparr>outcome := O_STARTED, o_updated_at := utc e\<rparr>) s)))"

definition finish_external_operation ::
    "env \<Rightarrow> string \<Rightarrow> external_outcome \<Rightarrow> string option \<Rightarrow> string \<Rightarrow> any_authority \<Rightarrow> store
      \<Rightarrow> store_error + (external_operation \<times> store)" where
  "finish_external_operation e oid out prid summary authority s =
    (if out \<noteq> O_SUCCEEDED \<and> out \<noteq> O_FAILED then invalid ''external_operation_outcome_invalid''
     else andthen (get_external_operation s oid) (\<lambda>x.
       if outcome x \<noteq> O_STARTED then conflict ''external_operation_not_started''
       else andthen (if out = O_SUCCEEDED
                     then andthen (get_job s (o_job_id x)) (\<lambda>j. if cancellation_requested j then job_cancelled else Inr ())
                     else Inr ()) (\<lambda>_.
            andthen (owned_operation e x authority s) (\<lambda>_.
            advance_operation oid O_STARTED
              (\<lambda>y. y\<lparr>outcome := out, provider_request_id := prid, summary_json := summary, o_updated_at := utc e\<rparr>) s))))"

definition mark_external_operation_unknown ::
    "env \<Rightarrow> string \<Rightarrow> string \<Rightarrow> any_authority \<Rightarrow> store \<Rightarrow> store_error + (external_operation \<times> store)" where
  "mark_external_operation_unknown e oid summary authority s =
     andthen (get_external_operation s oid) (\<lambda>x.
       if outcome x = O_UNKNOWN then Inr (x, s)
       else if outcome x \<noteq> O_STARTED then conflict ''external_operation_not_started''
       else andthen (owned_operation e x authority s) (\<lambda>_.
            advance_operation oid O_STARTED
              (\<lambda>y. y\<lparr>outcome := O_UNKNOWN, summary_json := summary, o_updated_at := utc e\<rparr>) s))"

text \<open>After the process that ran them is gone: the started operations of attempts under older tokens.\<close>

definition lost_operations :: "string \<Rightarrow> nat \<Rightarrow> store \<Rightarrow> string list" where
  "lost_operations jid token s = map operation_id (sort_key operation_id
     (filter (\<lambda>x. o_job_id x = jid \<and> outcome x = O_STARTED
        \<and> (\<exists>a \<in> set (attempts s). attempt_id a = o_attempt_id x \<and> a_token a < token)) (operations s)))"

fun get_operations :: "string list \<Rightarrow> store \<Rightarrow> store_error + external_operation list" where
  "get_operations [] s = Inr []"
| "get_operations (oid # oids) s =
     andthen (get_external_operation s oid) (\<lambda>x. andthen (get_operations oids s) (\<lambda>xs. Inr (x # xs)))"

definition reconcile_external_operations_after_process_loss ::
    "env \<Rightarrow> string \<Rightarrow> job_execution_authority \<Rightarrow> store \<Rightarrow> store_error + (external_operation list \<times> store)" where
  "reconcile_external_operations_after_process_loss e jid authority s =
     andthen (assert_job_authority e jid authority s) (\<lambda>_.
       let ids = lost_operations jid (fencing_token authority) s;
           s1 = update_operations (\<lambda>x. List.member ids (operation_id x) \<and> outcome x = O_STARTED)
                  (\<lambda>x. x\<lparr>outcome := O_UNKNOWN, o_updated_at := utc e\<rparr>) s
       in andthen (get_operations ids s1) (\<lambda>xs. Inr (xs, s1)))"

section \<open>The operations are sequences of steps\<close>

lemma get_external_operation_Inr [result_simps]:
  "get_external_operation s oid = Inr x \<longleftrightarrow> get_operation_row s oid = Some x"
  by (auto simp: get_external_operation_def split: option.splits)

lemma by_outcome_Nil: "by_outcome out (request_operations k s) = [] \<longleftrightarrow>
   (\<forall>x \<in> set (operations s). op_key x = k \<longrightarrow> outcome x \<noteq> out)"
  by (auto simp: by_outcome_def request_operations_def filter_empty_conv)

lemma reuse_prepared_runs:
  assumes "reuse_prepared e oid aid token s = Inr (x, s')"
  shows "runs s s'"
proof (cases "s' = s")
  case False
  with assms obtain prev where
    "s' = update_operations (\<lambda>y. operation_id y = oid \<and> o_attempt_id y = prev \<and> outcome y = O_PREPARED)
       (\<lambda>y. y\<lparr>o_attempt_id := aid, o_updated_at := utc e\<rparr>) s"
    by (auto simp: reuse_prepared_def Let_def result_simps split: if_splits)
  then show ?thesis by (auto intro: step_runs op_reassign)
qed simp

lemma insert_operation_runs:
  assumes "insert_operation e jid step aid prov rhash ikey summary s = Inr (x, s')" and "job_working s jid"
    and "\<And>y. y \<in> set (operations s) \<Longrightarrow> op_key y = (jid, step, prov, rhash) \<Longrightarrow> outcome y = O_FAILED"
  shows "runs s s'"
  using assms
  by (auto simp: insert_operation_def Let_def op_key_def split: if_splits intro!: step_runs op_new)

lemma prepare_external_operation_runs:
  assumes "prepare_external_operation e jid step aid prov rhash ikey summary authority m s = Inr (x, s')"
  shows "runs s s'"
proof -
  let ?rows = "request_operations (jid, step, prov, rhash) s"
  consider "s' = s" | token where "reuse_prepared e (hd (by_outcome O_PREPARED ?rows)) aid token s = Inr (x, s')"
    | r where "get_row s jid = Some r" "state r = RUNNING" "\<not> cancellation_requested r"
      "by_outcome O_UNKNOWN ?rows = []" "by_outcome O_STARTED ?rows = []" "by_outcome O_SUCCEEDED ?rows = []"
      "by_outcome O_PREPARED ?rows = []" "insert_operation e jid step aid prov rhash ikey summary s = Inr (x, s')"
    using assms by (auto simp: prepare_external_operation_def Let_def result_simps split: if_splits)
  then show ?thesis
  proof cases
    case 3
    have "outcome y = O_FAILED" if "y \<in> set (operations s)" "op_key y = (jid, step, prov, rhash)" for y
      using 3(4-7) that by (cases "outcome y") (auto simp: by_outcome_Nil)
    with 3 show ?thesis by (intro insert_operation_runs [OF 3(8)]) (auto simp: job_working_def)
  qed (auto intro: reuse_prepared_runs)
qed

lemma operation_by_id:
  assumes "ids_ok s" and "get_operation_row s oid = Some x" and "y \<in> set (operations s)" and "operation_id y = oid"
  shows "y = x"
  using assms by (auto simp: ids_ok_def distinct_map dest!: get_operation_row_SomeD dest: inj_onD)

lemma advance_operation_runs:
  assumes "advance_operation oid current f s = Inr (x', s')" and "get_operation_row s oid = Some x"
    and "(current, out) \<in> set OUTCOME_MOVES" and "\<And>y. outcome (f y) = out"
    and "out = O_STARTED \<or> out = O_SUCCEEDED \<Longrightarrow> not_cancelled s (o_job_id x)"
    and "\<And>y. same_operation y (f y)" and "\<And>y. o_attempt_id (f y) = o_attempt_id y"
  shows "runs s s'"
proof (rule runsI)
  assume ids: "ids_ok s"
  show "runs s s'"
    using assms operation_by_id [OF ids assms(2)]
    by (auto simp: advance_operation_def Let_def result_simps intro!: step_runs op_advance)
qed

lemma start_external_operation_runs:
  assumes "start_external_operation e oid authority s = Inr (x', s')"
  shows "runs s s'"
proof -
  from assms obtain x r where x: "get_operation_row s oid = Some x"
    and "get_row s (o_job_id x) = Some r" "\<not> cancellation_requested r"
    and adv: "advance_operation oid O_PREPARED (\<lambda>y. y\<lparr>outcome := O_STARTED, o_updated_at := utc e\<rparr>) s = Inr (x', s')"
    by (auto simp: start_external_operation_def result_simps split: if_splits)
  then show ?thesis
    by (intro advance_operation_runs [OF adv x, of O_STARTED])
       (auto simp: OUTCOME_MOVES_def same_operation_def op_key_def not_cancelled_def)
qed

lemma finish_external_operation_runs:
  assumes "finish_external_operation e oid out prid summary authority s = Inr (x', s')"
  shows "runs s s'"
proof -
  from assms obtain x where x: "get_operation_row s oid = Some x" and out: "out = O_SUCCEEDED \<or> out = O_FAILED"
    and "out = O_SUCCEEDED \<longrightarrow> not_cancelled s (o_job_id x)"
    and adv: "advance_operation oid O_STARTED (\<lambda>y. y\<lparr>outcome := out, provider_request_id := prid,
        summary_json := summary, o_updated_at := utc e\<rparr>) s = Inr (x', s')"
    by (auto simp: finish_external_operation_def result_simps not_cancelled_def split: if_splits)
  then show ?thesis
    by (intro advance_operation_runs [OF adv x, of out]) (auto simp: OUTCOME_MOVES_def same_operation_def op_key_def)
qed

lemma mark_external_operation_unknown_runs:
  assumes "mark_external_operation_unknown e oid summary authority s = Inr (x', s')"
  shows "runs s s'"
proof (cases "s' = s")
  case False
  with assms obtain x where x: "get_operation_row s oid = Some x"
    and adv: "advance_operation oid O_STARTED (\<lambda>y. y\<lparr>outcome := O_UNKNOWN, summary_json := summary,
        o_updated_at := utc e\<rparr>) s = Inr (x', s')"
    by (auto simp: mark_external_operation_unknown_def result_simps split: if_splits)
  then show ?thesis
    by (intro advance_operation_runs [OF adv x, of O_UNKNOWN]) (auto simp: OUTCOME_MOVES_def same_operation_def op_key_def)
qed simp

lemma reconcile_runs:
  "reconcile_external_operations_after_process_loss e jid authority s = Inr (xs, s') \<Longrightarrow> runs s s'"
  by (auto simp: reconcile_external_operations_after_process_loss_def Let_def result_simps intro!: mark_started_unknown_runs)

end
