(* ===== verification/Commits.thy ===== *)
theory Commits
  imports ExternalOps
begin

text \<open>
  How a job ends with a result or an error. A commit runs under a guard: it checks that the job is running,
  not cancelled, and owned by the caller's attempt alone; it validates the planned result, calls the portable
  commit (whose receipt, or error, is the argument \<open>committed\<close>), and only then records the result and settles
  the attempt and the job in the same transaction. Also the checkpoints and the cache of source identities.
\<close>

section \<open>The commit guard\<close>

definition assert_commit_guard ::
    "env \<Rightarrow> string \<Rightarrow> string \<Rightarrow> job_execution_authority \<Rightarrow> store \<Rightarrow> store_error + unit" where
  "assert_commit_guard e jid aid authority s =
     andthen (get_job s jid) (\<lambda>j.
       if state j \<noteq> RUNNING then conflict ''commit_guard_not_running''
       else if cancellation_requested j then Inl (DomainError ''commit_guard_cancelled'' CANCELLED_ERROR)
       else andthen (assert_execution_authority e jid aid (JobBound authority) s) (\<lambda>_.
            ensure_no_other_unsettled_attempts jid aid s))"

definition finish_commit_guard ::
    "env \<Rightarrow> string \<Rightarrow> string \<Rightarrow> job_execution_authority \<Rightarrow> store \<Rightarrow> store_error + store" where
  "finish_commit_guard e jid aid authority s =
    (let p = (\<lambda>a. attempt_id a = aid \<and> a_state a = A_RUNNING \<and> a_token a = fencing_token authority);
         s1 = s\<lparr>attempts := sql_update p (\<lambda>a. a\<lparr>a_state := A_SUCCEEDED, a_updated_at := utc e\<rparr>) (attempts s)\<rparr>
     in if rowcount p (attempts s) \<noteq> 1 then conflict ''commit_guard_conflict''
        else andthen (announce_attempt e aid s1) (\<lambda>(_, s2).
             andthen (ensure_attempts_settled jid s2) (\<lambda>_.
               let q = (\<lambda>r. job_id r = jid \<and> state r = RUNNING \<and> \<not> cancellation_requested r);
                   s3 = s2\<lparr>jobs := sql_update q (\<lambda>r. r\<lparr>state := SUCCEEDED, updated_at := utc e\<rparr>) (jobs s2)\<rparr>
               in if rowcount q (jobs s2) \<noteq> 1 then conflict ''commit_guard_conflict''
                  else andthen (insert_job_state_event e jid SUCCEEDED s3) (\<lambda>(_, s4). Inr s4))))"

text \<open>\<open>with repository.commit_guard(...)\<close> around a body that leaves the store alone.\<close>

definition commit_guard :: "env \<Rightarrow> string \<Rightarrow> string \<Rightarrow> job_execution_authority \<Rightarrow> store \<Rightarrow> store_error + (unit \<times> store)" where
  "commit_guard e jid aid authority s =
     andthen (assert_commit_guard e jid aid authority s) (\<lambda>_.
     andthen (finish_commit_guard e jid aid authority s) (\<lambda>s'. Inr ((), s')))"

section \<open>The cache of source identities\<close>

definition find_source :: "store \<Rightarrow> string \<times> string \<Rightarrow> source_row option" where
  "find_source s k = fetchone (\<lambda>b. source_key b = k) (source_identities s)"

definition new_source_row :: "env \<Rightarrow> source_identity_binding \<Rightarrow> source_row" where
  "new_source_row e b = source_identity_binding.extend b (source_row.fields (utc e))"

definition same_source :: "('a) source_identity_binding_scheme \<Rightarrow> ('b) source_identity_binding_scheme \<Rightarrow> bool" where
  "same_source a b \<longleftrightarrow> source_id a = source_id b \<and> owning_bundle_id a = owning_bundle_id b
     \<and> manifest_sha256 a = manifest_sha256 b"

definition read_source_identity_candidate :: "string \<Rightarrow> string \<Rightarrow> store \<Rightarrow> source_identity_binding option" where
  "read_source_identity_candidate connector canonical s =
     map_option source_identity_binding.truncate (find_source s (connector, canonical))"

definition cache_source_identity_candidate ::
    "env \<Rightarrow> source_identity_binding \<Rightarrow> store \<Rightarrow> store_error + (unit \<times> store)" where
  "cache_source_identity_candidate e b s =
    (case find_source s (source_key b) of
       Some old \<Rightarrow> if same_source old b then Inr ((), s) else conflict ''source_identity_conflict''
     | None \<Rightarrow> Inr ((), s\<lparr>source_identities := source_identities s @ [new_source_row e b]\<rparr>))"

definition discard_source_identity_candidate ::
    "source_identity_binding \<Rightarrow> store \<Rightarrow> store_error + (unit \<times> store)" where
  "discard_source_identity_candidate b s =
     Inr ((), s\<lparr>source_identities := filter (\<lambda>r. \<not> (source_key r = source_key b \<and> same_source r b)) (source_identities s)\<rparr>)"

definition replace_source_identity_candidate ::
    "env \<Rightarrow> source_identity_binding \<Rightarrow> source_identity_binding \<Rightarrow> store \<Rightarrow> store_error + (bool \<times> store)" where
  "replace_source_identity_candidate e observed replacement s =
    (if source_key observed \<noteq> source_key replacement then invalid ''source_identity_replacement_invalid''
     else let p = (\<lambda>r. source_key r = source_key observed \<and> same_source r observed) in
       Inr (rowcount p (source_identities s) = 1,
            s\<lparr>source_identities := sql_update p
               (\<lambda>r. r\<lparr>source_id := source_id replacement, owning_bundle_id := owning_bundle_id replacement,
                      manifest_sha256 := manifest_sha256 replacement, src_updated_at := utc e\<rparr>) (source_identities s)\<rparr>))"

text \<open>\<open>INSERT ... ON CONFLICT DO UPDATE\<close>: the bundle and the manifest change, the source does not.\<close>

definition upsert_source :: "env \<Rightarrow> source_identity_binding \<Rightarrow> store \<Rightarrow> store" where
  "upsert_source e b s =
    (if find_source s (source_key b) = None
     then s\<lparr>source_identities := source_identities s @ [new_source_row e b]\<rparr>
     else s\<lparr>source_identities := sql_update (\<lambda>r. source_key r = source_key b)
              (\<lambda>r. r\<lparr>owning_bundle_id := owning_bundle_id b, manifest_sha256 := manifest_sha256 b,
                     src_updated_at := utc e\<rparr>) (source_identities s)\<rparr>)"

definition check_source :: "source_identity_binding \<Rightarrow> store \<Rightarrow> store_error + unit" where
  "check_source b s =
    (case find_source s (source_key b) of
       Some old \<Rightarrow> if source_id old \<noteq> source_id b then conflict ''source_identity_conflict'' else Inr ()
     | None \<Rightarrow> Inr ())"

section \<open>Committing a result\<close>

definition record_result ::
    "env \<Rightarrow> string \<Rightarrow> string \<Rightarrow> job_execution_authority \<Rightarrow> source_identity_binding \<Rightarrow> job_result \<Rightarrow> store
      \<Rightarrow> store_error + (job_completion \<times> store)" where
  "record_result e jid aid authority b res s =
     andthen (finish_commit_guard e jid aid authority (update_job jid (\<lambda>r. r\<lparr>result := Some res\<rparr>) (upsert_source e b s)))
       (\<lambda>s'. Inr (\<lparr>completion_result = res, completion_source = b\<rparr>, s'))"

definition commit_video_result_atomic ::
    "env \<Rightarrow> string \<Rightarrow> string \<Rightarrow> job_execution_authority \<Rightarrow> video_result_plan \<Rightarrow> source_identity_binding
      \<Rightarrow> store_error + portable_commit_receipt \<Rightarrow> store \<Rightarrow> store_error + (job_completion \<times> store)" where
  "commit_video_result_atomic e jid aid authority plan b committed s =
     andthen (assert_commit_guard e jid aid authority s) (\<lambda>_.
     andthen (validate_result_plan plan) (\<lambda>_.
     andthen (validate_result_plan_binding jid plan b) (\<lambda>_.
     andthen (check_source b s) (\<lambda>_.
     andthen committed (\<lambda>receipt.
     andthen (result_from_plan_receipt plan receipt) (\<lambda>res.
     record_result e jid aid authority b (VideoResult res) s))))))"

definition commit_recipe_result_atomic ::
    "env \<Rightarrow> string \<Rightarrow> string \<Rightarrow> job_execution_authority \<Rightarrow> recipe_result_plan \<Rightarrow> source_identity_binding
      \<Rightarrow> store_error + portable_commit_receipt \<Rightarrow> store \<Rightarrow> store_error + (job_completion \<times> store)" where
  "commit_recipe_result_atomic e jid aid authority plan b committed s =
     andthen (assert_commit_guard e jid aid authority s) (\<lambda>_.
     andthen (validate_recipe_result_plan jid plan b) (\<lambda>_.
     andthen (check_source b s) (\<lambda>_.
     andthen committed (\<lambda>receipt.
     andthen (recipe_result_from_plan_receipt plan receipt) (\<lambda>res.
     record_result e jid aid authority b (RecipeResult res) s)))))"

section \<open>Failing a job\<close>

definition fail_job_atomic ::
    "env \<Rightarrow> string \<Rightarrow> error_detail \<Rightarrow> string option \<Rightarrow> job_execution_authority option \<Rightarrow> store
      \<Rightarrow> store_error + (job \<times> store)" where
  "fail_job_atomic e jid err attempt authority s =
    (if attempt \<noteq> None \<and> authority = None then invalid ''failure_authority_invalid''
     else andthen (encode_error err) (\<lambda>text.
          andthen (get_job s jid) (\<lambda>j.
          andthen (assert_optional_authority e jid authority s) (\<lambda>_.
            if state j \<noteq> RUNNING then conflict ''job_failure_not_running''
            else if cancellation_requested j
            then andthen (settle_claimed_cancellation e jid s) (\<lambda>s1. andthen (get_job s1 jid) (\<lambda>j1. Inr (j1, s1)))
            else
              andthen (case (attempt, authority) of
                  (Some aid, Some auth) \<Rightarrow>
                     andthen (assert_execution_authority e jid aid (JobBound auth) s) (\<lambda>_.
                     andthen (announce_attempt e aid (set_attempt_state e aid A_FAILED s)) (\<lambda>(_, s1). Inr s1))
                | _ \<Rightarrow> Inr s) (\<lambda>s1.
              andthen (ensure_attempts_settled jid s1) (\<lambda>_.
              andthen (insert_job_state_event e jid FAILED
                 (update_job jid (\<lambda>r. r\<lparr>state := FAILED, error_json := Some text, updated_at := utc e\<rparr>) s1)) (\<lambda>(_, s2).
              andthen (get_job s2 jid) (\<lambda>j2. Inr (j2, s2)))))))))"

section \<open>Checkpoints\<close>

definition record_checkpoint ::
    "env \<Rightarrow> checkpoint_metadata \<Rightarrow> any_authority \<Rightarrow> store \<Rightarrow> store_error + (checkpoint_metadata \<times> store)" where
  "record_checkpoint e k authority s =
     andthen (get_job s (k_job_id k)) (\<lambda>j.
       if state j \<noteq> RUNNING then conflict ''checkpoint_job_not_running''
       else if cancellation_requested j then job_cancelled
       else andthen (assert_execution_authority e (k_job_id k) (k_attempt_id k) authority s) (\<lambda>a.
         if a_step_id a \<noteq> k_step_id k then conflict ''attempt_fenced''
         else if List.member (map checkpoint_id (checkpoints s)) (checkpoint_id k)
         then Inl (IntegrityError ''checkpoints.checkpoint_id'')
         else Inr (k, s\<lparr>checkpoints := checkpoints s @ [k]\<rparr>)))"

definition authorize_attempt_storage ::
    "env \<Rightarrow> string \<Rightarrow> string \<Rightarrow> any_authority \<Rightarrow> string option \<Rightarrow> store \<Rightarrow> store_error + unit" where
  "authorize_attempt_storage e jid aid authority expected_step s =
     andthen (assert_execution_authority e jid aid authority s) (\<lambda>a.
       if \<exists>step \<in> set_option expected_step. a_step_id a \<noteq> step then conflict ''attempt_fenced'' else Inr ())"

text \<open>\<open>ORDER BY created_at DESC, rowid DESC LIMIT 1\<close>: the sort is stable, so the last of the latest rows.\<close>

definition latest_checkpoint :: "string \<Rightarrow> string \<Rightarrow> store \<Rightarrow> checkpoint_metadata option" where
  "latest_checkpoint jid step s =
     last_by k_created_at (filter (\<lambda>k. k_job_id k = jid \<and> k_step_id k = step) (checkpoints s))"

section \<open>The operations are sequences of steps\<close>

text \<open>Events and attempts do not look at what a job row holds beside its identifier.\<close>

lemma insert_event_update_job:
  assumes "\<And>r. job_id (f r) = job_id r" and "insert_event e j ty p (update_job jid f s) = Inr (v, s')"
  shows "\<exists>s1. insert_event e j ty p s = Inr (v, s1) \<and> s' = update_job jid f s1"
  using assms(2) get_row_update_job [of f jid s j, OF assms(1)]
  by (auto simp: insert_event_def Let_def next_sequence_def job_events_def update_job_def split: if_splits)

lemma announce_attempt_update_job:
  assumes "\<And>r. job_id (f r) = job_id r" and "announce_attempt e aid (update_job jid f s) = Inr (a, s')"
  shows "\<exists>s1. announce_attempt e aid s = Inr (a, s1) \<and> s' = update_job jid f s1"
proof -
  have "get_attempt_row (update_job jid f s) aid = get_attempt_row s aid"
    by (simp add: get_attempt_row_def update_job_def)
  with assms show ?thesis
    by (auto simp: announce_attempt_def insert_stage_changed_event_def result_simps dest!: insert_event_update_job [OF assms(1)])
qed

definition set_result :: "job_result option \<Rightarrow> job_row \<Rightarrow> job_row" where
  "set_result res r = r\<lparr>result := (if res = None then result r else res)\<rparr>"

lemma set_result_simps [simp]:
  "job_id (set_result res r) = job_id r" "state (set_result res r) = state r"
  "cancellation_requested (set_result res r) = cancellation_requested r"
  by (simp_all add: set_result_def)

lemma update_job_set_result_None: "update_job jid (set_result None) s = s"
proof -
  have "set_result None r = r" for r by (cases r) (simp add: set_result_def)
  then show ?thesis by (cases s) (simp add: update_job_def sql_update_def map_idI)
qed

lemma update_job_compose:
  assumes "\<And>r. job_id (f r) = job_id r"
  shows "update_job jid g (update_job jid f s) = update_job jid (\<lambda>r. g (f r)) s"
  using assms by (simp add: update_job_def sql_update_def)

text \<open>The guard's second half, after the result was written: the attempt settles, then the job succeeds.\<close>

lemma finish_commit_guard_runs:
  assumes "finish_commit_guard e jid aid authority (update_job jid (set_result res) s) = Inr s'"
  shows "runs s s'"
proof (rule runsI)
  assume ids: "ids_ok s"
  let ?p = "\<lambda>a. attempt_id a = aid \<and> a_state a = A_RUNNING \<and> a_token a = fencing_token authority"
  let ?u = "update_job jid (set_result res)"
  let ?s1 = "s\<lparr>attempts := sql_update ?p (\<lambda>a. a\<lparr>a_state := A_SUCCEEDED, a_updated_at := utc e\<rparr>) (attempts s)\<rparr>"
  let ?q = "\<lambda>r. job_id r = jid \<and> state r = RUNNING \<and> \<not> cancellation_requested r"
  have shape: "(?u s)\<lparr>attempts := sql_update ?p (\<lambda>a. a\<lparr>a_state := A_SUCCEEDED, a_updated_at := utc e\<rparr>) (attempts (?u s))\<rparr>
      = ?u ?s1"
    by (simp add: update_job_def)
  from assms obtain b t v where count: "rowcount ?p (attempts s) = 1"
    and ann: "announce_attempt e aid (?u ?s1) = Inr (b, t)"
    and settled: "settled jid t" and count2: "rowcount ?q (jobs t) = 1"
    and ev: "insert_job_state_event e jid SUCCEEDED (t\<lparr>jobs := sql_update ?q (\<lambda>r. r\<lparr>state := SUCCEEDED, updated_at := utc e\<rparr>) (jobs t)\<rparr>)
      = Inr (v, s')"
    by (auto simp: finish_commit_guard_def Let_def result_simps ensure_attempts_settled_Inr shape split: if_splits)
       (simp_all add: update_job_def)
  obtain t1 where t1: "announce_attempt e aid ?s1 = Inr (b, t1)" and t: "t = ?u t1"
    using announce_attempt_update_job [OF _ ann] by auto
  have "\<exists>a \<in> set (attempts s). ?p a" using count rowcount_pos [of ?p "attempts s"] by simp
  then obtain a where a: "get_attempt_row s aid = Some a" "a_state a = A_RUNNING" "a_token a = fencing_token authority"
    using ids by (auto simp: get_attempt_row_def ids_ok_def dest: distinct_fetchone)
  have "?s1 = set_attempt_state e aid A_SUCCEEDED s"
    using attempt_update_by_id [OF ids a(1), of "\<lambda>a. a_state a = A_RUNNING \<and> a_token a = fencing_token authority"] a
    by (simp add: set_attempt_state_def update_attempt_def)
  with t1 a have first: "runs s t1"
    by (intro attempt_settle_runs [OF _ a(1)]) (auto simp: LEGAL_ATTEMPT_TRANSITIONS_def)
  have ids1: "ids_ok t1" using first ids by (auto simp: runs_def dest: ids_ok_rtrancl)
  then have idst: "ids_ok t" by (simp add: t ids_ok_def update_job_def)
  have "\<exists>r \<in> set (jobs t). ?q r" using count2 rowcount_pos [of ?q "jobs t"] by simp
  then obtain r where r: "get_row t jid = Some r" "state r = RUNNING" "\<not> cancellation_requested r"
    using idst by (auto simp: get_row_def ids_ok_def dest: distinct_fetchone)
  then obtain r1 where r1: "get_row t1 jid = Some r1" "state r1 = RUNNING" "\<not> cancellation_requested r1"
    by (auto simp: t get_row_update_job split: if_splits)
  have "t\<lparr>jobs := sql_update ?q (\<lambda>r. r\<lparr>state := SUCCEEDED, updated_at := utc e\<rparr>) (jobs t)\<rparr>
      = update_job jid (\<lambda>r. r\<lparr>state := SUCCEEDED, updated_at := utc e\<rparr>) t"
    using job_update_by_id [OF idst r(1), of "\<lambda>r. state r = RUNNING \<and> \<not> cancellation_requested r"] r by simp
  also have "\<dots> = update_job jid (move_row (utc e) SUCCEEDED res None) t1"
  proof -
    have "(set_result res r)\<lparr>state := SUCCEEDED, updated_at := utc e\<rparr> = move_row (utc e) SUCCEEDED res None r" for r
      by (cases r) (simp add: set_result_def move_row_def)
    then show ?thesis by (simp add: t update_job_compose)
  qed
  finally have "insert_job_state_event e jid SUCCEEDED (update_job jid (move_row (utc e) SUCCEEDED res None) t1) = Inr (v, s')"
    using ev by simp
  then have "store_step t1 s'"
    using r1 settled by (intro store_step.move [OF r1(1)])
      (auto simp: LEGAL_JOB_TRANSITIONS_def settled_def t update_job_def dest: get_row_SomeD)
  with first show "runs s s'" by (blast intro: runs_trans step_runs)
qed

lemma commit_guard_runs: "commit_guard e jid aid authority s = Inr (u, s') \<Longrightarrow> runs s s'"
  using finish_commit_guard_runs [of e jid aid authority None s s']
  by (auto simp: commit_guard_def result_simps update_job_set_result_None)

lemma source_key_simps [simp]: "source_key (new_source_row e b) = source_key b"
  by (simp add: source_key_def new_source_row_def source_identity_binding.defs source_row.defs)

lemma upsert_source_runs: "runs s (upsert_source e b s)"
proof -
  have "distinct (map source_key (source_identities s)) \<Longrightarrow> distinct (map source_key (source_identities s @ [new_source_row e b]))"
    if "find_source s (source_key b) = None"
    using that by (auto simp: find_source_def fetchone_None_iff)
  moreover have "map source_key (sql_update p (\<lambda>r. r\<lparr>owning_bundle_id := x, manifest_sha256 := y, src_updated_at := z\<rparr>) rows)
      = map source_key rows" for p x y z and rows :: "source_row list"
    by (rule map_sql_update) (simp add: source_key_def)
  ultimately show ?thesis unfolding upsert_source_def by (auto intro!: step_runs source)
qed

lemma record_result_runs:
  assumes "record_result e jid aid authority b res s = Inr (c, s')"
  shows "runs s s'"
proof -
  have "set_result (Some res) = (\<lambda>r. r\<lparr>result := Some res\<rparr>)" by (rule ext) (simp add: set_result_def)
  with assms have "finish_commit_guard e jid aid authority (update_job jid (set_result (Some res)) (upsert_source e b s)) = Inr s'"
    by (auto simp: record_result_def result_simps)
  then show ?thesis by (blast intro: runs_trans upsert_source_runs finish_commit_guard_runs)
qed

lemma commit_video_result_atomic_runs: "commit_video_result_atomic e jid aid authority plan b committed s = Inr (c, s') \<Longrightarrow> runs s s'"
  by (auto simp: commit_video_result_atomic_def result_simps intro: record_result_runs)

lemma commit_recipe_result_atomic_runs: "commit_recipe_result_atomic e jid aid authority plan b committed s = Inr (c, s') \<Longrightarrow> runs s s'"
  by (auto simp: commit_recipe_result_atomic_def result_simps intro: record_result_runs)

lemma fail_row: "update_job jid (\<lambda>r. r\<lparr>state := FAILED, error_json := Some txt0, updated_at := now\<rparr>) s
    = update_job jid (move_row now FAILED None (Some txt0)) s"
proof -
  have "r\<lparr>state := FAILED, error_json := Some txt0, updated_at := now\<rparr> = move_row now FAILED None (Some txt0) r" for r
    by (cases r) (simp add: move_row_def)
  then show ?thesis by simp
qed

lemma fail_job_atomic_runs:
  assumes "fail_job_atomic e jid err attempt authority s = Inr (j, s')"
  shows "runs s s'"
proof -
  obtain txt0 r where r: "get_row s jid = Some r" "state r = RUNNING" "encode_error err = Inr txt0"
    using assms unfolding fail_job_atomic_def by (simp only: if_Inl_eq_Inr andthen_eq_Inr get_job_Inr job_from_row_simps) auto
  show ?thesis
  proof (cases "cancellation_requested r")
    case True
    with assms r have "settle_claimed_cancellation e jid s = Inr s'"
      unfolding fail_job_atomic_def by (simp only: if_Inl_eq_Inr andthen_eq_Inr get_job_Inr job_from_row_simps)
         (auto simp: result_simps)
    then show ?thesis by (rule settle_claimed_cancellation_runs)
  next
    case False
    with assms r obtain s1 v where
      s1: "s1 = s \<or> (\<exists>aid auth a b. assert_execution_authority e jid aid (JobBound auth) s = Inr a
          \<and> announce_attempt e aid (set_attempt_state e aid A_FAILED s) = Inr (b, s1))"
      and settled: "settled jid s1"
      and ev: "insert_job_state_event e jid FAILED (update_job jid (move_row (utc e) FAILED None (Some txt0)) s1) = Inr (v, s')"
      unfolding fail_job_atomic_def
      by (simp only: if_Inl_eq_Inr andthen_eq_Inr get_job_Inr job_from_row_simps fail_row ensure_attempts_settled_Inr)
         (auto simp: result_simps ensure_attempts_settled_Inr split: option.splits, blast)
    have first: "runs s s1 \<and> get_row s1 jid = get_row s jid"
      using s1
    proof (elim disjE exE conjE)
      fix aid auth a b
      assume "assert_execution_authority e jid aid (JobBound auth) s = Inr a"
        and ann: "announce_attempt e aid (set_attempt_state e aid A_FAILED s) = Inr (b, s1)"
      then have "get_attempt_row s aid = Some a" "a_state a = A_RUNNING" by (auto simp: assert_execution_authority_Inr)
      then have "runs s s1" by (intro attempt_settle_runs [OF ann]) (auto simp: LEGAL_ATTEMPT_TRANSITIONS_def)
      then show ?thesis using announce_attempt_frame [OF ann] by (auto simp: get_row_def store_updates)
    qed simp
    then have "store_step s1 s'"
      using r settled ev by (intro store_step.move [of s1 jid r FAILED None "Some txt0"])
        (auto simp: LEGAL_JOB_TRANSITIONS_def dest: get_row_SomeD)
    with first show ?thesis by (blast intro: runs_trans step_runs)
  qed
qed

lemma record_checkpoint_runs: "record_checkpoint e k authority s = Inr (k', s') \<Longrightarrow> runs s s'"
  by (auto simp: record_checkpoint_def result_simps job_working_def image_iff split: if_splits intro!: step_runs checkpoint)

lemma distinct_map_filter_rows: "distinct (map k rows) \<Longrightarrow> distinct (map k (filter p rows))"
  by (induction rows) auto

lemma cache_source_runs:
  assumes "cache_source_identity_candidate e b s = Inr (u, s')"
  shows "runs s s'"
proof (cases "find_source s (source_key b)")
  case None
  then have "source_key b \<notin> source_key ` set (source_identities s)" by (auto simp: find_source_def fetchone_None_iff)
  with assms None show ?thesis by (auto simp: cache_source_identity_candidate_def intro!: step_runs source)
next
  case (Some old)
  with assms show ?thesis by (auto simp: cache_source_identity_candidate_def split: if_splits)
qed

lemma discard_source_runs: "discard_source_identity_candidate b s = Inr (u, s') \<Longrightarrow> runs s s'"
  by (auto simp: discard_source_identity_candidate_def intro!: step_runs source distinct_map_filter_rows)

lemma replace_source_runs:
  assumes "replace_source_identity_candidate e observed replacement s = Inr (u, s')"
  shows "runs s s'"
proof -
  have "map source_key (sql_update p (\<lambda>r. r\<lparr>source_id := w, owning_bundle_id := x, manifest_sha256 := y, src_updated_at := z\<rparr>) rows)
      = map source_key rows" for p w x y z and rows :: "source_row list"
    by (rule map_sql_update) (simp add: source_key_def)
  with assms show ?thesis
    by (auto simp: replace_source_identity_candidate_def Let_def split: if_splits intro!: step_runs source)
qed

end
