(* ===== verification/Systems.thy ===== *)
theory Systems
  imports Prelude
begin

text \<open>
  A state machine with an invariant: what its operations keep holds wherever they can lead. The job store, the
  machine's resource leases and the dispatcher are instances.
\<close>

locale guarded_system =
  fixes init :: "'st \<Rightarrow> bool"
    and step :: "'st \<Rightarrow> 'st \<Rightarrow> bool"
    and inv :: "'st \<Rightarrow> bool"
  assumes inv_init: "init st \<Longrightarrow> inv st"
    and inv_step: "step st st' \<Longrightarrow> inv st \<Longrightarrow> inv st'"
begin

definition reach :: "'st \<Rightarrow> bool" where
  "reach st \<longleftrightarrow> (\<exists>st0. init st0 \<and> step\<^sup>*\<^sup>* st0 st)"

lemma inv_steps: "step\<^sup>*\<^sup>* st st' \<Longrightarrow> inv st \<Longrightarrow> inv st'"
  by (induction rule: rtranclp_induct) (auto dest: inv_step)

lemma reach_inv: "reach st \<Longrightarrow> inv st"
  using inv_init inv_steps by (auto simp: reach_def)

lemma reach_init: "init st \<Longrightarrow> reach st"
  by (auto simp: reach_def)

lemma reach_step: "reach st \<Longrightarrow> step st st' \<Longrightarrow> reach st'"
  by (auto simp: reach_def intro: rtranclp.rtrancl_into_rtrancl)

lemma reach_steps: "reach st \<Longrightarrow> step\<^sup>*\<^sup>* st st' \<Longrightarrow> reach st'"
  by (auto simp: reach_def intro: rtranclp_trans)

end

end
