(* ===== verification/JobMachine.thy ===== *)
theory JobMachine
  imports StoreHistory Commits Systems
begin

text \<open>
  The job store as a state machine: every transaction of the repository that can change it is a command, a
  failing one changes nothing. \<open>reachable\<close> is what commands make of an empty workspace, \<open>later\<close> what they make
  of a given store. Every command is a sequence of steps (\<open>run_command_runs\<close>), so every reachable store has the
  invariants of the steps.
\<close>

section \<open>Commands\<close>

datatype (plugins only: size code) command =
    CreateJob string "string option" string "string option" "string option" "(string \<times> string) list"
      "job_execution_binding option" job_execution_owner
  | RetryJob string job_state "string list" string "(string \<times> string) list"
  | CreateAttempt string string "job_execution_authority option"
  | StartAttempt string job_execution_authority
  | TakeOverAttempt string string job_execution_authority
  | TransitionAttempt string attempt_state "job_execution_authority option"
  | TransitionJob string job_state "job_execution_authority option"
  | CancelJob string
  | AppendEvent string string string
  | ClaimJob string string int
  | HeartbeatClaim job_execution_authority int
  | ReleaseClaim job_execution_authority
  | RecordLaunch string job_execution_authority
  | ClearLaunches string job_execution_authority
  | AcquireScheduler string int
  | HeartbeatScheduler any_authority int
  | ReleaseScheduler any_authority
  | CreateChallenge string string string
  | PauseForOutcome string string job_execution_authority
  | RespondChallenge string string string string
  | PrepareOperation string string string string string "string option" string any_authority "int option"
  | StartOperation string any_authority
  | FinishOperation string external_outcome "string option" string any_authority
  | MarkUnknown string string any_authority
  | Reconcile string job_execution_authority
  | RecordCheckpoint checkpoint_metadata any_authority
  | GuardCommit string string job_execution_authority
  | CommitVideo string string job_execution_authority video_result_plan source_identity_binding
      "store_error + portable_commit_receipt"
  | CommitRecipe string string job_execution_authority recipe_result_plan source_identity_binding
      "store_error + portable_commit_receipt"
  | FailJob string error_detail "string option" "job_execution_authority option"
  | CacheSource source_identity_binding
  | DiscardSource source_identity_binding
  | ReplaceSource source_identity_binding source_identity_binding

definition stored :: "store_error + ('a \<times> store) \<Rightarrow> store_error + store" where
  "stored r = andthen r (\<lambda>(_, s). Inr s)"

primrec run_command :: "env \<Rightarrow> command \<Rightarrow> store \<Rightarrow> store_error + store" where
  "run_command e (CreateJob rhash rjson prin crid retry_of evs b owner) s =
     stored (create_job e rhash rjson prin crid retry_of evs b owner s)"
| "run_command e (RetryJob original expected confirmed crid evs) s =
     stored (create_retry_job_atomic e original expected confirmed crid evs s)"
| "run_command e (CreateAttempt jid step auth) s = stored (create_attempt e jid step auth s)"
| "run_command e (StartAttempt aid auth) s = stored (start_attempt e aid auth s)"
| "run_command e (TakeOverAttempt jid aid auth) s = stored (take_over_running_attempt e jid aid auth s)"
| "run_command e (TransitionAttempt aid st auth) s = stored (transition_attempt_op e aid st auth s)"
| "run_command e (TransitionJob jid st auth) s = stored (transition_job_op e jid st auth s)"
| "run_command e (CancelJob jid) s = stored (cancel_job e jid s)"
| "run_command e (AppendEvent jid ty payload) s = stored (append_event e jid ty payload s)"
| "run_command e (ClaimJob jid owner ttl) s = stored (claim_job e jid owner ttl s)"
| "run_command e (HeartbeatClaim auth ttl) s = stored (heartbeat_job_claim e auth ttl s)"
| "run_command e (ReleaseClaim auth) s = stored (release_job_claim auth s)"
| "run_command e (RecordLaunch jid auth) s = stored (record_engine_worker_launch e jid auth s)"
| "run_command e (ClearLaunches jid auth) s = stored (clear_engine_worker_launches jid auth s)"
| "run_command e (AcquireScheduler owner ttl) s = stored (acquire_scheduler_lease e owner ttl s)"
| "run_command e (HeartbeatScheduler auth ttl) s = stored (heartbeat_scheduler_lease e auth ttl s)"
| "run_command e (ReleaseScheduler auth) s = stored (release_scheduler_lease auth s)"
| "run_command e (CreateChallenge jid aid prompt) s = stored (create_challenge e jid aid prompt s)"
| "run_command e (PauseForOutcome jid aid auth) s = stored (pause_for_external_outcome_atomic e jid aid auth s)"
| "run_command e (RespondChallenge jid cid rhash rjson) s = stored (respond_challenge_atomic e jid cid rhash rjson s)"
| "run_command e (PrepareOperation jid step aid prov rhash ikey summary auth m) s =
     stored (prepare_external_operation e jid step aid prov rhash ikey summary auth m s)"
| "run_command e (StartOperation oid auth) s = stored (start_external_operation e oid auth s)"
| "run_command e (FinishOperation oid out prid summary auth) s =
     stored (finish_external_operation e oid out prid summary auth s)"
| "run_command e (MarkUnknown oid summary auth) s = stored (mark_external_operation_unknown e oid summary auth s)"
| "run_command e (Reconcile jid auth) s = stored (reconcile_external_operations_after_process_loss e jid auth s)"
| "run_command e (RecordCheckpoint k auth) s = stored (record_checkpoint e k auth s)"
| "run_command e (GuardCommit jid aid auth) s = stored (commit_guard e jid aid auth s)"
| "run_command e (CommitVideo jid aid auth plan b committed) s =
     stored (commit_video_result_atomic e jid aid auth plan b committed s)"
| "run_command e (CommitRecipe jid aid auth plan b committed) s =
     stored (commit_recipe_result_atomic e jid aid auth plan b committed s)"
| "run_command e (FailJob jid err aid auth) s = stored (fail_job_atomic e jid err aid auth s)"
| "run_command e (CacheSource b) s = stored (cache_source_identity_candidate e b s)"
| "run_command e (DiscardSource b) s = stored (discard_source_identity_candidate b s)"
| "run_command e (ReplaceSource observed replacement) s = stored (replace_source_identity_candidate e observed replacement s)"

lemma stored_Inr: "stored r = Inr s \<longleftrightarrow> (\<exists>x. r = Inr (x, s))"
  by (auto simp: stored_def result_simps)

theorem run_command_runs:
  assumes "run_command e c s = Inr s'"
  shows "runs s s'"
  using assms
  by (cases c)
     (auto simp: stored_Inr intro: create_job_runs create_retry_job_atomic_runs create_attempt_runs start_attempt_runs
        take_over_running_attempt_runs transition_attempt_op_runs transition_job_op_runs cancel_job_runs
        append_event_runs claim_job_runs heartbeat_job_claim_runs release_job_claim_runs
        record_engine_worker_launch_runs clear_engine_worker_launches_runs acquire_scheduler_lease_runs
        heartbeat_scheduler_lease_runs release_scheduler_lease_runs create_challenge_runs
        pause_for_external_outcome_atomic_runs respond_challenge_atomic_runs prepare_external_operation_runs
        start_external_operation_runs finish_external_operation_runs mark_external_operation_unknown_runs
        reconcile_runs record_checkpoint_runs commit_guard_runs commit_video_result_atomic_runs
        commit_recipe_result_atomic_runs fail_job_atomic_runs cache_source_runs discard_source_runs replace_source_runs)

section \<open>Reachable stores\<close>

inductive command_step :: "store \<Rightarrow> store \<Rightarrow> bool" where
  command: "run_command e c s = Inr s' \<Longrightarrow> command_step s s'"

interpretation job_store: guarded_system "\<lambda>s. s = empty_store" command_step store_ok
proof
  show "store_ok st'" if "command_step st st'" "store_ok st" for st st'
  proof -
    from that(1) obtain e c where "run_command e c st = Inr st'" by cases
    then have "store_step\<^sup>*\<^sup>* st st'"
      using run_command_runs that(2) by (auto simp: runs_def store_ok_def)
    then show ?thesis using that(2)
      by (induction rule: rtranclp_induct) (auto dest: store_ok_step)
  qed
qed (simp add: store_ok_empty)

definition reachable :: "store \<Rightarrow> bool" where
  "reachable s \<longleftrightarrow> command_step\<^sup>*\<^sup>* empty_store s"

definition later :: "store \<Rightarrow> store \<Rightarrow> bool" where
  "later s s' \<longleftrightarrow> command_step\<^sup>*\<^sup>* s s'"

lemma reachable_iff: "reachable s \<longleftrightarrow> job_store.reach s"
  by (simp add: reachable_def job_store.reach_def)

lemma reachable_ok: "reachable s \<Longrightarrow> store_ok s"
  by (simp add: reachable_iff job_store.reach_inv)

lemma reachable_ids: "reachable s \<Longrightarrow> ids_ok s"
  using reachable_ok by (simp add: store_ok_def)

lemma reachable_empty: "reachable empty_store"
  by (simp add: reachable_def)

lemma reachable_later: "reachable s \<Longrightarrow> later s s' \<Longrightarrow> reachable s'"
  by (simp add: reachable_def later_def)

lemma later_refl [simp]: "later s s"
  by (simp add: later_def)

lemma later_command: "run_command e c s = Inr s' \<Longrightarrow> later s s'"
  unfolding later_def using command by (rule r_into_rtranclp)

lemma reachable_command: "reachable s \<Longrightarrow> run_command e c s = Inr s' \<Longrightarrow> reachable s'"
  using later_command reachable_later by blast

lemma later_steps:
  assumes "later s s'" and "ids_ok s"
  shows "store_step\<^sup>*\<^sup>* s s'"
  using assms unfolding later_def
proof (induction rule: rtranclp_induct)
  case (step y z)
  then have "ids_ok y" using ids_ok_rtrancl by blast
  from step.hyps(2) obtain e c where "run_command e c y = Inr z" by cases
  with \<open>ids_ok y\<close> have "store_step\<^sup>*\<^sup>* y z" using run_command_runs by (auto simp: runs_def)
  with step show ?case by (meson rtranclp_trans)
qed simp

lemma later_store_later: "reachable s \<Longrightarrow> later s s' \<Longrightarrow> store_later s s'"
  using later_steps steps_later reachable_ids by blast

text \<open>A run of commands, each with its own environment, from a given store; for concrete examples.\<close>

fun run_commands :: "(env \<times> command) list \<Rightarrow> store \<Rightarrow> store_error + store" where
  "run_commands [] s = Inr s"
| "run_commands ((e, c) # cs) s = andthen (run_command e c s) (run_commands cs)"

lemma later_commands: "run_commands cs s = Inr s' \<Longrightarrow> later s s'"
proof (induction cs s rule: run_commands.induct)
  case (2 e c cs s)
  then obtain s1 where s1: "run_command e c s = Inr s1" "run_commands cs s1 = Inr s'" by (auto simp: result_simps)
  then have "later s s1" "later s1 s'" using 2 later_command by auto
  then show ?case unfolding later_def by (rule rtranclp_trans)
qed simp

lemma reachable_commands: "run_commands cs empty_store = Inr s \<Longrightarrow> reachable s"
  using later_commands reachable_later [OF reachable_empty] by blast

end
