(* ===== verification/Scenarios.thy ===== *)
theory Scenarios
  imports JobMachine "HOL-Library.Code_Target_Nat"
begin

text \<open>
  Concrete runs of the job store, evaluated once each: the inputs at which the properties of the following
  theories are seen to apply. Identifiers are the prefix and a letter counting the rows of the table.
\<close>

definition demo_env :: "int \<Rightarrow> env" where
  "demo_env now = \<lparr>clock = now, utc = ''t'', new_id = (\<lambda>pre n. pre @ [char_of (65 + n)]),
     float_repr = (\<lambda>_. None), sha256_digest = (\<lambda>s. s)\<rparr>"

definition demo_auth :: "string \<Rightarrow> nat \<Rightarrow> job_execution_authority" where
  "demo_auth owner token = \<lparr>owner_id = owner, fencing_token = token, x_job_id = ''jobA''\<rparr>"

definition demo_create :: command where
  "demo_create = CreateJob ''h'' None ''p'' (Some ''k'') None [(''note'', ''1'')] None ENGINE"

text \<open>A job with a running attempt of the owner \<open>''w''\<close>, claimed until 61000.\<close>

definition demo_running :: "(env \<times> command) list" where
  "demo_running = map (Pair (demo_env 1000))
     [demo_create, ClaimJob ''jobA'' ''w'' 60, CreateAttempt ''jobA'' ''s'' (Some (demo_auth ''w'' 1)),
      StartAttempt ''attA'' (demo_auth ''w'' 1)]"

definition demo_store :: "(env \<times> command) list \<Rightarrow> store" where
  "demo_store cs = (case run_commands cs empty_store of Inl _ \<Rightarrow> empty_store | Inr s \<Rightarrow> s)"

lemma demo_reachable: "reachable (demo_store cs)"
  by (cases "run_commands cs empty_store")
     (simp_all add: demo_store_def reachable_empty reachable_commands)

lemma demo_facts:
  assumes "case run_commands cs empty_store of Inr s \<Rightarrow> P s | Inl _ \<Rightarrow> False"
  shows "run_commands cs empty_store = Inr (demo_store cs)" and "P (demo_store cs)"
  using assms by (auto simp: demo_store_def split: sum.splits)

lemma run_commands_append:
  "run_commands (cs @ ds) s = andthen (run_commands cs s) (run_commands ds)"
  by (induction cs s rule: run_commands.induct) (auto simp: andthen_def split: sum.splits)

lemma demo_later:
  assumes "run_commands (cs @ ds) empty_store = Inr s"
  shows "run_commands ds (demo_store cs) = Inr (demo_store (cs @ ds)) \<and> later (demo_store cs) (demo_store (cs @ ds))"
proof -
  from assms obtain s1 s2 where "run_commands cs empty_store = Inr s1" "run_commands ds s1 = Inr s2"
    by (auto simp: run_commands_append result_simps)
  then show ?thesis by (auto simp: demo_store_def run_commands_append intro: later_commands)
qed

end
