(* ===== verification/JobProperties.thy ===== *)
theory JobProperties
  imports Scenarios
begin

text \<open>
  What the job store guarantees of a job's life: cancellation, final states, attempts, the event stream. The
  witnesses apply each property to the runs evaluated at the beginning of the theory.
\<close>

section \<open>Runs\<close>

definition demo_cancelling :: "(env \<times> command) list" where
  "demo_cancelling = demo_running @ [(demo_env 2000, CancelJob ''jobA'')]"

definition demo_cancelled :: "(env \<times> command) list" where
  "demo_cancelled = demo_cancelling
     @ [(demo_env 3000, TransitionAttempt ''attA'' A_CANCELLED (Some (demo_auth ''w'' 1)))]"

definition demo_succeeded :: "(env \<times> command) list" where
  "demo_succeeded = demo_running @ [(demo_env 2000, GuardCommit ''jobA'' ''attA'' (demo_auth ''w'' 1))]"

definition demo_cancel_late :: "(env \<times> command) list" where
  "demo_cancel_late = demo_succeeded @ [(demo_env 3000, CancelJob ''jobA'')]"

definition demo_failed :: "(env \<times> command) list" where
  "demo_failed = demo_running @ [(demo_env 2000, FailJob ''jobA''
     \<lparr>code = ''c'', category = RECIPE_FAILED, message = ''m'', details = []\<rparr> (Some ''attA'') (Some (demo_auth ''w'' 1)))]"

lemmas demo_runs = demo_cancelling_def demo_cancelled_def demo_succeeded_def demo_cancel_late_def demo_failed_def

lemma demo_cancelling_facts: "case run_commands demo_cancelling empty_store of Inl _ \<Rightarrow> False | Inr s \<Rightarrow>
    (case get_row s ''jobA'' of None \<Rightarrow> False | Some r \<Rightarrow> cancellation_requested r \<and> state r = RUNNING)"
  by code_simp

lemma demo_cancelled_facts: "case run_commands demo_cancelled empty_store of Inl _ \<Rightarrow> False | Inr s \<Rightarrow>
    (case get_row s ''jobA'' of None \<Rightarrow> False | Some r \<Rightarrow> state r = CANCELLED) \<and> length (job_events s ''jobA'') = 8"
  by code_simp

lemma demo_succeeded_facts: "case run_commands demo_succeeded empty_store of Inl _ \<Rightarrow> False | Inr s \<Rightarrow>
    (case get_row s ''jobA'' of None \<Rightarrow> False | Some r \<Rightarrow> state r = SUCCEEDED)"
  by code_simp

lemma demo_cancel_late_facts: "case run_commands demo_cancel_late empty_store of Inl _ \<Rightarrow> False | Inr s \<Rightarrow> True"
  by code_simp

lemma demo_failed_facts: "case run_commands demo_failed empty_store of Inl _ \<Rightarrow> False | Inr s \<Rightarrow>
    (case get_row s ''jobA'' of None \<Rightarrow> False | Some r \<Rightarrow> state r = FAILED)"
  by code_simp

text \<open>The rows these runs leave, and how they follow one another.\<close>

lemma demo_row:
  assumes "case run_commands cs empty_store of Inl _ \<Rightarrow> False | Inr s \<Rightarrow>
      (case get_row s jid of None \<Rightarrow> False | Some r \<Rightarrow> P r)"
  shows "\<exists>r. get_row (demo_store cs) jid = Some r \<and> P r"
  using assms by (auto simp: demo_store_def split: sum.splits option.splits)

lemma demo_cancelling_later: "later (demo_store demo_cancelling) (demo_store demo_cancelled)"
  using demo_facts(1) [OF demo_cancelled_facts] demo_later unfolding demo_cancelled_def by blast

lemma demo_succeeded_later: "later (demo_store demo_succeeded) (demo_store demo_cancel_late)"
  using demo_facts(1) [OF demo_cancel_late_facts] demo_later unfolding demo_cancel_late_def by blast

lemma demo_cancelled_row:
  "\<exists>r. get_row (demo_store demo_cancelled) ''jobA'' = Some r \<and> state r = CANCELLED"
  using demo_facts(2) [OF demo_cancelled_facts] by (auto split: option.splits)

section \<open>States of a job\<close>

lemma later_row:
  assumes "reachable s" and "later s s'" and "get_row s jid = Some r"
  shows "\<exists>r'. get_row s' jid = Some r' \<and> row_later r r' \<and> r' \<in> set (jobs s') \<and> job_id r' = jid"
  using job_later [OF later_store_later [OF assms(1,2)] reachable_ids [OF reachable_later [OF assms(1,2)]] assms(3)]
  by (auto dest: get_row_SomeD)

text \<open>C1: Cancellation wins. A job whose cancellation was requested is never completed: whatever commands run, in no
  later store is it in the state SUCCEEDED, and the request is never withdrawn.\<close>

theorem cancellation_wins:
  assumes "reachable s" and "get_row s jid = Some r" and "cancellation_requested r" and "later s s'"
  shows "\<exists>r'. get_row s' jid = Some r' \<and> cancellation_requested r' \<and> state r' \<noteq> SUCCEEDED"
proof -
  obtain r' where "get_row s' jid = Some r'" "row_later r r'" "r' \<in> set (jobs s')"
    using later_row [OF assms(1,4,2)] by blast
  moreover have "jobs_ok s'" using reachable_ok [OF reachable_later [OF assms(1,4)]] by (simp add: store_ok_def)
  ultimately show ?thesis using assms(3) by (auto simp: row_later_def jobs_ok_def)
qed

lemma cancellation_wins_witness:
  "\<exists>r'. get_row (demo_store demo_cancelled) ''jobA'' = Some r' \<and> cancellation_requested r' \<and> state r' \<noteq> SUCCEEDED"
proof -
  obtain r where "get_row (demo_store demo_cancelling) ''jobA'' = Some r" "cancellation_requested r"
    using demo_row [OF demo_cancelling_facts] by blast
  then show ?thesis by (rule cancellation_wins [OF demo_reachable _ _ demo_cancelling_later])
qed

text \<open>C2: A finished job is final. Once a job is SUCCEEDED, FAILED or CANCELLED its row never changes again: state,
  result, error, cancellation flag and timestamps are those of the moment it finished.\<close>

theorem terminal_jobs_are_final:
  assumes "reachable s" and "get_row s jid = Some r" and "job_terminal (state r)" and "later s s'"
  shows "get_row s' jid = Some r"
  using later_row [OF assms(1,4,2)] assms(3) by (auto simp: row_later_def)

lemma terminal_jobs_are_final_witness:
  "\<exists>r. get_row (demo_store demo_cancel_late) ''jobA'' = Some r \<and> state r = SUCCEEDED"
proof -
  obtain r where "get_row (demo_store demo_succeeded) ''jobA'' = Some r" "state r = SUCCEEDED"
    using demo_row [OF demo_succeeded_facts] by blast
  then show ?thesis using terminal_jobs_are_final [OF demo_reachable _ _ demo_succeeded_later] by fastforce
qed

text \<open>A job moves only along the transition table of the state machine: the state in any later store is reached
  from the present one by legal transitions.\<close>

theorem states_follow_the_table:
  assumes "reachable s" and "get_row s jid = Some r" and "later s s'"
  shows "\<exists>r'. get_row s' jid = Some r' \<and> (state r, state r') \<in> (set LEGAL_JOB_TRANSITIONS)\<^sup>*"
  using later_row [OF assms(1,3,2)] by (auto simp: row_later_def)

lemma states_follow_the_table_witness:
  "\<exists>r r'. get_row (demo_store demo_cancelling) ''jobA'' = Some r \<and> state r = RUNNING
     \<and> get_row (demo_store demo_cancelled) ''jobA'' = Some r' \<and> (RUNNING, state r') \<in> (set LEGAL_JOB_TRANSITIONS)\<^sup>*"
proof -
  obtain r where "get_row (demo_store demo_cancelling) ''jobA'' = Some r" "state r = RUNNING"
    using demo_row [OF demo_cancelling_facts] by blast
  then show ?thesis using states_follow_the_table [OF demo_reachable _ demo_cancelling_later] by fastforce
qed

text \<open>C3: What the final states mean. A job that succeeded was never asked to cancel and, like one that failed, has no
  pending or running attempt; a cancelled job was asked to cancel and none of its attempts runs; only a succeeded job
  has a result and only a failed one an error.\<close>

theorem final_states_mean:
  assumes "reachable s" and "get_row s jid = Some r"
  shows "(state r = SUCCEEDED \<longrightarrow> \<not> cancellation_requested r \<and> settled jid s)
    \<and> (state r = FAILED \<longrightarrow> settled jid s)
    \<and> (state r = CANCELLED \<longrightarrow> cancellation_requested r \<and> none_running jid s)
    \<and> (result r \<noteq> None \<longrightarrow> state r = SUCCEEDED) \<and> (error_json r \<noteq> None \<longrightarrow> state r = FAILED)"
  using reachable_ok [OF assms(1)] get_row_SomeD [OF assms(2)]
  by (auto simp: store_ok_def jobs_ok_def attempts_ok_def)

lemma final_states_mean_witness: "settled ''jobA'' (demo_store demo_succeeded) \<and> none_running ''jobA'' (demo_store demo_cancelled)"
proof -
  obtain r where "get_row (demo_store demo_succeeded) ''jobA'' = Some r" "state r = SUCCEEDED"
    using demo_row [OF demo_succeeded_facts] by blast
  moreover obtain r' where "get_row (demo_store demo_cancelled) ''jobA'' = Some r'" "state r' = CANCELLED"
    using demo_cancelled_row by blast
  ultimately show ?thesis using final_states_mean [OF demo_reachable] by blast
qed

section \<open>The event stream\<close>

text \<open>C4: The events of every job are numbered 1, 2, 3 and so on without a gap or a repetition.\<close>

theorem events_are_numbered:
  assumes "reachable s"
  shows "map sequence (job_events s jid) = [1..<Suc (length (job_events s jid))]"
  using reachable_ok [OF assms] unfolding store_ok_def events_ok_def by blast

lemma events_are_numbered_witness:
  "map sequence (job_events (demo_store demo_cancelled) ''jobA'') = [1, 2, 3, 4, 5, 6, 7, 8]"
  using events_are_numbered [OF demo_reachable, of demo_cancelled "''jobA''"] demo_facts(2) [OF demo_cancelled_facts]
  by (simp add: upt_conv_Cons)

text \<open>Events are only ever appended: the stream of a job in a later store starts with its present stream, so a
  reader that asks for the events after the last sequence number it has seen misses none.\<close>

theorem events_are_appended:
  assumes "reachable s" and "later s s'"
  shows "\<exists>vs. job_events s' jid = job_events s jid @ vs"
  by (rule events_later [OF later_store_later [OF assms]])

lemma events_are_appended_witness:
  "\<exists>vs. job_events (demo_store demo_cancelled) ''jobA'' = job_events (demo_store demo_cancelling) ''jobA'' @ vs"
  by (rule events_are_appended [OF demo_reachable demo_cancelling_later])

text \<open>C5: The stream tells the state: every job has announced a state, and the last announcement is the state it is in.
  The writer-protocol migration relies on it to decide which jobs lack an announcement.\<close>

theorem stream_mirrors_state:
  assumes "reachable s" and "get_row s jid = Some r"
  shows "state_events s jid \<noteq> [] \<and> payload_json (last (state_events s jid)) = job_state_payload (state r)"
  using reachable_ok [OF assms(1)] get_row_SomeD [OF assms(2)] by (auto simp: store_ok_def mirrored_def)

lemma stream_mirrors_state_witness:
  "payload_json (last (state_events (demo_store demo_cancelled) ''jobA'')) = job_state_payload CANCELLED"
  using demo_cancelled_row stream_mirrors_state [OF demo_reachable, of demo_cancelled "''jobA''"] by fastforce

text \<open>The stream of a job that succeeded or failed is closed: it ends with the announcement of that state, and no
  event is added to it in any later store.\<close>

theorem finished_streams_are_closed:
  assumes "reachable s" and "get_row s jid = Some r" and "state r = SUCCEEDED \<or> state r = FAILED" and "later s s'"
  shows "event_type (last (job_events s jid)) = JOB_STATE_EVENT_TYPE \<and> job_events s' jid = job_events s jid"
proof
  show "event_type (last (job_events s jid)) = JOB_STATE_EVENT_TYPE"
    using reachable_ok [OF assms(1)] get_row_SomeD [OF assms(2)] assms(3) unfolding store_ok_def streams_closed_def by metis
  show "job_events s' jid = job_events s jid"
    by (rule finished_stream_steps [OF later_steps [OF assms(4) reachable_ids [OF assms(1)]] reachable_ok [OF assms(1)] assms(2,3)])
qed

lemma finished_streams_are_closed_witness:
  "job_events (demo_store demo_cancel_late) ''jobA'' = job_events (demo_store demo_succeeded) ''jobA''"
proof -
  obtain r where "get_row (demo_store demo_succeeded) ''jobA'' = Some r" "state r = SUCCEEDED"
    using demo_row [OF demo_succeeded_facts] by blast
  then show ?thesis using finished_streams_are_closed [OF demo_reachable _ _ demo_succeeded_later] by blast
qed

end
