(* ===== verification/OperationHistory.thy ===== *)
theory OperationHistory
  imports JobMachine
begin

text \<open>
  The operations of one request over time: what preparing one returns, and the count of those that failed.
\<close>

section \<open>One operation at a time\<close>

lemma same_request_same_operation:
  assumes "store_ok s" and "x \<in> set (operations s)" and "y \<in> set (operations s)" and "op_key x = op_key y"
    and "outcome x \<noteq> O_FAILED" and "outcome y \<noteq> O_FAILED"
  shows "x = y"
proof -
  have "operation_id x = operation_id y" using assms unfolding store_ok_def operations_ok_def by blast
  moreover have "distinct (map operation_id (operations s))" using assms(1) by (simp add: store_ok_def ids_ok_def)
  ultimately show ?thesis using assms(2,3) by (auto simp: distinct_map dest: inj_onD)
qed

lemma operation_later_row:
  assumes "reachable s" and "later s s'" and "get_operation_row s oid = Some x"
  shows "\<exists>x'. get_operation_row s' oid = Some x' \<and> operation_later x x'"
  using operation_row_later [OF later_store_later [OF assms(1,2)] reachable_ids [OF reachable_later [OF assms(1,2)]] assms(3)] .

lemma by_outcome_hd:
  assumes "by_outcome out (request_operations k s) \<noteq> []"
  shows "\<exists>y \<in> set (operations s). operation_id y = hd (by_outcome out (request_operations k s)) \<and> op_key y = k \<and> outcome y = out"
proof -
  have "hd (by_outcome out (request_operations k s)) \<in> set (by_outcome out (request_operations k s))"
    using assms by (rule hd_in_set)
  then show ?thesis by (auto simp: by_outcome_def request_operations_def)
qed

lemma prepare_succeeded_request:
  assumes "reachable s" and "get_operation_row s oid = Some x" and "outcome x = O_SUCCEEDED"
    and "op_key x = (jid, step, prov, rhash)" and "later s s'" and "\<forall>n. m = Some n \<longrightarrow> 1 \<le> n"
  shows "prepare_external_operation e jid step aid prov rhash ikey summary authority m s' = Inr (x, s')"
proof -
  have ok: "store_ok s'" by (rule reachable_ok [OF reachable_later [OF assms(1,5)]])
  have row: "get_operation_row s' oid = Some x"
    using operation_later_row [OF assms(1,5,2)] assms(3) by (auto simp: operation_later_def)
  then have x: "x \<in> set (operations s')" "operation_id x = oid" by (auto dest: get_operation_row_SomeD)
  have one: "y = x" if "y \<in> set (operations s')" "op_key y = op_key x" "outcome y \<noteq> O_FAILED" for y
    by (rule same_request_same_operation [OF ok that(1) x(1) that(2,3)]) (simp add: assms(3))
  let ?rows = "request_operations (jid, step, prov, rhash) s'"
  have none: "by_outcome out ?rows = []" if "out \<noteq> O_SUCCEEDED" "out \<noteq> O_FAILED" for out
    unfolding by_outcome_Nil using one that assms(3,4) by auto
  have some: "by_outcome O_SUCCEEDED ?rows \<noteq> []"
    unfolding by_outcome_Nil using x assms(3,4) by auto
  obtain y where "y \<in> set (operations s')" "operation_id y = hd (by_outcome O_SUCCEEDED ?rows)"
      "op_key y = (jid, step, prov, rhash)" "outcome y = O_SUCCEEDED"
    using by_outcome_hd [OF some] by blast
  moreover from this have "y = x" using one assms(4) by simp
  ultimately have "hd (by_outcome O_SUCCEEDED ?rows) = oid" using x by simp
  then show ?thesis
    using none [of O_UNKNOWN] none [of O_STARTED] some row assms(6)
    by (auto simp: prepare_external_operation_def get_external_operation_def)
qed

lemma later_trans: "later s t \<Longrightarrow> later t u \<Longrightarrow> later s u"
  unfolding later_def by (rule rtranclp_trans)

section \<open>The operations that failed\<close>

definition failed_count :: "string \<times> string \<times> string \<times> string \<Rightarrow> store \<Rightarrow> nat" where
  "failed_count k s = length (by_outcome O_FAILED (request_operations k s))"

lemma fetched_operation:
  assumes "ids_ok s"
  shows "get_operation_row s oid = Some x \<longleftrightarrow> x \<in> set (operations s) \<and> operation_id x = oid"
  using assms by (auto simp: get_operation_row_def ids_ok_def dest: distinct_fetchone fetchone_SomeD)

lemma failed_count_ids:
  assumes "ids_ok s"
  shows "failed_count k s = card (operation_id ` {x \<in> set (operations s). op_key x = k \<and> outcome x = O_FAILED})"
proof -
  let ?xs = "by_outcome O_FAILED (request_operations k s)"
  have "distinct (map operation_id (operations s))" using assms by (simp add: ids_ok_def)
  then have "distinct ?xs" by (simp add: by_outcome_def request_operations_def rev_filter rev_map [symmetric] distinct_map_filter)
  moreover have "set ?xs = operation_id ` {x \<in> set (operations s). op_key x = k \<and> outcome x = O_FAILED}"
    by (auto simp: by_outcome_def request_operations_def)
  ultimately show ?thesis by (simp add: failed_count_def distinct_card [symmetric])
qed

lemma failed_operation_stays:
  assumes "reachable s" and "later s s'" and "x \<in> set (operations s)" and "outcome x = O_FAILED"
  shows "x \<in> set (operations s')"
proof -
  have "get_operation_row s (operation_id x) = Some x" using fetched_operation [OF reachable_ids [OF assms(1)]] assms(3) by simp
  from operation_later_row [OF assms(1,2) this] assms(4) have "get_operation_row s' (operation_id x) = Some x"
    by (auto simp: operation_later_def)
  then show ?thesis by (auto dest: get_operation_row_SomeD)
qed

lemma failed_count_later:
  assumes "reachable s" and "later s s'"
  shows "failed_count k s \<le> failed_count k s'"
  unfolding failed_count_ids [OF reachable_ids [OF assms(1)]] failed_count_ids [OF reachable_ids [OF reachable_later [OF assms]]]
  using failed_operation_stays [OF assms] by (intro card_mono) auto

lemma failed_count_grows:
  assumes "reachable s" and "later s s1" and "later s1 s'" and "get_operation_row s1 oid = Some x" and "outcome x \<noteq> O_FAILED"
    and "get_operation_row s' oid = Some x'" and "outcome x' = O_FAILED" and "op_key x' = k"
  shows "failed_count k s < failed_count k s'"
proof -
  have r1: "reachable s1" and r': "reachable s'" using assms(1-3) reachable_later by blast+
  let ?F = "\<lambda>s. operation_id ` {x \<in> set (operations s). op_key x = k \<and> outcome x = O_FAILED}"
  have "oid \<notin> ?F s"
  proof
    assume "oid \<in> ?F s"
    then obtain y where "y \<in> set (operations s)" "outcome y = O_FAILED" "operation_id y = oid" by auto
    then have "get_operation_row s1 oid = Some y"
      using failed_operation_stays [OF assms(1,2)] fetched_operation [OF reachable_ids [OF r1]] by blast
    with assms(4,5) \<open>outcome y = O_FAILED\<close> show False by simp
  qed
  moreover have "oid \<in> ?F s'" using assms(6-8) by (force dest: get_operation_row_SomeD)
  moreover have "?F s \<subseteq> ?F s'"
    using failed_operation_stays [OF assms(1) later_trans [OF assms(2,3)]] by auto
  ultimately have "?F s \<subset> ?F s'" by blast
  then show ?thesis
    unfolding failed_count_ids [OF reachable_ids [OF assms(1)]] failed_count_ids [OF reachable_ids [OF r']]
    by (intro psubset_card_mono) auto
qed

section \<open>What the operations of the guard return\<close>

lemma first_operation:
  assumes "ids_ok s" and "by_outcome out (request_operations k s) \<noteq> []"
    and "get_operation_row s (hd (by_outcome out (request_operations k s))) = Some x"
  shows "op_key x = k \<and> outcome x = out \<and> operation_id x = hd (by_outcome out (request_operations k s))"
  using by_outcome_hd [OF assms(2)] assms(3) fetched_operation [OF assms(1)] by (metis option.inject)

lemma fetched_update:
  assumes "\<And>y. operation_id (f y) = operation_id y" and "get_operation_row s oid = Some x"
  shows "get_operation_row (update_operations p f s) oid = Some (if p x then f x else x)"
  using assms by (simp add: get_operation_row_def update_operations_def fetchone_key_update)

lemma reused_operation:
  assumes "reuse_prepared e oid aid token s = Inr (y, s')" and "get_operation_row s oid = Some x"
    and "outcome x = O_PREPARED"
  shows "get_operation_row s' oid = Some y \<and> op_key y = op_key x \<and> outcome y = O_PREPARED \<and> operation_id y = oid"
proof -
  have id: "operation_id x = oid" using assms(2) by (auto dest: get_operation_row_SomeD)
  have eq: "get_external_operation s oid = Inr x" using assms(2) by (simp add: result_simps)
  let ?p = "\<lambda>z. operation_id z = oid \<and> o_attempt_id z = o_attempt_id x \<and> outcome z = O_PREPARED"
    and ?f = "\<lambda>z. z\<lparr>o_attempt_id := aid, o_updated_at := utc e\<rparr>"
  have row: "get_operation_row (update_operations ?p ?f s) oid = Some (?f x)"
    using fetched_update [OF _ assms(2), of ?f ?p] assms(3) id by simp
  show ?thesis
  proof (cases "o_attempt_id x = aid")
    case True
    then show ?thesis using assms id by (simp add: reuse_prepared_def eq)
  next
    case False
    have "get_external_operation (update_operations ?p ?f s) oid = Inr y \<and> s' = update_operations ?p ?f s"
      using assms(1) unfolding reuse_prepared_def eq
      by (auto simp: False Let_def result_simps split: if_splits)
    with row show ?thesis using assms(3) id by (auto simp: result_simps op_key_def)
  qed
qed

lemma inserted_operation:
  assumes "insert_operation e jid step aid prov rhash ikey summary s = Inr (x, s')" and "ids_ok s"
  shows "op_key x = (jid, step, prov, rhash) \<and> get_operation_row s' (operation_id x) = Some x \<and> outcome x = O_PREPARED"
  using assms
  by (auto simp: insert_operation_def Let_def op_key_def get_operation_row_def fetchone_append split: if_splits)

lemma prepare_cases:
  assumes "prepare_external_operation e jid step aid prov rhash ikey summary authority (Some m) s = Inr (x, s')"
    and rows: "rows = request_operations (jid, step, prov, rhash) s"
  obtains (succeeded) "by_outcome O_SUCCEEDED rows \<noteq> []" "get_operation_row s (hd (by_outcome O_SUCCEEDED rows)) = Some x" "s' = s"
    | (prepared) token where "int (length (by_outcome O_FAILED rows)) < m" "by_outcome O_PREPARED rows \<noteq> []"
        "reuse_prepared e (hd (by_outcome O_PREPARED rows)) aid token s = Inr (x, s')"
    | (inserted) "int (length (by_outcome O_FAILED rows)) < m"
        "insert_operation e jid step aid prov rhash ikey summary s = Inr (x, s')"
proof (cases "by_outcome O_SUCCEEDED rows \<noteq> []")
  case True
  with assms(1) have "get_operation_row s (hd (by_outcome O_SUCCEEDED rows)) = Some x \<and> s' = s"
    unfolding prepare_external_operation_def Let_def rows [symmetric] by (auto simp: result_simps split: if_splits)
  with True that(1) show ?thesis by blast
next
  case False
  with assms(1) have "int (length (by_outcome O_FAILED rows)) < m \<and>
      ((\<exists>token. by_outcome O_PREPARED rows \<noteq> [] \<and> reuse_prepared e (hd (by_outcome O_PREPARED rows)) aid token s = Inr (x, s'))
       \<or> insert_operation e jid step aid prov rhash ikey summary s = Inr (x, s'))"
    unfolding prepare_external_operation_def Let_def rows [symmetric]
    by (simp only: if_False) (auto simp: result_simps not_le split: if_split_asm)
  then show ?thesis using that(2,3) by blast
qed

lemma prepared_operation:
  assumes "prepare_external_operation e jid step aid prov rhash ikey summary authority (Some m) s = Inr (x, s')" and "ids_ok s"
  shows "op_key x = (jid, step, prov, rhash) \<and> get_operation_row s' (operation_id x) = Some x
    \<and> (outcome x = O_SUCCEEDED \<or> outcome x = O_PREPARED \<and> int (failed_count (jid, step, prov, rhash) s) < m)"
  using assms(1) refl
proof (cases rule: prepare_cases)
  case succeeded
  with first_operation [OF assms(2) succeeded(1,2)] show ?thesis by simp
next
  case (prepared token)
  obtain y where y: "get_operation_row s (hd (by_outcome O_PREPARED (request_operations (jid, step, prov, rhash) s))) = Some y"
    using by_outcome_hd [OF prepared(2)] fetched_operation [OF assms(2)] by blast
  from reused_operation [OF prepared(3) y] first_operation [OF assms(2) prepared(2) y] prepared(1)
  show ?thesis by (simp add: failed_count_def)
next
  case inserted
  with inserted_operation [OF inserted(2) assms(2)] show ?thesis by (simp add: failed_count_def)
qed

lemma finished_operation:
  assumes "finish_external_operation e oid out prid summary authority s = Inr (x, s')"
  shows "\<exists>y. get_operation_row s oid = Some y \<and> get_operation_row s' oid = Some x \<and> op_key x = op_key y
    \<and> outcome x = out \<and> summary_json x = summary \<and> operation_id x = oid"
proof -
  let ?f = "\<lambda>y. y\<lparr>outcome := out, provider_request_id := prid, summary_json := summary, o_updated_at := utc e\<rparr>"
  let ?p = "\<lambda>y. operation_id y = oid \<and> outcome y = O_STARTED"
  from assms(1) obtain y where y: "get_operation_row s oid = Some y" "outcome y = O_STARTED"
      and x: "get_operation_row s' oid = Some x" "s' = update_operations ?p ?f s"
    by (auto simp: finish_external_operation_def advance_operation_def Let_def result_simps split: if_splits)
  have "operation_id y = oid" using y(1) by (auto dest: get_operation_row_SomeD)
  with fetched_update [OF _ y(1), of ?f ?p] x y show ?thesis by (auto simp: op_key_def)
qed

lemma started_operation:
  assumes "start_external_operation e oid authority s = Inr (x, s')"
  shows "\<exists>y. get_operation_row s oid = Some y \<and> get_operation_row s' oid = Some x \<and> op_key x = op_key y \<and> outcome x = O_STARTED"
proof -
  let ?f = "\<lambda>y. y\<lparr>outcome := O_STARTED, o_updated_at := utc e\<rparr>"
  let ?p = "\<lambda>y. operation_id y = oid \<and> outcome y = O_PREPARED"
  from assms(1) obtain y where y: "get_operation_row s oid = Some y" "outcome y = O_PREPARED"
      and x: "get_operation_row s' oid = Some x" "s' = update_operations ?p ?f s"
    by (auto simp: start_external_operation_def advance_operation_def Let_def result_simps split: if_splits)
  have "operation_id y = oid" using y(1) by (auto dest: get_operation_row_SomeD)
  with fetched_update [OF _ y(1), of ?f ?p] x y show ?thesis by (auto simp: op_key_def)
qed

end
