(* ===== verification/OperationProperties.thy ===== *)
theory OperationProperties
  imports Scenarios OperationHistory
begin

text \<open>
  What the job store guarantees of calls to external services and of questions to the user: one operation per
  request, outcomes that do not change, nothing started or completed after cancellation, one open question per job.
\<close>

section \<open>Runs\<close>

definition demo_prepare :: "env \<times> command" where
  "demo_prepare = (demo_env 2000,
     PrepareOperation ''jobA'' ''s'' ''attA'' ''gpt'' ''q'' None ''{}'' (JobBound (demo_auth ''w'' 1)) (Some 3))"

definition demo_prepared :: "(env \<times> command) list" where
  "demo_prepared = demo_running @ [demo_prepare]"

definition demo_called :: "(env \<times> command) list" where
  "demo_called = demo_prepared
     @ [(demo_env 3000, StartOperation ''opA'' (JobBound (demo_auth ''w'' 1))),
        (demo_env 4000, FinishOperation ''opA'' O_SUCCEEDED (Some ''id'') ''{}'' (JobBound (demo_auth ''w'' 1)))]"

definition demo_lost :: "(env \<times> command) list" where
  "demo_lost = demo_prepared
     @ [(demo_env 3000, StartOperation ''opA'' (JobBound (demo_auth ''w'' 1))),
        (demo_env 4000, MarkUnknown ''opA'' ''{}'' (JobBound (demo_auth ''w'' 1)))]"

definition demo_prepared_cancelled :: "(env \<times> command) list" where
  "demo_prepared_cancelled = demo_prepared @ [(demo_env 3000, CancelJob ''jobA'')]"

definition demo_paused :: "(env \<times> command) list" where
  "demo_paused = demo_lost @ [(demo_env 5000, PauseForOutcome ''jobA'' ''attA'' (demo_auth ''w'' 1))]"

definition demo_answered :: "(env \<times> command) list" where
  "demo_answered = demo_paused @ [(demo_env 6000, RespondChallenge ''jobA'' ''chlA'' ''r'' ''{}'')]"

lemma demo_called_facts: "case run_commands demo_called empty_store of Inl _ \<Rightarrow> False | Inr s \<Rightarrow>
    (case get_operation_row s ''opA'' of None \<Rightarrow> False | Some x \<Rightarrow> outcome x = O_SUCCEEDED
       \<and> op_key x = (''jobA'', ''s'', ''gpt'', ''q''))"
  by code_simp

lemma demo_prepared_cancelled_facts: "case run_commands demo_prepared_cancelled empty_store of Inl _ \<Rightarrow> False | Inr s \<Rightarrow>
    (case get_row s ''jobA'' of None \<Rightarrow> False | Some r \<Rightarrow> cancellation_requested r)
    \<and> (case get_operation_row s ''opA'' of None \<Rightarrow> False | Some x \<Rightarrow> outcome x = O_PREPARED \<and> o_job_id x = ''jobA'')"
  by code_simp

lemma demo_answered_facts: "case run_commands demo_answered empty_store of Inl _ \<Rightarrow> False | Inr s \<Rightarrow>
    (case get_challenge_row s ''chlA'' of None \<Rightarrow> False | Some c \<Rightarrow> c_state c = C_CONSUMED \<and> response_hash c = Some ''r''
       \<and> c_job_id c = ''jobA'')
    \<and> (case get_operation_row s ''opA'' of None \<Rightarrow> False | Some x \<Rightarrow> outcome x = O_UNKNOWN
       \<and> op_key x = (''jobA'', ''s'', ''gpt'', ''q''))"
  by code_simp

lemma demo_operation:
  assumes "case run_commands cs empty_store of Inl _ \<Rightarrow> False | Inr s \<Rightarrow>
      (case get_operation_row s oid of None \<Rightarrow> False | Some x \<Rightarrow> P x)"
  shows "\<exists>x. get_operation_row (demo_store cs) oid = Some x \<and> P x"
  using assms by (auto simp: demo_store_def split: sum.splits option.splits)

section \<open>One operation per request\<close>

text \<open>C6: At most one operation per request. Of all operations a step of a job records for the same provider and the
  same request, at most one has not failed: a second one can be prepared only after the first has definitely failed.\<close>

theorem one_operation_per_request:
  assumes "reachable s" and "x \<in> set (operations s)" and "y \<in> set (operations s)" and "op_key x = op_key y"
    and "outcome x \<noteq> O_FAILED" and "outcome y \<noteq> O_FAILED"
  shows "x = y"
  using same_request_same_operation [OF reachable_ok [OF assms(1)]] assms(2-6) by blast

lemma one_operation_per_request_witness:
  "\<exists>x. get_operation_row (demo_store demo_called) ''opA'' = Some x
     \<and> (\<forall>y \<in> set (operations (demo_store demo_called)). op_key y = op_key x \<and> outcome y \<noteq> O_FAILED \<longrightarrow> y = x)"
proof -
  obtain x where x: "get_operation_row (demo_store demo_called) ''opA'' = Some x" "outcome x = O_SUCCEEDED"
    using demo_operation [OF demo_called_facts] by blast
  have "y = x" if "y \<in> set (operations (demo_store demo_called))" "op_key y = op_key x" "outcome y \<noteq> O_FAILED" for y
    by (rule one_operation_per_request [OF demo_reachable that(1) _ that(2,3)])
       (use x in \<open>auto dest: get_operation_row_SomeD\<close>)
  with x show ?thesis by blast
qed

text \<open>An outcome is final: an operation that succeeded, failed or became unknown is never written again.\<close>

theorem outcomes_are_final:
  assumes "reachable s" and "get_operation_row s oid = Some x" and "outcome x \<noteq> O_PREPARED" and "outcome x \<noteq> O_STARTED"
    and "later s s'"
  shows "get_operation_row s' oid = Some x"
  using operation_later_row [OF assms(1,5,2)] assms(3,4) by (auto simp: operation_later_def)

lemma outcomes_are_final_witness:
  "\<exists>x. outcome x = O_SUCCEEDED \<and> get_operation_row (demo_store demo_called) ''opA'' = Some x"
proof -
  obtain x where "get_operation_row (demo_store demo_called) ''opA'' = Some x" "outcome x = O_SUCCEEDED"
    using demo_operation [OF demo_called_facts] by blast
  then show ?thesis using outcomes_are_final [OF demo_reachable _ _ _ later_refl] by fastforce
qed

text \<open>A call that succeeded is never repeated. Once an operation of a request succeeded, every later
  \<open>prepare_external_operation\<close> for that request, by any attempt and under any authority, returns that operation and
  changes nothing.\<close>

theorem succeeded_request_is_not_repeated:
  assumes "reachable s" and "get_operation_row s oid = Some x" and "outcome x = O_SUCCEEDED"
    and "op_key x = (jid, step, prov, rhash)" and "later s s'" and "\<forall>n. m = Some n \<longrightarrow> 1 \<le> n"
  shows "prepare_external_operation e jid step aid prov rhash ikey summary authority m s' = Inr (x, s')"
  using assms by (rule prepare_succeeded_request)

lemma succeeded_request_is_not_repeated_witness:
  "\<exists>x. outcome x = O_SUCCEEDED \<and> prepare_external_operation (demo_env 9000) ''jobA'' ''s'' ''attB'' ''gpt'' ''q'' None ''{}''
      (JobBound (demo_auth ''v'' 2)) (Some 3) (demo_store demo_called) = Inr (x, demo_store demo_called)"
proof -
  obtain x where "get_operation_row (demo_store demo_called) ''opA'' = Some x" "outcome x = O_SUCCEEDED"
      "op_key x = (''jobA'', ''s'', ''gpt'', ''q'')"
    using demo_operation [OF demo_called_facts] by blast
  then show ?thesis
    using succeeded_request_is_not_repeated [OF demo_reachable _ _ _ later_refl] by (metis numeral_One one_le_numeral option.inject)
qed

text \<open>C7: An unknown outcome blocks its request. Once an operation's outcome is unknown, every later attempt to prepare
  the same request is refused, and so is every attempt to start an operation of it: only a retry as a new job, which has
  to confirm the unknown operations, can issue the call again.\<close>

theorem unknown_outcome_blocks_request:
  assumes "reachable s" and "get_operation_row s oid = Some x" and "outcome x = O_UNKNOWN"
    and "op_key x = (jid, step, prov, rhash)" and "later s s'" and "\<forall>n. m = Some n \<longrightarrow> 1 \<le> n"
  shows "prepare_external_operation e jid step aid prov rhash ikey summary authority m s' = conflict ''external_outcome_unknown''
    \<and> (\<forall>y. get_operation_row s' oid' = Some y \<and> op_key y = op_key x
         \<longrightarrow> start_external_operation e oid' authority s' = conflict ''external_outcome_unknown'')"
proof -
  have "get_operation_row s' oid = Some x"
    using operation_later_row [OF assms(1,5,2)] assms(3) by (auto simp: operation_later_def)
  then have x: "x \<in> set (operations s')" by (auto dest: get_operation_row_SomeD)
  have some: "by_outcome O_UNKNOWN (request_operations (op_key x) s') \<noteq> []"
    unfolding by_outcome_Nil using x assms(3) by auto
  then show ?thesis
    using assms(4,6) by (auto simp: prepare_external_operation_def start_external_operation_def get_external_operation_def)
qed

lemma unknown_outcome_blocks_request_witness:
  "prepare_external_operation (demo_env 9000) ''jobA'' ''s'' ''attB'' ''gpt'' ''q'' None ''{}''
      (JobBound (demo_auth ''v'' 2)) (Some 3) (demo_store demo_answered) = conflict ''external_outcome_unknown''"
proof -
  have "case run_commands demo_answered empty_store of Inl _ \<Rightarrow> False | Inr s \<Rightarrow>
      (case get_operation_row s ''opA'' of None \<Rightarrow> False | Some x \<Rightarrow> outcome x = O_UNKNOWN
       \<and> op_key x = (''jobA'', ''s'', ''gpt'', ''q''))"
    using demo_answered_facts by (auto split: sum.splits)
  then obtain x where "get_operation_row (demo_store demo_answered) ''opA'' = Some x" "outcome x = O_UNKNOWN"
      "op_key x = (''jobA'', ''s'', ''gpt'', ''q'')"
    using demo_operation by blast
  then show ?thesis
    using unknown_outcome_blocks_request [OF demo_reachable _ _ _ later_refl, where m = "Some 3"] by auto
qed

section \<open>Cancellation and calls\<close>

lemma cancelled_operation_step:
  assumes "store_step s s'" and "ids_ok s" and "get_row s jid = Some r" and "cancellation_requested r"
    and "x' \<in> set (operations s')" and "o_job_id x' = jid"
  shows "\<exists>x \<in> set (operations s). operation_id x = operation_id x' \<and> o_job_id x = jid
    \<and> (outcome x' = outcome x \<or> outcome x = O_STARTED \<and> (outcome x' = O_FAILED \<or> outcome x' = O_UNKNOWN))"
proof -
  have stop: "\<not> job_working s jid" "\<not> not_cancelled s jid" using assms(3,4) by (auto simp: job_working_def not_cancelled_def)
  show ?thesis
    using assms(1)
  proof (cases rule: step_shape)
    case (op_new x)
    with stop assms(5,6) show ?thesis by auto
  next
    case (op_reassign oid prev aid now)
    with assms(5,6) show ?thesis by (auto simp: in_sql_update)
  next
    case (op_advance f p)
    then consider "x' \<in> set (operations s)" | x where "x \<in> set (operations s)" "p x" "x' = f x"
      using assms(5) by (auto simp: in_sql_update)
    then show ?thesis
    proof cases
      case 2
      have same: "operation_id (f x) = operation_id x" "o_job_id (f x) = o_job_id x"
        using op_advance(2) by (auto simp: same_operation_def op_key_def)
      with 2 assms(6) stop op_advance(1) have "outcome x = O_STARTED \<and> (outcome x' = O_FAILED \<or> outcome x' = O_UNKNOWN)"
        by (auto simp: OUTCOME_MOVES_def)
      with 2 same assms(6) show ?thesis by auto
    qed (use assms(6) in blast)
  qed (use assms(5,6) in auto)
qed

text \<open>C8: After a cancellation request a job makes no further calls: no operation of it is prepared or started any more,
  and a call that was under way is not recorded as succeeded; it fails or its outcome becomes unknown.\<close>

theorem no_calls_after_cancellation:
  assumes "reachable s" and "get_row s jid = Some r" and "cancellation_requested r" and "later s s'"
    and "x' \<in> set (operations s')" and "o_job_id x' = jid"
  shows "\<exists>x \<in> set (operations s). operation_id x = operation_id x'
    \<and> (outcome x' = outcome x \<or> outcome x = O_STARTED \<and> (outcome x' = O_FAILED \<or> outcome x' = O_UNKNOWN))"
proof -
  have "store_step\<^sup>*\<^sup>* s s'" using later_steps [OF assms(4) reachable_ids [OF assms(1)]] .
  then have "\<exists>x \<in> set (operations s). operation_id x = operation_id x' \<and> o_job_id x = jid
    \<and> (outcome x' = outcome x \<or> outcome x = O_STARTED \<and> (outcome x' = O_FAILED \<or> outcome x' = O_UNKNOWN))"
    using assms(5,6)
  proof (induction arbitrary: x' rule: rtranclp_induct)
    case (step y z)
    have ids: "ids_ok y" using ids_ok_rtrancl [OF step.hyps(1) reachable_ids [OF assms(1)]] .
    obtain r' where "get_row y jid = Some r'" "cancellation_requested r'"
      using job_later [OF steps_later [OF step.hyps(1) reachable_ids [OF assms(1)]] ids assms(2)] assms(3)
      by (auto simp: row_later_def)
    from cancelled_operation_step [OF step.hyps(2) ids this step.prems] obtain w where
      w: "w \<in> set (operations y)" "operation_id w = operation_id x'" "o_job_id w = jid"
      "outcome x' = outcome w \<or> outcome w = O_STARTED \<and> (outcome x' = O_FAILED \<or> outcome x' = O_UNKNOWN)"
      by blast
    from step.IH [OF w(1,3)] obtain x where x: "x \<in> set (operations s)" "operation_id x = operation_id w" "o_job_id x = jid"
      "outcome w = outcome x \<or> outcome x = O_STARTED \<and> (outcome w = O_FAILED \<or> outcome w = O_UNKNOWN)"
      by blast
    then show ?case using w by (intro bexI [OF _ x(1)]) auto
  qed auto
  then show ?thesis by blast
qed

lemma no_calls_after_cancellation_witness:
  "\<exists>x. get_operation_row (demo_store demo_prepared_cancelled) ''opA'' = Some x
     \<and> (\<exists>y \<in> set (operations (demo_store demo_prepared_cancelled)). operation_id y = ''opA'' \<and>
          (outcome x = outcome y \<or> outcome y = O_STARTED \<and> (outcome x = O_FAILED \<or> outcome x = O_UNKNOWN)))"
proof -
  have facts: "case run_commands demo_prepared_cancelled empty_store of Inl _ \<Rightarrow> False | Inr s \<Rightarrow>
      (case get_operation_row s ''opA'' of None \<Rightarrow> False | Some x \<Rightarrow> outcome x = O_PREPARED \<and> o_job_id x = ''jobA'')"
    using demo_prepared_cancelled_facts by (auto split: sum.splits)
  obtain x where x: "get_operation_row (demo_store demo_prepared_cancelled) ''opA'' = Some x" "o_job_id x = ''jobA''"
    using demo_operation [OF facts] by blast
  obtain r where r: "get_row (demo_store demo_prepared_cancelled) ''jobA'' = Some r" "cancellation_requested r"
    using demo_prepared_cancelled_facts by (auto simp: demo_store_def split: sum.splits option.splits)
  have "x \<in> set (operations (demo_store demo_prepared_cancelled))" "operation_id x = ''opA''"
    using x(1) by (auto dest: get_operation_row_SomeD)
  then show ?thesis
    using no_calls_after_cancellation [OF demo_reachable r later_refl] x by metis
qed

end
