(* ===== verification/ClaimProperties.thy ===== *)
theory ClaimProperties
  imports Scenarios
begin

text \<open>
  What the job store guarantees of the workers on a job: a live claim excludes all others, a superseded one is
  refused for ever, and the attempts of a dead worker can only be taken over. The proofs apply the contract
  \<open>timed_lease\<close>, of which the claims of a job and the scheduler's leadership are instances.
\<close>

section \<open>Runs\<close>

definition demo_claimed :: "(env \<times> command) list" where
  "demo_claimed = map (Pair (demo_env 1000)) [demo_create, ClaimJob ''jobA'' ''w'' 60]"

definition demo_reclaim :: "(env \<times> command) list" where
  "demo_reclaim = [(demo_env 100000, ClaimJob ''jobA'' ''v'' 60)]"

definition demo_led :: "(env \<times> command) list" where
  "demo_led = [(demo_env 1000, AcquireScheduler ''w'' 60)]"

lemma demo_claimed_facts: "case run_commands demo_claimed empty_store of Inl _ \<Rightarrow> False | Inr s \<Rightarrow>
    assert_job_authority (demo_env 2000) ''jobA'' (demo_auth ''w'' 1) s = Inr ()
    \<and> (case claim_job (demo_env 2000) ''jobA'' ''w'' 60 s of Inl _ \<Rightarrow> False | Inr (c, _) \<Rightarrow> fencing_token (claim_authority c) = 1)
    \<and> claim_token ''jobA'' s = 1 \<and> claim_owner ''jobA'' s = ''w''"
  by code_simp

lemma demo_reclaim_facts: "case run_commands demo_running empty_store of Inl _ \<Rightarrow> False | Inr s \<Rightarrow>
    assert_job_authority (demo_env 2000) ''jobA'' (demo_auth ''w'' 1) s = Inr ()
    \<and> (case claim_job (demo_env 100000) ''jobA'' ''v'' 60 s of Inl _ \<Rightarrow> False
       | Inr (c, s') \<Rightarrow> assert_job_authority (demo_env 100000) ''jobA'' (claim_authority c) s' = Inr ()
           \<and> (case get_attempt_row s' ''attA'' of None \<Rightarrow> False | Some a \<Rightarrow> a_state a = A_RUNNING \<and> a_token a = 1))"
  by code_simp

definition demo_reclaimed :: "(env \<times> command) list" where
  "demo_reclaimed = demo_running @ demo_reclaim"

lemma demo_reclaimed_facts: "case run_commands demo_reclaimed empty_store of Inl _ \<Rightarrow> False | Inr s \<Rightarrow>
    (case get_row s ''jobA'' of None \<Rightarrow> False | Some r \<Rightarrow> \<not> cancellation_requested r)
    \<and> (case get_attempt_row s ''attA'' of None \<Rightarrow> False | Some a \<Rightarrow> a_state a = A_RUNNING \<and> a_token a < claim_token (a_job_id a) s)
    \<and> (case take_over_running_attempt (demo_env 100000) ''jobA'' ''attA'' (demo_auth ''v'' 2) s of Inl _ \<Rightarrow> False | Inr _ \<Rightarrow> True)"
  by code_simp

lemma demo_led_facts: "case run_commands demo_led empty_store of Inl _ \<Rightarrow> False | Inr s \<Rightarrow>
    scheduler_token s = 1 \<and> scheduler_owner s = ''w''
    \<and> (case acquire_scheduler_lease (demo_env 100000) ''v'' 60 s of Inl _ \<Rightarrow> False | Inr _ \<Rightarrow> True)"
  by code_simp

section \<open>Claims of a job\<close>

lemma claim_grant_Inr:
  "claim_job e jid owner ttl s = Inr (c, s') \<Longrightarrow>
     claim_grant e jid (clock e) owner ttl s = Some (fencing_token (claim_authority c), s')"
  by (simp add: claim_grant_def)

lemma claim_job_command: "claim_job e jid owner ttl s = Inr (c, s') \<Longrightarrow> run_command e (ClaimJob jid owner ttl) s = Inr s'"
  by (simp add: stored_def andthen_def)

text \<open>C9: A live claim excludes every other worker. While the store accepts a worker's authority over a job, a claim by
  another worker is refused, and a claim by the same worker renews the lease under the token it has.\<close>

theorem live_claim_excludes:
  assumes "reachable s" and "assert_job_authority e jid auth s = Inr ()" and "1 \<le> fencing_token auth"
    and "claim_job e' jid owner ttl s = Inr (c, s')" and "clock e' \<le> clock e"
  shows "owner = owner_id auth \<and> fencing_token (claim_authority c) = fencing_token auth"
proof -
  have "claims.holds jid (clock e') (owner_id auth) (fencing_token auth) s"
    using authority_holds [OF assms(2) reachable_ids [OF assms(1)] assms(3)] assms(5) by (auto simp: claims.holds_def)
  then show ?thesis
    using claims.mutual_exclusion reachable_ids [OF assms(1)] claim_grant_Inr [OF assms(4)] by blast
qed

lemma live_claim_excludes_witness:
  "\<exists>c s'. claim_job (demo_env 2000) ''jobA'' ''w'' 60 (demo_store demo_claimed) = Inr (c, s') \<and> fencing_token (claim_authority c) = 1"
proof -
  have a: "assert_job_authority (demo_env 2000) ''jobA'' (demo_auth ''w'' 1) (demo_store demo_claimed) = Inr ()"
    and "\<exists>c s'. claim_job (demo_env 2000) ''jobA'' ''w'' 60 (demo_store demo_claimed) = Inr (c, s')"
    using demo_claimed_facts by (auto simp: demo_store_def split: sum.splits)
  then obtain c s' where c: "claim_job (demo_env 2000) ''jobA'' ''w'' 60 (demo_store demo_claimed) = Inr (c, s')" by blast
  show ?thesis using live_claim_excludes [OF demo_reachable a _ c] c by (fastforce simp: demo_auth_def)
qed

text \<open>C10: A superseded worker is refused for ever. Once a job that a worker claimed has been claimed by another
  worker, the first worker's authority is rejected with \<open>job_claim_fenced\<close> in every later store and at any time, even
  if the first worker's clock still shows its lease as live.\<close>

theorem superseded_claim_is_fenced:
  assumes "reachable s" and "assert_job_authority e0 jid auth s = Inr ()" and "1 \<le> fencing_token auth"
    and "claim_job e1 jid owner ttl s = Inr (c, s1)" and "owner \<noteq> owner_id auth" and "later s1 s2"
  shows "assert_job_authority e2 jid auth s2 = job_claim_fenced"
proof -
  have ids: "ids_ok s" "ids_ok s2" "ids_ok s1"
    using assms(1,4,6) reachable_ids reachable_later later_command [OF claim_job_command] by blast+
  have holds: "claims.holds jid (clock e0) (owner_id auth) (fencing_token auth) s"
    by (rule authority_holds [OF assms(2) ids(1) assms(3)])
  have "\<not> claims.holds jid (clock e2) (owner_id auth) (fencing_token auth) s2"
    by (rule claims.fenced_for_ever [OF ids(1) _ _ _ claim_grant_Inr [OF assms(4)] assms(5)])
       (use holds later_steps [OF assms(6) ids(3)] in \<open>auto simp: claims.holds_def\<close>)
  then have "assert_job_authority e2 jid auth s2 \<noteq> Inr ()"
    using authority_holds [OF _ ids(2) assms(3)] by blast
  then show ?thesis by (auto simp: assert_job_authority_def Let_def split: if_splits option.splits)
qed

lemma superseded_claim_is_fenced_witness:
  "\<exists>c s'. claim_job (demo_env 100000) ''jobA'' ''v'' 60 (demo_store demo_running) = Inr (c, s')
     \<and> assert_job_authority (demo_env 2000) ''jobA'' (demo_auth ''w'' 1) s' = job_claim_fenced"
proof -
  have a: "assert_job_authority (demo_env 2000) ''jobA'' (demo_auth ''w'' 1) (demo_store demo_running) = Inr ()"
    and "\<exists>c s'. claim_job (demo_env 100000) ''jobA'' ''v'' 60 (demo_store demo_running) = Inr (c, s')"
    using demo_reclaim_facts by (auto simp: demo_store_def split: sum.splits)
  then obtain c s' where c: "claim_job (demo_env 100000) ''jobA'' ''v'' 60 (demo_store demo_running) = Inr (c, s')" by blast
  with superseded_claim_is_fenced [OF demo_reachable a _ c _ later_refl] show ?thesis by (auto simp: demo_auth_def)
qed

section \<open>Attempts of dead workers\<close>

lemma claim_token_later: "reachable s \<Longrightarrow> later s s' \<Longrightarrow> claim_token jid s \<le> claim_token jid s'"
  using claims.token_mono [OF later_steps] reachable_ids by blast

lemma authority_token:
  assumes "assert_job_authority e jid auth s = Inr ()" and "ids_ok s"
  shows "claim_token jid s = fencing_token auth"
  using authority_lease [OF assms] by (auto simp: claim_token_def)

text \<open>C11: The attempt of a dead worker is fenced. A running attempt that was started under an earlier claim than the
  job's present one is never accepted again as the caller's attempt, whatever authority is shown: so it can neither call
  services nor record checkpoints nor commit or fail the job; it can only be taken over or cancelled.\<close>

theorem stale_attempt_is_fenced:
  assumes "reachable s" and "get_attempt_row s aid = Some a" and "a_state a = A_RUNNING"
    and "a_token a < claim_token (a_job_id a) s" and "later s s'"
  shows "\<nexists>x. assert_execution_authority e (a_job_id a) aid authority s' = Inr x"
proof
  assume "\<exists>x. assert_execution_authority e (a_job_id a) aid authority s' = Inr x"
  then obtain auth a1 where a1: "get_attempt_row s' aid = Some a1" "a_token a1 = fencing_token auth"
    and acc: "assert_job_authority e (a_job_id a) auth s' = Inr ()"
    by (auto simp: assert_execution_authority_Inr)
  have ids: "ids_ok s'" by (rule reachable_ids [OF reachable_later [OF assms(1,5)]])
  obtain a2 where "get_attempt_row s' aid = Some a2" "attempt_later a a2"
    using attempt_row_later [OF later_store_later [OF assms(1,5)] ids assms(2)] by blast
  with a1 assms(3) have "a_token a1 = a_token a" by (auto simp: attempt_later_def)
  moreover have "claim_token (a_job_id a) s \<le> claim_token (a_job_id a) s'" by (rule claim_token_later [OF assms(1,5)])
  ultimately show False using authority_token [OF acc ids] a1(2) assms(4) by simp
qed

lemma stale_attempt_is_fenced_witness:
  "\<exists>a. get_attempt_row (demo_store demo_reclaimed) ''attA'' = Some a \<and> a_state a = A_RUNNING
     \<and> (\<nexists>x. assert_execution_authority (demo_env 100000) (a_job_id a) ''attA'' (JobBound (demo_auth ''w'' 1)) (demo_store demo_reclaimed) = Inr x)"
proof -
  obtain a where "get_attempt_row (demo_store demo_reclaimed) ''attA'' = Some a" "a_state a = A_RUNNING"
      "a_token a < claim_token (a_job_id a) (demo_store demo_reclaimed)"
    using demo_reclaimed_facts by (auto simp: demo_store_def split: sum.splits option.splits)
  then show ?thesis using stale_attempt_is_fenced [OF demo_reachable _ _ _ later_refl] by blast
qed

text \<open>A takeover replaces the attempt. It succeeds only for the holder of the job's claim and an attempt of an earlier
  claim. If the job was not asked to cancel, the old attempt ends INTERRUPTED and the returned attempt of the same step runs
  under the caller's token; no other attempt changes.\<close>

theorem takeover_replaces_attempt:
  assumes "reachable s" and "get_row s jid = Some r" and "\<not> cancellation_requested r"
    and "take_over_running_attempt e jid aid auth s = Inr (a', s')"
  shows "\<exists>a. get_attempt_row s aid = Some a \<and> a_state a = A_RUNNING \<and> a_token a < fencing_token auth
    \<and> attempts s' = sql_update (\<lambda>x. x = a) (\<lambda>x. x\<lparr>a_state := A_INTERRUPTED, a_updated_at := utc e\<rparr>) (attempts s) @ [a']
    \<and> a_job_id a' = jid \<and> a_step_id a' = a_step_id a \<and> a_state a' = A_RUNNING \<and> a_token a' = fencing_token auth"
proof -
  let ?f = "\<lambda>x. x\<lparr>a_state := A_INTERRUPTED, a_updated_at := utc e\<rparr>"
  let ?g = "\<lambda>b. b\<lparr>a_state := A_RUNNING, a_token := fencing_token auth, a_updated_at := utc e\<rparr>"
  from assms(2,4) obtain a u where a: "get_attempt_row s aid = Some a" and "assert_job_authority e jid auth s = Inr u"
    by (auto simp: take_over_running_attempt_def result_simps)
  with assms(2-4) have state: "a_state a = A_RUNNING" "a_token a < fencing_token auth"
    and rest: "andthen (announce_attempt e aid (set_attempt_state e aid A_INTERRUPTED s)) (\<lambda>(_, s1).
         andthen (create_attempt_conn e jid (a_step_id a) s1) (\<lambda>(b, s2).
           announce_attempt e (attempt_id b) (s2\<lparr>attempts := sql_update
             (\<lambda>x. attempt_id x = attempt_id b \<and> a_state x = A_PENDING) ?g (attempts s2)\<rparr>))) = Inr (a', s')"
    unfolding take_over_running_attempt_def Let_def by (simp_all add: get_job_def get_attempt_def split: if_splits)
  obtain x1 s1 where ann: "announce_attempt e aid (set_attempt_state e aid A_INTERRUPTED s) = Inr (x1, s1)"
    by (cases "announce_attempt e aid (set_attempt_state e aid A_INTERRUPTED s)") (use rest in auto)
  have "is_ok (create_attempt_conn e jid (a_step_id a) s1)"
    using rest unfolding ann andthen_Inr prod.case
    by (cases "create_attempt_conn e jid (a_step_id a) s1") (simp_all only: andthen_Inl is_ok_simps sum.distinct not_False_eq_True)
  then obtain b s2 where new: "create_attempt_conn e jid (a_step_id a) s1 = Inr (b, s2)"
    by (cases "create_attempt_conn e jid (a_step_id a) s1") auto
  from rest ann new have start: "announce_attempt e (attempt_id b) (s2\<lparr>attempts := sql_update
        (\<lambda>x. attempt_id x = attempt_id b \<and> a_state x = A_PENDING) ?g (attempts s2)\<rparr>) = Inr (a', s')" by simp
  have in_s: "a \<in> set (attempts s)" "attempt_id a = aid" using a by (auto dest: get_attempt_row_SomeD)
  have one: "x = a" if "x \<in> set (attempts s)" "attempt_id x = aid" for x
    using attempt_unique [OF reachable_ids [OF assms(1)] a that] .
  have s1: "attempts s1 = sql_update (\<lambda>x. x = a) ?f (attempts s)"
  proof -
    have "attempts s1 = sql_update (\<lambda>x. attempt_id x = aid) ?f (attempts s)"
      using announce_attempt_frame [OF ann] by (auto simp: set_attempt_state_def update_attempt_def)
    moreover have "(attempt_id x = aid) = (x = a)" if "x \<in> set (attempts s)" for x
      using one [OF that] in_s(2) by blast
    ultimately show ?thesis by (simp add: sql_update_def cong: map_cong)
  qed
  from create_attempt_conn_frame [OF new] have b: "attempts s2 = attempts s1 @ [b]" "a_job_id b = jid" "a_step_id b = a_step_id a"
      "a_state b = A_PENDING" "get_attempt_row s1 (attempt_id b) = None" by auto
  have fresh: "\<forall>x \<in> set (attempts s1). attempt_id x \<noteq> attempt_id b"
    using b(5) unfolding get_attempt_row_None by (metis imageI)
  then have upd: "sql_update (\<lambda>x. attempt_id x = attempt_id b \<and> a_state x = A_PENDING) ?g (attempts s2) = attempts s1 @ [?g b]"
    using b(1,4) by (simp add: sql_update_id)
  from announce_attempt_frame [OF start] have fin: "attempts s' = attempts s1 @ [?g b]"
      "fetchone (\<lambda>x. attempt_id x = attempt_id b) (attempts s1 @ [?g b]) = Some a'"
    by (auto simp: upd get_attempt_row_def)
  have "fetchone (\<lambda>x. attempt_id x = attempt_id b) (attempts s1) = None"
    using fresh by (simp add: fetchone_None_iff)
  with fin(2) have "a' = ?g b" by (simp add: fetchone_append)
  with fin(1) a state s1 b show ?thesis by (intro exI [of _ a]) simp
qed

lemma takeover_replaces_attempt_witness:
  "\<exists>a' s'. take_over_running_attempt (demo_env 100000) ''jobA'' ''attA'' (demo_auth ''v'' 2) (demo_store demo_reclaimed) = Inr (a', s')
     \<and> a_state a' = A_RUNNING \<and> a_token a' = 2"
proof -
  obtain r a' s' where r: "get_row (demo_store demo_reclaimed) ''jobA'' = Some r" "\<not> cancellation_requested r"
    and t: "take_over_running_attempt (demo_env 100000) ''jobA'' ''attA'' (demo_auth ''v'' 2) (demo_store demo_reclaimed) = Inr (a', s')"
    using demo_reclaimed_facts by (auto simp: demo_store_def split: sum.splits option.splits)
  from takeover_replaces_attempt [OF demo_reachable r t] t show ?thesis by (auto simp: demo_auth_def)
qed

section \<open>Leadership\<close>

lemma scheduler_grant_Inr:
  "acquire_scheduler_lease e owner ttl s = Inr (auth, s') \<Longrightarrow>
     scheduler_grant e (clock e) owner ttl s = Some (fencing_token auth, s')"
  by (simp add: scheduler_grant_def)

text \<open>A deposed scheduler is refused for ever. Once another owner has acquired the workspace's scheduler lease, no
  heartbeat of the earlier leader succeeds in any later store.\<close>

theorem deposed_scheduler_is_fenced:
  assumes "reachable s" and "1 \<le> scheduler_token s" and "owner \<noteq> scheduler_owner s"
    and "acquire_scheduler_lease e owner ttl s = Inr (auth, s1)" and "later s1 s2"
    and "owner_id old = scheduler_owner s" and "fencing_token old = scheduler_token s"
  shows "heartbeat_scheduler_lease e' (Leadership old) ttl' s2 \<noteq> Inr x"
proof
  assume beat: "heartbeat_scheduler_lease e' (Leadership old) ttl' s2 = Inr x"
  then obtain l where "lease s2 = Some l" "sl_owner l = owner_id old" "sl_token l = fencing_token old" "clock e' < sl_expires_at l"
    by (cases x) (auto simp: heartbeat_scheduler_lease_def Let_def result_simps split: option.splits if_splits)
  then have "scheduler.holds (clock e') (owner_id old) (fencing_token old) s2"
    using assms(2,7) by (simp add: scheduler.holds_def scheduler_token_def scheduler_owner_def scheduler_expiry_def)
  moreover have "run_command e (AcquireScheduler owner ttl) s = Inr s1" using assms(4) by (simp add: stored_def andthen_def)
  then have "ids_ok s1" using reachable_ids reachable_command [OF assms(1)] by blast
  ultimately show False
    using scheduler.fenced_for_ever [OF reachable_ids [OF assms(1)] _ refl refl scheduler_grant_Inr [OF assms(4)] assms(3)]
      later_steps [OF assms(5)] assms(2,7) by fastforce
qed

lemma deposed_scheduler_is_fenced_witness:
  "\<exists>auth s'. acquire_scheduler_lease (demo_env 100000) ''v'' 60 (demo_store demo_led) = Inr (auth, s')
     \<and> (\<forall>x. heartbeat_scheduler_lease (demo_env 2000) (Leadership \<lparr>owner_id = ''w'', fencing_token = 1\<rparr>) 60 s' \<noteq> Inr x)"
proof -
  have led: "scheduler_token (demo_store demo_led) = 1" "scheduler_owner (demo_store demo_led) = ''w''"
    and "\<exists>auth s'. acquire_scheduler_lease (demo_env 100000) ''v'' 60 (demo_store demo_led) = Inr (auth, s')"
    using demo_led_facts by (auto simp: demo_store_def split: sum.splits)
  then obtain auth s' where acq: "acquire_scheduler_lease (demo_env 100000) ''v'' 60 (demo_store demo_led) = Inr (auth, s')" by blast
  have "heartbeat_scheduler_lease (demo_env 2000) (Leadership \<lparr>owner_id = ''w'', fencing_token = 1\<rparr>) 60 s' \<noteq> Inr x" for x
    by (rule deposed_scheduler_is_fenced [OF demo_reachable _ _ acq later_refl]) (simp_all add: led)
  with acq show ?thesis by blast
qed

end
