(* ===== verification/JobEffects.thy ===== *)
theory JobEffects
  imports Commits JobClaims
begin

text \<open>
  What the ending operations of the store do, exactly: which attempts a cancellation settles, what a commit and
  a failure leave, and that with fresh identifiers a cancellation always succeeds.
\<close>

section \<open>Settling attempts\<close>

lemma ball_sql_update: "(\<forall>r \<in> set (sql_update p f rows). Q r) \<longleftrightarrow> (\<forall>r \<in> set rows. if p r then Q (f r) else Q r)"
  by (auto simp: sql_update_def)

lemma attempt_get: "ids_ok s \<Longrightarrow> a \<in> set (attempts s) \<Longrightarrow> get_attempt_row s (attempt_id a) = Some a"
  by (auto simp: get_attempt_row_def ids_ok_def dest: distinct_fetchone)

lemma cancel_rows_attempts:
  assumes "cancel_rows e rs s = Inr s'" and "distinct (map attempt_id (attempts s))"
    and "set rs \<subseteq> set (attempts s)" and "distinct (map attempt_id rs)"
  shows "attempts s' = sql_update (\<lambda>a. a \<in> set rs) (\<lambda>a. a\<lparr>a_state := A_CANCELLED, a_updated_at := utc e\<rparr>) (attempts s)"
  using assms
proof (induction rs arbitrary: s)
  case (Cons r rs)
  let ?p = "\<lambda>a. attempt_id a = attempt_id r \<and> a_state a = a_state r"
  let ?f = "\<lambda>a. a\<lparr>a_state := A_CANCELLED, a_updated_at := utc e\<rparr>"
  let ?s1 = "s\<lparr>attempts := sql_update ?p ?f (attempts s)\<rparr>"
  have r: "r \<in> set (attempts s)" using Cons.prems by simp
  have inj: "a = b" if "a \<in> set (attempts s)" "b \<in> set (attempts s)" "attempt_id a = attempt_id b" for a b
    using Cons.prems(2) that by (auto simp: distinct_map dest: inj_onD)
  have only: "?p a \<longleftrightarrow> a = r" if "a \<in> set (attempts s)" for a
    using inj [OF that r] by auto
  have "rowcount ?p (attempts s) \<le> 1"
    by (rule distinct_rowcount_le_1 [OF Cons.prems(2), where x = "attempt_id r"]) simp
  moreover have "rowcount ?p (attempts s) \<noteq> 0"
    unfolding rowcount_pos using r by blast
  ultimately have "rowcount ?p (attempts s) = 1" by simp
  then obtain a' s2 where ann: "announce_attempt e (attempt_id r) ?s1 = Inr (a', s2)"
    and rest: "cancel_rows e rs s2 = Inr s'"
    using Cons.prems(1) by (auto simp: result_simps Let_def split: prod.splits)
  have s2: "attempts s2 = sql_update ?p ?f (attempts s)"
    using announce_attempt_frame [OF ann] by auto
  have keep: "a \<noteq> r" "attempt_id a \<noteq> attempt_id r" "a \<in> set (attempts s)" if "a \<in> set rs" for a
    using that Cons.prems(3,4) by (auto, metis rev_image_eqI)
  have "attempts s' = sql_update (\<lambda>a. a \<in> set rs) ?f (attempts s2)"
  proof (rule Cons.IH [OF rest])
    show "distinct (map attempt_id (attempts s2))"
      using Cons.prems(2) s2 map_sql_update [of attempt_id ?f ?p "attempts s"] by simp
    show "set rs \<subseteq> set (attempts s2)" using keep by (auto simp: s2 in_sql_update)
  qed (use Cons.prems in simp)
  also have "\<dots> = sql_update (\<lambda>a. a \<in> set (r # rs)) ?f (attempts s)"
    unfolding s2 sql_update_def map_map
  proof (rule map_cong [OF refl])
    fix a assume a: "a \<in> set (attempts s)"
    have "?f r \<notin> set rs" using keep(2) [of "?f r"] by auto
    then show "((\<lambda>a. if a \<in> set rs then ?f a else a) \<circ> (\<lambda>a. if ?p a then ?f a else a)) a
        = (if a \<in> set (r # rs) then ?f a else a)"
      using only [OF a] by auto
  qed
  finally show ?case .
qed (simp add: sql_update_id)

lemma transition_attempts_exact:
  assumes "transition_attempts_to_cancelled e jid sts s = Inr s'" and "ids_ok s"
  shows "attempts s' = sql_update (\<lambda>a. a_job_id a = jid \<and> a_state a \<in> set sts)
    (\<lambda>a. a\<lparr>a_state := A_CANCELLED, a_updated_at := utc e\<rparr>) (attempts s)"
proof -
  let ?rs = "sort_key (\<lambda>a. (a_created_at a, attempt_id a)) (filter (\<lambda>a. a_job_id a = jid \<and> List.member sts (a_state a)) (attempts s))"
  have "distinct (map attempt_id (attempts s))" using assms(2) by (simp add: ids_ok_def)
  moreover from this have "inj_on attempt_id (set (attempts s))" "distinct (attempts s)" by (auto simp: distinct_map)
  then have "distinct (map attempt_id ?rs)" by (auto simp: distinct_map intro: inj_on_subset)
  ultimately have "attempts s' = sql_update (\<lambda>a. a \<in> set ?rs) (\<lambda>a. a\<lparr>a_state := A_CANCELLED, a_updated_at := utc e\<rparr>) (attempts s)"
    using assms(1) by (intro cancel_rows_attempts) (auto simp: transition_attempts_to_cancelled_def)
  then show ?thesis by (auto simp: sql_update_def)
qed

section \<open>Cancelling\<close>

text \<open>After the idle check a job with a cancellation request is finished, or one of its attempts is running.\<close>

lemma settle_idle_state:
  assumes "settle_cancelled_job_if_idle e jid s = Inr s'" and "get_row s jid = Some r" and "cancellation_requested r"
  shows "\<exists>r'. get_row s' jid = Some r' \<and> cancellation_requested r' \<and> (job_terminal (state r) \<longrightarrow> s' = s)
    \<and> (\<not> job_terminal (state r) \<longrightarrow> (if none_running jid s then state r' = CANCELLED else s' = s))"
proof -
  consider "s' = s" "\<not> none_running jid s \<or> job_terminal (state r)"
    | v where "none_running jid s" "\<not> job_terminal (state r)"
        "insert_job_state_event e jid CANCELLED (set_job_state e jid CANCELLED s) = Inr (v, s')"
    using assms by (auto simp: settle_cancelled_job_if_idle_def result_simps none_running_def dest!: transition_job_InrD
        split: if_splits)
  then show ?thesis
  proof cases
    case 2
    have "get_row s' jid = get_row (set_job_state e jid CANCELLED s) jid"
      using insert_job_state_event_frame [OF 2(3)] by (auto simp: get_row_def)
    with 2 assms(2,3) show ?thesis
      by (auto simp: set_job_state_move get_row_update_job dest: get_row_SomeD)
  qed (use assms in auto)
qed

text \<open>The cancellation of a claimed job settles it: no attempt is left unsettled, no call open.\<close>

lemma settle_claimed_effect:
  assumes "settle_claimed_cancellation e jid s = Inr s'" and "ids_ok s" and "get_row s jid = Some r"
    and "cancellation_requested r" and "\<not> job_terminal (state r)"
  shows "(\<exists>r'. get_row s' jid = Some r' \<and> state r' = CANCELLED) \<and> settled jid s'
    \<and> (\<forall>x \<in> set (operations s'). o_job_id x = jid \<longrightarrow> outcome x \<noteq> O_STARTED)"
proof -
  let ?p = "\<lambda>x. o_job_id x = jid \<and> outcome x = O_STARTED"
  let ?f = "\<lambda>x. x\<lparr>outcome := O_UNKNOWN, o_updated_at := utc e\<rparr>"
  from assms(1) obtain s2 where
    s2: "transition_attempts_to_cancelled e jid [A_PENDING, A_RUNNING] (update_operations ?p ?f s) = Inr s2"
    and s': "settle_cancelled_job_if_idle e jid s2 = Inr s'"
    by (auto simp: settle_claimed_cancellation_def result_simps)
  have fr: "jobs s2 = jobs s \<and> operations s2 = operations (update_operations ?p ?f s)"
    using cancel_rows_frame [OF s2 [unfolded transition_attempts_to_cancelled_def]] by (simp add: update_operations_def)
  have "attempts s2 = sql_update (\<lambda>a. a_job_id a = jid \<and> a_state a \<in> set [A_PENDING, A_RUNNING])
      (\<lambda>a. a\<lparr>a_state := A_CANCELLED, a_updated_at := utc e\<rparr>) (attempts s)"
  proof -
    have "map operation_id (sql_update ?p ?f (operations s)) = map operation_id (operations s)"
      by (rule map_sql_update) simp
    then have "ids_ok (update_operations ?p ?f s)" using assms(2) by (simp add: update_operations_def ids_ok_def)
    from transition_attempts_exact [OF s2 this] show ?thesis by (simp add: update_operations_def)
  qed
  then have set2: "settled jid s2" by (simp add: settled_def unsettled_def ball_sql_update)
  then have "none_running jid s2" by (auto simp: settled_def none_running_def unsettled_def)
  moreover have "get_row s2 jid = Some r" using fr assms(3) by (simp add: get_row_def)
  ultimately have "\<exists>r'. get_row s' jid = Some r' \<and> state r' = CANCELLED"
    using settle_idle_state [OF s'] assms(4,5) by auto
  moreover have "attempts s' = attempts s2 \<and> operations s' = operations s2" using settle_idle_frame [OF s'] by simp
  ultimately show ?thesis
    using set2 fr by (simp add: settled_def update_operations_def ball_sql_update)
qed

text \<open>The parts of a successful \<open>cancel_job\<close> of a job that has not finished.\<close>

lemma cancel_job_effect:
  assumes "cancel_job e jid s = Inr (j, s')" and "ids_ok s" and "get_row s jid = Some r" and "\<not> job_terminal (state r)"
  shows "\<exists>r'. get_row s' jid = Some r' \<and> j = job_from_row r' \<and> cancellation_requested r'
    \<and> state r' = (if none_running jid s then CANCELLED else state r)
    \<and> (\<forall>a \<in> set (attempts s'). a_job_id a = jid \<longrightarrow> a_state a \<noteq> A_PENDING)
    \<and> (\<forall>c \<in> set (challenges s'). c_job_id c = jid \<longrightarrow> c_state c \<noteq> C_PENDING)"
proof -
  from assms(1,3,4) obtain s1 s2 where
    s1: "if cancellation_requested r then s1 = s else \<exists>v. insert_event e jid JOB_CANCEL_REQUESTED_EVENT_TYPE
        (dumps (JObj [(''requested'', JBool True)]))
        (s\<lparr>jobs := sql_update (\<lambda>r. job_id r = jid \<and> \<not> cancellation_requested r)
           (\<lambda>r. r\<lparr>cancellation_requested := True, updated_at := utc e\<rparr>) (jobs s)\<rparr>) = Inr (v, s1)"
    and s2: "transition_attempts_to_cancelled e jid [A_PENDING] s1 = Inr s2"
    and s': "settle_cancelled_job_if_idle e jid (cancel_challenges e jid s2) = Inr s'"
    and j: "get_job s' jid = Inr j"
    by (auto simp: cancel_job_def result_simps split: if_splits)
  let ?f = "\<lambda>r. r\<lparr>cancellation_requested := True, updated_at := utc e\<rparr>"
  have "map job_id (sql_update p ?f (jobs s)) = map job_id (jobs s)" for p
    by (rule map_sql_update) simp
  moreover have "fetchone (\<lambda>r. job_id r = jid) (sql_update (\<lambda>r. job_id r = jid \<and> \<not> cancellation_requested r) ?f (jobs s))
      = map_option (\<lambda>r. if job_id r = jid \<and> \<not> cancellation_requested r then ?f r else r) (get_row s jid)"
    unfolding get_row_def by (rule fetchone_key_update) simp
  ultimately have r1: "\<exists>r1. get_row s1 jid = Some r1 \<and> cancellation_requested r1 \<and> state r1 = state r"
      "attempts s1 = attempts s" "ids_ok s1"
    using s1 assms(2,3) get_row_SomeD [OF assms(3)]
    by (auto simp: ids_ok_def get_row_def split: if_splits dest!: insert_event_frame)
  then obtain r1 where r1': "get_row s1 jid = Some r1" "cancellation_requested r1" "state r1 = state r" by blast
  have fr: "jobs s2 = jobs s1"
    using cancel_rows_frame [OF s2 [unfolded transition_attempts_to_cancelled_def]] by simp
  have att: "attempts s2 = sql_update (\<lambda>a. a_job_id a = jid \<and> a_state a \<in> set [A_PENDING])
      (\<lambda>a. a\<lparr>a_state := A_CANCELLED, a_updated_at := utc e\<rparr>) (attempts s)"
    using transition_attempts_exact [OF s2 r1(3)] r1(2) by simp
  have run: "none_running jid (cancel_challenges e jid s2) \<longleftrightarrow> none_running jid s"
    unfolding none_running_def cancel_challenges_def update_challenges_def by (auto simp: att ball_sql_update split: if_splits)
  have "get_row (cancel_challenges e jid s2) jid = Some r1"
    using fr r1' by (simp add: get_row_def cancel_challenges_def update_challenges_def)
  from settle_idle_state [OF s' this r1'(2)] run r1'(3) assms(4) obtain r' where
    r': "get_row s' jid = Some r'" "cancellation_requested r'"
      "if none_running jid s then state r' = CANCELLED else s' = cancel_challenges e jid s2" by auto
  have same: "attempts s' = attempts s2" "challenges s' = challenges (cancel_challenges e jid s2)"
    using settle_idle_frame [OF s'] by (simp_all add: cancel_challenges_def update_challenges_def)
  have st: "state r' = state r" if "\<not> none_running jid s"
  proof -
    from that r'(3) have "s' = cancel_challenges e jid s2" by simp
    with r'(1) fr r1' show ?thesis by (simp add: get_row_def cancel_challenges_def update_challenges_def)
  qed
  have "\<forall>a \<in> set (attempts s'). a_job_id a = jid \<longrightarrow> a_state a \<noteq> A_PENDING"
    by (simp add: same att ball_sql_update)
  moreover have "\<forall>c \<in> set (challenges s'). c_job_id c = jid \<longrightarrow> c_state c \<noteq> C_PENDING"
    by (simp add: same cancel_challenges_def update_challenges_def ball_sql_update)
  moreover have "j = job_from_row r'" using j r'(1) by (simp add: result_simps)
  ultimately show ?thesis using r' st by (cases "none_running jid s") auto
qed

section \<open>Completing\<close>

lemma finish_guard_effect:
  assumes "finish_commit_guard e jid aid authority s = Inr s'" and "ids_ok s"
  shows "\<exists>r a. get_row s jid = Some r \<and> state r = RUNNING \<and> \<not> cancellation_requested r
    \<and> get_row s' jid = Some (r\<lparr>state := SUCCEEDED, updated_at := utc e\<rparr>) \<and> settled jid s'
    \<and> get_attempt_row s' aid = Some a \<and> a_state a = A_SUCCEEDED \<and> a_token a = fencing_token authority
    \<and> source_identities s' = source_identities s"
proof -
  let ?p = "\<lambda>a. attempt_id a = aid \<and> a_state a = A_RUNNING \<and> a_token a = fencing_token authority"
  let ?f = "\<lambda>a. a\<lparr>a_state := A_SUCCEEDED, a_updated_at := utc e\<rparr>"
  let ?q = "\<lambda>r. job_id r = jid \<and> state r = RUNNING \<and> \<not> cancellation_requested r"
  let ?g = "\<lambda>r. r\<lparr>state := SUCCEEDED, updated_at := utc e\<rparr>"
  from assms(1) obtain b s2 v where count: "rowcount ?p (attempts s) = 1"
    and ann: "announce_attempt e aid (s\<lparr>attempts := sql_update ?p ?f (attempts s)\<rparr>) = Inr (b, s2)"
    and set2: "settled jid s2" and count2: "rowcount ?q (jobs s2) = 1"
    and ev: "insert_job_state_event e jid SUCCEEDED (s2\<lparr>jobs := sql_update ?q ?g (jobs s2)\<rparr>) = Inr (v, s')"
    by (auto simp: finish_commit_guard_def Let_def result_simps ensure_attempts_settled_Inr split: if_splits)
  have s2: "attempts s2 = sql_update ?p ?f (attempts s)" "jobs s2 = jobs s" "source_identities s2 = source_identities s"
    and b: "get_attempt_row (s\<lparr>attempts := sql_update ?p ?f (attempts s)\<rparr>) aid = Some b"
    using announce_attempt_frame [OF ann] by auto
  have s': "attempts s' = attempts s2" "jobs s' = sql_update ?q ?g (jobs s2)" "source_identities s' = source_identities s2"
    using insert_job_state_event_frame [OF ev] by auto
  from count obtain a where a: "a \<in> set (attempts s)" "?p a" using rowcount_pos [of ?p "attempts s"] by auto
  then have "get_attempt_row s aid = Some a" using assms(2) by (auto simp: get_attempt_row_def ids_ok_def dest: distinct_fetchone)
  then have "get_attempt_row s' aid = Some (?f a)"
    using a(2) fetchone_key_update [of attempt_id ?f aid ?p "attempts s"] by (simp add: get_attempt_row_def s' s2)
  moreover from count2 obtain r where r: "r \<in> set (jobs s)" "?q r" using rowcount_pos [of ?q "jobs s2"] by (auto simp: s2)
  then have row: "get_row s jid = Some r" using assms(2) by (auto simp: get_row_def ids_ok_def dest: distinct_fetchone)
  then have "get_row s' jid = Some (?g r)"
    using r(2) fetchone_key_update [of job_id ?g jid ?q "jobs s"] by (simp add: get_row_def s' s2)
  moreover have "settled jid s'" using set2 s' by (simp add: settled_def)
  ultimately show ?thesis using row r(2) a(2) s' s2
    by (intro exI [of _ r] exI [of _ "?f a"]) simp
qed

lemma find_source_upsert:
  assumes "check_source b s = Inr u"
  shows "\<exists>x. find_source (upsert_source e b s) (source_key b) = Some x \<and> source_id x = source_id b
    \<and> owning_bundle_id x = owning_bundle_id b \<and> manifest_sha256 x = manifest_sha256 b"
proof (cases "find_source s (source_key b)")
  case None
  then show ?thesis
    by (simp add: upsert_source_def find_source_def fetchone_append)
       (simp add: new_source_row_def source_identity_binding.defs source_row.defs)
next
  case (Some x)
  let ?f = "\<lambda>r. r\<lparr>owning_bundle_id := owning_bundle_id b, manifest_sha256 := manifest_sha256 b, src_updated_at := utc e\<rparr>"
  have "fetchone (\<lambda>r. source_key r = source_key b) (sql_update (\<lambda>r. source_key r = source_key b) ?f (source_identities s))
      = Some (?f x)"
    using fetchone_key_update [of source_key ?f "source_key b" "\<lambda>r. source_key r = source_key b" "source_identities s"] Some
    by (auto simp: source_key_def find_source_def dest: fetchone_SomeD)
  then show ?thesis using assms Some
    by (auto simp: upsert_source_def find_source_def check_source_def split: if_splits)
qed

text \<open>A recorded result: the job has succeeded with it, the attempt too, and the source is bound.\<close>

lemma record_result_effect:
  assumes "record_result e jid aid authority b res s = Inr (c, s')" and "ids_ok s" and "check_source b s = Inr u"
  shows "completion_result c = res
    \<and> (\<exists>r. get_row s' jid = Some r \<and> state r = SUCCEEDED \<and> result r = Some res) \<and> settled jid s'
    \<and> (\<exists>a. get_attempt_row s' aid = Some a \<and> a_state a = A_SUCCEEDED \<and> a_token a = fencing_token authority)
    \<and> (\<exists>x. find_source s' (source_key b) = Some x \<and> same_source x b)"
proof -
  let ?s1 = "update_job jid (\<lambda>r. r\<lparr>result := Some res\<rparr>) (upsert_source e b s)"
  from assms(1) have fin: "finish_commit_guard e jid aid authority ?s1 = Inr s'" and c: "completion_result c = res"
    by (auto simp: record_result_def result_simps)
  have "map job_id (sql_update p (\<lambda>r. r\<lparr>result := Some res\<rparr>) (jobs s)) = map job_id (jobs s)" for p
    by (rule map_sql_update) simp
  then have "ids_ok ?s1" using assms(2) by (simp add: ids_ok_def update_job_def upsert_source_def)
  from finish_guard_effect [OF fin this] obtain r a where
    eff: "get_row ?s1 jid = Some r" "get_row s' jid = Some (r\<lparr>state := SUCCEEDED, updated_at := utc e\<rparr>)" "settled jid s'"
      "get_attempt_row s' aid = Some a" "a_state a = A_SUCCEEDED" "a_token a = fencing_token authority"
      "source_identities s' = source_identities ?s1" by blast
  obtain r0 where "get_row (upsert_source e b s) jid = Some r0" "r = (if job_id r0 = jid then r0\<lparr>result := Some res\<rparr> else r0)"
    using eff(1) by (auto simp: get_row_update_job)
  then have "result r = Some res" by (auto dest: get_row_SomeD)
  moreover have "find_source s' k = find_source (upsert_source e b s) k" for k
    using eff(7) by (simp add: find_source_def update_job_def)
  ultimately show ?thesis using eff c find_source_upsert [OF assms(3), of e] by (auto simp: same_source_def)
qed

section \<open>Failing\<close>

lemma fail_job_effect:
  assumes "fail_job_atomic e jid err attempt authority s = Inr (j, s')" and "ids_ok s" and "get_row s jid = Some r"
  shows "\<exists>r'. get_row s' jid = Some r' \<and> j = job_from_row r' \<and> settled jid s'
    \<and> (if cancellation_requested r then state r' = CANCELLED
       else state r' = FAILED \<and> (\<exists>w. encode_error err = Inr w \<and> error_json r' = Some w))"
proof -
  obtain w where w: "encode_error err = Inr w" and run: "state r = RUNNING"
    using assms(1,3) unfolding fail_job_atomic_def by (simp only: if_Inl_eq_Inr andthen_eq_Inr get_job_Inr job_from_row_simps) auto
  show ?thesis
  proof (cases "cancellation_requested r")
    case True
    with assms(1,3) run have fin: "settle_claimed_cancellation e jid s = Inr s'" "get_job s' jid = Inr j"
      unfolding fail_job_atomic_def by (simp_all only: if_Inl_eq_Inr andthen_eq_Inr get_job_Inr job_from_row_simps)
         (auto simp: result_simps)
    from settle_claimed_effect [OF fin(1) assms(2,3) True] run fin(2) True show ?thesis
      by (auto simp: result_simps)
  next
    case False
    with assms(1,3) run w obtain s1 v where
      s1: "s1 = s \<or> (\<exists>aid b. announce_attempt e aid (set_attempt_state e aid A_FAILED s) = Inr (b, s1))"
      and set1: "settled jid s1"
      and ev: "insert_job_state_event e jid FAILED
          (update_job jid (\<lambda>r. r\<lparr>state := FAILED, error_json := Some w, updated_at := utc e\<rparr>) s1) = Inr (v, s')"
      and j: "get_job s' jid = Inr j"
      unfolding fail_job_atomic_def
      by (simp only: if_Inl_eq_Inr andthen_eq_Inr get_job_Inr job_from_row_simps ensure_attempts_settled_Inr)
         (auto simp: result_simps ensure_attempts_settled_Inr split: option.splits; blast?)
    have "get_row s1 jid = Some r"
      using s1 assms(3) by (auto simp: get_row_def store_updates dest!: announce_attempt_frame)
    then have "get_row s' jid = Some (r\<lparr>state := FAILED, error_json := Some w, updated_at := utc e\<rparr>)"
      using insert_job_state_event_frame [OF ev] get_row_SomeD [OF assms(3)]
        get_row_update_job [of "\<lambda>r. r\<lparr>state := FAILED, error_json := Some w, updated_at := utc e\<rparr>" jid s1 jid]
      by (auto simp: get_row_def)
    moreover have "settled jid s'"
      using set1 insert_job_state_event_frame [OF ev] by (auto simp: settled_def update_job_def)
    ultimately show ?thesis using j w False by (auto simp: result_simps)
  qed
qed

section \<open>Fresh identifiers\<close>

text \<open>The identifiers drawn for new events are unused and all different, as those of \<open>new_typed_id\<close> are.\<close>

definition fresh_events :: "env \<Rightarrow> store \<Rightarrow> bool" where
  "fresh_events e s \<longleftrightarrow> inj_on (new_id e ''evt'') {length (events s)..}
     \<and> (\<forall>n \<ge> length (events s). new_id e ''evt'' n \<notin> event_id ` set (events s))"

lemma insert_event_fresh:
  assumes "fresh_events e s" and "get_row s jid \<noteq> None"
  shows "\<exists>v s'. insert_event e jid ty payload s = Inr (v, s') \<and> fresh_events e s' \<and> s' = s\<lparr>events := events s @ [v]\<rparr>"
proof -
  have "inj_on (new_id e ''evt'') {Suc (length (events s))..}"
    using assms(1) by (auto simp: fresh_events_def intro: inj_on_subset)
  moreover have "new_id e ''evt'' n \<noteq> new_id e ''evt'' (length (events s))" if "Suc (length (events s)) \<le> n" for n
  proof
    assume "new_id e ''evt'' n = new_id e ''evt'' (length (events s))"
    with assms(1) have "n = length (events s)" by (rule_tac inj_onD [of "new_id e ''evt''" "{length (events s)..}"])
       (use that in \<open>auto simp: fresh_events_def\<close>)
    with that show False by simp
  qed
  ultimately show ?thesis
    using assms by (auto simp: insert_event_def Let_def fresh_events_def)
qed

lemma fresh_events_same: "events s' = events s \<Longrightarrow> fresh_events e s' = fresh_events e s"
  by (simp add: fresh_events_def)

lemma announce_attempt_fresh:
  assumes "fresh_events e s" and "get_attempt_row s aid = Some a" and "get_row s (a_job_id a) \<noteq> None"
  shows "\<exists>b s' v. announce_attempt e aid s = Inr (b, s') \<and> fresh_events e s' \<and> s' = s\<lparr>events := events s @ [v]\<rparr>"
proof -
  from insert_event_fresh [OF assms(1,3)] obtain v s' where
    "insert_event e (a_job_id a) STAGE_CHANGED_EVENT_TYPE (stage_payload a) s = Inr (v, s')" "fresh_events e s'"
    "s' = s\<lparr>events := events s @ [v]\<rparr>" by blast
  then show ?thesis
    using assms(2) by (auto simp: announce_attempt_def get_attempt_def insert_stage_changed_event_def)
qed

lemma cancel_rows_fresh:
  assumes "fresh_events e s" and "\<forall>a \<in> set (attempts s). get_row s (a_job_id a) \<noteq> None"
  shows "\<exists>s'. cancel_rows e rs s = Inr s' \<and> fresh_events e s'"
  using assms
proof (induction rs arbitrary: s)
  case (Cons r rs)
  let ?p = "\<lambda>a. attempt_id a = attempt_id r \<and> a_state a = a_state r"
  let ?f = "\<lambda>a. a\<lparr>a_state := A_CANCELLED, a_updated_at := utc e\<rparr>"
  let ?s1 = "s\<lparr>attempts := sql_update ?p ?f (attempts s)\<rparr>"
  have s1: "fresh_events e ?s1" "\<forall>a \<in> set (attempts ?s1). get_row ?s1 (a_job_id a) \<noteq> None"
    using Cons.prems by (simp_all add: fresh_events_def get_row_def ball_sql_update)
  show ?case
  proof (cases "rowcount ?p (attempts s) = 1")
    case True
    then obtain a where "a \<in> set (attempts s)" "?p a" using rowcount_pos [of ?p "attempts s"] by auto
    then obtain b where b: "get_attempt_row s (attempt_id r) = Some b"
      unfolding get_attempt_row_def using fetchone_exists [of a "attempts s" "\<lambda>x. attempt_id x = attempt_id r"] by auto
    then have "\<exists>b'. get_attempt_row ?s1 (attempt_id r) = Some b' \<and> a_job_id b' = a_job_id b"
      using fetchone_key_update [of attempt_id ?f "attempt_id r" ?p "attempts s"] by (simp add: get_attempt_row_def)
    then obtain b' where b': "get_attempt_row ?s1 (attempt_id r) = Some b'" "get_row ?s1 (a_job_id b') \<noteq> None"
      using Cons.prems(2) b by (auto simp: get_row_def dest: get_attempt_row_SomeD)
    from announce_attempt_fresh [OF s1(1) b'] obtain b2 s2 v where
      ann: "announce_attempt e (attempt_id r) ?s1 = Inr (b2, s2)" "fresh_events e s2" "s2 = ?s1\<lparr>events := events ?s1 @ [v]\<rparr>"
      by blast
    have "\<forall>a \<in> set (attempts s2). get_row s2 (a_job_id a) \<noteq> None" using s1(2) ann(3) by (simp add: get_row_def)
    from Cons.IH [OF ann(2) this] obtain s3 where "cancel_rows e rs s2 = Inr s3" "fresh_events e s3" by blast
    with True ann(1) show ?thesis by simp
  next
    case False
    with Cons.IH [OF s1] show ?thesis by (simp add: Let_def)
  qed
qed simp

lemma settle_idle_fresh:
  assumes "fresh_events e s"
  shows "\<exists>s'. settle_cancelled_job_if_idle e jid s = Inr s' \<and> (get_row s jid \<noteq> None \<longrightarrow> get_row s' jid \<noteq> None)"
proof (cases "get_row s jid")
  case (Some r)
  show ?thesis
  proof (cases "job_terminal (state r)")
    case False
    then have legal: "transition_job (state r) CANCELLED = Inr CANCELLED"
      by (cases "state r") (simp_all add: transition_job_Inr LEGAL_JOB_TRANSITIONS_def)
    have "get_row (set_job_state e jid CANCELLED s) jid \<noteq> None"
      using Some by (simp add: set_job_state_move get_row_update_job)
    moreover have "fresh_events e (set_job_state e jid CANCELLED s)"
      using assms by (simp add: fresh_events_def set_job_state_def update_job_def)
    ultimately obtain v s' where "insert_job_state_event e jid CANCELLED (set_job_state e jid CANCELLED s) = Inr (v, s')"
        "s' = set_job_state e jid CANCELLED s\<lparr>events := events (set_job_state e jid CANCELLED s) @ [v]\<rparr>"
      using insert_event_fresh by (fastforce simp: insert_job_state_event_def)
    then show ?thesis
      using Some legal \<open>get_row (set_job_state e jid CANCELLED s) jid \<noteq> None\<close>
      by (auto simp: settle_cancelled_job_if_idle_def get_row_def)
  qed (use Some in \<open>simp add: settle_cancelled_job_if_idle_def\<close>)
qed (simp add: settle_cancelled_job_if_idle_def)

text \<open>With fresh identifiers a cancellation of an existing job never fails.\<close>

lemma cancel_job_fresh:
  assumes "fresh_events e s" and "get_row s jid = Some r" and "\<forall>a \<in> set (attempts s). get_row s (a_job_id a) \<noteq> None"
  shows "\<exists>j s'. cancel_job e jid s = Inr (j, s')"
proof (cases "job_terminal (state r)")
  case True
  with assms(2) show ?thesis by (simp add: cancel_job_def get_job_def)
next
  case False
  let ?f = "\<lambda>r. r\<lparr>cancellation_requested := True, updated_at := utc e\<rparr>"
  let ?s0 = "s\<lparr>jobs := sql_update (\<lambda>r. job_id r = jid \<and> \<not> cancellation_requested r) ?f (jobs s)\<rparr>"
  let ?first = "if cancellation_requested r then Inr s
       else andthen (insert_event e jid JOB_CANCEL_REQUESTED_EVENT_TYPE (dumps (JObj [(''requested'', JBool True)])) ?s0)
          (\<lambda>(_, s1). Inr s1)"
  have row: "get_row ?s0 k \<noteq> None \<longleftrightarrow> get_row s k \<noteq> None" for k
    unfolding get_row_def using fetchone_key_update [of job_id ?f k "\<lambda>r. job_id r = jid \<and> \<not> cancellation_requested r" "jobs s"] by simp
  have "fresh_events e ?s0" using assms(1) by (simp add: fresh_events_def)
  then obtain s1 where s1: "?first = Inr s1" "fresh_events e s1" "attempts s1 = attempts s"
      "\<forall>k. get_row s1 k \<noteq> None \<longleftrightarrow> get_row s k \<noteq> None"
  proof (cases "cancellation_requested r")
    case False
    from insert_event_fresh [of e ?s0 jid JOB_CANCEL_REQUESTED_EVENT_TYPE "dumps (JObj [(''requested'', JBool True)])"]
    obtain v s1 where v: "insert_event e jid JOB_CANCEL_REQUESTED_EVENT_TYPE (dumps (JObj [(''requested'', JBool True)])) ?s0 = Inr (v, s1)"
        "fresh_events e s1" "s1 = ?s0\<lparr>events := events ?s0 @ [v]\<rparr>"
      using \<open>fresh_events e ?s0\<close> row assms(2) by blast
    have "get_row s1 k = get_row ?s0 k" for k using v(3) by (simp add: get_row_def)
    with that [of s1] v row False show ?thesis by simp
  qed (use assms(1) in auto)
  have "\<forall>a \<in> set (attempts s1). get_row s1 (a_job_id a) \<noteq> None" using s1(3,4) assms(3) by simp
  from cancel_rows_fresh [OF s1(2) this] obtain s2 where
    s2: "transition_attempts_to_cancelled e jid [A_PENDING] s1 = Inr s2" "fresh_events e s2"
    unfolding transition_attempts_to_cancelled_def by blast
  have "fresh_events e (cancel_challenges e jid s2)"
    using s2(2) by (simp add: fresh_events_def cancel_challenges_def update_challenges_def)
  moreover have "get_row (cancel_challenges e jid s2) jid \<noteq> None"
    using cancel_rows_frame [OF s2(1) [unfolded transition_attempts_to_cancelled_def]] s1(4) assms(2)
    by (simp add: get_row_def cancel_challenges_def update_challenges_def)
  ultimately obtain s3 where "settle_cancelled_job_if_idle e jid (cancel_challenges e jid s2) = Inr s3" "get_row s3 jid \<noteq> None"
    using settle_idle_fresh by blast
  with s1(1) s2(1) False assms(2) show ?thesis
    by (auto simp: cancel_job_def get_job_def simp del: if_split)
qed

end
