(* ===== verification/EndingProperties.thy ===== *)
theory EndingProperties
  imports Scenarios JobEffects
begin

text \<open>
  How jobs end: what a cancellation, a commit and a failure leave in the store, in full, and that a
  result is recorded once. The proofs are the effect lemmas of \<open>JobEffects\<close> at reachable stores.
\<close>

section \<open>Runs\<close>

text \<open>An environment whose identifiers are version 7 UUIDs, so that a planned result passes validation.\<close>

definition demo_uuid :: "string \<Rightarrow> nat \<Rightarrow> string" where
  "demo_uuid pre n = pre @ ''_00000000-0000-7000-8000-00000000000'' @ [char_of (97 + n)]"

definition uuid_env :: "int \<Rightarrow> env" where
  "uuid_env now = (demo_env now)\<lparr>new_id := demo_uuid\<rparr>"

abbreviation uuid_job :: string where
  "uuid_job \<equiv> demo_uuid ''job'' 0"

abbreviation uuid_attempt :: string where
  "uuid_attempt \<equiv> demo_uuid ''att'' 0"

definition uuid_auth :: job_execution_authority where
  "uuid_auth = \<lparr>owner_id = ''w'', fencing_token = 1, x_job_id = uuid_job\<rparr>"

definition demo_sha :: string where
  "demo_sha = ''sha256:'' @ replicate 64 (CHR ''0'')"

definition demo_plan :: video_result_plan where
  "demo_plan = \<lparr>v_job_id = uuid_job, run_id = demo_uuid ''run'' 0, bundle_id = demo_uuid ''bnd'' 0,
     v_manifest_sha256 = demo_sha, v_source_id = demo_uuid ''src'' 0, source_revision_id = demo_uuid ''rev'' 0,
     primary_draft_artifact_id = demo_uuid ''art'' 0, transcript_artifact_id = demo_uuid ''art'' 1,
     evidence_set_artifact_id = demo_uuid ''art'' 2, quality_report_artifact_id = demo_uuid ''art'' 3,
     display_asset_ids = [], quality_overall = Q_PASS, publish_eligible = True,
     usage = [(''input_tokens'', UInt 5)], warnings = [], documents = []\<rparr>"

definition demo_source :: source_identity_binding where
  "demo_source = \<lparr>connector_id = ''c'', canonical_identity = ''i'', source_id = demo_uuid ''src'' 0,
     owning_bundle_id = demo_uuid ''bnd'' 0, manifest_sha256 = demo_sha\<rparr>"

definition demo_receipt :: portable_commit_receipt where
  "demo_receipt = \<lparr>r_bundle_id = demo_uuid ''bnd'' 0, r_manifest_sha256 = demo_sha, commit_sha256 = demo_sha,
     workspace_relative_bundle_path = ''b'', idempotent = False\<rparr>"

definition uuid_running :: "(env \<times> command) list" where
  "uuid_running = map (Pair (uuid_env 1000))
     [demo_create, ClaimJob uuid_job ''w'' 60, CreateAttempt uuid_job ''s'' (Some uuid_auth),
      StartAttempt uuid_attempt uuid_auth]"

definition uuid_commit :: "store \<Rightarrow> store_error + (job_completion \<times> store)" where
  "uuid_commit = commit_video_result_atomic (uuid_env 2000) uuid_job uuid_attempt uuid_auth demo_plan demo_source
     (Inr demo_receipt)"

text \<open>An environment whose identifiers are all different, and not those of the runs.\<close>

definition long_env :: env where
  "long_env = (demo_env 2000)\<lparr>new_id := \<lambda>pre n. pre @ replicate n (CHR ''x'')\<rparr>"

lemma long_env_fresh:
  assumes "list_all (\<lambda>v. length (event_id v) = 4) (events s)" and "2 \<le> length (events s)"
  shows "fresh_events long_env s"
proof -
  have "new_id long_env ''evt'' n \<notin> event_id ` set (events s)" if "length (events s) \<le> n" for n
  proof
    assume "new_id long_env ''evt'' n \<in> event_id ` set (events s)"
    then obtain v where v: "v \<in> set (events s)" "event_id v = ''evt'' @ replicate n (CHR ''x'')" by (auto simp: long_env_def)
    then have "length (event_id v) = 4" using assms(1) unfolding list_all_iff by blast
    with v(2) assms(2) that show False by simp
  qed
  then show ?thesis by (auto simp: fresh_events_def long_env_def inj_on_def replicate_eq_replicate)
qed

definition ending_cancelling :: "(env \<times> command) list" where
  "ending_cancelling = demo_running @ [(demo_env 2000, CancelJob ''jobA'')]"

lemma demo_running_facts: "case run_commands demo_running empty_store of Inl _ \<Rightarrow> False | Inr s \<Rightarrow>
    (case get_row s ''jobA'' of None \<Rightarrow> False | Some r \<Rightarrow> state r = RUNNING) \<and> \<not> none_running ''jobA'' s
    \<and> list_all (\<lambda>v. length (event_id v) = 4) (events s) \<and> 2 \<le> length (events s)"
  by code_simp

lemma ending_cancelling_facts: "case run_commands ending_cancelling empty_store of Inl _ \<Rightarrow> False | Inr s \<Rightarrow>
    (case get_row s ''jobA'' of None \<Rightarrow> False | Some r \<Rightarrow> cancellation_requested r)
    \<and> (case claim_job (demo_env 100000) ''jobA'' ''v'' 60 s of Inl _ \<Rightarrow> False | Inr _ \<Rightarrow> True)"
  by code_simp

definition demo_error :: error_detail where
  "demo_error = \<lparr>code = ''c'', category = RECIPE_FAILED, message = ''m'', details = []\<rparr>"

lemma ending_failing_facts: "case run_commands demo_running empty_store of Inl _ \<Rightarrow> False | Inr s \<Rightarrow>
    (case get_row s ''jobA'' of None \<Rightarrow> False | Some r \<Rightarrow> \<not> cancellation_requested r)
    \<and> (case fail_job_atomic (demo_env 2000) ''jobA'' demo_error (Some ''attA'') (Some (demo_auth ''w'' 1)) s of
         Inl _ \<Rightarrow> False | Inr _ \<Rightarrow> True)"
  by code_simp

lemma uuid_commit_facts: "case run_commands uuid_running empty_store of Inl _ \<Rightarrow> False
    | Inr s \<Rightarrow> (case uuid_commit s of Inl _ \<Rightarrow> False | Inr _ \<Rightarrow> True)"
  by code_simp

lemma uuid_commit_store:
  obtains c s' where "uuid_commit (demo_store uuid_running) = Inr (c, s')"
  using uuid_commit_facts by (auto simp: demo_store_def split: sum.splits)

lemma ending_attempts_exist: "reachable s \<Longrightarrow> \<forall>a \<in> set (attempts s). get_row s (a_job_id a) \<noteq> None"
  using reachable_ok by (auto simp: store_ok_def owners_ok_def)

section \<open>Cancellation\<close>

text \<open>C12: What \<open>cancel_job\<close> does. Of a job that has not finished it leaves a recorded request, no pending attempt and no
  open question, and unless an attempt is running the job is CANCELLED at once; with a running attempt it stays in its
  state until that attempt ends. With fresh event identifiers the call never fails.\<close>

theorem cancel_job_settles:
  assumes "reachable s" and "get_row s jid = Some r" and "\<not> job_terminal (state r)" and "fresh_events e s"
  shows "\<exists>j s' r'. cancel_job e jid s = Inr (j, s') \<and> get_row s' jid = Some r' \<and> j = job_from_row r'
    \<and> cancellation_requested r' \<and> state r' = (if none_running jid s then CANCELLED else state r)
    \<and> (\<forall>a \<in> set (attempts s'). a_job_id a = jid \<longrightarrow> a_state a \<noteq> A_PENDING)
    \<and> (\<forall>c \<in> set (challenges s'). c_job_id c = jid \<longrightarrow> c_state c \<noteq> C_PENDING)"
proof -
  obtain j s' where run: "cancel_job e jid s = Inr (j, s')"
    using cancel_job_fresh [OF assms(4,2) ending_attempts_exist [OF assms(1)]] by blast
  from cancel_job_effect [OF run reachable_ids [OF assms(1)] assms(2,3)] run show ?thesis by blast
qed

lemma cancel_job_settles_witness:
  "\<exists>j s' r'. cancel_job long_env ''jobA'' (demo_store demo_running) = Inr (j, s') \<and> get_row s' ''jobA'' = Some r'
    \<and> cancellation_requested r' \<and> state r' = RUNNING"
proof -
  obtain r where r: "get_row (demo_store demo_running) ''jobA'' = Some r" "state r = RUNNING"
    and "\<not> none_running ''jobA'' (demo_store demo_running)" and "fresh_events long_env (demo_store demo_running)"
    using demo_running_facts long_env_fresh by (auto simp: demo_store_def split: sum.splits option.splits)
  then show ?thesis using cancel_job_settles [OF demo_reachable r(1)] by fastforce
qed

text \<open>A claim settles a cancellation. When a worker claims a job that was asked to cancel, it gets no attempt to run: the
  claim cancels the attempts a dead worker left, records their open calls as unknown, and leaves the job CANCELLED.\<close>

theorem claim_settles_cancellation:
  assumes "reachable s" and "get_row s jid = Some r" and "cancellation_requested r"
    and "claim_job e jid owner ttl s = Inr (c, s')"
  shows "claim_active_attempt c = None \<and> state (claim_job_value c) = CANCELLED
    \<and> (\<exists>r'. get_row s' jid = Some r' \<and> state r' = CANCELLED) \<and> settled jid s'
    \<and> (\<forall>x \<in> set (operations s'). o_job_id x = jid \<longrightarrow> outcome x \<noteq> O_STARTED)"
proof -
  from assms(2-4) obtain token s1 where s1: "bind_claim e jid owner ttl s = Inr (token, s1)"
    and fin: "settle_claimed_cancellation e jid s1 = Inr s'" "get_job s' jid = Inr (claim_job_value c)"
    and none: "claim_active_attempt c = None" and st: "\<not> job_terminal (state r)"
    by (auto simp: claim_job_def result_simps split: if_splits prod.splits)
  have "store_step\<^sup>*\<^sup>* s s1"
    using bind_claim_runs [OF s1] assms(2) reachable_ids [OF assms(1)] by (simp add: runs_def)
  then have "ids_ok s1" using ids_ok_rtrancl reachable_ids [OF assms(1)] by blast
  moreover have "get_row s1 jid = Some r" using bind_claim_frame [OF s1] assms(2) by (simp add: get_row_def)
  ultimately show ?thesis
    using settle_claimed_effect [OF fin(1) _ _ assms(3) st] fin(2) none by (auto simp: result_simps)
qed

lemma claim_settles_cancellation_witness:
  "\<exists>c s'. claim_job (demo_env 100000) ''jobA'' ''v'' 60 (demo_store ending_cancelling) = Inr (c, s')
     \<and> state (claim_job_value c) = CANCELLED"
proof -
  obtain r c s' where "get_row (demo_store ending_cancelling) ''jobA'' = Some r" "cancellation_requested r"
    "claim_job (demo_env 100000) ''jobA'' ''v'' 60 (demo_store ending_cancelling) = Inr (c, s')"
    using ending_cancelling_facts by (auto simp: demo_store_def split: sum.splits option.splits)
  then show ?thesis using claim_settles_cancellation [OF demo_reachable] by blast
qed

section \<open>Results\<close>

text \<open>C13: What a commit records. When \<open>commit_video_result_atomic\<close> succeeds, the job had not been asked to cancel; now it is
  SUCCEEDED with exactly the planned result and the receipt's commit hash, the committing attempt has succeeded, no other
  attempt of the job is unsettled, and the source is bound to the bundle.\<close>

theorem commit_records_result:
  assumes "reachable s" and "commit_video_result_atomic e jid aid auth plan b (Inr receipt) s = Inr (c, s')"
  shows "\<exists>r res. get_row s' jid = Some r \<and> state r = SUCCEEDED \<and> \<not> cancellation_requested r
    \<and> result r = Some (VideoResult res) \<and> completion_result c = VideoResult res
    \<and> video_result_plan.truncate res = plan \<and> v_commit_sha256 res = commit_sha256 receipt
    \<and> settled jid s' \<and> (\<exists>a. get_attempt_row s' aid = Some a \<and> a_state a = A_SUCCEEDED)
    \<and> (\<exists>x. find_source s' (source_key b) = Some x \<and> same_source x b)"
proof -
  from assms(2) obtain res where res: "result_from_plan_receipt plan receipt = Inr res"
    and rec: "record_result e jid aid auth b (VideoResult res) s = Inr (c, s')" and src: "check_source b s = Inr ()"
    by (auto simp: commit_video_result_atomic_def result_simps)
  have "run_command e (CommitVideo jid aid auth plan b (Inr receipt)) s = Inr s'"
    using assms(2) by (simp add: stored_def)
  from reachable_ok [OF reachable_command [OF assms(1) this]] have "jobs_ok s'" by (simp add: store_ok_def)
  then have "\<not> cancellation_requested r" if "get_row s' jid = Some r" "state r = SUCCEEDED" for r
    using that by (auto simp: jobs_ok_def dest: get_row_SomeD)
  then show ?thesis
    using record_result_effect [OF rec reachable_ids [OF assms(1)] src] result_from_plan_receipt_fields [OF res] by auto
qed

lemma commit_records_result_witness:
  "\<exists>c s' r. uuid_commit (demo_store uuid_running) = Inr (c, s') \<and> get_row s' uuid_job = Some r \<and> state r = SUCCEEDED"
proof -
  obtain c s' where c: "uuid_commit (demo_store uuid_running) = Inr (c, s')" by (rule uuid_commit_store)
  with commit_records_result [OF demo_reachable] show ?thesis unfolding uuid_commit_def by blast
qed

text \<open>A result is recorded once. After a commit no further commit for the job, with whatever plan and authority, is
  recorded: it is refused with \<open>commit_guard_not_running\<close> before the portable commit is even called, and no later command
  changes the recorded result.\<close>

theorem result_is_recorded_once:
  assumes "reachable s" and "commit_video_result_atomic e jid aid auth plan b committed s = Inr (c, s')" and "later s' s''"
  shows "commit_video_result_atomic e' jid aid' auth' plan' b' committed' s'' = conflict ''commit_guard_not_running''
    \<and> commit_recipe_result_atomic e' jid aid' auth' rplan b' committed' s'' = conflict ''commit_guard_not_running''
    \<and> (\<exists>r. get_row s'' jid = Some r \<and> result r = Some (completion_result c))"
proof -
  from assms(2) obtain res where rec: "record_result e jid aid auth b (VideoResult res) s = Inr (c, s')"
    and src: "check_source b s = Inr ()"
    by (auto simp: commit_video_result_atomic_def result_simps)
  have "run_command e (CommitVideo jid aid auth plan b committed) s = Inr s'"
    using assms(2) by (simp add: stored_def)
  then have reach: "reachable s'" using reachable_command [OF assms(1)] by blast
  from record_result_effect [OF rec reachable_ids [OF assms(1)] src] obtain r where
    r: "get_row s' jid = Some r" "state r = SUCCEEDED" "result r = Some (completion_result c)" by auto
  then have "get_row s'' jid = Some r"
    using job_later [OF later_store_later [OF reach assms(3)] reachable_ids [OF reachable_later [OF reach assms(3)]]]
    by (fastforce simp: row_later_def)
  with r show ?thesis
    by (simp add: commit_video_result_atomic_def commit_recipe_result_atomic_def assert_commit_guard_def get_job_def)
qed

lemma result_is_recorded_once_witness:
  "\<exists>c s'. uuid_commit (demo_store uuid_running) = Inr (c, s') \<and> uuid_commit s' = conflict ''commit_guard_not_running''"
proof -
  obtain c s' where c: "uuid_commit (demo_store uuid_running) = Inr (c, s')" by (rule uuid_commit_store)
  from result_is_recorded_once [OF demo_reachable c [unfolded uuid_commit_def] later_refl]
  have "uuid_commit s' = conflict ''commit_guard_not_running''" unfolding uuid_commit_def by (rule conjunct1)
  with c show ?thesis by blast
qed

text \<open>C14: What a failure records. \<open>fail_job_atomic\<close> leaves no attempt of the job unsettled and the job FAILED with the
  encoded error, unless a cancellation had been requested: then the cancellation wins and the job is CANCELLED.\<close>

theorem failure_is_recorded:
  assumes "reachable s" and "get_row s jid = Some r" and "fail_job_atomic e jid err attempt authority s = Inr (j, s')"
  shows "\<exists>r'. get_row s' jid = Some r' \<and> j = job_from_row r' \<and> settled jid s'
    \<and> (if cancellation_requested r then state r' = CANCELLED
       else state r' = FAILED \<and> (\<exists>w. encode_error err = Inr w \<and> error_json r' = Some w))"
  using fail_job_effect [OF assms(3) reachable_ids [OF assms(1)] assms(2)] .

lemma failure_is_recorded_witness:
  "\<exists>j s' r'. fail_job_atomic (demo_env 2000) ''jobA'' demo_error (Some ''attA'') (Some (demo_auth ''w'' 1)) (demo_store demo_running)
     = Inr (j, s') \<and> get_row s' ''jobA'' = Some r' \<and> state r' = FAILED"
proof -
  obtain r j s' where "get_row (demo_store demo_running) ''jobA'' = Some r" "\<not> cancellation_requested r"
    "fail_job_atomic (demo_env 2000) ''jobA'' demo_error (Some ''attA'') (Some (demo_auth ''w'' 1)) (demo_store demo_running) = Inr (j, s')"
    using ending_failing_facts by (auto simp: demo_store_def split: sum.splits option.splits)
  then show ?thesis using failure_is_recorded [OF demo_reachable] by fastforce
qed

end
