(* ===== verification/MachineLease.thy ===== *)
theory MachineLease
  imports JobModel Fencing Systems
begin

text \<open>
  The machine-wide resource leases (\<open>adapters/jobs/machine_resource_lease.py\<close>, the owner and handoff values of
  \<open>core/jobs/resource_lease.py\<close>, \<open>core/jobs/workspace_publish.py\<close>): a table of one row per resource, acquired for a
  time under a fencing token, and handed from one process to another by a one-time nonce. Each operation is a function
  of the clock, in milliseconds, and of the table before the transaction. The fencing token of a resource grows
  with every acquisition and survives a handoff, so the table is an instance of \<open>fencing_tokens\<close>.
\<close>

section \<open>Values\<close>

record resource_owner =
  workspace_identity :: string
  process_instance_id :: string
  process_id :: "int option"

definition resource_owner_valid :: "resource_owner \<Rightarrow> bool" where
  "resource_owner_valid w \<longleftrightarrow> \<not> blank (workspace_identity w) \<and> \<not> blank (process_instance_id w)
     \<and> (case process_id w of None \<Rightarrow> True | Some n \<Rightarrow> 1 \<le> n)"

record resource_lease =
  resource_name :: string
  m_owner :: resource_owner
  m_token :: nat
  m_expires_at :: int

record resource_handoff =
  handoff_version :: int
  h_resource :: string
  h_owner :: resource_owner
  h_token :: nat
  h_expires_at :: int
  nonce :: string

text \<open>\<open>[A-Za-z0-9_-]{43}\<close>; every such text decodes to 32 bytes, so the decoding check of \<open>__post_init__\<close> adds nothing.\<close>

definition nonce_char :: "char \<Rightarrow> bool" where
  "nonce_char c = (let n = of_char c :: nat in
     (65 \<le> n \<and> n \<le> 90) \<or> (97 \<le> n \<and> n \<le> 122) \<or> (48 \<le> n \<and> n \<le> 57) \<or> c = CHR ''_'' \<or> c = CHR ''-'')"

definition resource_handoff_valid :: "resource_handoff \<Rightarrow> bool" where
  "resource_handoff_valid h \<longleftrightarrow> handoff_version h = 1 \<and> \<not> blank (h_resource h) \<and> resource_owner_valid (h_owner h)
     \<and> 1 \<le> h_token h \<and> 0 \<le> h_expires_at h \<and> length (nonce h) = 43 \<and> list_all nonce_char (nonce h)"

definition HEAVY_PRODUCTION_RESOURCE_NAMES :: "string list" where
  "HEAVY_PRODUCTION_RESOURCE_NAMES =
    [''produce:heavy:v1'', ''produce:heavy:slot-2:v1'', ''produce:heavy:slot-3:v1'', ''produce:heavy:slot-4:v1'']"

definition is_heavy_production_resource_name :: "string \<Rightarrow> bool" where
  "is_heavy_production_resource_name name = List.member HEAVY_PRODUCTION_RESOURCE_NAMES name"

section \<open>The table\<close>

text \<open>The five \<open>handoff_\<close> columns are null together (the table's \<open>CHECK\<close>): one optional value.\<close>

record pending_handoff =
  to_owner :: resource_owner
  to_nonce :: string
  to_expires_at :: int

record resource_row =
  row_resource :: string
  row_owner :: resource_owner
  row_token :: nat
  row_expires_at :: int
  row_handoff :: "pending_handoff option"

type_synonym lease_table = "resource_row list"

definition resource_row_of :: "lease_table \<Rightarrow> string \<Rightarrow> resource_row option" where
  "resource_row_of t name = fetchone (\<lambda>r. row_resource r = name) t"

definition validate_resource_name :: "string \<Rightarrow> store_error + unit" where
  "validate_resource_name name = (if blank name then invalid ''resource_name_invalid'' else Inr ())"

text \<open>The table's \<open>CHECK (expires_at_ms >= 0)\<close> and its likes for a pending handoff.\<close>

definition table_check :: "bool \<Rightarrow> store_error + 'a \<Rightarrow> store_error + 'a" where
  "table_check ok r = (if ok then r else Inl (DomainError ''machine_lease_store_invalid'' WORKSPACE_INCOMPATIBLE))"

text \<open>The columns a holder is recognised by: not the process identifier.\<close>

definition held_by :: "string \<Rightarrow> resource_owner \<Rightarrow> nat \<Rightarrow> resource_row \<Rightarrow> bool" where
  "held_by name w token r \<longleftrightarrow> row_resource r = name
     \<and> workspace_identity (row_owner r) = workspace_identity w
     \<and> process_instance_id (row_owner r) = process_instance_id w \<and> row_token r = token"

definition acquire_resource ::
    "int \<Rightarrow> string \<Rightarrow> resource_owner \<Rightarrow> int \<Rightarrow> lease_table \<Rightarrow> store_error + (resource_lease \<times> lease_table)" where
  "acquire_resource now_ms name w ttl_seconds t =
     andthen (validate_resource_name name) (\<lambda>_.
     andthen (validate_lease_ttl ttl_seconds) (\<lambda>_.
     let expires = now_ms + ttl_seconds * 1000;
         granted = (\<lambda>token t'. table_check (0 \<le> expires)
           (Inr (\<lparr>resource_name = name, m_owner = w, m_token = token, m_expires_at = expires\<rparr>, t')))
     in case resource_row_of t name of
          None \<Rightarrow> granted 1 (t @ [\<lparr>row_resource = name, row_owner = w, row_token = 1, row_expires_at = expires,
                                    row_handoff = None\<rparr>])
        | Some r \<Rightarrow>
            if now_ms < row_expires_at r then conflict ''resource_busy''
            else granted (row_token r + 1)
                   (sql_update (\<lambda>r'. row_resource r' = name)
                      (\<lambda>r'. r'\<lparr>row_owner := w, row_token := row_token r + 1, row_expires_at := expires, row_handoff := None\<rparr>) t)))"

text \<open>
  The nonce is \<open>token_urlsafe(32)\<close>: 43 characters of the alphabet, so the value returned after the transaction
  passes its own checks (\<open>handoff_valid\<close> below).
\<close>

definition handoff_resource ::
    "int \<Rightarrow> string \<Rightarrow> resource_lease \<Rightarrow> resource_owner \<Rightarrow> int \<Rightarrow> lease_table
      \<Rightarrow> store_error + (resource_handoff \<times> lease_table)" where
  "handoff_resource now_ms fresh_nonce l w ttl_seconds t =
    (if workspace_identity (m_owner l) \<noteq> workspace_identity w then invalid ''resource_handoff_invalid''
     else andthen (validate_lease_ttl ttl_seconds) (\<lambda>_.
       let expires = now_ms + ttl_seconds * 1000;
           p = (\<lambda>r. held_by (resource_name l) (m_owner l) (m_token l) r \<and> now_ms < row_expires_at r \<and> row_handoff r = None)
       in if rowcount p t \<noteq> 1 then conflict ''resource_handoff_invalid''
          else table_check (0 \<le> expires \<and> length fresh_nonce = 43)
            (Inr (\<lparr>handoff_version = 1, h_resource = resource_name l, h_owner = w, h_token = m_token l,
                   h_expires_at = expires, nonce = fresh_nonce\<rparr>,
               sql_update p (\<lambda>r. r\<lparr>row_handoff := Some \<lparr>to_owner = w, to_nonce = fresh_nonce, to_expires_at = expires\<rparr>\<rparr>) t))))"

definition adoptable :: "int \<Rightarrow> resource_handoff \<Rightarrow> resource_row \<Rightarrow> bool" where
  "adoptable now_ms h r \<longleftrightarrow> row_resource r = h_resource h \<and> row_token r = h_token h \<and> now_ms < row_expires_at r
     \<and> (case row_handoff r of None \<Rightarrow> False
        | Some p \<Rightarrow> now_ms < to_expires_at p \<and> to_owner p = h_owner h \<and> to_nonce p = nonce h)"

definition adopt_resource ::
    "int \<Rightarrow> resource_handoff \<Rightarrow> int \<Rightarrow> lease_table \<Rightarrow> store_error + (resource_lease \<times> lease_table)" where
  "adopt_resource now_ms h ttl_seconds t =
     andthen (validate_lease_ttl ttl_seconds) (\<lambda>_.
     let expires = now_ms + ttl_seconds * 1000 in
     if rowcount (adoptable now_ms h) t \<noteq> 1 then conflict ''resource_handoff_invalid''
     else table_check (0 \<le> expires)
       (Inr (\<lparr>resource_name = h_resource h, m_owner = h_owner h, m_token = h_token h, m_expires_at = expires\<rparr>,
          sql_update (adoptable now_ms h)
            (\<lambda>r. r\<lparr>row_owner := h_owner h, row_expires_at := expires, row_handoff := None\<rparr>) t)))"

definition heartbeat_resource ::
    "int \<Rightarrow> string \<Rightarrow> resource_owner \<Rightarrow> nat \<Rightarrow> int \<Rightarrow> lease_table \<Rightarrow> store_error + (resource_lease \<times> lease_table)" where
  "heartbeat_resource now_ms name w token ttl_seconds t =
     andthen (validate_lease_ttl ttl_seconds) (\<lambda>_.
     let expires = now_ms + ttl_seconds * 1000;
         p = (\<lambda>r. held_by name w token r \<and> now_ms < row_expires_at r)
     in if rowcount p t \<noteq> 1 then conflict ''resource_lease_lost''
        else table_check (0 \<le> expires)
          (Inr (\<lparr>resource_name = name, m_owner = w, m_token = token, m_expires_at = expires\<rparr>,
                sql_update p (\<lambda>r. r\<lparr>row_expires_at := expires\<rparr>) t)))"

definition release_resource ::
    "string \<Rightarrow> resource_owner \<Rightarrow> nat \<Rightarrow> lease_table \<Rightarrow> store_error + (bool \<times> lease_table)" where
  "release_resource name w token t =
    (let p = (\<lambda>r. held_by name w token r \<and> 0 < row_expires_at r) in
     Inr (rowcount p t = 1, sql_update p (\<lambda>r. r\<lparr>row_expires_at := 0, row_handoff := None\<rparr>) t))"

definition heartbeat_adopted ::
    "int \<Rightarrow> resource_handoff \<Rightarrow> int \<Rightarrow> lease_table \<Rightarrow> store_error + (resource_lease \<times> lease_table)" where
  "heartbeat_adopted now_ms h ttl_seconds t =
     heartbeat_resource now_ms (h_resource h) (h_owner h) (h_token h) ttl_seconds t"

definition release_adopted :: "resource_handoff \<Rightarrow> lease_table \<Rightarrow> store_error + (bool \<times> lease_table)" where
  "release_adopted h t = release_resource (h_resource h) (h_owner h) (h_token h) t"

text \<open>
  \<open>WorkspacePublishCoordinator.hold\<close>: a short lease around one portable commit. The body, which runs while the lease is
  held, maps the table it finds to the one it leaves; the lease is released whatever the body does.
\<close>

definition PUBLISH_LEASE_TTL_SECONDS :: int where
  "PUBLISH_LEASE_TTL_SECONDS = 300"

definition hold_publish_lease ::
    "int \<Rightarrow> string \<Rightarrow> resource_owner \<Rightarrow> (lease_table \<Rightarrow> (store_error + 'a) \<times> lease_table) \<Rightarrow> lease_table
      \<Rightarrow> (store_error + 'a) \<times> lease_table" where
  "hold_publish_lease now_ms name w body t =
    (case acquire_resource now_ms name w PUBLISH_LEASE_TTL_SECONDS t of
       Inl err \<Rightarrow> (Inl err, t)
     | Inr (l, t1) \<Rightarrow>
         (case body t1 of (r, t2) \<Rightarrow>
            (r, (case release_resource (resource_name l) (m_owner l) (m_token l) t2 of Inl _ \<Rightarrow> t2 | Inr (_, t3) \<Rightarrow> t3))))"

section \<open>The invariant\<close>

definition table_ok :: "lease_table \<Rightarrow> bool" where
  "table_ok t \<longleftrightarrow> distinct (map row_resource t) \<and> (\<forall>r \<in> set t. 1 \<le> row_token r)"

inductive lease_step :: "lease_table \<Rightarrow> lease_table \<Rightarrow> bool" where
  acquire: "acquire_resource now_ms name w ttl t = Inr (l, t') \<Longrightarrow> lease_step t t'"
| handoff: "handoff_resource now_ms fresh_nonce l w ttl t = Inr (h, t') \<Longrightarrow> lease_step t t'"
| adopt: "adopt_resource now_ms h ttl t = Inr (l, t') \<Longrightarrow> lease_step t t'"
| heartbeat: "heartbeat_resource now_ms name w token ttl t = Inr (l, t') \<Longrightarrow> lease_step t t'"
| release: "release_resource name w token t = Inr (b, t') \<Longrightarrow> lease_step t t'"

lemma table_check_Inr [result_simps]: "table_check ok r = Inr y \<longleftrightarrow> ok \<and> r = Inr y"
  by (simp add: table_check_def)

lemma one_row: "table_ok t \<Longrightarrow> resource_row_of t name = Some r \<Longrightarrow> r' \<in> set t \<Longrightarrow> row_resource r' = name \<Longrightarrow> r' = r"
  by (auto simp: table_ok_def resource_row_of_def distinct_map dest!: fetchone_SomeD dest: inj_onD)

lemma row_of: "table_ok t \<Longrightarrow> r \<in> set t \<Longrightarrow> resource_row_of t (row_resource r) = Some r"
  by (auto simp: table_ok_def resource_row_of_def dest: distinct_fetchone)

lemma resource_row_SomeD: "resource_row_of t name = Some r \<Longrightarrow> r \<in> set t \<and> row_resource r = name"
  by (auto simp: resource_row_of_def dest: fetchone_SomeD)

text \<open>Every step is one of three kinds of change: a new row, the next generation of a row, or an update that keeps the tokens.\<close>

lemma lease_step_shape:
  assumes "lease_step t t'" and "table_ok t"
  obtains (new) r where "t' = t @ [r]" "resource_row_of t (row_resource r) = None" "row_token r = 1"
  | (generation) name f where "t' = sql_update (\<lambda>r. row_resource r = name) f t"
      "\<And>r. row_resource (f r) = row_resource r" "\<And>r. r \<in> set t \<Longrightarrow> row_resource r = name \<Longrightarrow> row_token (f r) = row_token r + 1"
  | (same) p f where "t' = sql_update p f t" "\<And>r. row_resource (f r) = row_resource r" "\<And>r. row_token (f r) = row_token r"
  using assms(1)
proof cases
  case (acquire now_ms name w ttl l)
  show ?thesis
  proof (cases "resource_row_of t name")
    case None
    with acquire have "t' = t @ [\<lparr>row_resource = name, row_owner = w, row_token = 1, row_expires_at = now_ms + ttl * 1000, row_handoff = None\<rparr>]"
      by (auto simp: acquire_resource_def Let_def result_simps)
    with None show ?thesis by (intro new) auto
  next
    case (Some r)
    with acquire have "t' = sql_update (\<lambda>r'. row_resource r' = name)
        (\<lambda>r'. r'\<lparr>row_owner := w, row_token := row_token r + 1, row_expires_at := now_ms + ttl * 1000, row_handoff := None\<rparr>) t"
      by (auto simp: acquire_resource_def Let_def result_simps split: if_splits)
    then show ?thesis by (rule generation) (use one_row [OF assms(2) Some] in auto)
  qed
next
  case (handoff now_ms fresh_nonce l w ttl h)
  then show ?thesis
    by (intro same [of _ "\<lambda>r. r\<lparr>row_handoff := Some \<lparr>to_owner = w, to_nonce = fresh_nonce, to_expires_at = now_ms + ttl * 1000\<rparr>\<rparr>"])
       (auto simp: handoff_resource_def Let_def result_simps split: if_splits)
next
  case (adopt now_ms h ttl l)
  then show ?thesis
    by (intro same [of _ "\<lambda>r. r\<lparr>row_owner := h_owner h, row_expires_at := now_ms + ttl * 1000, row_handoff := None\<rparr>"])
       (auto simp: adopt_resource_def Let_def result_simps split: if_splits)
next
  case (heartbeat now_ms name w token ttl l)
  then show ?thesis
    by (intro same [of _ "\<lambda>r. r\<lparr>row_expires_at := now_ms + ttl * 1000\<rparr>"])
       (auto simp: heartbeat_resource_def Let_def result_simps split: if_splits)
next
  case (release name w token b)
  then show ?thesis
    by (intro same [of _ "\<lambda>r. r\<lparr>row_expires_at := 0, row_handoff := None\<rparr>"]) (auto simp: release_resource_def Let_def)
qed

lemma table_ok_Nil: "table_ok []"
  by (simp add: table_ok_def)

definition resource_token :: "string \<Rightarrow> lease_table \<Rightarrow> nat" where
  "resource_token name t = (case resource_row_of t name of None \<Rightarrow> 0 | Some r \<Rightarrow> row_token r)"

lemma resource_row_update:
  "(\<And>r. row_resource (f r) = row_resource r) \<Longrightarrow>
     resource_row_of (sql_update p f t) name = map_option (\<lambda>r. if p r then f r else r) (resource_row_of t name)"
  by (simp add: resource_row_of_def fetchone_key_update)

lemma table_ok_step:
  assumes "lease_step t t'" and "table_ok t"
  shows "table_ok t'"
  using assms
proof (cases rule: lease_step_shape)
  case (new r)
  then show ?thesis using assms(2) by (auto simp: table_ok_def resource_row_of_def fetchone_None_iff)
next
  case (generation name f)
  then show ?thesis using assms(2) by (auto simp: table_ok_def map_sql_update in_sql_update)
next
  case (same p f)
  then show ?thesis using assms(2) by (auto simp: table_ok_def map_sql_update in_sql_update)
qed

lemma token_step:
  assumes "lease_step t t'" and "table_ok t"
  shows "resource_token name t \<le> resource_token name t'"
  using assms
proof (cases rule: lease_step_shape)
  case (new r)
  then show ?thesis by (auto simp: resource_token_def resource_row_of_def fetchone_append split: option.splits)
next
  case (generation name' f)
  then show ?thesis
    by (auto simp: resource_token_def resource_row_update split: option.splits dest: resource_row_SomeD)
next
  case (same p f)
  then show ?thesis by (auto simp: resource_token_def resource_row_update split: option.splits)
qed

interpretation machine: guarded_system "\<lambda>t. t = []" lease_step table_ok
  by unfold_locales (auto intro: table_ok_step simp: table_ok_Nil)

interpretation machine_tokens: fencing_tokens table_ok lease_step "resource_token name" for name
  by unfold_locales (auto intro: table_ok_step token_step)

definition table_reachable :: "lease_table \<Rightarrow> bool" where
  "table_reachable t \<longleftrightarrow> lease_step\<^sup>*\<^sup>* [] t"

lemma table_reachable_ok: "table_reachable t \<Longrightarrow> table_ok t"
  using machine.reach_inv [of t] by (simp add: table_reachable_def machine.reach_def)

end
