(* ===== verification/LeaseProperties.thy ===== *)
theory LeaseProperties
  imports MachineLease "HOL-Library.Code_Target_Nat"
begin

text \<open>
  What the machine's resource leases guarantee: a superseded generation is refused for ever, a handoff moves the
  lease to exactly one process, and the lease around a commit is given back.
\<close>

section \<open>A run\<close>

definition demo_owner :: "string \<Rightarrow> resource_owner" where
  "demo_owner name = \<lparr>workspace_identity = ''ws'', process_instance_id = name, process_id = None\<rparr>"

definition demo_nonce :: string where
  "demo_nonce = replicate 43 (CHR ''n'')"

definition demo_acquired :: lease_table where
  "demo_acquired = (case acquire_resource 1000 ''produce:heavy:v1'' (demo_owner ''engine'') 60 [] of
     Inl _ \<Rightarrow> [] | Inr (_, t) \<Rightarrow> t)"

definition demo_lease :: resource_lease where
  "demo_lease = \<lparr>resource_name = ''produce:heavy:v1'', m_owner = demo_owner ''engine'', m_token = 1, m_expires_at = 61000\<rparr>"

definition demo_handoff :: resource_handoff where
  "demo_handoff = \<lparr>handoff_version = 1, h_resource = ''produce:heavy:v1'', h_owner = demo_owner ''worker'', h_token = 1,
     h_expires_at = 62000, nonce = demo_nonce\<rparr>"

definition demo_handed :: lease_table where
  "demo_handed = (case handoff_resource 2000 demo_nonce demo_lease (demo_owner ''worker'') 60 demo_acquired of
     Inl _ \<Rightarrow> [] | Inr (_, t) \<Rightarrow> t)"

lemma demo_acquire: "acquire_resource 1000 ''produce:heavy:v1'' (demo_owner ''engine'') 60 [] = Inr (demo_lease, demo_acquired)"
  by code_simp

lemma demo_hand: "handoff_resource 2000 demo_nonce demo_lease (demo_owner ''worker'') 60 demo_acquired = Inr (demo_handoff, demo_handed)"
  by code_simp

lemma demo_tables_reachable: "table_reachable demo_acquired" "table_reachable demo_handed"
  using demo_acquire demo_hand unfolding table_reachable_def
  by (blast intro: lease_step.acquire lease_step.handoff r_into_rtranclp rtranclp.rtrancl_into_rtrancl)+

section \<open>Generations\<close>

lemma lower_token_not_held:
  assumes "table_ok t" and "token < resource_token name t"
  shows "\<forall>r \<in> set t. \<not> (row_resource r = name \<and> row_token r = token)"
  using assms row_of [OF assms(1)] by (auto simp: resource_token_def)

lemma rowcount_none: "\<forall>r \<in> set t. \<not> p r \<Longrightarrow> rowcount p t = 0"
  by (simp add: rowcount_def filter_empty_conv)

lemma acquired_token:
  assumes "table_ok t" and "acquire_resource now_ms name w ttl t = Inr (l, t')"
  shows "m_token l = resource_token name t'"
proof (cases "resource_row_of t name")
  case None
  with assms(2) show ?thesis
    by (auto simp: acquire_resource_def Let_def result_simps resource_token_def resource_row_of_def fetchone_append)
next
  case (Some r)
  with assms(2) show ?thesis
    by (auto simp: acquire_resource_def Let_def result_simps resource_token_def resource_row_update
        dest: resource_row_SomeD split: if_splits)
qed

text \<open>C15: A superseded resource lease is refused for ever. Once a resource was acquired again, whoever shows an earlier fencing
  token, under any identity and at any time, can neither renew the lease nor adopt a handoff of it nor hand it off, and its
  release changes nothing.\<close>

theorem superseded_lease_is_refused:
  assumes "table_reachable t" and "acquire_resource now_ms name w ttl t = Inr (l, t1)" and "lease_step\<^sup>*\<^sup>* t1 t2"
    and "token < m_token l" and "lease_ttl_valid ttl'"
  shows "heartbeat_resource now' name w' token ttl' t2 = conflict ''resource_lease_lost''
    \<and> (h_resource h = name \<and> h_token h = token \<longrightarrow> adopt_resource now' h ttl' t2 = conflict ''resource_handoff_invalid'')
    \<and> (resource_name old = name \<and> m_token old = token \<longrightarrow> handoff_resource now' fresh_nonce old w'' ttl' t2
         = (if workspace_identity (m_owner old) = workspace_identity w'' then conflict ''resource_handoff_invalid'' else invalid ''resource_handoff_invalid''))
    \<and> release_resource name w' token t2 = Inr (False, t2)"
proof -
  have ok: "table_ok t" "table_ok t1" "table_ok t2"
    using table_reachable_ok [OF assms(1)] lease_step.acquire [OF assms(2)] machine.inv_steps [OF assms(3)] table_ok_step by blast+
  have "m_token l = resource_token name t1" by (rule acquired_token [OF ok(1) assms(2)])
  also have "\<dots> \<le> resource_token name t2" by (rule machine_tokens.token_mono_later [OF assms(3) ok(2)])
  finally have none: "\<forall>r \<in> set t2. \<not> (row_resource r = name \<and> row_token r = token)"
    using lower_token_not_held [OF ok(3)] assms(4) by (meson less_le_trans)
  have held: "\<forall>r \<in> set t2. \<not> held_by name w' token r" using none by (auto simp: held_by_def)
  have "heartbeat_resource now' name w' token ttl' t2 = conflict ''resource_lease_lost''"
    using held assms(5) by (simp add: heartbeat_resource_def Let_def validate_lease_ttl_def rowcount_none)
  moreover have "adopt_resource now' h ttl' t2 = conflict ''resource_handoff_invalid''" if "h_resource h = name" "h_token h = token"
  proof -
    have "\<forall>r \<in> set t2. \<not> adoptable now' h r" using none that by (auto simp: adoptable_def)
    then show ?thesis using assms(5) by (simp add: adopt_resource_def Let_def validate_lease_ttl_def rowcount_none)
  qed
  moreover have "handoff_resource now' fresh_nonce old w'' ttl' t2
      = (if workspace_identity (m_owner old) = workspace_identity w'' then conflict ''resource_handoff_invalid'' else invalid ''resource_handoff_invalid'')"
    if "resource_name old = name" "m_token old = token"
  proof -
    have "\<forall>r \<in> set t2. \<not> held_by (resource_name old) (m_owner old) (m_token old) r" using none that by (auto simp: held_by_def)
    then show ?thesis using assms(5) by (simp add: handoff_resource_def Let_def validate_lease_ttl_def rowcount_none)
  qed
  moreover have "release_resource name w' token t2 = Inr (False, t2)"
    using held by (simp add: release_resource_def Let_def rowcount_none sql_update_id)
  ultimately show ?thesis by blast
qed

lemma superseded_lease_is_refused_witness:
  "\<exists>l t. acquire_resource 100000 ''produce:heavy:v1'' (demo_owner ''other'') 60 demo_handed = Inr (l, t)
     \<and> heartbeat_resource 2000 ''produce:heavy:v1'' (demo_owner ''engine'') 1 60 t = conflict ''resource_lease_lost''
     \<and> handoff_resource 2000 demo_nonce demo_lease (demo_owner ''worker'') 60 t = conflict ''resource_handoff_invalid''"
proof -
  have "case acquire_resource 100000 ''produce:heavy:v1'' (demo_owner ''other'') 60 demo_handed of Inl _ \<Rightarrow> False
      | Inr (l, _) \<Rightarrow> 1 < m_token l" by code_simp
  then obtain l t where l: "acquire_resource 100000 ''produce:heavy:v1'' (demo_owner ''other'') 60 demo_handed = Inr (l, t)"
    "1 < m_token l" by (auto split: sum.splits)
  have "lease_ttl_valid 60" by code_simp
  note refused = superseded_lease_is_refused [OF demo_tables_reachable(2) l(1) rtranclp.rtrancl_refl l(2) this]
  have "handoff_resource 2000 demo_nonce demo_lease (demo_owner ''worker'') 60 t = conflict ''resource_handoff_invalid''"
    using refused [where old = demo_lease and w'' = "demo_owner ''worker''"] by (simp add: demo_lease_def demo_owner_def)
  with refused l(1) show ?thesis by blast
qed

section \<open>Handoffs\<close>

lemma rowcount_one:
  assumes "table_ok t" and "r \<in> set t" and "p r" and "\<And>r'. p r' \<Longrightarrow> row_resource r' = row_resource r"
  shows "rowcount p t = 1"
proof -
  have "rowcount p t \<le> 1"
    by (rule distinct_rowcount_le_1 [where k = row_resource and x = "row_resource r"])
       (use assms(1,4) in \<open>auto simp: table_ok_def\<close>)
  moreover have "rowcount p t \<noteq> 0" unfolding rowcount_pos using assms(2,3) by blast
  ultimately show ?thesis by simp
qed

text \<open>A handoff transfers the lease. After the holder handed its lease off, the process named in the handoff can adopt it
  while both are live, and gets the same fencing token; from then on the lease answers to the adopter, and the old holder,
  if it is another process, can neither renew nor release it.\<close>

theorem handoff_transfers_lease:
  assumes "table_reachable t" and "handoff_resource now_ms fresh_nonce l w ttl t = Inr (h, t1)"
    and "\<forall>r \<in> set t. row_resource r = resource_name l \<longrightarrow> now' < row_expires_at r" and "now' < h_expires_at h"
    and "lease_ttl_valid ttl'" and "0 \<le> now'"
  shows "\<exists>l' t2. adopt_resource now' h ttl' t1 = Inr (l', t2) \<and> m_token l' = m_token l \<and> m_owner l' = w
    \<and> (\<exists>x. heartbeat_resource now' (resource_name l) w (m_token l) ttl' t2 = Inr x)
    \<and> (process_instance_id w \<noteq> process_instance_id (m_owner l) \<longrightarrow>
         heartbeat_resource now' (resource_name l) (m_owner l) (m_token l) ttl' t2 = conflict ''resource_lease_lost''
       \<and> release_resource (resource_name l) (m_owner l) (m_token l) t2 = Inr (False, t2))"
proof -
  let ?name = "resource_name l" and ?token = "m_token l"
  let ?p = "\<lambda>r. held_by ?name (m_owner l) ?token r \<and> now_ms < row_expires_at r \<and> row_handoff r = None"
  let ?f = "\<lambda>r. r\<lparr>row_handoff := Some \<lparr>to_owner = w, to_nonce = fresh_nonce, to_expires_at = now_ms + ttl * 1000\<rparr>\<rparr>"
  let ?g = "\<lambda>r. r\<lparr>row_owner := w, row_expires_at := now' + ttl' * 1000, row_handoff := None\<rparr>"
  have ok: "table_ok t" "table_ok t1"
    using table_reachable_ok [OF assms(1)] lease_step.handoff [OF assms(2)] table_ok_step by blast+
  from assms(2) have count: "rowcount ?p t = 1" and t1: "t1 = sql_update ?p ?f t"
    and h: "h = \<lparr>handoff_version = 1, h_resource = ?name, h_owner = w, h_token = ?token, h_expires_at = now_ms + ttl * 1000,
                nonce = fresh_nonce\<rparr>"
    by (auto simp: handoff_resource_def Let_def result_simps split: if_splits)
  from count obtain r where r: "r \<in> set t" "?p r" using rowcount_pos [of ?p t] by auto
  then have r1: "?f r \<in> set t1" by (auto simp: t1 in_sql_update)
  have live: "now' < row_expires_at r" using assms(3) r by (auto simp: held_by_def)
  have adopt1: "adoptable now' h (?f r)" using r(2) live assms(4) by (simp add: adoptable_def h held_by_def)
  have "rowcount (adoptable now' h) t1 = 1"
    using r1 adopt1 by (rule rowcount_one [OF ok(2)]) (use r(2) in \<open>simp add: adoptable_def h held_by_def\<close>)
  then have adopt: "adopt_resource now' h ttl' t1 = Inr (\<lparr>resource_name = ?name, m_owner = w, m_token = ?token,
      m_expires_at = now' + ttl' * 1000\<rparr>, sql_update (adoptable now' h) ?g t1)"
    using assms(5,6) by (simp add: adopt_resource_def Let_def validate_lease_ttl_def table_check_def h lease_ttl_valid_def
        MIN_LEASE_TTL_SECONDS_def)
  define t2 where "t2 = sql_update (adoptable now' h) ?g t1"
  have ok2: "table_ok t2" unfolding t2_def by (rule table_ok_step [OF lease_step.adopt [OF adopt] ok(2)])
  define r2 where "r2 = ?g (?f r)"
  have r2: "r2 \<in> set t2" "row_resource r2 = ?name" "row_token r2 = ?token" "row_owner r2 = w" "row_expires_at r2 = now' + ttl' * 1000"
    using r1 adopt1 r(2) unfolding t2_def r2_def by (auto simp: in_sql_update held_by_def)
  have only: "r' = r2" if "r' \<in> set t2" "row_resource r' = ?name" for r'
    using one_row [OF ok2 row_of [OF ok2 r2(1)]] that r2(2) by simp
  have ttl: "0 < ttl'" using assms(5) by (simp add: lease_ttl_valid_def MIN_LEASE_TTL_SECONDS_def)
  have "rowcount (\<lambda>r. held_by ?name w ?token r \<and> now' < row_expires_at r) t2 = 1"
    by (rule rowcount_one [OF ok2 r2(1)]) (use r2 ttl in \<open>simp_all add: held_by_def\<close>)
  then have "\<exists>x. heartbeat_resource now' ?name w ?token ttl' t2 = Inr x"
    using assms(5,6) ttl by (simp add: heartbeat_resource_def Let_def validate_lease_ttl_def table_check_def)
  moreover have "\<forall>r' \<in> set t2. \<not> held_by ?name (m_owner l) ?token r'" if "process_instance_id w \<noteq> process_instance_id (m_owner l)"
    using only r2(4) that by (auto simp: held_by_def)
  then have "heartbeat_resource now' ?name (m_owner l) ?token ttl' t2 = conflict ''resource_lease_lost''
      \<and> release_resource ?name (m_owner l) ?token t2 = Inr (False, t2)" if "process_instance_id w \<noteq> process_instance_id (m_owner l)"
    using that assms(5)
    by (simp add: heartbeat_resource_def release_resource_def Let_def validate_lease_ttl_def rowcount_none sql_update_id)
  ultimately show ?thesis using adopt unfolding t2_def by fastforce
qed

lemma handoff_transfers_lease_witness:
  "\<exists>l t. adopt_resource 3000 demo_handoff 60 demo_handed = Inr (l, t)
     \<and> heartbeat_resource 3000 ''produce:heavy:v1'' (demo_owner ''engine'') 1 60 t = conflict ''resource_lease_lost''"
proof -
  have "\<forall>r \<in> set demo_acquired. row_resource r = resource_name demo_lease \<longrightarrow> 3000 < row_expires_at r" by code_simp
  moreover have "3000 < h_expires_at demo_handoff" "lease_ttl_valid 60" by code_simp+
  ultimately show ?thesis
    using handoff_transfers_lease [OF demo_tables_reachable(1) demo_hand, where now' = 3000 and ttl' = 60]
    by (auto simp: demo_lease_def demo_owner_def)
qed

text \<open>A step that is not a handoff drawing the nonce \<open>n\<close>.\<close>

definition avoids :: "string \<Rightarrow> lease_table \<Rightarrow> lease_table \<Rightarrow> bool" where
  "avoids n t t' \<longleftrightarrow> lease_step t t' \<and> (\<forall>now_ms l w ttl h. handoff_resource now_ms n l w ttl t \<noteq> Inr (h, t'))"

definition nonces :: "lease_table \<Rightarrow> string set" where
  "nonces t = {to_nonce p |r p. r \<in> set t \<and> row_handoff r = Some p}"

lemma nonces_step:
  assumes "lease_step t t'" and "n \<in> nonces t'" and "n \<notin> nonces t"
  shows "\<exists>now_ms l w ttl h. handoff_resource now_ms n l w ttl t = Inr (h, t')"
  using assms(1)
proof cases
  case (acquire now_ms name w ttl l)
  with assms(2,3) show ?thesis
    by (auto simp: acquire_resource_def Let_def result_simps nonces_def in_sql_update split: option.splits if_splits)
next
  case (handoff now_ms fresh_nonce l w ttl h)
  with assms(2,3) have "n = fresh_nonce"
    by (auto simp: handoff_resource_def Let_def result_simps nonces_def in_sql_update split: if_splits)
  with handoff show ?thesis by blast
next
  case (adopt now_ms h ttl l)
  with assms(2,3) show ?thesis
    by (auto simp: adopt_resource_def Let_def result_simps nonces_def in_sql_update split: if_splits)
next
  case (heartbeat now_ms name w token ttl l)
  with assms(2,3) show ?thesis
    by (auto simp: heartbeat_resource_def Let_def result_simps nonces_def in_sql_update split: if_splits)
next
  case (release name w token b)
  with assms(2,3) show ?thesis by (auto simp: release_resource_def Let_def nonces_def in_sql_update)
qed

text \<open>A handoff is adopted once. After a handoff was adopted, adopting it again is refused in every later table, as long
  as no later handoff draws the same nonce.\<close>

theorem handoff_is_adopted_once:
  assumes "table_reachable t" and "adopt_resource now_ms h ttl t = Inr (l, t1)" and "(avoids (nonce h))\<^sup>*\<^sup>* t1 t2"
    and "\<forall>r \<in> set t. \<forall>p. row_handoff r = Some p \<and> to_nonce p = nonce h \<longrightarrow> row_resource r = h_resource h"
    and "lease_ttl_valid ttl'"
  shows "adopt_resource now' h ttl' t2 = conflict ''resource_handoff_invalid''"
proof -
  let ?g = "\<lambda>r. r\<lparr>row_owner := h_owner h, row_expires_at := now_ms + ttl * 1000, row_handoff := None\<rparr>"
  from assms(2) have count: "rowcount (adoptable now_ms h) t = 1" and t1: "t1 = sql_update (adoptable now_ms h) ?g t"
    by (auto simp: adopt_resource_def Let_def result_simps split: if_splits)
  from count obtain r where r: "r \<in> set t" "adoptable now_ms h r" using rowcount_pos [of "adoptable now_ms h" t] by auto
  have "r' = r" if "r' \<in> set t" "row_handoff r' = Some p" "to_nonce p = nonce h" for r' p
  proof -
    have "row_resource r' = h_resource h" using assms(4) that by blast
    moreover have "row_resource r = h_resource h" using r(2) by (simp add: adoptable_def)
    ultimately show ?thesis
      using one_row [OF table_reachable_ok [OF assms(1)] row_of [OF table_reachable_ok [OF assms(1)] r(1)] that(1)] by simp
  qed
  then have start: "nonce h \<notin> nonces t1"
    using r(2) unfolding nonces_def t1 in_sql_update by fastforce
  have gone: "nonce h \<notin> nonces t2"
    using assms(3)
  proof (induction rule: rtranclp_induct)
    case (step y z)
    then show ?case using nonces_step unfolding avoids_def by blast
  qed (rule start)
  have "\<forall>r \<in> set t2. \<not> adoptable now' h r"
  proof
    fix r assume "r \<in> set t2"
    with gone show "\<not> adoptable now' h r" by (auto simp: nonces_def adoptable_def split: option.splits)
  qed
  then show ?thesis using assms(5) by (simp add: adopt_resource_def Let_def validate_lease_ttl_def rowcount_none)
qed

lemma handoff_is_adopted_once_witness:
  "\<exists>l t. adopt_resource 3000 demo_handoff 60 demo_handed = Inr (l, t)
     \<and> adopt_resource 3000 demo_handoff 60 t = conflict ''resource_handoff_invalid''"
proof -
  have "case adopt_resource 3000 demo_handoff 60 demo_handed of Inl _ \<Rightarrow> False | Inr _ \<Rightarrow> True" by code_simp
  then obtain l t where l: "adopt_resource 3000 demo_handoff 60 demo_handed = Inr (l, t)" by (auto split: sum.splits)
  have "list_all (\<lambda>r. row_resource r = h_resource demo_handoff) demo_handed" "lease_ttl_valid 60" by code_simp+
  then have "\<forall>r \<in> set demo_handed. \<forall>p. row_handoff r = Some p \<and> to_nonce p = nonce demo_handoff
      \<longrightarrow> row_resource r = h_resource demo_handoff" "lease_ttl_valid 60"
    unfolding list_all_iff by blast+
  from handoff_is_adopted_once [OF demo_tables_reachable(2) l rtranclp.rtrancl_refl this] l show ?thesis by blast
qed

end
