(* ===== verification/JobQueries.thy ===== *)
theory JobQueries
  imports Commits
begin

text \<open>
  The reads of the job store (\<open>adapters/jobs/sqlite_repository.py\<close>): none of them changes it. A page of a query is
  \<open>ORDER BY ... LIMIT\<close> over the rows that match; a cursor is the sort key of the last row seen.
\<close>

section \<open>Collecting results\<close>

fun each :: "('a \<Rightarrow> 'e + 'b) \<Rightarrow> 'a list \<Rightarrow> 'e + 'b list" where
  "each f [] = Inr []"
| "each f (x # xs) = andthen (f x) (\<lambda>y. andthen (each f xs) (\<lambda>ys. Inr (y # ys)))"

lemma each_Inr: "(\<And>x. x \<in> set xs \<Longrightarrow> f x = Inr (g x)) \<Longrightarrow> each f xs = Inr (map g xs)"
  by (induction xs) simp_all

definition optional :: "('a \<Rightarrow> 'e + 'b) \<Rightarrow> 'a option \<Rightarrow> 'e + 'b option" where
  "optional f x = (case x of None \<Rightarrow> Inr None | Some a \<Rightarrow> andthen (f a) (\<lambda>b. Inr (Some b)))"

section \<open>One job\<close>

record job_query_record =
  q_job :: job
  q_active_attempt :: "attempt option"
  q_pending_challenge :: "challenge option"
  q_result :: "job_result option"
  q_error :: "error_detail option"
  unknown_operation_ids :: "string list"

definition pending_challenge :: "store \<Rightarrow> string \<Rightarrow> challenge option" where
  "pending_challenge s jid =
     last_by (\<lambda>c. (c_created_at c, challenge_id c)) (filter (\<lambda>c. c_job_id c = jid \<and> c_state c = C_PENDING) (challenges s))"

definition unknown_operations :: "store \<Rightarrow> string \<Rightarrow> string list" where
  "unknown_operations s jid =
     sort (map operation_id (filter (\<lambda>x. o_job_id x = jid \<and> outcome x = O_UNKNOWN) (operations s)))"

definition query_job :: "env \<Rightarrow> string \<Rightarrow> string \<Rightarrow> store \<Rightarrow> store_error + job_query_record" where
  "query_job e jid prin s =
    (case fetchone (\<lambda>r. job_id r = jid \<and> principal r = prin) (jobs s) of
       None \<Rightarrow> invalid ''job_not_found''
     | Some r \<Rightarrow>
         andthen (optional (decode_error (float_repr e)) (error_json r)) (\<lambda>err.
         Inr \<lparr>q_job = job_from_row r, q_active_attempt = active_attempt s jid,
              q_pending_challenge = pending_challenge s jid, q_result = result r, q_error = err,
              unknown_operation_ids = unknown_operations s jid\<rparr>))"

definition get_job_details :: "string \<Rightarrow> store \<Rightarrow> store_error + (job \<times> attempt option \<times> challenge option)" where
  "get_job_details jid s =
     andthen (get_job s jid) (\<lambda>j. Inr (j, active_attempt s jid, pending_challenge s jid))"

definition get_job_result :: "string \<Rightarrow> store \<Rightarrow> store_error + job_result option" where
  "get_job_result jid s = (case get_row s jid of None \<Rightarrow> invalid ''job_not_found'' | Some r \<Rightarrow> Inr (result r))"

definition get_job_request :: "string \<Rightarrow> store \<Rightarrow> store_error + string option" where
  "get_job_request jid s = (case get_row s jid of None \<Rightarrow> invalid ''job_not_found'' | Some r \<Rightarrow> Inr (request_json r))"

definition get_job_error :: "env \<Rightarrow> string \<Rightarrow> store \<Rightarrow> store_error + error_detail option" where
  "get_job_error e jid s =
    (case get_row s jid of
       None \<Rightarrow> invalid ''job_not_found''
     | Some r \<Rightarrow> optional (decode_error (float_repr e)) (error_json r))"

definition list_attempts :: "string \<Rightarrow> store \<Rightarrow> store_error + attempt list" where
  "list_attempts jid s =
     andthen (get_job s jid) (\<lambda>_.
     Inr (sort_key (\<lambda>a. (a_created_at a, attempt_id a)) (filter (\<lambda>a. a_job_id a = jid) (attempts s))))"

definition is_cancellation_requested :: "string \<Rightarrow> store \<Rightarrow> store_error + bool" where
  "is_cancellation_requested jid s = andthen (get_job s jid) (\<lambda>j. Inr (cancellation_requested j))"

section \<open>Events\<close>

definition events_after :: "store \<Rightarrow> string \<Rightarrow> int \<Rightarrow> job_event list" where
  "events_after s jid after_sequence =
     sort_key sequence (filter (\<lambda>v. e_job_id v = jid \<and> after_sequence < int (sequence v)) (events s))"

definition list_events :: "string \<Rightarrow> int \<Rightarrow> store \<Rightarrow> store_error + job_event list" where
  "list_events jid after_sequence s = andthen (get_job s jid) (\<lambda>_. Inr (events_after s jid after_sequence))"

definition query_job_events :: "string \<Rightarrow> string \<Rightarrow> int \<Rightarrow> int \<Rightarrow> store \<Rightarrow> store_error + job_event list" where
  "query_job_events jid prin after_sequence limit s =
    (if after_sequence < 0 \<or> limit < 1 then invalid ''job_event_query_invalid''
     else if fetchone (\<lambda>r. job_id r = jid \<and> principal r = prin) (jobs s) = None then invalid ''job_not_found''
     else Inr (take (nat limit) (events_after s jid after_sequence)))"

section \<open>Pages of jobs\<close>

record job_list_record =
  li_job :: job
  li_result :: "job_result option"
  li_error :: "error_detail option"

definition list_record :: "env \<Rightarrow> job_row \<Rightarrow> store_error + job_list_record" where
  "list_record e r =
     andthen (optional (decode_error (float_repr e)) (error_json r)) (\<lambda>err.
     Inr \<lparr>li_job = job_from_row r, li_result = result r, li_error = err\<rparr>)"

abbreviation job_order :: "'a job_scheme \<Rightarrow> string \<times> string" where
  "job_order r \<equiv> (created_at r, job_id r)"

text \<open>\<open>ORDER BY created_at DESC, job_id DESC\<close>\<close>

definition jobs_descending :: "(job_row \<Rightarrow> bool) \<Rightarrow> store \<Rightarrow> job_row list" where
  "jobs_descending p s = rev (sort_key job_order (filter p (jobs s)))"

definition query_jobs ::
    "env \<Rightarrow> string \<Rightarrow> job_state list \<Rightarrow> string option \<Rightarrow> string option \<Rightarrow> int \<Rightarrow> store
       \<Rightarrow> store_error + job_list_record list" where
  "query_jobs e prin states before_created_at before_job_id limit s =
    (if prin = [] \<or> limit < 1 \<or> (before_created_at = None) \<noteq> (before_job_id = None) then invalid ''job_query_invalid''
     else each (list_record e) (take (nat limit) (jobs_descending (\<lambda>r.
            principal r = prin \<and> (states \<noteq> [] \<longrightarrow> List.member states (state r))
            \<and> (case (before_created_at, before_job_id) of
                 (Some c, Some j) \<Rightarrow> created_at r < c \<or> (created_at r = c \<and> job_id r < j)
               | _ \<Rightarrow> True)) s)))"

text \<open>
  What \<open>datetime.fromisoformat\<close> makes of a text, with the text \<open>utc_now_millis\<close> gives back for an instant: the
  argument \<open>fromiso\<close>. A time without a zone makes \<open>utc_now_millis\<close> raise, which the query does not catch.
\<close>

datatype parsed_time = NoTime | NaiveTime | Instant string

definition check_cursor_time :: "(string \<Rightarrow> parsed_time) \<Rightarrow> string \<Rightarrow> store_error + bool" where
  "check_cursor_time fromiso c =
    (case fromiso c of
       NoTime \<Rightarrow> Inr False
     | NaiveTime \<Rightarrow> Inl (DomainError ''timestamp_timezone_required'' INTERNAL)
     | Instant t \<Rightarrow> Inr (t = c))"

definition list_engine_execution_candidates ::
    "(string \<Rightarrow> parsed_time) \<Rightarrow> env \<Rightarrow> string \<Rightarrow> string option \<Rightarrow> string option \<Rightarrow> int \<Rightarrow> store \<Rightarrow> store_error + job list" where
  "list_engine_execution_candidates fromiso e prin after_created_at after_job_id limit s =
     andthen (case (after_created_at, after_job_id) of
         (None, None) \<Rightarrow> Inr True
       | (Some c, Some j) \<Rightarrow> if length c = 24 \<and> is_typed_uuid7 j ''job'' then check_cursor_time fromiso c else Inr False
       | _ \<Rightarrow> Inr False) (\<lambda>cursor_valid.
     if \<not> cursor_valid \<or> prin = [] \<or> limit < 1 \<or> 1000 < limit then invalid ''engine_job_query_invalid''
     else Inr (map job_from_row (take (nat limit) (sort_key job_order (filter (\<lambda>r.
            execution_owner r = ENGINE \<and> principal r = prin \<and> (state r = QUEUED \<or> state r = RUNNING)
            \<and> \<not> (\<exists>l \<in> set (job_leases s). l_job_id l = job_id r \<and> clock e < l_expires_at l)
            \<and> (case (after_created_at, after_job_id) of
                 (Some c, Some j) \<Rightarrow> c < created_at r \<or> (created_at r = c \<and> j < job_id r)
               | _ \<Rightarrow> True)) (jobs s))))))"

end
