(* ===== verification/JsonRoundTrip.thy ===== *)
theory JsonRoundTrip
  imports JsonText
begin

text \<open>
  Reading back what \<open>dumps\<close> wrote. For values without floats whose objects list their keys in increasing order, as every
  object read from canonical text does, \<open>loads\<close> returns the value: by lemmas that the reader of each kind of value consumes
  exactly the text its writer produced, whatever follows it.
\<close>

section \<open>Strings\<close>

lemma read_str_plain:
  "of_char c \<ge> (32::nat) \<Longrightarrow> of_char c \<noteq> (34::nat) \<Longrightarrow> of_char c \<noteq> (92::nat) \<Longrightarrow>
     read_str (c # xs) = map_option (apfst ((#) c)) (read_str xs)"
  by (auto simp: quote_def)

lemma hex_value_digit: "k < 10 \<Longrightarrow> hex_value (char_of (48 + k :: nat)) = Some k"
  and hex_value_letter: "10 \<le> k \<Longrightarrow> k < 16 \<Longrightarrow> hex_value (char_of (87 + k :: nat)) = Some k"
  by (simp_all add: hex_value_def Let_def take_bit_nat_eq_self)

lemma hex_value_lower: "k < 16 \<Longrightarrow> hex_value (hex_lower k) = Some k"
  using hex_value_digit [of k] hex_value_letter [of k] by (simp add: hex_lower_def)

lemma read_hex4:
  assumes "n < 256"
  shows "read_str ([char_of (92 :: nat), CHR ''u''] @ hex4_lower n @ xs) = map_option (apfst ((#) (char_of n))) (read_str xs)"
proof -
  have zero: "hex_value (CHR ''0'') = Some 0" by (simp add: hex_value_def)
  have "hex_value (hex_lower (n div 16)) = Some (n div 16)" "hex_value (hex_lower (n mod 16)) = Some (n mod 16)"
    using assms by (simp_all add: hex_value_lower)
  then show ?thesis using zero by (simp add: unicode_escape_def hex4_lower_def quote_def)
qed

lemma quote_is_no_u: "char_of (34 :: nat) \<noteq> CHR ''u''" "char_of (92 :: nat) \<noteq> CHR ''u''"
  by code_simp+

lemma quote_differs [simp]: "quote \<noteq> CHR '']''" "quote \<noteq> CHR ''}''" "quote \<noteq> CHR ''-''" "quote \<noteq> CHR ''{''"
  "quote \<noteq> CHR ''[''" "quote \<noteq> CHR ''n''" "quote \<noteq> CHR ''t''" "quote \<noteq> CHR ''f''" "\<not> json_ws quote" "\<not> py_digit quote"
  by code_simp+

lemma read_escape: "read_str (escape_char c @ xs) = map_option (apfst ((#) c)) (read_str xs)"
proof -
  define n where "n = (of_char c :: nat)"
  have c: "c = char_of n" by (simp add: n_def)
  consider "n \<in> {34, 92, 8, 9, 10, 12, 13}" | "n \<notin> {34, 92, 8, 9, 10, 12, 13}" "n < 32" | "n \<notin> {34, 92}" "32 \<le> n"
    by force
  then show ?thesis
  proof cases
    case 1
    then show ?thesis unfolding c
      by (elim insertE emptyE) (simp_all add: escape_char_def Let_def quote_def unescape_def quote_is_no_u)
  next
    case 2
    then have "escape_char c = [char_of (92::nat), CHR ''u''] @ hex4_lower n"
      by (simp add: escape_char_def Let_def n_def)
    then show ?thesis using read_hex4 [of n xs] 2(2) by (simp add: c)
  next
    case 3
    then have "escape_char c = [c]" by (auto simp: escape_char_def Let_def n_def)
    then show ?thesis using 3 read_str_plain [of c xs] by (simp add: n_def)
  qed
qed

lemma read_ascii_escape: "read_str (ascii_escape_char c @ xs) = map_option (apfst ((#) c)) (read_str xs)"
proof (cases "127 \<le> (of_char c :: nat)")
  case True
  then show ?thesis using read_hex4 [of "of_char c" xs] by (simp add: ascii_escape_char_def)
next
  case False
  then show ?thesis by (simp add: ascii_escape_char_def read_escape)
qed

section \<open>Numbers\<close>

lemma dec_nat_digits: "list_all py_digit (dec_nat n)"
proof (induction n rule: dec_nat.induct)
  case (1 n)
  have d: "py_digit (char_of (48 + k))" if "k < 10" for k :: nat
    using that by (simp add: py_digit_def Let_def take_bit_nat_eq_self)
  show ?case
  proof (cases "n < 10")
    case True
    then show ?thesis by (simp add: dec_nat.simps [of n] d)
  next
    case False
    with 1 show ?thesis by (subst dec_nat.simps) (simp add: d)
  qed
qed

lemma nat_of_digits_append: "nat_of_digits acc (xs @ ys) = nat_of_digits (nat_of_digits acc xs) ys"
  by (induction xs arbitrary: acc) auto

lemma nat_of_dec_nat: "nat_of_digits 0 (dec_nat n) = n"
proof (induction n rule: dec_nat.induct)
  case (1 n)
  show ?case
  proof (cases "n < 10")
    case True
    then show ?thesis by (simp add: dec_nat.simps [of n])
  next
    case False
    with 1 show ?thesis by (subst dec_nat.simps) (simp add: nat_of_digits_append)
  qed
qed

lemma dec_nat_nonempty: "dec_nat n \<noteq> []"
  by (subst dec_nat.simps) simp

lemma hd_dec_nat: "0 < n \<Longrightarrow> hd (dec_nat n) \<noteq> CHR ''0''"
proof (induction n rule: dec_nat.induct)
  case (1 n)
  show ?case
  proof (cases "n < 10")
    case True
    have "of_char (char_of (48 + n) :: char) = 48 + n" using True by (simp add: take_bit_nat_eq_self)
    moreover have "of_char (CHR ''0'') = (48 :: nat)" by simp
    ultimately have "char_of (48 + n) \<noteq> CHR ''0''" using 1(2) by (metis add_cancel_left_right less_numeral_extra(3))
    with True show ?thesis by (simp add: dec_nat.simps [of n])
  next
    case False
    with 1 show ?thesis by (subst dec_nat.simps) (simp add: dec_nat_nonempty)
  qed
qed

text \<open>What follows a value inside a text, or nothing, or a line feed.\<close>

definition follows :: "string \<Rightarrow> bool" where
  "follows rest \<longleftrightarrow> rest = [] \<or> hd rest \<in> set (CHR 0x0A # '',]}'')"

lemma follows_simps [simp]: "follows []" "follows [CHR 0x0A]" "follows (CHR '','' # r)" "follows (CHR '']'' # r)" "follows (CHR ''}'' # r)"
  by (simp_all add: follows_def)

lemma take_digits:
  assumes "list_all py_digit ds" and "follows rest"
  shows "takeWhile py_digit (ds @ rest) = ds"
proof -
  have "takeWhile py_digit rest = []"
    using assms(2) by (cases rest) (auto simp: follows_def py_digit_def Let_def)
  then show ?thesis using assms(1) by (simp add: takeWhile_append2 list_all_iff)
qed

lemma not_in_number:
  assumes "follows rest"
  shows "take 1 rest \<noteq> ''.''" "take 1 rest \<noteq> ''e''" "take 1 rest \<noteq> ''E''"
  using assms by (cases rest; auto simp: follows_def)+

lemma let_eq: "x = y \<Longrightarrow> Let x f = f y"
  by simp

text \<open>An integer: digits with nothing of a fraction or an exponent behind them.\<close>

lemma read_number_digits:
  assumes neg: "(take 1 s = ''-'') = neg" "(if neg then drop 1 s else s) = ds @ rest"
    and digits: "(if take 1 (ds @ rest) = ''0'' then ''0'' else takeWhile py_digit (ds @ rest)) = ds" "ds \<noteq> []"
    and rest: "follows rest"
  shows "read_number fr s = Some (JInt ((if neg then -1 else 1) * int (nat_of_digits 0 ds)), rest)"
proof -
  have after: "drop (length ds) (ds @ rest) = rest" by simp
  have frac: "(if take 1 rest = ''.'' \<and> takeWhile py_digit (drop 1 rest) \<noteq> []
                then ''.'' @ takeWhile py_digit (drop 1 rest) else []) = []"
    using not_in_number [OF rest] by simp
  have none: "drop (length ([] :: string)) rest = rest" by simp
  have expo: "(if (take 1 rest = ''e'' \<or> take 1 rest = ''E'') \<and> e \<noteq> [] then f else []) = []" for e f :: string
    using not_in_number [OF rest] by simp
  show ?thesis
    unfolding read_number_def
    apply (subst let_eq [OF neg(1)], subst let_eq [OF neg(2)], subst let_eq [OF digits(1)], subst let_eq [OF after])
    apply (subst let_eq [OF frac], subst let_eq [OF none], subst let_eq [OF refl], subst let_eq [OF refl])
    apply (subst let_eq [OF expo], subst let_eq [OF none], subst let_eq [OF refl])
    by (simp only: digits(2) if_False if_True simp_thms)
qed

lemma read_number_nat:
  assumes "follows rest"
  shows "read_number fr (dec_nat n @ rest) = Some (JInt (int n), rest)"
    and "read_number fr (CHR ''-'' # dec_nat n @ rest) = Some (JInt (- int n), rest)"
proof -
  obtain d ds where ds: "dec_nat n = d # ds" using dec_nat_nonempty [of n] by (cases "dec_nat n") auto
  have d: "d \<noteq> CHR ''-''" using dec_nat_digits [of n] by (auto simp: ds py_digit_def)
  then have neg: "take 1 (dec_nat n @ rest) \<noteq> ''-''" by (simp add: ds)
  have digits: "(if take 1 (dec_nat n @ rest) = ''0'' then ''0'' else takeWhile py_digit (dec_nat n @ rest)) = dec_nat n"
  proof (cases "n = 0")
    case True
    have "dec_nat 0 = ''0''" by code_simp
    with True show ?thesis by simp
  next
    case False
    then have "d \<noteq> CHR ''0''" using hd_dec_nat [of n] ds by simp
    then show ?thesis using take_digits [OF dec_nat_digits [of n] assms] ds by simp
  qed
  show "read_number fr (dec_nat n @ rest) = Some (JInt (int n), rest)"
    using read_number_digits [of "dec_nat n @ rest" False "dec_nat n" rest fr] digits assms neg
    by (simp add: nat_of_dec_nat dec_nat_nonempty)
  show "read_number fr (CHR ''-'' # dec_nat n @ rest) = Some (JInt (- int n), rest)"
    using read_number_digits [of "CHR ''-'' # dec_nat n @ rest" True "dec_nat n" rest fr] digits assms
    by (simp add: nat_of_dec_nat dec_nat_nonempty)
qed

lemma read_number_int: "follows rest \<Longrightarrow> read_number fr (dec_int i @ rest) = Some (JInt i, rest)"
  by (simp add: dec_int_def read_number_nat)

section \<open>Values\<close>

text \<open>The values whose text is read back as they are: no float, and objects with increasing keys.\<close>

fun json_plain :: "json \<Rightarrow> bool" where
  "json_plain (JFloat r) = False"
| "json_plain (JList vs) = (\<forall>v \<in> set vs. json_plain v)"
| "json_plain (JObj kvs) = (sorted_wrt (<) (map fst kvs) \<and> (\<forall>(k, v) \<in> set kvs. json_plain v))"
| "json_plain _ = True"

text \<open>How deep the reader goes, and that the fuel of \<open>loads\<close> covers it.\<close>

fun read_need :: "json \<Rightarrow> nat" where
  "read_need (JList vs) = Suc (foldr (\<lambda>v m. Suc (max (read_need v) m)) vs 0)"
| "read_need (JObj kvs) = Suc (foldr (\<lambda>(k, v) m. Suc (max (read_need v) m)) kvs 0)"
| "read_need _ = 1"

abbreviation elems_need :: "json list \<Rightarrow> nat" where
  "elems_need vs \<equiv> foldr (\<lambda>v m. Suc (max (read_need v) m)) vs 0"

abbreviation members_need :: "(string \<times> json) list \<Rightarrow> nat" where
  "members_need kvs \<equiv> foldr (\<lambda>(k, v) m. Suc (max (read_need v) m)) kvs 0"

definition member_text :: "(char \<Rightarrow> string) \<Rightarrow> string \<times> json \<Rightarrow> string" where
  "member_text esc kv = (case kv of (k, v) \<Rightarrow> str_with esc k @ '':'' @ dumps_with esc v)"

lemma join_Cons: "join (x # xs) = (if xs = [] then x else x @ '','' @ join xs)"
  by (cases xs) simp_all

lemma sort_key_map_sorted:
  "sorted_wrt (<) (map fst kvs) \<Longrightarrow> map snd (sort_key fst (map (\<lambda>(k, v). (k, g k v)) kvs)) = map (\<lambda>(k, v). g k v) kvs"
proof -
  assume "sorted_wrt (<) (map fst kvs)"
  then have "sorted (map fst kvs)" by (simp add: strict_sorted_iff)
  then have "sorted (map fst (map (\<lambda>(k, v). (k, g k v)) kvs))" by (simp add: comp_def case_prod_beta)
  then have "sort_key fst (map (\<lambda>(k, v). (k, g k v)) kvs) = map (\<lambda>(k, v). (k, g k v)) kvs"
    by (rule sort_key_id_if_sorted)
  then show ?thesis by (simp add: comp_def case_prod_beta)
qed

lemma dec_int_starts: "\<exists>d ds. dec_int i = d # ds \<and> (py_digit d \<or> d = CHR ''-'')"
proof -
  have "\<exists>d ds. dec_nat n = d # ds \<and> py_digit d" for n
    using dec_nat_nonempty [of n] dec_nat_digits [of n] by (cases "dec_nat n") auto
  then show ?thesis unfolding dec_int_def by (metis append_Cons append_Nil)
qed

lemma skip_ws_simps [simp]: "skip_ws [] = []"
  "skip_ws (CHR '','' # r) = CHR '','' # r" "skip_ws (CHR '']'' # r) = CHR '']'' # r"
  "skip_ws (CHR ''}'' # r) = CHR ''}'' # r" "skip_ws (CHR '':'' # r) = CHR '':'' # r" "skip_ws (quote # r) = quote # r"
  by (simp_all add: skip_ws_def json_ws_def quote_def)

lemma read_value_int: "follows rest \<Longrightarrow> read_value put fr (Suc n) (dec_int i @ rest) = Some (JInt i, rest)"
proof -
  assume f: "follows rest"
  obtain d ds where ds: "dec_int i = d # ds" "py_digit d \<or> d = CHR ''-''" using dec_int_starts [of i] by blast
  have d: "d \<noteq> quote" "d \<noteq> CHR ''{''" "d \<noteq> CHR ''[''" "d \<noteq> CHR ''n''" "d \<noteq> CHR ''t''" "d \<noteq> CHR ''f''"
    using ds(2) quote_differs(3,10) by (auto simp: py_digit_def Let_def)
  show ?thesis using read_number_int [OF f, of fr i] d by (simp add: ds strip_lit_def)
qed

lemma dict_set_new: "k \<notin> fst ` set acc \<Longrightarrow> dict_set k v acc = acc @ [(k, v)]"
  by (induction acc) auto

section \<open>Writers and readers\<close>

text \<open>
  What reading back asks of the way a writer escapes a character, that the reader of strings returns it, whatever follows;
  and of what a reader does with the pairs of an object, that it keeps those with a new key.
\<close>

locale json_codec =
  fixes esc :: "char \<Rightarrow> string" and put :: pair_hook
  assumes read_esc: "read_str (esc c @ xs) = map_option (apfst ((#) c)) (read_str xs)"
    and put_new: "k \<notin> fst ` set acc \<Longrightarrow> put k v acc = Some (acc @ [(k, v)])"
begin

lemma read_dumped: "read_str (concat (map esc s) @ quote # rest) = Some (s, rest)"
proof (induction s)
  case (Cons c s)
  then show ?case by (simp add: read_esc apfst_def)
qed simp

lemma dumps_plain_obj:
  assumes "json_plain (JObj kvs)"
  shows "dumps_with esc (JObj kvs) = CHR ''{'' # join (map (member_text esc) kvs) @ ''}''"
  using assms sort_key_map_sorted [of kvs "\<lambda>k v. str_with esc k @ '':'' @ dumps_with esc v"]
  by (simp add: comp_def member_text_def [abs_def] del: split_paired_All)

text \<open>What the text of a value starts with: neither whitespace nor the end of a list.\<close>

lemma dumps_starts:
  assumes "json_plain v"
  shows "\<exists>d ds. dumps_with esc v = d # ds \<and> \<not> json_ws d \<and> d \<noteq> CHR '']''"
proof (cases v)
  case (JInt i)
  then show ?thesis using dec_int_starts [of i] by (auto simp: py_digit_def json_ws_def Let_def)
next
  case (JFloat r)
  with assms show ?thesis by simp
next
  case (JStr s)
  then show ?thesis by (simp add: str_with_def quote_differs(1) [symmetric])
qed (auto simp: json_ws_def str_with_def)

lemma skip_dumps: "json_plain v \<Longrightarrow> skip_ws (dumps_with esc v @ rest) = dumps_with esc v @ rest"
  using dumps_starts [of v] by (auto simp: skip_ws_def)

lemma read_elems_dumps:
  assumes "\<forall>v \<in> set vs. json_plain v \<and> (\<forall>n rest. read_need v \<le> n \<longrightarrow> follows rest \<longrightarrow> read_value put fr n (dumps_with esc v @ rest) = Some (v, rest))"
    and "vs \<noteq> []" and "elems_need vs \<le> n"
  shows "read_elems put fr n acc (join (map (dumps_with esc) vs) @ CHR '']'' # rest) = Some (JList (acc @ vs), rest)"
  using assms
proof (induction vs arbitrary: n acc)
  case (Cons v vs)
  then obtain m where m: "n = Suc m" "read_need v \<le> m" "elems_need vs \<le> m" by (cases n) auto
  show ?case
  proof (cases "vs = []")
    case True
    then show ?thesis using Cons.prems(1) m by simp
  next
    case False
    then obtain w ws where w: "vs = w # ws" by (cases vs) auto
    have "skip_ws (join (map (dumps_with esc) vs) @ CHR '']'' # rest) = join (map (dumps_with esc) vs) @ CHR '']'' # rest"
      using Cons.prems(1) skip_dumps [of w] by (simp add: w join_Cons)
    with False Cons.prems(1) Cons.IH [of m "acc @ [v]"] m show ?thesis by (simp add: join_Cons)
  qed
qed simp

lemma skip_member: "skip_ws (member_text esc kv @ rest) = member_text esc kv @ rest"
  by (simp add: member_text_def str_with_def split: prod.splits)

lemma read_members_dumps:
  assumes "\<forall>(k, v) \<in> set kvs. json_plain v \<and> (\<forall>n rest. read_need v \<le> n \<longrightarrow> follows rest \<longrightarrow> read_value put fr n (dumps_with esc v @ rest) = Some (v, rest))"
    and "kvs \<noteq> []" and "members_need kvs \<le> n" and "distinct (map fst (acc @ kvs))"
  shows "read_members put fr n acc (join (map (member_text esc) kvs) @ CHR ''}'' # rest) = Some (JObj (acc @ kvs), rest)"
  using assms
proof (induction kvs arbitrary: n acc)
  case (Cons kv kvs)
  obtain k v where kv: "kv = (k, v)" by fastforce
  from Cons.prems(3) obtain m where m: "n = Suc m" "read_need v \<le> m" "members_need kvs \<le> m" by (cases n) (auto simp: kv)
  have written: "member_text esc kv @ r = quote # concat (map esc k) @ quote # CHR '':'' # dumps_with esc v @ r" for r
    by (simp add: kv member_text_def str_with_def)
  have dict: "put k v acc = Some (acc @ [kv])" using Cons.prems(4) by (simp add: kv put_new)
  have v: "json_plain v" "\<And>r. follows r \<Longrightarrow> read_value put fr m (dumps_with esc v @ r) = Some (v, r)"
    using Cons.prems(1) m(2) by (auto simp: kv)
  show ?case
  proof (cases "kvs = []")
    case True
    then show ?thesis by (simp add: written m(1) read_dumped skip_dumps v dict)
  next
    case False
    then obtain w ws where w: "kvs = w # ws" by (cases kvs) auto
    have skip: "skip_ws (join (map (member_text esc) kvs) @ CHR ''}'' # rest) = join (map (member_text esc) kvs) @ CHR ''}'' # rest"
      using skip_member [of w] by (simp add: w join_Cons)
    have "read_members put fr m (acc @ [kv]) (join (map (member_text esc) kvs) @ CHR ''}'' # rest) = Some (JObj (acc @ kv # kvs), rest)"
      using Cons.IH [of m "acc @ [kv]"] Cons.prems False m by simp
    with False skip show ?thesis by (simp add: join_Cons written m(1) read_dumped skip_dumps v dict)
  qed
qed simp

lemma read_value_dumps:
  "json_plain v \<Longrightarrow> read_need v \<le> n \<Longrightarrow> follows rest \<Longrightarrow> read_value put fr n (dumps_with esc v @ rest) = Some (v, rest)"
proof (induction v arbitrary: n rest)
  case (JInt i)
  then show ?case by (cases n) (simp_all add: read_value_int del: read_value.simps)
next
  case (JBool b)
  then show ?case by (cases n) (simp_all add: strip_lit_def quote_differs (1-8) [symmetric])
next
  case JNull
  then show ?case by (cases n) (simp_all add: strip_lit_def quote_differs (1-8) [symmetric])
next
  case (JStr s)
  then show ?case by (cases n) (simp_all add: str_with_def read_dumped)
next
  case (JList vs)
  then obtain m where m: "n = Suc m" "elems_need vs \<le> m" by (cases n) auto
  show ?case
  proof (cases vs)
    case Nil
    then show ?thesis by (simp add: m quote_differs (1-8) [symmetric])
  next
    case (Cons v ws)
    with JList.prems(1) have v: "json_plain v" by simp
    obtain d ds where d: "dumps_with esc v = d # ds" "\<not> json_ws d" "d \<noteq> CHR '']''" using dumps_starts [OF v] by blast
    have "\<forall>v \<in> set vs. json_plain v \<and> (\<forall>n rest. read_need v \<le> n \<longrightarrow> follows rest \<longrightarrow> read_value put fr n (dumps_with esc v @ rest) = Some (v, rest))"
      using JList.IH JList.prems(1) by simp
    from read_elems_dumps [OF this _ m(2)] Cons
    have elems: "read_elems put fr m [] (join (map (dumps_with esc) vs) @ CHR '']'' # rest) = Some (JList vs, rest)" by simp
    have starts: "\<exists>e. join (map (dumps_with esc) vs) @ CHR '']'' # rest = d # e" using d by (auto simp: Cons join_Cons)
    then obtain e where e: "join (map (dumps_with esc) vs) @ CHR '']'' # rest = d # e" by blast
    then have "skip_ws (join (map (dumps_with esc) vs) @ CHR '']'' # rest) = d # e" using d(2) by (simp add: skip_ws_def)
    then show ?thesis using elems d(3) e by (simp add: m(1) quote_differs (1-8) [symmetric])
  qed
next
  case (JObj kvs)
  then obtain m where m: "n = Suc m" "members_need kvs \<le> m" by (cases n) auto
  have plain: "json_plain (JObj kvs)" by (rule JObj.prems)
  show ?case
  proof (cases kvs)
    case Nil
    then show ?thesis by (simp add: m quote_differs (1-8) [symmetric])
  next
    case (Cons kv ws)
    have all: "\<forall>(k, v) \<in> set kvs. json_plain v \<and> (\<forall>n rest. read_need v \<le> n \<longrightarrow> follows rest \<longrightarrow> read_value put fr n (dumps_with esc v @ rest) = Some (v, rest))"
      using JObj.IH plain by (fastforce simp: snds.simps)
    have "sorted_wrt (<) (map fst kvs)" using plain by simp
    then have "distinct (map fst ([] @ kvs))" by (simp add: strict_sorted_iff)
    from read_members_dumps [OF all _ m(2) this] Cons
    have members: "read_members put fr m [] (join (map (member_text esc) kvs) @ CHR ''}'' # rest) = Some (JObj kvs, rest)" by simp
    have "\<exists>e. join (map (member_text esc) kvs) @ CHR ''}'' # rest = quote # e"
      by (cases kv) (simp add: Cons join_Cons member_text_def str_with_def)
    then obtain e where e: "join (map (member_text esc) kvs) @ CHR ''}'' # rest = quote # e" by blast
    then show ?thesis using members
      unfolding dumps_plain_obj [OF plain] by (simp add: m(1) quote_differs (1-8) [symmetric])
  qed
qed simp

text \<open>The fuel of \<open>loads\<close> is enough.\<close>

lemma dumps_length: "json_plain v \<Longrightarrow> 1 \<le> length (dumps_with esc v)"
  using dumps_starts [of v] by auto

lemma elems_need_length:
  assumes "\<forall>v \<in> set vs. read_need v < 2 * length (dumps_with esc v)"
  shows "elems_need vs \<le> 2 * length (join (map (dumps_with esc) vs))"
  using assms by (induction vs) (auto simp: join_Cons)

lemma members_need_length:
  assumes "\<forall>(k, v) \<in> set kvs. read_need v < 2 * length (dumps_with esc v)"
  shows "members_need kvs \<le> 2 * length (join (map (member_text esc) kvs))"
  using assms by (induction kvs) (auto simp: join_Cons member_text_def)

lemma read_need_length: "json_plain v \<Longrightarrow> read_need v < 2 * length (dumps_with esc v)"
proof (induction v)
  case (JList vs)
  then show ?case using elems_need_length [of vs] by simp
next
  case (JObj kvs)
  have "\<forall>(k, v) \<in> set kvs. read_need v < 2 * length (dumps_with esc v)"
    using JObj by (fastforce simp: snds.simps)
  from members_need_length [OF this] show ?case unfolding dumps_plain_obj [OF JObj.prems] by simp
qed (use dumps_length in \<open>fastforce+\<close>)

lemma loads_dumps_before:
  assumes plain: "json_plain v" and "follows rest" and "skip_ws rest = []"
  shows "loads_with put fr (dumps_with esc v @ rest) = Some v"
proof -
  have "read_value put fr (2 * length (dumps_with esc v @ rest)) (dumps_with esc v @ rest) = Some (v, rest)"
    using read_need_length [OF plain] assms by (intro read_value_dumps) simp_all
  then show ?thesis using skip_dumps [OF plain, of rest] assms(3) by (simp add: loads_with_def)
qed

lemma loads_dumps: "json_plain v \<Longrightarrow> loads_with put fr (dumps_with esc v) = Some v"
  using loads_dumps_before [of v "[]"] by (simp add: skip_ws_def)

end

lemma pair_hooks_new:
  "k \<notin> fst ` set acc \<Longrightarrow> last_wins k v acc = Some (acc @ [(k, v)])" "k \<notin> fst ` set acc \<Longrightarrow> unique_keys k v acc = Some (acc @ [(k, v)])"
  by (simp_all add: last_wins_def unique_keys_def dict_set_new)

interpretation utf8_codec: json_codec escape_char last_wins
  by unfold_locales (rule read_escape pair_hooks_new; assumption?)+

interpretation ascii_codec: json_codec ascii_escape_char last_wins
  by unfold_locales (rule read_ascii_escape pair_hooks_new; assumption?)+

interpretation strict_codec: json_codec escape_char unique_keys
  by unfold_locales (rule read_escape pair_hooks_new; assumption?)+

section \<open>Keys in any order\<close>

text \<open>
  The writer sorts the keys of every object, so what is read back is the value with its keys sorted: the same value, since
  the order of a dictionary's keys is no part of it.
\<close>

fun sort_keys :: "json \<Rightarrow> json" where
  "sort_keys (JList vs) = JList (map sort_keys vs)"
| "sort_keys (JObj kvs) = JObj (sort_key fst (map (\<lambda>(k, v). (k, sort_keys v)) kvs))"
| "sort_keys v = v"

fun json_exact :: "json \<Rightarrow> bool" where
  "json_exact (JFloat r) = False"
| "json_exact (JList vs) = (\<forall>v \<in> set vs. json_exact v)"
| "json_exact (JObj kvs) = (distinct (map fst kvs) \<and> (\<forall>(k, v) \<in> set kvs. json_exact v))"
| "json_exact _ = True"

lemma insort_key_map: "(\<And>x. fst (g x) = fst x) \<Longrightarrow> insort_key fst (g x) (map g xs) = map g (insort_key fst x xs)"
  by (induction xs) auto

lemma sort_key_map: "(\<And>x. fst (g x) = fst x) \<Longrightarrow> sort_key fst (map g xs) = map g (sort_key fst xs)"
  by (induction xs) (simp_all add: insort_key_map)

lemma sort_key_twice: "sort_key f (sort_key f xs) = sort_key f xs"
  by (simp add: sort_key_id_if_sorted)

lemma distinct_sort_key: "distinct (map f (sort_key g xs)) \<longleftrightarrow> distinct (map f xs)"
  by (simp add: distinct_map)

lemma dumps_sort_keys: "dumps_with esc (sort_keys v) = dumps_with esc v"
proof (induction v)
  case (JObj kvs)
  let ?g = "\<lambda>(k, v). (k, str_with esc k @ '':'' @ dumps_with esc v)" and ?h = "\<lambda>(k, v). (k, sort_keys v)"
  have same: "map ?g (map ?h kvs) = map ?g kvs" using JObj by (fastforce simp: snds.simps)
  have "sort_key fst (map ?g (sort_key fst (map ?h kvs))) = sort_key fst (map ?g (map ?h kvs))"
    by (subst (1 2) sort_key_map) (auto simp: sort_key_twice)
  also have "\<dots> = sort_key fst (map ?g kvs)" by (simp only: same)
  finally show ?case by simp
qed (simp_all cong: map_cong)

lemma json_plain_sort_keys: "json_exact v \<Longrightarrow> json_plain (sort_keys v)"
proof (induction v)
  case (JObj kvs)
  let ?h = "\<lambda>(k, v). (k, sort_keys v)"
  have "distinct (map fst (map ?h kvs))" using JObj.prems by (simp add: comp_def case_prod_beta)
  then have "sorted_wrt (<) (map fst (sort_key fst (map ?h kvs)))"
    by (simp only: strict_sorted_iff distinct_sort_key sorted_sort_key simp_thms)
  moreover have "\<forall>(k, v) \<in> set kvs. json_plain (sort_keys v)" using JObj by (fastforce simp: snds.simps)
  ultimately show ?case by auto
qed auto

lemma loads_dumps_sorted: "json_exact v \<Longrightarrow> loads fr (dumps v) = Some (sort_keys v)"
  using utf8_codec.loads_dumps [OF json_plain_sort_keys] by (simp add: dumps_sort_keys)

lemma loads_dumps_line: "json_exact v \<Longrightarrow> loads fr (dumps v @ [CHR 0x0A]) = Some (sort_keys v)"
  using utf8_codec.loads_dumps_before [OF json_plain_sort_keys, of v "[CHR 0x0A]"]
  by (simp add: dumps_sort_keys skip_ws_def json_ws_def)

lemma strict_loads_dumps: "json_exact v \<Longrightarrow> loads_with unique_keys fr (dumps v) = Some (sort_keys v)"
  "json_exact v \<Longrightarrow> loads_with unique_keys fr (dumps v @ [CHR 0x0A]) = Some (sort_keys v)"
  using strict_codec.loads_dumps_before [OF json_plain_sort_keys, of v "[CHR 0x0A]"] strict_codec.loads_dumps [OF json_plain_sort_keys, of v]
  by (simp_all add: dumps_sort_keys skip_ws_def json_ws_def)

lemma loads_dumps_ascii: "json_exact v \<Longrightarrow> loads fr (dumps_ascii v) = Some (sort_keys v)"
  using ascii_codec.loads_dumps [OF json_plain_sort_keys] by (simp add: dumps_sort_keys)

section \<open>ASCII text\<close>

definition ascii_text :: "string \<Rightarrow> bool" where
  "ascii_text s = list_all (\<lambda>c. of_char c < (128 :: nat)) s"

lemma ascii_text_simps [simp]: "ascii_text []" "ascii_text (c # s) \<longleftrightarrow> of_char c < (128 :: nat) \<and> ascii_text s"
  "ascii_text (s @ t) \<longleftrightarrow> ascii_text s \<and> ascii_text t"
  by (simp_all add: ascii_text_def)

lemma ascii_dec_nat: "ascii_text (dec_nat n)"
  using dec_nat_digits [of n] by (auto simp: ascii_text_def list_all_iff py_digit_def Let_def)

lemma ascii_dec_int: "ascii_text (dec_int i)"
  by (simp add: dec_int_def ascii_dec_nat)

lemma ascii_hex: "k < 16 \<Longrightarrow> of_char (hex_lower k) < (128 :: nat)"
  by (simp add: hex_lower_def take_bit_nat_eq_self)

lemma ascii_hex4: "n < 256 \<Longrightarrow> ascii_text (hex4_lower n)"
  by (simp add: hex4_lower_def ascii_hex)

lemma ascii_escaped: "ascii_text (ascii_escape_char c)"
  by (simp add: ascii_escape_char_def escape_char_def Let_def ascii_hex4)

lemma ascii_str: "ascii_text (str_with ascii_escape_char s)"
  by (induction s) (simp_all add: str_with_def quote_def ascii_escaped)

lemma ascii_join: "(\<forall>t \<in> set ts. ascii_text t) \<Longrightarrow> ascii_text (join ts)"
  by (induction ts rule: join.induct) simp_all

lemma ascii_dumps: "json_exact v \<Longrightarrow> ascii_text (dumps_ascii v)"
proof (induction v)
  case (JObj kvs)
  have "\<And>k v. (k, v) \<in> set kvs \<Longrightarrow> ascii_text (dumps_ascii v)"
    using JObj by (fastforce simp: snds.simps)
  then show ?case by (auto simp: ascii_str intro!: ascii_join)
qed (auto simp: ascii_dec_int ascii_str intro!: ascii_join)

end
