(* ===== verification/Base64.thy ===== *)
theory Base64
  imports Prelude
begin

text \<open>
  URL-safe base64 as the cursors of \<open>core/application/job_query_service.py\<close> use it: \<open>urlsafe_b64encode\<close>
  with its padding stripped, and \<open>b64decode\<close> with \<open>altchars\<close> and \<open>validate\<close>, which takes both alphabets,
  refuses any other character and wants the padding the data calls for, and no more. A byte is a character.
\<close>

section \<open>Sextets\<close>

fun sextets :: "nat list \<Rightarrow> nat list" where
  "sextets (a # b # c # r) = a div 4 # (16 * (a mod 4) + b div 16) # (4 * (b mod 16) + c div 64) # c mod 64 # sextets r"
| "sextets [a, b] = [a div 4, 16 * (a mod 4) + b div 16, 4 * (b mod 16)]"
| "sextets [a] = [a div 4, 16 * (a mod 4)]"
| "sextets [] = []"

fun octets :: "nat list \<Rightarrow> nat list" where
  "octets (a # b # c # d # r) = (4 * a + b div 16) # (16 * (b mod 16) + c div 4) # (64 * (c mod 4) + d) # octets r"
| "octets [a, b, c] = [4 * a + b div 16, 16 * (b mod 16) + c div 4]"
| "octets [a, b] = [4 * a + b div 16]"
| "octets _ = []"

lemma split_byte:
  fixes b :: nat
  assumes "b < 256"
  shows "b div 16 div 16 = 0" "16 * (b div 16 mod 16) + b mod 16 = b" "b div 64 div 4 = 0" "64 * (b div 64 mod 4) + b mod 64 = b"
proof -
  have "b div 16 < 16" "b div 64 < 4" using assms by auto
  then show "b div 16 div 16 = 0" "16 * (b div 16 mod 16) + b mod 16 = b" "b div 64 div 4 = 0" "64 * (b div 64 mod 4) + b mod 64 = b"
    by simp_all
qed

lemma octets_sextets: "\<forall>b \<in> set bs. b < 256 \<Longrightarrow> octets (sextets bs) = bs"
  by (induction bs rule: sextets.induct) (simp_all add: split_byte)

lemma sextets_small: "\<forall>b \<in> set bs. b < 256 \<Longrightarrow> n \<in> set (sextets bs) \<Longrightarrow> n < 64"
  by (induction bs rule: sextets.induct) auto

lemma length_sextets: "length (sextets bs) mod 4 \<in> {0, 2, 3}"
  by (induction bs rule: sextets.induct) simp_all

section \<open>The alphabets\<close>

definition b64_char :: "nat \<Rightarrow> char" where
  "b64_char n = (if n < 26 then char_of (65 + n) else if n < 52 then char_of (71 + n)
     else if n < 62 then char_of (n - 4) else if n = 62 then CHR ''-'' else CHR ''_'')"

definition b64_value :: "char \<Rightarrow> nat option" where
  "b64_value c = (let n = of_char c :: nat in
     if 65 \<le> n \<and> n \<le> 90 then Some (n - 65)
     else if 97 \<le> n \<and> n \<le> 122 then Some (n - 71)
     else if 48 \<le> n \<and> n \<le> 57 then Some (n + 4)
     else if c = CHR ''-'' \<or> c = CHR ''+'' then Some 62
     else if c = CHR ''_'' \<or> c = CHR ''/'' then Some 63 else None)"

lemma of_char_small: "n < 256 \<Longrightarrow> of_char (char_of n :: char) = (n :: nat)"
  by (simp add: take_bit_nat_eq_self)

lemma b64_value_char:
  assumes "n < 64"
  shows "b64_value (b64_char n) = Some n"
proof -
  consider "n < 26" | "26 \<le> n" "n < 52" | "52 \<le> n" "n < 62" | "n = 62" | "n = 63" using assms by linarith
  then show ?thesis
  proof cases
    case 3
    then obtain k where "n = k + 52" using le_Suc_ex [of 52 n] by auto
    with 3 show ?thesis by (simp add: b64_char_def b64_value_def Let_def of_char_small)
  qed (simp_all add: b64_char_def b64_value_def Let_def of_char_small)
qed

lemma b64_char_no_pad: "n < 64 \<Longrightarrow> b64_char n \<noteq> CHR ''=''"
  using b64_value_char [of n] by (auto simp: b64_value_def)

section \<open>Encoding and decoding\<close>

fun b64_padding :: "nat \<Rightarrow> string" where
  "b64_padding n = replicate ((4 - n mod 4) mod 4) (CHR ''='')"

definition urlsafe_b64encode :: "string \<Rightarrow> string" where
  "urlsafe_b64encode s = (let ds = map b64_char (sextets (map of_char s)) in ds @ b64_padding (length ds))"

definition rstrip_padding :: "string \<Rightarrow> string" where
  "rstrip_padding s = rev (dropWhile (\<lambda>c. c = CHR ''='') (rev s))"

fun traverse :: "('a \<Rightarrow> 'b option) \<Rightarrow> 'a list \<Rightarrow> 'b list option" where
  "traverse f [] = Some []"
| "traverse f (x # xs) = (case f x of None \<Rightarrow> None | Some y \<Rightarrow> map_option ((#) y) (traverse f xs))"

definition b64decode :: "string \<Rightarrow> string option" where
  "b64decode s =
    (let ds = takeWhile (\<lambda>c. c \<noteq> CHR ''='') s; pads = dropWhile (\<lambda>c. c \<noteq> CHR ''='') s
     in if list_all (\<lambda>c. c = CHR ''='') pads
           \<and> (length ds mod 4, length pads) \<in> set [(0, 0), (2, 2), (3, 1)]
        then map_option (\<lambda>ns. map char_of (octets ns)) (traverse b64_value ds) else None)"

lemma traverse_map: "(\<And>x. x \<in> set xs \<Longrightarrow> f (g x) = Some (h x)) \<Longrightarrow> traverse f (map g xs) = Some (map h xs)"
  by (induction xs) simp_all

abbreviation bytes_of :: "string \<Rightarrow> nat list" where
  "bytes_of s \<equiv> map of_char s"

lemma bytes_small: "\<forall>b \<in> set (bytes_of s). b < 256"
  by simp

lemma no_pad_sextets: "\<forall>c \<in> set (map b64_char (sextets (bytes_of s))). c \<noteq> CHR ''=''"
  using sextets_small [OF bytes_small [of s]] b64_char_no_pad by fastforce

lemma rstrip_no_pad:
  assumes "\<forall>c \<in> set ds. c \<noteq> CHR ''=''"
  shows "rstrip_padding (ds @ replicate n (CHR ''='')) = ds"
proof -
  have "dropWhile (\<lambda>c. c = CHR ''='') (rev ds) = rev ds"
    using assms by (cases ds rule: rev_cases) simp_all
  then have "dropWhile (\<lambda>c. c = CHR ''='') (replicate n (CHR ''='') @ rev ds) = rev ds"
    by (induction n) simp_all
  then show ?thesis by (simp add: rstrip_padding_def)
qed

lemma rstrip_encode: "rstrip_padding (urlsafe_b64encode s) = map b64_char (sextets (bytes_of s))"
  using rstrip_no_pad [OF no_pad_sextets] by (simp add: urlsafe_b64encode_def Let_def)

lemma padding_fits: "n mod 4 \<in> {0, 2, 3} \<Longrightarrow> (n mod 4, length (b64_padding n)) \<in> set [(0, 0), (2, 2), (3, 1)]"
  by auto

lemma b64decode_parts:
  assumes "takeWhile (\<lambda>c. c \<noteq> CHR ''='') s = d" and "dropWhile (\<lambda>c. c \<noteq> CHR ''='') s = p"
    and "list_all (\<lambda>c. c = CHR ''='') p" and "(length d mod 4, length p) \<in> set [(0, 0), (2, 2), (3, 1)]"
    and "traverse b64_value d = Some ns"
  shows "b64decode s = Some (map char_of (octets ns))"
  using assms(3-5) unfolding b64decode_def Let_def assms(1,2) by (simp only: if_True simp_thms option.map)

text \<open>Stripping the padding loses nothing: put back to a multiple of four, the text decodes to what was encoded.\<close>

lemma b64_round_trip:
  "b64decode (let d = rstrip_padding (urlsafe_b64encode s) in d @ b64_padding (length d)) = Some s"
proof -
  let ?n = "sextets (bytes_of s)" and ?d = "map b64_char (sextets (bytes_of s))"
  let ?p = "b64_padding (length ?d)"
  have take: "takeWhile (\<lambda>c. c \<noteq> CHR ''='') (?d @ ?p) = ?d"
    using no_pad_sextets [of s] by (subst takeWhile_append2) (auto simp: takeWhile_eq_Nil_iff hd_replicate)
  have drop: "dropWhile (\<lambda>c. c \<noteq> CHR ''='') (?d @ ?p) = ?p"
    using no_pad_sextets [of s] by (subst dropWhile_append2) (auto simp: dropWhile_eq_self_iff hd_replicate)
  have small: "\<And>n. n \<in> set ?n \<Longrightarrow> n < 64" using sextets_small [OF bytes_small] by blast
  have "traverse b64_value ?d = Some (map (\<lambda>n. n) ?n)" by (rule traverse_map) (simp add: small b64_value_char)
  then have read: "traverse b64_value ?d = Some ?n" by simp
  have "map char_of (octets ?n) = s" using octets_sextets [OF bytes_small [of s]] by (simp add: comp_def)
  moreover have "list_all (\<lambda>c. c = CHR ''='') ?p" by (simp add: list_all_iff)
  moreover have "(length ?d mod 4, length ?p) \<in> set [(0, 0), (2, 2), (3, 1)]"
    by (rule padding_fits) (simp only: length_map length_sextets)
  ultimately have "b64decode (?d @ ?p) = Some s"
    using b64decode_parts [OF take drop _ _ read] by metis
  then show ?thesis unfolding rstrip_encode Let_def .
qed

end
