(* ===== verification/JobQueryService.thy ===== *)
theory JobQueryService
  imports JobQueries JsonRoundTrip Base64
begin

text \<open>
  The public views of jobs (\<open>core/application/job_query_service.py\<close>): the projection of a record to a view with its
  consistency checks, pages of jobs with their cursor, pages of events.
\<close>

definition MAX_JOB_PAGE_SIZE :: int where "MAX_JOB_PAGE_SIZE = 200"
definition MAX_EVENT_PAGE_SIZE :: int where "MAX_EVENT_PAGE_SIZE = 1000"
definition MAX_CURSOR_LENGTH :: nat where "MAX_CURSOR_LENGTH = 2048"
definition CURSOR_VERSION :: int where "CURSOR_VERSION = 1"

record pending_challenge_view =
  pc_challenge_id :: string
  pc_kind :: "string option"
  pc_code :: "string option"

record job_snapshot =
  sn_job_id :: string
  sn_state :: job_state
  sn_cancellation_requested :: bool
  active_attempt_id :: "string option"
  sn_challenge_id :: "string option"
  sn_retry_of_job_id :: "string option"
  sn_result :: "job_result option"
  sn_error :: "error_detail option"

record job_view =
  snapshot :: job_snapshot
  v_created_at :: string
  v_updated_at :: string
  v_pending_challenge :: "pending_challenge_view option"
  v_unknown_operation_ids :: "string list"

record job_page =
  page_jobs :: "job_view list"
  next_cursor :: "string option"

record job_event_page =
  page_events :: "job_event list"
  next_after_sequence :: "nat option"

section \<open>Validation\<close>

definition validate_identity :: "string \<Rightarrow> string \<Rightarrow> store_error + unit" where
  "validate_identity value' err = (if blank value' \<or> 512 < length value' then invalid err else Inr ())"

definition validate_limit :: "int \<Rightarrow> int \<Rightarrow> string \<Rightarrow> store_error + unit" where
  "validate_limit value' maximum err = (if value' < 1 \<or> maximum < value' then invalid err else Inr ())"

definition normalize_states :: "job_state list \<Rightarrow> job_state list" where
  "normalize_states states = sort_key job_state_value (remdups states)"

section \<open>Projection\<close>

abbreviation projection_invalid :: "store_error + 'a" where
  "projection_invalid \<equiv> Inl (DomainError ''job_projection_invalid'' INTERNAL)"

definition snapshot_from_record ::
    "job \<Rightarrow> job_result option \<Rightarrow> error_detail option \<Rightarrow> attempt option \<Rightarrow> challenge option \<Rightarrow> store_error + job_snapshot" where
  "snapshot_from_record j res err att chal =
    (if (if state j = SUCCEEDED then res = None \<or> err \<noteq> None
         else if state j = FAILED then err = None \<or> res \<noteq> None
         else res \<noteq> None \<or> err \<noteq> None)
     then projection_invalid
     else Inr \<lparr>sn_job_id = job_id j, sn_state = state j, sn_cancellation_requested = cancellation_requested j,
               active_attempt_id = map_option attempt_id att, sn_challenge_id = map_option challenge_id chal,
               sn_retry_of_job_id = retry_of_job_id j, sn_result = res, sn_error = err\<rparr>)"

text \<open>A field that is absent or null is \<open>None\<close>; any other must be text that is not blank.\<close>

definition challenge_field :: "(string \<times> json) list \<Rightarrow> string \<Rightarrow> store_error + string option" where
  "challenge_field payload field =
    (case map_of payload field of
       None \<Rightarrow> Inr None
     | Some JNull \<Rightarrow> Inr None
     | Some (JStr t) \<Rightarrow> if blank t then projection_invalid else Inr (Some t)
     | _ \<Rightarrow> projection_invalid)"

definition challenge_view :: "env \<Rightarrow> job_query_record \<Rightarrow> store_error + pending_challenge_view option" where
  "challenge_view e r =
    (case q_pending_challenge r of
       None \<Rightarrow> if state (q_job r) = WAITING_FOR_INPUT then projection_invalid else Inr None
     | Some c \<Rightarrow>
         if state (q_job r) \<noteq> WAITING_FOR_INPUT then projection_invalid
         else (case loads (float_repr e) (prompt_json c) of
                 Some (JObj payload) \<Rightarrow>
                   andthen (challenge_field payload ''kind'') (\<lambda>kind.
                   andthen (challenge_field payload ''code'') (\<lambda>cd.
                   Inr (Some \<lparr>pc_challenge_id = challenge_id c, pc_kind = kind, pc_code = cd\<rparr>)))
               | _ \<Rightarrow> projection_invalid))"

definition job_view_of :: "env \<Rightarrow> job_query_record \<Rightarrow> store_error + job_view" where
  "job_view_of e r =
     andthen (snapshot_from_record (q_job r) (q_result r) (q_error r) (q_active_attempt r) (q_pending_challenge r)) (\<lambda>snap.
     andthen (challenge_view e r) (\<lambda>chal.
     Inr \<lparr>snapshot = snap, v_created_at = created_at (q_job r), v_updated_at = updated_at (q_job r),
          v_pending_challenge = chal, v_unknown_operation_ids = unknown_operation_ids r\<rparr>))"

definition listed_job_view :: "job_list_record \<Rightarrow> store_error + job_view" where
  "listed_job_view r =
     andthen (snapshot_from_record (li_job r) (li_result r) (li_error r) None None) (\<lambda>snap.
     Inr \<lparr>snapshot = snap, v_created_at = created_at (li_job r), v_updated_at = updated_at (li_job r),
          v_pending_challenge = None, v_unknown_operation_ids = []\<rparr>)"

section \<open>Cursors\<close>

definition cursor_payload :: "string \<Rightarrow> string \<Rightarrow> job_state list \<Rightarrow> json" where
  "cursor_payload created jid states =
     JObj [(''created_at'', JStr created), (''job_id'', JStr jid),
           (''states'', JList (map (\<lambda>st. JStr (job_state_value st)) states)), (''version'', JInt CURSOR_VERSION)]"

definition encode_cursor :: "job_list_record \<Rightarrow> job_state list \<Rightarrow> string" where
  "encode_cursor r states =
     rstrip_padding (urlsafe_b64encode (dumps_ascii (cursor_payload (created_at (li_job r)) (job_id (li_job r)) states)))"

definition decode_cursor :: "env \<Rightarrow> string \<Rightarrow> job_state list \<Rightarrow> store_error + (string \<times> string)" where
  "decode_cursor e cursor states =
    (if cursor = [] \<or> MAX_CURSOR_LENGTH < length cursor then invalid ''job_cursor_invalid''
     else case b64decode (cursor @ b64_padding (length cursor)) of
            None \<Rightarrow> invalid ''job_cursor_invalid''
          | Some raw \<Rightarrow>
              if \<not> list_all (\<lambda>c. of_char c < (128 :: nat)) raw then invalid ''job_cursor_invalid''
              else (case loads (float_repr e) raw of
                      Some (JObj payload) \<Rightarrow>
                        (if set (map fst payload) \<noteq> set [''created_at'', ''job_id'', ''states'', ''version'']
                         then invalid ''job_cursor_invalid''
                         else case (map_of payload ''created_at'', map_of payload ''job_id'') of
                                (Some (JStr created), Some (JStr jid)) \<Rightarrow>
                                  if map_of payload ''version'' = Some (JInt CURSOR_VERSION) \<and> created \<noteq> [] \<and> jid \<noteq> []
                                     \<and> map_of payload ''states'' = Some (JList (map (\<lambda>st. JStr (job_state_value st)) states))
                                  then Inr (created, jid) else invalid ''job_cursor_invalid''
                              | _ \<Rightarrow> invalid ''job_cursor_invalid'')
                    | _ \<Rightarrow> invalid ''job_cursor_invalid''))"

section \<open>The service\<close>

definition service_get :: "env \<Rightarrow> string \<Rightarrow> string \<Rightarrow> store \<Rightarrow> store_error + job_view" where
  "service_get e jid prin s =
     andthen (validate_identity jid ''job_not_found'') (\<lambda>_.
     andthen (validate_identity prin ''job_principal_invalid'') (\<lambda>_.
     andthen (query_job e jid prin s) (job_view_of e)))"

definition service_list ::
    "env \<Rightarrow> string \<Rightarrow> job_state list \<Rightarrow> string option \<Rightarrow> int \<Rightarrow> store \<Rightarrow> store_error + job_page" where
  "service_list e prin states cursor limit s =
     andthen (validate_identity prin ''job_principal_invalid'') (\<lambda>_.
     let normalized = normalize_states states in
     andthen (validate_limit limit MAX_JOB_PAGE_SIZE ''job_list_limit_invalid'') (\<lambda>_.
     andthen (optional (\<lambda>c. decode_cursor e c normalized) cursor) (\<lambda>before.
     andthen (query_jobs e prin normalized (map_option fst before) (map_option snd before) (limit + 1) s) (\<lambda>records.
     let visible = take (nat limit) records in
     andthen (each listed_job_view visible) (\<lambda>views.
     Inr \<lparr>page_jobs = views,
          next_cursor = (if nat limit < length records \<and> visible \<noteq> []
                         then Some (encode_cursor (last visible) normalized) else None)\<rparr>)))))"

definition service_events :: "string \<Rightarrow> string \<Rightarrow> int \<Rightarrow> int \<Rightarrow> store \<Rightarrow> store_error + job_event_page" where
  "service_events jid prin after_sequence limit s =
     andthen (validate_identity jid ''job_not_found'') (\<lambda>_.
     andthen (validate_identity prin ''job_principal_invalid'') (\<lambda>_.
     if after_sequence < 0 then invalid ''job_event_sequence_invalid'' else
     andthen (validate_limit limit MAX_EVENT_PAGE_SIZE ''job_event_limit_invalid'') (\<lambda>_.
     andthen (query_job_events jid prin after_sequence (limit + 1) s) (\<lambda>records.
     let evs = take (nat limit) records in
     Inr \<lparr>page_events = evs,
          next_after_sequence = (if nat limit < length records \<and> evs \<noteq> [] then Some (sequence (last evs)) else None)\<rparr>))))"

end
