(* ===== verification/QueryProperties.thy ===== *)
theory QueryProperties
  imports JobQueryService Scenarios
begin

text \<open>
  What the reads of the job store promise: stored errors and cursors read back as they were written, and a reader that
  follows the cursors sees every job and every event once, in order.
\<close>

section \<open>Stored errors\<close>

lemma stored_error_json:
  "encode_error d = Inr payload \<Longrightarrow> payload = dumps (JObj
       [(''code'', JStr (code d)), (''category'', JStr (error_category_value (category d))),
        (''message'', JStr (message d)), (''details'', JObj (details d))])"
  by (simp add: encode_error_def split: if_splits)

text \<open>The error a failed job stores reads back. Whatever its texts hold, decoding what \<open>_encode_error\<close> wrote gives the
  code, the category and the message, and the details with the keys of every object sorted, which is the same dictionary.
  Only floats are left out, whose text the reader's library decides.\<close>

theorem error_round_trip:
  assumes "encode_error d = Inr payload" and "json_exact (JObj (details d))" and "sort_keys (JObj (details d)) = JObj ds"
  shows "decode_error fr payload = Inr (d\<lparr>details := ds\<rparr>)"
proof -
  let ?v = "JObj [(''code'', JStr (code d)), (''category'', JStr (error_category_value (category d))),
        (''message'', JStr (message d)), (''details'', JObj (details d))]"
  have "json_exact ?v" using assms(2) by simp
  then have "loads fr payload = Some (sort_keys ?v)"
    unfolding stored_error_json [OF assms(1)] by (rule loads_dumps_sorted)
  moreover have "sort_keys ?v = JObj [(''category'', JStr (error_category_value (category d))), (''code'', JStr (code d)),
        (''details'', JObj ds), (''message'', JStr (message d))]"
    using assms(3) by (simp add: less_char_def)
  ultimately show ?thesis by (simp add: decode_error_def)
qed

definition demo_error :: error_detail where
  "demo_error = \<lparr>code = ''model_failed'', category = RETRYABLE_RUNTIME, message = [quote, char_of (10 :: nat)],
     details = [(''reason'', JStr ''x''), (''attempts'', JList [JInt 2, JBool True])]\<rparr>"

theorem error_round_trip_witness:
  "\<exists>payload. encode_error demo_error = Inr payload
     \<and> decode_error (\<lambda>_. None) payload
         = Inr (demo_error\<lparr>details := [(''attempts'', JList [JInt 2, JBool True]), (''reason'', JStr ''x'')]\<rparr>)"
proof -
  have "is_ok (encode_error demo_error)" by code_simp
  then obtain payload where p: "encode_error demo_error = Inr payload" by (cases "encode_error demo_error") auto
  have "json_exact (JObj (details demo_error))" by (simp add: demo_error_def)
  moreover have "sort_keys (JObj (details demo_error)) = JObj [(''attempts'', JList [JInt 2, JBool True]), (''reason'', JStr ''x'')]"
    by (simp add: demo_error_def less_char_def)
  ultimately show ?thesis using error_round_trip [OF p] p by blast
qed

section \<open>Cursors\<close>

lemma cursor_payload_facts:
  "json_exact (cursor_payload c j states)" "sort_keys (cursor_payload c j states) = cursor_payload c j states"
  by (auto simp: cursor_payload_def less_char_def comp_def)

lemma encode_cursor_nonempty: "encode_cursor r states \<noteq> []"
proof
  assume "encode_cursor r states = []"
  then have "b64decode (let d = ([] :: string) in d @ b64_padding (length d))
    = Some (dumps_ascii (cursor_payload (created_at (li_job r)) (job_id (li_job r)) states))"
    using b64_round_trip [of "dumps_ascii (cursor_payload (created_at (li_job r)) (job_id (li_job r)) states)"]
    by (simp only: encode_cursor_def)
  then show False by (simp add: b64decode_def cursor_payload_def)
qed

lemma decode_encode_cursor:
  assumes "created_at (li_job r) \<noteq> []" and "job_id (li_job r) \<noteq> []" and "length (encode_cursor r states) \<le> MAX_CURSOR_LENGTH"
  shows "decode_cursor e (encode_cursor r states) states' =
    (if states' = states then Inr (created_at (li_job r), job_id (li_job r)) else invalid ''job_cursor_invalid'')"
proof -
  let ?v = "cursor_payload (created_at (li_job r)) (job_id (li_job r)) states" and ?c = "encode_cursor r states"
  have raw: "b64decode (?c @ b64_padding (length ?c)) = Some (dumps_ascii ?v)"
    using b64_round_trip [of "dumps_ascii ?v"] by (simp only: encode_cursor_def Let_def)
  have ascii: "list_all (\<lambda>c. of_char c < (128 :: nat)) (dumps_ascii ?v)"
    using ascii_dumps [OF cursor_payload_facts(1)] by (simp only: ascii_text_def)
  have loads: "loads (float_repr e) (dumps_ascii ?v) = Some ?v"
    using loads_dumps_ascii [OF cursor_payload_facts(1)] cursor_payload_facts(2) by simp
  have inj: "map (\<lambda>st. JStr (job_state_value st)) states = map (\<lambda>st. JStr (job_state_value st)) states' \<longleftrightarrow> states = states'"
    by (intro inj_map_eq_map injI) simp
  have "?c \<noteq> []" "\<not> MAX_CURSOR_LENGTH < length ?c" using encode_cursor_nonempty assms(3) by simp_all
  then show ?thesis
    unfolding decode_cursor_def raw
    using ascii loads assms(1,2) inj by (auto simp: cursor_payload_def insert_commute)
qed

text \<open>C16: A cursor reads back as the place it stands for, under the filter it was made for and no other: the list a cursor
  was given for decodes it to the creation time and the identifier of its last job, and any other list of states refuses
  it.\<close>

theorem cursor_round_trip:
  assumes "created_at (li_job r) \<noteq> []" and "job_id (li_job r) \<noteq> []" and "length (encode_cursor r states) \<le> MAX_CURSOR_LENGTH"
  shows "decode_cursor e (encode_cursor r states) states' =
    (if states' = states then Inr (created_at (li_job r), job_id (li_job r)) else invalid ''job_cursor_invalid'')"
  using assms by (rule decode_encode_cursor)

definition demo_listed :: job_list_record where
  "demo_listed = \<lparr>li_job = \<lparr>job_id = ''jobA'', request_hash = ''h'', principal = ''p'', client_request_id = None,
     execution_owner = ENGINE, state = QUEUED, cancellation_requested = False, retry_of_job_id = None,
     created_at = ''2024'', updated_at = ''2024''\<rparr>, li_result = None, li_error = None\<rparr>"

theorem cursor_round_trip_witness:
  "decode_cursor (demo_env 0) (encode_cursor demo_listed [FAILED]) [FAILED] = Inr (''2024'', ''jobA'')
   \<and> decode_cursor (demo_env 0) (encode_cursor demo_listed [FAILED]) [] = invalid ''job_cursor_invalid''"
proof -
  have "length (encode_cursor demo_listed [FAILED]) \<le> MAX_CURSOR_LENGTH" by code_simp
  with cursor_round_trip [of demo_listed "[FAILED]" "demo_env 0" "[FAILED]"]
    cursor_round_trip [of demo_listed "[FAILED]" "demo_env 0" "[]"]
  show ?thesis by (simp add: demo_listed_def)
qed

section \<open>Pages of events\<close>

text \<open>A reader that asks for the page after the last event it has seen until it is told there is none.\<close>

fun read_event_pages :: "nat \<Rightarrow> string \<Rightarrow> string \<Rightarrow> int \<Rightarrow> int \<Rightarrow> store \<Rightarrow> (store_error + job_event list) option" where
  "read_event_pages 0 jid prin after limit s = None"
| "read_event_pages (Suc n) jid prin after limit s =
    (case service_events jid prin after limit s of
       Inl err \<Rightarrow> Some (Inl err)
     | Inr page \<Rightarrow>
         (case next_after_sequence page of
            None \<Rightarrow> Some (Inr (page_events page))
          | Some q \<Rightarrow> map_option (map_sum id ((@) (page_events page))) (read_event_pages n jid prin (int q) limit s)))"

lemma filter_beyond:
  assumes "sorted_wrt P (xs @ x # ys)" and "\<And>a b. P a b \<Longrightarrow> \<not> P b a"
  shows "filter (P x) (xs @ x # ys) = ys"
proof -
  have "filter (P x) xs = []" using assms by (auto simp: sorted_wrt_append filter_empty_conv)
  moreover have "filter (P x) ys = ys" using assms(1) by (simp add: sorted_wrt_append)
  moreover have "\<not> P x x" using assms(2) by blast
  ultimately show ?thesis by simp
qed

lemma events_after_filter:
  assumes "a \<le> b"
  shows "events_after s jid b = filter (\<lambda>v. b < int (sequence v)) (events_after s jid a)"
proof -
  have "filter (\<lambda>v. b < int (sequence v)) (filter (\<lambda>v. e_job_id v = jid \<and> a < int (sequence v)) (events s))
      = filter (\<lambda>v. e_job_id v = jid \<and> b < int (sequence v)) (events s)"
    unfolding filter_filter using assms by (intro filter_cong) auto
  then show ?thesis by (simp only: events_after_def filter_sort)
qed

lemma events_strictly_sorted:
  assumes "distinct (map sequence (job_events s jid))"
  shows "sorted_wrt (\<lambda>x y. sequence x < sequence y) (events_after s jid a)"
proof -
  have "distinct (map sequence (filter (\<lambda>v. e_job_id v = jid \<and> a < int (sequence v)) (events s)))"
    using distinct_map_filter [OF assms, of "\<lambda>v. a < int (sequence v)"] by (simp add: job_events_def conj_commute)
  then have "sorted_wrt (<) (map sequence (events_after s jid a))"
    by (simp only: strict_sorted_iff events_after_def distinct_sort_key sorted_sort_key simp_thms)
  then show ?thesis by (simp add: sorted_wrt_map)
qed

text \<open>Asking for what follows the last event of a page gives what the page left.\<close>

lemma events_after_last:
  assumes "distinct (map sequence (job_events s jid))" and "events_after s jid a = vs @ v # ws"
  shows "events_after s jid (int (sequence v)) = ws"
proof -
  have "v \<in> set (events_after s jid a)" using assms(2) by simp
  then have "a \<le> int (sequence v)" by (simp add: events_after_def)
  then have "events_after s jid (int (sequence v)) = filter (\<lambda>w. int (sequence v) < int (sequence w)) (vs @ v # ws)"
    using events_after_filter assms(2) by metis
  also have "\<dots> = filter (\<lambda>w. sequence v < sequence w) (vs @ v # ws)" by simp
  also have "\<dots> = ws" using events_strictly_sorted [OF assms(1), of a] assms(2) by (intro filter_beyond) simp_all
  finally show ?thesis .
qed

lemma split_page:
  assumes "k < length xs" and "1 \<le> k"
  shows "xs = butlast (take k xs) @ last (take k xs) # drop k xs"
proof -
  have "take k xs \<noteq> []" using assms by auto
  then have "take k xs = butlast (take k xs) @ [last (take k xs)]" by simp
  then show ?thesis by (metis append_Cons append_Nil append_assoc append_take_drop_id)
qed

lemma read_event_pages_exact:
  assumes "distinct (map sequence (job_events s jid))"
    and ok: "\<not> blank jid" "length jid \<le> 512" "\<not> blank prin" "length prin \<le> 512" "1 \<le> limit" "limit \<le> MAX_EVENT_PAGE_SIZE"
    and job: "fetchone (\<lambda>r. job_id r = jid \<and> principal r = prin) (jobs s) \<noteq> None"
  shows "0 \<le> after \<Longrightarrow> read_event_pages n jid prin after limit s =
    (if 1 \<le> n \<and> length (events_after s jid after) \<le> n * nat limit then Some (Inr (events_after s jid after)) else None)"
proof (induction n arbitrary: after)
  case (Suc n)
  let ?vs = "events_after s jid after" and ?k = "nat limit"
  have k: "1 \<le> ?k" "nat (limit + 1) = Suc ?k" using ok by auto
  have page: "service_events jid prin after limit s = Inr \<lparr>page_events = take ?k ?vs,
      next_after_sequence = (if ?k < length ?vs then Some (sequence (last (take ?k ?vs))) else None)\<rparr>"
    using ok job Suc.prems(1) k
    by (auto simp: service_events_def validate_identity_def validate_limit_def query_job_events_def Let_def take_Suc_conv_app_nth)
  show ?case
  proof (cases "?k < length ?vs")
    case True
    have "?vs = butlast (take ?k ?vs) @ last (take ?k ?vs) # drop ?k ?vs" by (rule split_page [OF True k(1)])
    then have rest: "events_after s jid (int (sequence (last (take ?k ?vs)))) = drop ?k ?vs"
      by (rule events_after_last [OF assms(1)])
    have "1 \<le> n \<and> length (drop ?k ?vs) \<le> n * ?k \<longleftrightarrow> length ?vs \<le> Suc n * ?k" using True by (cases n) auto
    then have "read_event_pages n jid prin (int (sequence (last (take ?k ?vs)))) limit s
        = (if length ?vs \<le> Suc n * ?k then Some (Inr (drop ?k ?vs)) else None)"
      using Suc.IH [of "int (sequence (last (take ?k ?vs)))"] unfolding rest by simp
    then show ?thesis using True by (simp add: page)
  next
    case False
    then show ?thesis by (simp add: page)
  qed
qed simp

text \<open>C17: A reader of a job's events who starts at the beginning, asks for pages of any allowed size and passes on the number
  each page names, gets every event of the job once and in the order of their numbers. The number of pages it takes is exactly
  that of pages of that size that hold all events, and one for a job without events: with fewer it does not come to the end.\<close>

theorem event_pages_are_complete:
  assumes "reachable s" and "fetchone (\<lambda>r. job_id r = jid \<and> principal r = prin) (jobs s) \<noteq> None"
    and "\<not> blank jid" and "length jid \<le> 512" and "\<not> blank prin" and "length prin \<le> 512"
    and "1 \<le> limit" and "limit \<le> MAX_EVENT_PAGE_SIZE"
  shows "read_event_pages n jid prin 0 limit s =
    (if 1 \<le> n \<and> length (job_events s jid) \<le> n * nat limit then Some (Inr (job_events s jid)) else None)"
proof -
  have numbered: "map sequence (job_events s jid) = [1..<Suc (length (job_events s jid))]"
    using reachable_ok [OF assms(1)] unfolding store_ok_def events_ok_def by blast
  then have distinct: "distinct (map sequence (job_events s jid))" by simp
  have "0 < sequence v" if "v \<in> set (job_events s jid)" for v
  proof -
    have "sequence v \<in> set (map sequence (job_events s jid))" using that by simp
    then show ?thesis unfolding numbered by auto
  qed
  then have "filter (\<lambda>v. e_job_id v = jid \<and> 0 < int (sequence v)) (events s) = job_events s jid"
    unfolding job_events_def by (intro filter_cong) auto
  moreover have "sorted (map sequence (job_events s jid))" by (simp only: numbered sorted_upt)
  ultimately have all: "events_after s jid 0 = job_events s jid"
    by (simp add: events_after_def sort_key_id_if_sorted)
  show ?thesis
    using read_event_pages_exact [OF distinct assms(3-8,2), of 0 n] unfolding all by simp
qed

theorem event_pages_are_complete_witness:
  "read_event_pages 4 ''jobA'' ''p'' 0 2 (demo_store demo_running)
     = Some (Inr (job_events (demo_store demo_running) ''jobA'')) \<and> 5 \<le> length (job_events (demo_store demo_running) ''jobA'')
   \<and> read_event_pages 2 ''jobA'' ''p'' 0 2 (demo_store demo_running) = None"
proof -
  have "case run_commands demo_running empty_store of Inl _ \<Rightarrow> False
     | Inr s \<Rightarrow> fetchone (\<lambda>r. job_id r = ''jobA'' \<and> principal r = ''p'') (jobs s) \<noteq> None
         \<and> 5 \<le> length (job_events s ''jobA'') \<and> length (job_events s ''jobA'') \<le> 8"
    by code_simp
  note facts = demo_facts(2) [OF this]
  show ?thesis
    using event_pages_are_complete [OF demo_reachable, of "''jobA''" "''p''" demo_running 2] facts
    by (simp add: blank_def py_space_def MAX_EVENT_PAGE_SIZE_def)
qed

section \<open>Pages of jobs\<close>

definition matching_jobs :: "string \<Rightarrow> job_state list \<Rightarrow> store \<Rightarrow> job_row list" where
  "matching_jobs prin states s =
     jobs_descending (\<lambda>r. principal r = prin \<and> (states \<noteq> [] \<longrightarrow> List.member states (state r))) s"

definition row_view :: "env \<Rightarrow> job_row \<Rightarrow> store_error + job_view" where
  "row_view e r = andthen (list_record e r) listed_job_view"

fun read_job_pages ::
    "nat \<Rightarrow> env \<Rightarrow> string \<Rightarrow> job_state list \<Rightarrow> string option \<Rightarrow> int \<Rightarrow> store \<Rightarrow> (store_error + job_view list) option" where
  "read_job_pages 0 e prin states cursor limit s = None"
| "read_job_pages (Suc n) e prin states cursor limit s =
    (case service_list e prin states cursor limit s of
       Inl err \<Rightarrow> Some (Inl err)
     | Inr page \<Rightarrow>
         (case next_cursor page of
            None \<Rightarrow> Some (Inr (page_jobs page))
          | Some c \<Rightarrow> map_option (map_sum id ((@) (page_jobs page))) (read_job_pages n e prin states (Some c) limit s)))"

text \<open>The cursor a row gives, which only depends on its creation time and identifier.\<close>

definition row_cursor :: "job_state list \<Rightarrow> job_row \<Rightarrow> string" where
  "row_cursor states r = encode_cursor \<lparr>li_job = job_from_row r, li_result = None, li_error = None\<rparr> states"

lemma list_record_job: "list_record e r = Inr x \<Longrightarrow> li_job x = job_from_row r"
  by (auto simp: list_record_def result_simps)

lemma cursor_of_record: "list_record e r = Inr x \<Longrightarrow> encode_cursor x states = row_cursor states r"
  using list_record_job [of e r x] by (simp add: row_cursor_def encode_cursor_def)

lemma each_split:
  "each (\<lambda>r. andthen (f r) g) xs = Inr vs \<Longrightarrow>
     \<exists>ys. each f xs = Inr ys \<and> each g ys = Inr vs \<and> length ys = length xs \<and> length vs = length xs"
proof (induction xs arbitrary: vs)
  case (Cons x xs)
  then obtain y z zs where "f x = Inr y" "g y = Inr z" "each (\<lambda>r. andthen (f r) g) xs = Inr zs" "vs = z # zs"
    by (auto simp: result_simps)
  with Cons.IH show ?case by fastforce
qed simp

lemma each_take: "each f xs = Inr ys \<Longrightarrow> each f (take n xs) = Inr (take n ys)"
  by (induction xs arbitrary: ys n) (auto simp: result_simps take_Cons' split: if_splits)

lemma each_drop: "each f xs = Inr ys \<Longrightarrow> each f (drop n xs) = Inr (drop n ys)"
proof (induction xs arbitrary: ys n)
  case (Cons x xs)
  then show ?case by (cases n) (auto simp: result_simps)
qed simp

lemma each_last: "each f xs = Inr ys \<Longrightarrow> xs \<noteq> [] \<Longrightarrow> f (last xs) = Inr (last ys)"
proof (induction xs arbitrary: ys)
  case (Cons x xs)
  then obtain y zs where "f x = Inr y" "each f xs = Inr zs" "ys = y # zs" by (auto simp: result_simps)
  with Cons.IH [of zs] show ?case by (cases xs; cases zs) (auto simp: result_simps)
qed simp

lemma jobs_descending_filter:
  "jobs_descending (\<lambda>r. p r \<and> q r) s = filter q (jobs_descending p s)"
proof -
  have "filter (\<lambda>r. p r \<and> q r) (jobs s) = filter q (filter p (jobs s))" by (simp add: conj_commute)
  then show ?thesis by (simp only: jobs_descending_def filter_sort rev_filter [symmetric])
qed

lemma jobs_strictly_descending:
  assumes "distinct (map job_id (jobs s))"
  shows "sorted_wrt (\<lambda>x y. job_order y < job_order x) (jobs_descending p s)"
proof -
  have "inj_on job_order (set (jobs s))" using assms by (auto simp: distinct_map inj_on_def)
  then have "distinct (map job_order (jobs s))" using assms by (simp add: distinct_map)
  then have "distinct (map job_order (filter p (jobs s)))" by (rule distinct_map_filter)
  then have "sorted_wrt (<) (map job_order (sort_key job_order (filter p (jobs s))))"
    by (simp only: strict_sorted_iff distinct_sort_key sorted_sort_key simp_thms)
  then show ?thesis by (simp add: jobs_descending_def sorted_wrt_map sorted_wrt_rev)
qed

lemma jobs_after_last:
  assumes "distinct (map job_id (jobs s))" and "matching_jobs prin states s = xs @ r # ys"
  shows "jobs_descending (\<lambda>r'. (principal r' = prin \<and> (states \<noteq> [] \<longrightarrow> List.member states (state r'))) \<and> job_order r' < job_order r) s = ys"
proof -
  note list = assms(2) [unfolded matching_jobs_def]
  have sorted: "sorted_wrt (\<lambda>x y. job_order y < job_order x) (xs @ r # ys)"
    using jobs_strictly_descending [OF assms(1)] by (simp only: list [symmetric])
  have "filter (\<lambda>r'. job_order r' < job_order r) (xs @ r # ys) = ys"
    by (rule filter_beyond [OF sorted]) (rule less_not_sym)
  then show ?thesis
    using jobs_descending_filter [of "\<lambda>r'. principal r' = prin \<and> (states \<noteq> [] \<longrightarrow> List.member states (state r'))"
        "\<lambda>r'. job_order r' < job_order r" s] by (simp only: list)
qed

text \<open>One page: the cursor of the row before \<open>ys\<close> (or none at the beginning) lists the first rows of \<open>ys\<close>.\<close>

lemma query_jobs_page:
  assumes "distinct (map job_id (jobs s))" and "matching_jobs prin states s = xs @ ys"
    and "each (list_record e) ys = Inr zs" and "prin \<noteq> []" and "1 \<le> limit"
  shows "query_jobs e prin states (if xs = [] then None else Some (created_at (last xs)))
      (if xs = [] then None else Some (job_id (last xs))) limit s = Inr (take (nat limit) zs)"
proof (cases "xs = []")
  case True
  then show ?thesis using assms each_take [OF assms(3), of "nat limit"]
    by (simp add: query_jobs_def matching_jobs_def)
next
  case False
  then have "matching_jobs prin states s = butlast xs @ last xs # ys" using assms(2) by simp
  moreover have lex: "job_order r < job_order q \<longleftrightarrow> created_at r < created_at q \<or> created_at r = created_at q \<and> job_id r < job_id q"
    for r q :: job_row by auto
  ultimately have "jobs_descending (\<lambda>r. principal r = prin \<and> (states \<noteq> [] \<longrightarrow> List.member states (state r))
      \<and> (created_at r < created_at (last xs) \<or> created_at r = created_at (last xs) \<and> job_id r < job_id (last xs))) s = ys"
    using jobs_after_last [OF assms(1)] unfolding lex conj_assoc by blast
  then show ?thesis using assms False each_take [OF assms(3), of "nat limit"]
    by (simp add: query_jobs_def)
qed

lemma service_list_page:
  assumes "distinct (map job_id (jobs s))" and "matching_jobs prin (normalize_states states) s = xs @ ys"
    and "each (row_view e) ys = Inr vs" and "\<not> blank prin" and "length prin \<le> 512" and "1 \<le> limit" and "limit \<le> MAX_JOB_PAGE_SIZE"
    and cursors: "\<forall>r \<in> set xs. created_at r \<noteq> [] \<and> job_id r \<noteq> [] \<and> length (row_cursor (normalize_states states) r) \<le> MAX_CURSOR_LENGTH"
  shows "service_list e prin states (if xs = [] then None else Some (row_cursor (normalize_states states) (last xs))) limit s =
    Inr \<lparr>page_jobs = take (nat limit) vs,
         next_cursor = (if nat limit < length ys then Some (row_cursor (normalize_states states) (last (take (nat limit) ys))) else None)\<rparr>"
proof -
  let ?ss = "normalize_states states" and ?k = "nat limit"
  have k: "1 \<le> ?k" "nat (limit + 1) = Suc ?k" using assms(6) by auto
  obtain zs where zs: "each (list_record e) ys = Inr zs" "each listed_job_view zs = Inr vs" "length zs = length ys"
    using each_split [of "list_record e" listed_job_view ys vs] assms(3) unfolding row_view_def by blast
  have before: "optional (\<lambda>c. decode_cursor e c ?ss) (if xs = [] then None else Some (row_cursor ?ss (last xs)))
      = Inr (if xs = [] then None else Some (created_at (last xs), job_id (last xs)))"
  proof (cases "xs = []")
    case False
    then have "last xs \<in> set xs" by simp
    with cursors have "created_at (last xs) \<noteq> []" "job_id (last xs) \<noteq> []" "length (row_cursor ?ss (last xs)) \<le> MAX_CURSOR_LENGTH"
      by blast+
    then show ?thesis
      using False decode_encode_cursor [of "\<lparr>li_job = job_from_row (last xs), li_result = None, li_error = None\<rparr>" ?ss e ?ss]
      by (simp add: optional_def row_cursor_def job_from_row_def)
  qed (simp add: optional_def)
  have prin: "prin \<noteq> []" using assms(4) by auto
  have query: "query_jobs e prin ?ss (map_option fst (if xs = [] then None else Some (created_at (last xs), job_id (last xs))))
      (map_option snd (if xs = [] then None else Some (created_at (last xs), job_id (last xs)))) (limit + 1) s = Inr (take (Suc ?k) zs)"
    using query_jobs_page [OF assms(1,2) zs(1) prin, of "limit + 1"] assms(6) k(2) by (cases "xs = []") auto
  have visible: "take ?k (take (Suc ?k) zs) = take ?k zs" by simp
  have more: "(?k < length (take (Suc ?k) zs) \<and> take ?k zs \<noteq> []) = (?k < length ys)" using k(1) zs(3) by auto
  have cursor: "encode_cursor (last (take ?k zs)) ?ss = row_cursor ?ss (last (take ?k ys))" if "?k < length ys"
  proof -
    have "take ?k ys \<noteq> []" using that k(1) by auto
    from each_last [OF each_take [OF zs(1), of ?k] this] show ?thesis by (rule cursor_of_record)
  qed
  have valid: "validate_identity prin ''job_principal_invalid'' = Inr ()" "validate_limit limit MAX_JOB_PAGE_SIZE ''job_list_limit_invalid'' = Inr ()"
    using assms(4-7) by (simp_all add: validate_identity_def validate_limit_def)
  show ?thesis
    unfolding service_list_def Let_def valid andthen_Inr before query visible more each_take [OF zs(2), of ?k]
    using cursor by simp
qed

lemma read_job_pages_exact:
  assumes "distinct (map job_id (jobs s))" and "\<not> blank prin" and "length prin \<le> 512" and "1 \<le> limit" and "limit \<le> MAX_JOB_PAGE_SIZE"
    and cursors: "\<forall>r \<in> set (matching_jobs prin (normalize_states states) s).
      created_at r \<noteq> [] \<and> job_id r \<noteq> [] \<and> length (row_cursor (normalize_states states) r) \<le> MAX_CURSOR_LENGTH"
  shows "matching_jobs prin (normalize_states states) s = xs @ ys \<Longrightarrow> each (row_view e) ys = Inr vs \<Longrightarrow> length ys < n \<Longrightarrow>
    read_job_pages n e prin states (if xs = [] then None else Some (row_cursor (normalize_states states) (last xs))) limit s = Some (Inr vs)"
proof (induction n arbitrary: xs ys vs)
  case (Suc n)
  let ?k = "nat limit" and ?ss = "normalize_states states"
  have seen: "\<forall>r \<in> set xs. created_at r \<noteq> [] \<and> job_id r \<noteq> [] \<and> length (row_cursor ?ss r) \<le> MAX_CURSOR_LENGTH"
    using cursors Suc.prems(1) by simp
  note page = service_list_page [OF assms(1) Suc.prems(1,2) assms(2-5) seen]
  have lengths: "length vs = length ys" using each_split Suc.prems(2) unfolding row_view_def by metis
  show ?case
  proof (cases "?k < length ys")
    case True
    have rows: "matching_jobs prin ?ss s = (xs @ take ?k ys) @ drop ?k ys" using Suc.prems(1) by simp
    have "take ?k ys \<noteq> []" using True assms(4) by auto
    then have more: "xs @ take ?k ys \<noteq> []" "last (xs @ take ?k ys) = last (take ?k ys)" by simp_all
    have "length (drop ?k ys) < n" using Suc.prems(3) True assms(4) by simp
    from Suc.IH [OF rows each_drop [OF Suc.prems(2)] this]
    have "read_job_pages n e prin states (Some (row_cursor ?ss (last (take ?k ys)))) limit s = Some (Inr (drop ?k vs))"
      using more(1) unfolding more(2) by (simp only: if_not_P if_False)
    then show ?thesis using True by (simp add: page)
  next
    case False
    then show ?thesis using lengths by (simp add: page)
  qed
qed simp

text \<open>C18: A reader of a principal's jobs who passes on the cursor of every page gets every job that matches the filter once, the
  latest first, whatever the size of the pages, and needs no more pages than there are such jobs. It asks that the views of
  the rows are consistent and that their cursors fit the length the service accepts.\<close>

theorem job_pages_are_complete:
  assumes "reachable s" and "\<not> blank prin" and "length prin \<le> 512" and "1 \<le> limit" and "limit \<le> MAX_JOB_PAGE_SIZE"
    and "each (row_view e) (matching_jobs prin (normalize_states states) s) = Inr views"
    and "\<forall>r \<in> set (matching_jobs prin (normalize_states states) s).
      created_at r \<noteq> [] \<and> job_id r \<noteq> [] \<and> length (row_cursor (normalize_states states) r) \<le> MAX_CURSOR_LENGTH"
    and "length (matching_jobs prin (normalize_states states) s) < n"
  shows "read_job_pages n e prin states None limit s = Some (Inr views)"
proof -
  have "distinct (map job_id (jobs s))" using reachable_ok [OF assms(1)] by (simp add: store_ok_def ids_ok_def)
  from read_job_pages_exact [OF this assms(2-5,7), of "[]", OF _ assms(6,8)] show ?thesis by simp
qed

definition demo_two_jobs :: "(env \<times> command) list" where
  "demo_two_jobs = map (Pair (demo_env 1000)) [demo_create, CreateJob ''h2'' None ''p'' None None [] None ENGINE]"

theorem job_pages_are_complete_witness:
  "\<exists>views. each (row_view (demo_env 0)) (matching_jobs ''p'' [] (demo_store demo_two_jobs)) = Inr views
     \<and> map (\<lambda>v. sn_job_id (snapshot v)) views = [''jobB'', ''jobA'']
     \<and> read_job_pages 5 (demo_env 0) ''p'' [] None 1 (demo_store demo_two_jobs) = Some (Inr views)"
proof -
  have "case run_commands demo_two_jobs empty_store of Inl _ \<Rightarrow> False
     | Inr s \<Rightarrow> (case each (row_view (demo_env 0)) (matching_jobs ''p'' [] s) of
           Inl _ \<Rightarrow> False | Inr views \<Rightarrow> map (\<lambda>v. sn_job_id (snapshot v)) views = [''jobB'', ''jobA''])
         \<and> list_all (\<lambda>r. created_at r \<noteq> [] \<and> job_id r \<noteq> [] \<and> length (row_cursor [] r) \<le> MAX_CURSOR_LENGTH) (matching_jobs ''p'' [] s)
         \<and> length (matching_jobs ''p'' [] s) < 5"
    by code_simp
  note facts = demo_facts(2) [OF this]
  obtain views where views: "each (row_view (demo_env 0)) (matching_jobs ''p'' [] (demo_store demo_two_jobs)) = Inr views"
      "map (\<lambda>v. sn_job_id (snapshot v)) views = [''jobB'', ''jobA'']"
    using facts by (auto split: sum.splits)
  have "normalize_states [] = []" by (simp add: normalize_states_def)
  with job_pages_are_complete [OF demo_reachable, of "''p''" 1 "demo_env 0" "[]" demo_two_jobs views 5] views facts
  show ?thesis by (simp add: blank_def py_space_def MAX_JOB_PAGE_SIZE_def list_all_iff)
qed

end
