(* ===== verification/Webp.thy ===== *)
theory Webp
  imports JobModel "HOL-Library.Word"
begin

unbundle bit_operations_syntax

text \<open>
  The WebP images of a bundle: \<open>core/portable/webp.py\<close>, which decides whether a file is a complete still image in a
  RIFF container, and \<open>core/portable/webp_dimensions.py\<close>, which reads its size. A file is the list of its bytes.
\<close>

type_synonym byte = "8 word"

definition ascii :: "string \<Rightarrow> byte list" where
  "ascii s = map (\<lambda>c. word_of_nat (of_char c)) s"

text \<open>\<open>payload[start:end]\<close> and \<open>int.from_bytes(..., "little")\<close>\<close>

definition slice :: "nat \<Rightarrow> nat \<Rightarrow> byte list \<Rightarrow> byte list" where
  "slice a b p = take (b - a) (drop a p)"

fun le_int :: "byte list \<Rightarrow> nat" where
  "le_int [] = 0"
| "le_int (b # bs) = unat b + 256 * le_int bs"

abbreviation RIFF :: "byte list" where "RIFF \<equiv> ascii ''RIFF''"
abbreviation WEBP :: "byte list" where "WEBP \<equiv> ascii ''WEBP''"
abbreviation VP8 :: "byte list" where "VP8 \<equiv> ascii ''VP8 ''"
abbreviation VP8L :: "byte list" where "VP8L \<equiv> ascii ''VP8L''"
abbreviation VP8X :: "byte list" where "VP8X \<equiv> ascii ''VP8X''"
abbreviation ICCP :: "byte list" where "ICCP \<equiv> ascii ''ICCP''"
abbreviation ALPH :: "byte list" where "ALPH \<equiv> ascii ''ALPH''"
abbreviation EXIF :: "byte list" where "EXIF \<equiv> ascii ''EXIF''"
abbreviation XMP :: "byte list" where "XMP \<equiv> ascii ''XMP ''"

definition IMAGE_CHUNKS :: "byte list list" where
  "IMAGE_CHUNKS = [VP8, VP8L]"

definition EXTENDED_CHUNKS :: "byte list list" where
  "EXTENDED_CHUNKS = [ICCP, ALPH, VP8, VP8L, EXIF, XMP]"

type_synonym chunk = "byte list \<times> byte list"

section \<open>Bit streams\<close>

definition vp8_start_code :: "byte list" where
  "vp8_start_code = [0x9d, 0x01, 0x2a]"

definition vp8_width :: "byte list \<Rightarrow> nat" where
  "vp8_width p = le_int (slice 6 8 p) AND 0x3FFF"

definition vp8_height :: "byte list \<Rightarrow> nat" where
  "vp8_height p = le_int (slice 8 10 p) AND 0x3FFF"

definition valid_vp8 :: "byte list \<Rightarrow> bool" where
  "valid_vp8 p =
    (if length p < 10 \<or> p ! 0 AND 1 \<noteq> 0 \<or> slice 3 6 p \<noteq> vp8_start_code then False
     else 0 < vp8_width p \<and> 0 < vp8_height p)"

definition vp8l_alpha :: "byte list \<Rightarrow> bool option" where
  "vp8l_alpha p =
    (if length p < 5 \<or> p ! 0 \<noteq> 0x2F then None
     else let header = le_int (slice 1 5 p) in
       if drop_bit 29 header \<noteq> 0 then None else Some (bit header 28))"

section \<open>The container\<close>

function webp_chunks :: "byte list \<Rightarrow> nat \<Rightarrow> (chunk list \<times> nat) option" where
  "webp_chunks p offset =
    (if offset < length p then
       if length p < offset + 8 then None
       else let tag = slice offset (offset + 4) p; ln = le_int (slice (offset + 4) (offset + 8) p);
                start = offset + 8; fin = start + ln; padded_end = fin + ln mod 2
            in if ln = 0 then None
               else if length p < fin \<or> length p < padded_end then None
               else if odd ln \<and> p ! fin \<noteq> 0 then None
               else map_option (apfst ((#) (tag, slice start fin p))) (webp_chunks p padded_end)
     else Some ([], offset))"
  by pat_completeness auto
termination
  by (relation "measure (\<lambda>(p, offset). length p - offset)") auto

declare webp_chunks.simps [simp del]

text \<open>An optional chunk at the present place: whether it is there, and the chunks behind it.\<close>

definition eat :: "byte list \<Rightarrow> byte list list \<Rightarrow> bool \<times> byte list list" where
  "eat tag tags = (case tags of t # rest \<Rightarrow> if t = tag then (True, rest) else (False, tags) | [] \<Rightarrow> (False, []))"

definition flag :: "bool \<Rightarrow> byte \<Rightarrow> byte" where
  "flag b n = (if b then n else 0)"

text \<open>The file with a \<open>VP8X\<close> header: its flags must announce exactly the chunks that follow, in the one order allowed.\<close>

definition valid_extended :: "byte list \<Rightarrow> byte list list \<Rightarrow> byte list \<Rightarrow> bool \<Rightarrow> bool" where
  "valid_extended header tags image_tag intrinsic_alpha =
    (if length header \<noteq> 10 \<or> header ! 0 AND 0xC1 \<noteq> 0 \<or> slice 1 4 header \<noteq> [0, 0, 0] \<or> header ! 0 AND 0x02 \<noteq> 0 then False
     else if \<not> list_all (List.member EXTENDED_CHUNKS) tags then False
     else if \<not> distinct tags then False
     else let (has_iccp, tags1) = eat ICCP tags;
              (has_alpha, image_next, tags2) =
                (if image_tag = VP8L then let (found, r) = eat VP8L tags1 in (intrinsic_alpha, found, r)
                 else let (alph, r) = eat ALPH tags1; (found, r') = eat VP8 r in (alph, found, r'))
          in if \<not> image_next then False
             else let (has_exif, tags3) = eat EXIF tags2; (has_xmp, tags4) = eat XMP tags3
                  in tags4 = [] \<and>
                     header ! 0 = flag has_iccp 0x20 OR flag has_alpha 0x10 OR flag has_exif 0x08 OR flag has_xmp 0x04)"

definition is_image_chunk :: "chunk \<Rightarrow> bool" where
  "is_image_chunk c = List.member IMAGE_CHUNKS (fst c)"

definition valid_chunks :: "chunk list \<Rightarrow> bool" where
  "valid_chunks chunks =
    (case filter is_image_chunk chunks of
       [(image_tag, frame)] \<Rightarrow>
         if image_tag = VP8 \<and> \<not> valid_vp8 frame then False
         else if image_tag = VP8L \<and> vp8l_alpha frame = None then False
         else if fst (hd chunks) \<noteq> VP8X then length chunks = 1 \<and> List.member IMAGE_CHUNKS (fst (hd chunks))
         else valid_extended (snd (hd chunks)) (map fst (tl chunks)) image_tag
                (image_tag = VP8L \<and> vp8l_alpha frame = Some True)
     | _ \<Rightarrow> False)"

definition is_valid_webp :: "byte list \<Rightarrow> bool" where
  "is_valid_webp p =
    (if length p < 25 \<or> slice 0 4 p \<noteq> RIFF \<or> slice 8 12 p \<noteq> WEBP \<or> le_int (slice 4 8 p) \<noteq> length p - 8 then False
     else case webp_chunks p 12 of
       None \<Rightarrow> False
     | Some (chunks, offset) \<Rightarrow> chunks \<noteq> [] \<and> offset = length p \<and> valid_chunks chunks)"

section \<open>Dimensions\<close>

function scan_dimensions :: "byte list \<Rightarrow> nat \<Rightarrow> (nat \<times> nat) option" where
  "scan_dimensions p offset =
    (if offset + 8 \<le> length p then
       let kind = slice offset (offset + 4) p; size' = le_int (slice (offset + 4) (offset + 8) p);
           data = slice (offset + 8) (offset + 8 + size') p
       in if length data \<noteq> size' then None
          else if kind = VP8X \<and> 10 \<le> length data
          then Some (1 + le_int (slice 4 7 data), 1 + le_int (slice 7 10 data))
          else if kind = VP8L \<and> 5 \<le> length data \<and> data ! 0 = 0x2f
          then let bits = le_int (slice 1 5 data) in Some (1 + (bits AND 0x3fff), 1 + (drop_bit 14 bits AND 0x3fff))
          else if kind = VP8 \<and> 10 \<le> length data \<and> slice 3 6 data = vp8_start_code
          then if vp8_width data \<noteq> 0 \<and> vp8_height data \<noteq> 0 then Some (vp8_width data, vp8_height data) else None
          else scan_dimensions p (offset + 8 + size' + size' mod 2)
     else None)"
  by pat_completeness auto
termination
  by (relation "measure (\<lambda>(p, offset). length p - offset)") auto

declare scan_dimensions.simps [simp del]

definition webp_dimensions :: "byte list \<Rightarrow> store_error + (nat \<times> nat)" where
  "webp_dimensions p =
    (case (if slice 0 4 p = RIFF \<and> slice 8 12 p = WEBP then scan_dimensions p 12 else None) of
       Some wh \<Rightarrow> Inr wh
     | None \<Rightarrow> invalid ''model_image_dimensions_invalid'')"

end
