(* ===== verification/WebpProperties.thy ===== *)
theory WebpProperties
  imports Webp
begin

unbundle bit_operations_syntax

text \<open>
  What the validation of images means: the accepted files are exactly the RIFF containers of the chunk lists that the
  grammar of still WebP images allows, and the size of every accepted file can be read.
\<close>

section \<open>Writing a container\<close>

definition le4 :: "nat \<Rightarrow> byte list" where
  "le4 n = [word_of_nat n, word_of_nat (n div 256), word_of_nat (n div 65536), word_of_nat (n div 16777216)]"

definition chunk_bytes :: "chunk \<Rightarrow> byte list" where
  "chunk_bytes c = fst c @ le4 (length (snd c)) @ snd c @ (if odd (length (snd c)) then [0] else [])"

definition body_bytes :: "chunk list \<Rightarrow> byte list" where
  "body_bytes cs = concat (map chunk_bytes cs)"

definition riff :: "chunk list \<Rightarrow> byte list" where
  "riff cs = RIFF @ le4 (4 + length (body_bytes cs)) @ WEBP @ body_bytes cs"

definition chunk_ok :: "chunk \<Rightarrow> bool" where
  "chunk_ok c \<longleftrightarrow> length (fst c) = 4 \<and> snd c \<noteq> [] \<and> length (snd c) < 2 ^ 32"

lemma body_bytes_simps [simp]: "body_bytes [] = []" "body_bytes (c # cs) = chunk_bytes c @ body_bytes cs"
  by (simp_all add: body_bytes_def)

lemma length_le4 [simp]: "length (le4 n) = 4"
  by (simp add: le4_def)

lemma unat_byte: "unat (word_of_nat n :: byte) = n mod 256"
  by (simp add: unat_of_nat)

lemma base_256:
  fixes n :: nat
  assumes "n < 2 ^ 32"
  shows "n mod 256 + 256 * (n div 256 mod 256 + 256 * (n div 65536 mod 256 + 256 * (n div 16777216 mod 256))) = n"
proof -
  have d: "n div 65536 = n div 256 div 256" "n div 16777216 = n div 256 div 256 div 256"
    by (simp_all add: div_mult2_eq [symmetric])
  have "n div 256 div 256 div 256 < 256" using assms by (simp add: div_mult2_eq [symmetric] less_mult_imp_div_less)
  then have "n div 256 div 256 mod 256 + 256 * (n div 256 div 256 div 256 mod 256) = n div 256 div 256"
    by (simp only: mod_less mod_mult_div_eq)
  then have "n div 256 mod 256 + 256 * (n div 65536 mod 256 + 256 * (n div 16777216 mod 256)) = n div 256"
    by (simp only: d mod_mult_div_eq)
  then show ?thesis by (simp only: mod_mult_div_eq)
qed

lemma le_int_le4: "n < 2 ^ 32 \<Longrightarrow> le_int (le4 n) = n"
  using base_256 [of n] by (simp only: le4_def le_int.simps unat_byte mult_0_right add_0_right)

lemma unat_byte_less: "unat (b :: byte) < 256"
  using unsigned_less [of b] by simp

lemma digit_div: "(unat (w :: byte) + 256 * m) div 256 = m"
  using unat_byte_less [of w] by simp

lemma digit_word: "word_of_nat (unat (w :: byte) + 256 * m) = w"
proof -
  have "unat (word_of_nat (unat w + 256 * m) :: byte) = unat w"
    using unat_byte_less [of w] by (simp only: unat_byte mod_mult_self2 mod_less)
  then show ?thesis by (rule word_unat_eq_iff [THEN iffD2])
qed

lemma le4_le_int:
  assumes "length bs = 4"
  shows "le4 (le_int bs) = bs" and "le_int bs < 2 ^ 32"
proof -
  obtain a b c d where bs: "bs = [a, b, c, d]" using assms by (auto simp: length_Suc_conv numeral_eq_Suc)
  have small: "unat a < 256" "unat b < 256" "unat c < 256" "unat d < 256"
    by (rule unat_byte_less)+
  then show "le_int bs < 2 ^ 32" by (simp add: bs)
  have n: "le_int bs = unat a + 256 * (unat b + 256 * (unat c + 256 * unat d))" by (simp add: bs)
  have "le_int bs div 65536 = le_int bs div 256 div 256" "le_int bs div 16777216 = le_int bs div 256 div 256 div 256"
    by (simp_all add: div_mult2_eq [symmetric])
  then show "le4 (le_int bs) = bs"
    unfolding le4_def n by (simp only: digit_div digit_word bs) simp
qed

section \<open>The chunks of a file\<close>

lemma slice_at: "p = a @ b @ c \<Longrightarrow> length a = i \<Longrightarrow> length b = j - i \<Longrightarrow> slice i j p = b"
  by (simp add: slice_def)

lemma drop_slice: "a \<le> b \<Longrightarrow> drop a p = slice a b p @ drop b p"
  by (metis slice_def append_take_drop_id drop_drop le_add_diff_inverse2)

lemma length_slice: "b \<le> length p \<Longrightarrow> length (slice a b p) = b - a"
  by (simp add: slice_def)

lemma webp_chunks_read:
  assumes "webp_chunks p offset = Some (cs, fin)" and "offset \<le> length p"
  shows "fin = length p \<and> drop offset p = body_bytes cs \<and> list_all chunk_ok cs"
  using assms
proof (induction p offset arbitrary: cs rule: webp_chunks.induct)
  case (1 p offset)
  show ?case
  proof (cases "offset < length p")
    case False
    then have "webp_chunks p offset = Some ([], offset)" by (subst webp_chunks.simps) simp
    with 1(2,3) False show ?thesis by simp
  next
    case True
    define tag where "tag = slice offset (offset + 4) p"
    define ln where "ln = le_int (slice (offset + 4) (offset + 8) p)"
    define start where "start = offset + 8"
    define fin' where "fin' = start + ln"
    define padded where "padded = fin' + ln mod 2"
    obtain rest where r: "offset + 8 \<le> length p" "ln \<noteq> 0" "fin' \<le> length p" "padded \<le> length p" "odd ln \<longrightarrow> p ! fin' = 0"
        "webp_chunks p padded = Some (rest, fin)" "cs = (tag, slice start fin' p) # rest"
      using 1(2) True unfolding webp_chunks.simps [of p offset]
      by (auto simp: Let_def tag_def ln_def start_def fin'_def padded_def apfst_def map_prod_def not_less split: if_splits prod.splits)
    have "fin = length p \<and> drop padded p = body_bytes rest \<and> list_all chunk_ok rest"
      unfolding padded_def fin'_def start_def ln_def
      by (rule 1(1) [OF True _ refl refl refl refl refl])
        (use r in \<open>auto simp: ln_def start_def fin'_def padded_def not_less\<close>)
    moreover have "chunk_ok (tag, slice start fin' p)"
      using r(1-3) le4_le_int(2) [of "slice (offset + 4) (offset + 8) p"] length_slice [of "offset + 8" p "offset + 4"]
        length_slice [of "offset + 4" p offset] length_slice [of fin' p start]
      by (auto simp: chunk_ok_def tag_def ln_def fin'_def)
    moreover have "drop offset p = chunk_bytes (tag, slice start fin' p) @ drop padded p"
    proof -
      have "le4 (length (slice start fin' p)) = slice (offset + 4) (offset + 8) p"
        using r(1,3) le4_le_int(1) [of "slice (offset + 4) (offset + 8) p"] length_slice [of "offset + 8" p "offset + 4"]
          length_slice [of fin' p start] by (simp add: fin'_def ln_def)
      moreover have "drop fin' p = (if odd ln then [0] else []) @ drop padded p"
      proof (cases "odd ln")
        case True
        then have "padded = Suc fin'" by (simp add: padded_def odd_iff_mod_2_eq_one)
        moreover have "drop fin' p = p ! fin' # drop (Suc fin') p"
          using r(4) \<open>padded = Suc fin'\<close> by (intro Cons_nth_drop_Suc [symmetric]) simp
        ultimately show ?thesis using True r(5) by simp
      next
        case False
        then show ?thesis by (simp add: padded_def)
      qed
      moreover have "odd (length (slice start fin' p)) = odd ln" using r(3) by (simp add: length_slice fin'_def)
      moreover have "drop offset p = tag @ slice (offset + 4) (offset + 8) p @ slice start fin' p @ drop fin' p"
        using drop_slice [of offset "offset + 4" p] drop_slice [of "offset + 4" "offset + 8" p] drop_slice [of start fin' p]
        by (simp add: tag_def start_def fin'_def)
      ultimately show ?thesis by (simp add: chunk_bytes_def)
    qed
    ultimately show ?thesis using r(7) by simp
  qed
qed

lemma webp_chunks_written:
  assumes "list_all chunk_ok cs"
  shows "webp_chunks (pre @ body_bytes cs) (length pre) = Some (cs, length (pre @ body_bytes cs))"
  using assms
proof (induction cs arbitrary: pre)
  case Nil
  show ?case by (subst webp_chunks.simps) simp
next
  case (Cons c cs)
  obtain tag d where c: "c = (tag, d)" by fastforce
  then have d: "length tag = 4" "d \<noteq> []" "length d < 2 ^ 32" using Cons.prems by (simp_all add: chunk_ok_def)
  let ?p = "pre @ body_bytes (c # cs)" and ?pad = "(if odd (length d) then [0] else []) :: byte list" and ?n = "length pre"
  have p: "?p = pre @ tag @ le4 (length d) @ d @ ?pad @ body_bytes cs" by (simp add: c chunk_bytes_def)
  have tag: "slice ?n (?n + 4) ?p = tag" by (rule slice_at [OF p]) (simp_all add: d(1))
  have size: "slice (?n + 4) (?n + 8) ?p = le4 (length d)"
    by (rule slice_at [of _ "pre @ tag" _ "d @ ?pad @ body_bytes cs"]) (simp_all add: c chunk_bytes_def d(1))
  have data: "slice (?n + 8) (?n + 8 + length d) ?p = d"
    by (rule slice_at [of _ "pre @ tag @ le4 (length d)" _ "?pad @ body_bytes cs"]) (simp_all add: c chunk_bytes_def d(1))
  have total: "length ?p = ?n + 8 + length d + length d mod 2 + length (body_bytes cs)"
    unfolding p using d(1) by (simp add: mod_2_eq_odd)
  have pad: "?p ! (?n + 8 + length d) = 0" if "odd (length d)"
    using that d(1) nth_append_length [of "pre @ tag @ le4 (length d) @ d" 0 "body_bytes cs"] unfolding p by (simp add: add.assoc)
  have rest: "webp_chunks ?p (?n + 8 + length d + length d mod 2) = Some (cs, length ?p)"
    using Cons.IH [of "pre @ tag @ le4 (length d) @ d @ ?pad"] Cons.prems d(1) unfolding p
    by (cases "odd (length d)") (simp_all add: ac_simps mod_2_eq_odd)
  have "webp_chunks ?p ?n = map_option (apfst ((#) (tag, d))) (webp_chunks ?p (?n + 8 + length d + length d mod 2))"
    using total tag size data pad d(2) le_int_le4 [OF d(3)]
    by (subst webp_chunks.simps) (auto simp: Let_def simp del: body_bytes_simps)
  then show ?case unfolding rest by (simp add: c)
qed

section \<open>The grammar of still images\<close>

definition opt_chunk :: "byte list \<Rightarrow> byte list option \<Rightarrow> chunk list" where
  "opt_chunk tag x = (case x of None \<Rightarrow> [] | Some d \<Rightarrow> [(tag, d)])"

definition extended_header :: "bool \<Rightarrow> bool \<Rightarrow> bool \<Rightarrow> bool \<Rightarrow> byte list \<Rightarrow> chunk" where
  "extended_header iccp alpha exif xmp canvas =
     (VP8X, [flag iccp 0x20 OR flag alpha 0x10 OR flag exif 0x08 OR flag xmp 0x04, 0, 0, 0] @ canvas)"

text \<open>
  A single lossy or lossless bit stream, or an extended file: its header announces an ICC profile, transparency, Exif and XMP
  metadata exactly when they are there, in this order around the one bit stream.
\<close>

inductive still_webp :: "chunk list \<Rightarrow> bool" where
  lossy: "valid_vp8 d \<Longrightarrow> still_webp [(VP8, d)]"
| lossless: "vp8l_alpha d \<noteq> None \<Longrightarrow> still_webp [(VP8L, d)]"
| extended_lossy: "valid_vp8 d \<Longrightarrow> length canvas = 6 \<Longrightarrow>
    still_webp (extended_header (i \<noteq> None) (a \<noteq> None) (e \<noteq> None) (x \<noteq> None) canvas
      # opt_chunk ICCP i @ opt_chunk ALPH a @ [(VP8, d)] @ opt_chunk EXIF e @ opt_chunk XMP x)"
| extended_lossless: "vp8l_alpha d = Some alpha \<Longrightarrow> length canvas = 6 \<Longrightarrow>
    still_webp (extended_header (i \<noteq> None) alpha (e \<noteq> None) (x \<noteq> None) canvas
      # opt_chunk ICCP i @ [(VP8L, d)] @ opt_chunk EXIF e @ opt_chunk XMP x)"

lemma tags_differ [simp]:
  "VP8 \<noteq> VP8L" "VP8 \<noteq> VP8X" "VP8 \<noteq> ICCP" "VP8 \<noteq> ALPH" "VP8 \<noteq> EXIF" "VP8 \<noteq> XMP" "VP8L \<noteq> VP8X" "VP8L \<noteq> ICCP"
  "VP8L \<noteq> ALPH" "VP8L \<noteq> EXIF" "VP8L \<noteq> XMP" "VP8X \<noteq> ICCP" "VP8X \<noteq> ALPH" "VP8X \<noteq> EXIF" "VP8X \<noteq> XMP" "ICCP \<noteq> ALPH"
  "ICCP \<noteq> EXIF" "ICCP \<noteq> XMP" "ALPH \<noteq> EXIF" "ALPH \<noteq> XMP" "EXIF \<noteq> XMP"
  by (simp_all add: ascii_def)

lemmas tags_differ' [simp] = tags_differ [symmetric]

lemma eat_Cons [simp]: "eat t (t' # ts) = (if t' = t then (True, ts) else (False, t' # ts))"
  and eat_Nil [simp]: "eat t [] = (False, [])"
  by (simp_all add: eat_def)

lemma still_webp_valid: "still_webp cs \<Longrightarrow> valid_chunks cs"
proof (induction rule: still_webp.induct)
  case (extended_lossy d canvas i a e x)
  then show ?case
    by (cases i; cases a; cases e; cases x)
      (simp_all add: valid_chunks_def valid_extended_def extended_header_def opt_chunk_def is_image_chunk_def IMAGE_CHUNKS_def EXTENDED_CHUNKS_def
        flag_def slice_def Let_def)
next
  case (extended_lossless d alpha canvas i e x)
  then show ?case
    by (cases i; cases e; cases x; cases alpha)
      (simp_all add: valid_chunks_def valid_extended_def extended_header_def opt_chunk_def is_image_chunk_def IMAGE_CHUNKS_def EXTENDED_CHUNKS_def
        flag_def slice_def Let_def)
qed (simp_all add: valid_chunks_def is_image_chunk_def IMAGE_CHUNKS_def)

text \<open>Conversely: what the checks leave is one of the four shapes.\<close>

lemma eat_chunks:
  assumes "eat tag (map fst cs) = (b, rest)"
  obtains o' cs' where "cs = opt_chunk tag o' @ cs'" "rest = map fst cs'" "b = (o' \<noteq> None)"
proof (cases "cs = [] \<or> fst (hd cs) \<noteq> tag")
  case True
  then have "cs = opt_chunk tag None @ cs" "rest = map fst cs" "b = (None \<noteq> None)"
    using assms by (auto simp: opt_chunk_def eat_def split: list.splits)
  then show ?thesis by (rule that)
next
  case False
  then obtain d cs' where "cs = (tag, d) # cs'" by (cases cs) auto
  then have "cs = opt_chunk tag (Some d) @ cs'" "rest = map fst cs'" "b = (Some d \<noteq> None)"
    using assms by (auto simp: opt_chunk_def)
  then show ?thesis by (rule that)
qed

lemma eat_found:
  fixes cs :: "chunk list"
  assumes "eat tag (map fst cs) = (True, rest)"
  obtains d cs' where "cs = (tag, d) # cs'" "rest = map fst cs'"
proof -
  from eat_chunks [OF assms] obtain o' cs' where e: "cs = opt_chunk tag o' @ cs'" "rest = map fst cs'" "True = (o' \<noteq> None)" .
  then obtain d where "o' = Some d" by auto
  with e(1) have "cs = (tag, d) # cs'" by (simp add: opt_chunk_def)
  then show thesis using e(2) by (rule that)
qed

lemma header_shape:
  assumes "length h = 10" and "slice 1 4 h = [0, 0, 0]"
  obtains canvas where "h = [h ! 0, 0, 0, 0] @ canvas" "length canvas = 6"
proof
  obtain a b c d r where h: "h = a # b # c # d # r" "length r = 6"
    using assms(1) by (auto simp: length_Suc_conv numeral_eq_Suc)
  then show "h = [h ! 0, 0, 0, 0] @ drop 4 h" "length (drop 4 h) = 6" using assms(2) by (simp_all add: slice_def)
qed

lemma image_chunks_opt:
  "tag \<noteq> VP8 \<Longrightarrow> tag \<noteq> VP8L \<Longrightarrow> filter is_image_chunk (opt_chunk tag x) = []"
  by (simp add: opt_chunk_def is_image_chunk_def IMAGE_CHUNKS_def split: option.splits)

lemma valid_extended_shape:
  assumes "valid_extended h (map fst cs) t alpha" and "t = VP8 \<or> t = VP8L"
  obtains canvas i a d e x where "length canvas = 6"
    "cs = opt_chunk ICCP i @ (if t = VP8 then opt_chunk ALPH a else []) @ [(t, d)] @ opt_chunk EXIF e @ opt_chunk XMP x"
    "(VP8X, h) = extended_header (i \<noteq> None) (if t = VP8 then a \<noteq> None else alpha) (e \<noteq> None) (x \<noteq> None) canvas"
proof -
  have shape: "length h = 10" "slice 1 4 h = [0, 0, 0]" using assms(1) by (simp_all add: valid_extended_def split: if_splits)
  from header_shape [OF shape] obtain canvas where canvas: "h = [h ! 0, 0, 0, 0] @ canvas" "length canvas = 6" .
  obtain bi t1 where e1: "eat ICCP (map fst cs) = (bi, t1)" by fastforce
  from eat_chunks [OF e1] obtain i c1 where c1: "cs = opt_chunk ICCP i @ c1" "t1 = map fst c1" "bi = (i \<noteq> None)" .
  obtain ba t2 where e2: "eat ALPH (map fst c1) = (ba, t2)" by fastforce
  from eat_chunks [OF e2] obtain a c2 where c2: "c1 = opt_chunk ALPH a @ c2" "t2 = map fst c2" "ba = (a \<noteq> None)" .
  define c3 where "c3 = (if t = VP8 then c2 else c1)"
  obtain bt t3 where e3: "eat t (map fst c3) = (bt, t3)" by fastforce
  obtain be t4 where e4: "eat EXIF t3 = (be, t4)" by fastforce
  obtain bx t5 where e5: "eat XMP t4 = (bx, t5)" by fastforce
  have all: "bt" "t5 = []"
    "h ! 0 = flag bi 0x20 OR flag (if t = VP8 then ba else alpha) 0x10 OR flag be 0x08 OR flag bx 0x04"
    using assms e1 e2 e3 e4 e5 c1(2) c2(2)
    by (auto simp: valid_extended_def Let_def c3_def split: if_splits)
  from eat_found [of t c3 t3] e3 all(1) obtain d c4 where c4: "c3 = (t, d) # c4" "t3 = map fst c4" by metis
  from eat_chunks [OF e4 [unfolded c4(2)]] obtain e c5 where c5: "c4 = opt_chunk EXIF e @ c5" "t4 = map fst c5" "be = (e \<noteq> None)" .
  from eat_chunks [OF e5 [unfolded c5(2)]] obtain x c6 where c6: "c5 = opt_chunk XMP x @ c6" "t5 = map fst c6" "bx = (x \<noteq> None)" .
  have "c6 = []" using all(2) c6(2) by simp
  with c1(1) c2(1) c4(1) c5(1) c6(1) have "cs = opt_chunk ICCP i @ (if t = VP8 then opt_chunk ALPH a else []) @ [(t, d)] @ opt_chunk EXIF e @ opt_chunk XMP x"
    by (simp add: c3_def split: if_splits)
  moreover have "(VP8X, h) = extended_header (i \<noteq> None) (if t = VP8 then a \<noteq> None else alpha) (e \<noteq> None) (x \<noteq> None) canvas"
    using canvas(1) all(3) c1(3) c2(3) c5(3) c6(3) by (simp add: extended_header_def)
  ultimately show thesis using that [OF canvas(2)] by blast
qed

lemma one_image_chunk:
  assumes "valid_chunks cs"
  obtains t f where "filter is_image_chunk cs = [(t, f)]"
proof (cases "filter is_image_chunk cs" rule: remdups_adj.cases)
  case (2 x)
  then show ?thesis using that by (cases x) blast
qed (use assms in \<open>simp_all add: valid_chunks_def\<close>)

lemma valid_still_webp:
  assumes "valid_chunks cs"
  shows "still_webp cs"
proof -
  obtain t f where one: "filter is_image_chunk cs = [(t, f)]"
    using assms by (rule one_image_chunk)
  have "(t, f) \<in> set (filter is_image_chunk cs)" unfolding one by simp
  then have t: "t = VP8 \<or> t = VP8L" by (auto simp: is_image_chunk_def IMAGE_CHUNKS_def)
  have stream: "t = VP8 \<Longrightarrow> valid_vp8 f" "t = VP8L \<Longrightarrow> vp8l_alpha f \<noteq> None"
    using assms by (auto simp: valid_chunks_def one split: if_splits)
  have first: "is_image_chunk (VP8X, h) = False" for h by (simp add: is_image_chunk_def IMAGE_CHUNKS_def)
  show ?thesis
  proof (cases "fst (hd cs) = VP8X")
    case False
    then have "length cs = 1" using assms by (auto simp: valid_chunks_def one split: if_splits)
    then obtain c where "cs = [c]" by (auto simp: length_Suc_conv)
    then have "cs = [(t, f)]" using one by (auto split: if_splits)
    then show ?thesis using t stream by (auto intro: lossy lossless)
  next
    case True
    have "cs \<noteq> []" using one by auto
    with True obtain h ts where cs: "cs = (VP8X, h) # ts" by (cases cs) auto
    have ext: "valid_extended h (map fst ts) t (t = VP8L \<and> vp8l_alpha f = Some True)"
      using assms unfolding valid_chunks_def one by (simp add: cs split: if_splits)
    from valid_extended_shape [OF ext t] obtain canvas i a d e x where shape: "length canvas = 6"
      "ts = opt_chunk ICCP i @ (if t = VP8 then opt_chunk ALPH a else []) @ [(t, d)] @ opt_chunk EXIF e @ opt_chunk XMP x"
      "(VP8X, h) = extended_header (i \<noteq> None) (if t = VP8 then a \<noteq> None else t = VP8L \<and> vp8l_alpha f = Some True)
         (e \<noteq> None) (x \<noteq> None) canvas" .
    have "is_image_chunk (t, d)" using t by (auto simp: is_image_chunk_def IMAGE_CHUNKS_def)
    then have "filter is_image_chunk ts = [(t, d)]"
      unfolding shape(2) filter_append by (simp add: image_chunks_opt)
    then have "d = f" using one first by (simp add: cs)
    have all: "cs = extended_header (i \<noteq> None) (if t = VP8 then a \<noteq> None else t = VP8L \<and> vp8l_alpha f = Some True)
         (e \<noteq> None) (x \<noteq> None) canvas
       # opt_chunk ICCP i @ (if t = VP8 then opt_chunk ALPH a else []) @ [(t, f)] @ opt_chunk EXIF e @ opt_chunk XMP x"
      unfolding cs shape(3) shape(2) \<open>d = f\<close> ..
    from t show ?thesis
    proof
      assume "t = VP8"
      with all stream(1) show ?thesis using extended_lossy [of f canvas i a e x] shape(1) by simp
    next
      assume "t = VP8L"
      moreover from this obtain alpha where "vp8l_alpha f = Some alpha" using stream(2) by auto
      ultimately show ?thesis using all extended_lossless [of f alpha canvas i e x] shape(1) by simp
    qed
  qed
qed

section \<open>Accepted files\<close>

lemma length_tags [simp]: "length RIFF = 4" "length WEBP = 4" "length VP8 = 4" "length VP8L = 4" "length VP8X = 4"
  by (simp_all add: ascii_def)

lemma length_riff: "length (riff cs) = 12 + length (body_bytes cs)"
  by (simp add: riff_def)

lemma length_chunk_bytes: "length (fst c) = 4 \<Longrightarrow> 8 + length (snd c) + length (snd c) mod 2 = length (chunk_bytes c)"
  by (simp add: chunk_bytes_def mod_2_eq_odd)

lemma riff_slices:
  "slice 0 4 (riff cs) = RIFF" "slice 8 12 (riff cs) = WEBP"
  "slice 4 8 (riff cs) = le4 (4 + length (body_bytes cs))" "drop 12 (riff cs) = body_bytes cs"
proof -
  show "slice 0 4 (riff cs) = RIFF" by (rule slice_at [of _ "[]"]) (simp_all add: riff_def)
  show "slice 4 8 (riff cs) = le4 (4 + length (body_bytes cs))" by (rule slice_at [of _ RIFF]) (simp_all add: riff_def)
  show "slice 8 12 (riff cs) = WEBP"
    by (rule slice_at [of _ "RIFF @ le4 (4 + length (body_bytes cs))"]) (simp_all add: riff_def)
  show "drop 12 (riff cs) = body_bytes cs" by (simp add: riff_def)
qed

lemma still_webp_length: "still_webp cs \<Longrightarrow> 13 \<le> length (body_bytes cs)"
proof -
  have vp8: "10 \<le> length d" if "valid_vp8 d" for d using that by (simp add: valid_vp8_def split: if_splits)
  have vp8l: "5 \<le> length d" if "vp8l_alpha d \<noteq> None" for d using that by (simp add: vp8l_alpha_def Let_def split: if_splits)
  show "still_webp cs \<Longrightarrow> 13 \<le> length (body_bytes cs)"
  proof (induction rule: still_webp.induct)
    case (lossy d)
    then show ?case using vp8 [of d] by (simp add: chunk_bytes_def)
  next
    case (lossless d)
    then show ?case using vp8l [of d] by (simp add: chunk_bytes_def)
  qed (simp_all add: extended_header_def chunk_bytes_def)
qed

lemma is_valid_webp_chunks:
  assumes "is_valid_webp p"
  obtains cs where "p = riff cs" "list_all chunk_ok cs" "still_webp cs" "length p < 2 ^ 32 + 8"
proof -
  have head: "25 \<le> length p" "slice 0 4 p = RIFF" "slice 8 12 p = WEBP" "le_int (slice 4 8 p) = length p - 8"
    using assms by (auto simp: is_valid_webp_def split: if_splits)
  obtain cs n where cs: "webp_chunks p 12 = Some (cs, n)" "valid_chunks cs"
    using assms head by (auto simp: is_valid_webp_def split: option.splits)
  have body: "drop 12 p = body_bytes cs" "list_all chunk_ok cs" using webp_chunks_read [OF cs(1)] head(1) by simp_all
  have n: "length (body_bytes cs) = length p - 12" using body(1) [symmetric] by simp
  have four: "length (slice 4 8 p) = 4" using head(1) by (simp add: length_slice)
  have "p = slice 0 4 p @ slice 4 8 p @ slice 8 12 p @ drop 12 p"
    using drop_slice [of 0 4 p] drop_slice [of 4 8 p] drop_slice [of 8 12 p] by simp
  moreover have "slice 4 8 p = le4 (4 + length (body_bytes cs))"
    using le4_le_int(1) [OF four] head(1,4) n by simp
  ultimately have "p = riff cs" by (simp only: head(2,3) body(1) riff_def)
  moreover have "length p < 2 ^ 32 + 8" using le4_le_int(2) [OF four] head(4) by simp
  ultimately show thesis using that [of cs] body(2) valid_still_webp [OF cs(2)] by blast
qed

lemma riff_valid:
  assumes "list_all chunk_ok cs" and "still_webp cs" and "length (riff cs) < 2 ^ 32 + 8"
  shows "is_valid_webp (riff cs)"
proof -
  have n: "4 + length (body_bytes cs) < 2 ^ 32" using assms(3) by (simp add: length_riff)
  have "webp_chunks (riff cs) 12 = Some (cs, length (riff cs))"
    using webp_chunks_written [OF assms(1), of "RIFF @ le4 (4 + length (body_bytes cs)) @ WEBP"] by (simp add: riff_def)
  moreover have "cs \<noteq> []" using still_webp_length [OF assms(2)] by auto
  ultimately show ?thesis
    using still_webp_length [OF assms(2)] still_webp_valid [OF assms(2)] le_int_le4 [OF n]
    by (simp add: is_valid_webp_def riff_slices length_riff)
qed

text \<open>C22: The validation accepts exactly the still images. A file is accepted just when it is the RIFF container, shorter than
  the four bytes of its size field can tell, of chunks that form one of the shapes of a still WebP image: one bit stream,
  or a header that announces precisely the optional chunks around it. Nothing may be missing, repeated, reordered or
  trail the image.\<close>

theorem webp_accepts_still_images:
  "is_valid_webp p \<longleftrightarrow> (\<exists>cs. p = riff cs \<and> list_all chunk_ok cs \<and> still_webp cs \<and> length p < 2 ^ 32 + 8)"
proof
  assume "is_valid_webp p"
  then show "\<exists>cs. p = riff cs \<and> list_all chunk_ok cs \<and> still_webp cs \<and> length p < 2 ^ 32 + 8"
    by (rule is_valid_webp_chunks) blast
next
  assume "\<exists>cs. p = riff cs \<and> list_all chunk_ok cs \<and> still_webp cs \<and> length p < 2 ^ 32 + 8"
  then show "is_valid_webp p" by (blast intro: riff_valid)
qed

section \<open>Dimensions\<close>

lemma le_int_less: "le_int bs < 256 ^ length bs"
proof (induction bs)
  case (Cons b bs)
  then show ?case using unat_byte_less [of b] by simp
qed simp

lemma and_14: "(n :: nat) AND 16383 = take_bit 14 n"
  by (simp add: take_bit_eq_mask mask_eq_exp_minus_1)

lemma and_14_less: "(n :: nat) AND 16383 < 16384"
  using take_bit_nat_less_exp [of 14 n] by (simp add: and_14)

lemma first_chunk:
  assumes "chunk_ok (tag, d)"
  shows "slice 12 16 (riff ((tag, d) # cs)) = tag" "le_int (slice 16 20 (riff ((tag, d) # cs))) = length d"
    "slice 20 (20 + length d) (riff ((tag, d) # cs)) = d" "20 \<le> length (riff ((tag, d) # cs))"
proof -
  let ?pad = "(if odd (length d) then [0] else []) @ body_bytes cs" and ?pre = "RIFF @ le4 (4 + length (body_bytes ((tag, d) # cs))) @ WEBP"
  have tag: "length tag = 4" and n: "length d < 2 ^ 32" using assms by (simp_all add: chunk_ok_def)
  have r: "riff ((tag, d) # cs) = ?pre @ tag @ le4 (length d) @ d @ ?pad" by (simp add: riff_def chunk_bytes_def)
  show "slice 12 16 (riff ((tag, d) # cs)) = tag" unfolding r by (rule slice_at [of _ ?pre]) (simp_all add: tag)
  have "slice 16 20 (riff ((tag, d) # cs)) = le4 (length d)"
    unfolding r by (rule slice_at [of _ "?pre @ tag"]) (simp_all add: tag)
  then show "le_int (slice 16 20 (riff ((tag, d) # cs))) = length d" by (simp only: le_int_le4 [OF n])
  show "slice 20 (20 + length d) (riff ((tag, d) # cs)) = d"
    unfolding r by (rule slice_at [of _ "?pre @ tag @ le4 (length d)"]) (simp_all add: tag)
  show "20 \<le> length (riff ((tag, d) # cs))" by (simp add: riff_def chunk_bytes_def tag)
qed

lemma scan_step:
  assumes "slice 12 16 p = tag" and "le_int (slice 16 20 p) = length d" and "slice 20 (20 + length d) p = d" and "20 \<le> length p"
  shows "scan_dimensions p 12 =
    (if tag = VP8X \<and> 10 \<le> length d then Some (1 + le_int (slice 4 7 d), 1 + le_int (slice 7 10 d))
     else if tag = VP8L \<and> 5 \<le> length d \<and> d ! 0 = 0x2f
     then Some (1 + (le_int (slice 1 5 d) AND 0x3fff), 1 + (drop_bit 14 (le_int (slice 1 5 d)) AND 0x3fff))
     else if tag = VP8 \<and> 10 \<le> length d \<and> slice 3 6 d = vp8_start_code
     then if vp8_width d \<noteq> 0 \<and> vp8_height d \<noteq> 0 then Some (vp8_width d, vp8_height d) else None
     else scan_dimensions p (20 + length d + length d mod 2))"
  using assms(4) by (subst scan_dimensions.simps) (simp add: Let_def assms(1-3))

lemmas scan_first = scan_step [OF first_chunk]

lemma le_int_3: "length bs \<le> 3 \<Longrightarrow> le_int bs < 16777216"
proof -
  assume "length bs \<le> 3"
  then have "(256 :: nat) ^ length bs \<le> 256 ^ 3" by (intro power_increasing) simp_all
  with le_int_less [of bs] show ?thesis by simp
qed

text \<open>The size of every accepted image can be read, and it is not empty: \<open>webp_dimensions\<close> never refuses a file that
  \<open>is_valid_webp\<close> accepted, and gives a width and a height of at least one pixel and at most \<open>2 ^ 24\<close>, so the product the
  compiler adds up is positive and bounded.\<close>

theorem accepted_images_have_dimensions:
  assumes "is_valid_webp p"
  shows "\<exists>w h. webp_dimensions p = Inr (w, h) \<and> 1 \<le> w \<and> w \<le> 2 ^ 24 \<and> 1 \<le> h \<and> h \<le> 2 ^ 24"
proof -
  from is_valid_webp_chunks [OF assms] obtain cs where cs: "p = riff cs" "list_all chunk_ok cs" "still_webp cs" .
  have dims: "webp_dimensions p = (case scan_dimensions p 12 of Some wh \<Rightarrow> Inr wh | None \<Rightarrow> invalid ''model_image_dimensions_invalid'')"
    by (simp add: webp_dimensions_def cs(1) riff_slices)
  have "\<exists>w h. scan_dimensions p 12 = Some (w, h) \<and> 1 \<le> w \<and> w \<le> 2 ^ 24 \<and> 1 \<le> h \<and> h \<le> 2 ^ 24"
    using cs(3)
  proof cases
    case (lossy d)
    then have "10 \<le> length d" "slice 3 6 d = vp8_start_code" "0 < vp8_width d" "0 < vp8_height d"
      by (simp_all add: valid_vp8_def split: if_splits)
    moreover have okd: "chunk_ok (VP8, d)" using cs(2) lossy(1) by simp
    ultimately show ?thesis
      using scan_first [of VP8 d "[]", OF okd] cs(1,2) lossy(1) and_14_less [of "le_int (slice 6 8 d)"] and_14_less [of "le_int (slice 8 10 d)"]
      by (simp add: vp8_width_def vp8_height_def)
  next
    case (lossless d)
    then have "5 \<le> length d" "d ! 0 = 0x2f" by (simp_all add: vp8l_alpha_def Let_def split: if_splits)
    moreover have okd: "chunk_ok (VP8L, d)" using cs(2) lossless(1) by simp
    ultimately show ?thesis
      using scan_first [of VP8L d "[]", OF okd] cs(1,2) lossless(1) and_14_less [of "le_int (slice 1 5 d)"]
        and_14_less [of "drop_bit 14 (le_int (slice 1 5 d))"]
      by simp
  next
    case (extended_lossy d canvas i a e x)
    define h where "h = snd (extended_header (i \<noteq> None) (a \<noteq> None) (e \<noteq> None) (x \<noteq> None) canvas)"
    define rest where "rest = opt_chunk ICCP i @ opt_chunk ALPH a @ [(VP8, d)] @ opt_chunk EXIF e @ opt_chunk XMP x"
    have c: "cs = (VP8X, h) # rest" unfolding extended_lossy(1) h_def rest_def by (simp add: extended_header_def)
    have "length h = 10" using extended_lossy(3) by (simp add: h_def extended_header_def)
    moreover have okd: "chunk_ok (VP8X, h)" using cs(2) by (simp add: c)
    ultimately show ?thesis
      using c scan_first [of VP8X h rest, OF okd] cs(1,2) le_int_3 [of "slice 4 7 h"] le_int_3 [of "slice 7 10 h"] by (simp add: length_slice)
  next
    case (extended_lossless d alpha canvas i e x)
    define h where "h = snd (extended_header (i \<noteq> None) alpha (e \<noteq> None) (x \<noteq> None) canvas)"
    define rest where "rest = opt_chunk ICCP i @ [(VP8L, d)] @ opt_chunk EXIF e @ opt_chunk XMP x"
    have c: "cs = (VP8X, h) # rest" unfolding extended_lossless(1) h_def rest_def by (simp add: extended_header_def)
    have "length h = 10" using extended_lossless(3) by (simp add: h_def extended_header_def)
    moreover have okd: "chunk_ok (VP8X, h)" using cs(2) by (simp add: c)
    ultimately show ?thesis
      using c scan_first [of VP8X h rest, OF okd] cs(1,2) le_int_3 [of "slice 4 7 h"] le_int_3 [of "slice 7 10 h"] by (simp add: length_slice)
  qed
  then show ?thesis unfolding dims by auto
qed

definition demo_chunks :: "chunk list" where
  "demo_chunks = extended_header False True True False [9, 0, 0, 4, 0, 0] # opt_chunk ICCP None
     @ [(VP8L, [0x2f, 1, 2, 3, 0x10])] @ opt_chunk EXIF (Some [7]) @ opt_chunk XMP None"

theorem accepted_images_have_dimensions_witness:
  "is_valid_webp (riff demo_chunks)
   \<and> (\<exists>w h. webp_dimensions (riff demo_chunks) = Inr (w, h) \<and> 1 \<le> w \<and> w \<le> 2 ^ 24 \<and> 1 \<le> h \<and> h \<le> 2 ^ 24)"
proof -
  have alpha: "vp8l_alpha [0x2f, 1, 2, 3, 0x10] = Some True"
    by (simp add: vp8l_alpha_def slice_def Let_def drop_bit_eq_div bit_iff_odd)
  have "still_webp demo_chunks"
    using extended_lossless [OF alpha, of "[9, 0, 0, 4, 0, 0]" None "Some [7]" None] by (simp add: demo_chunks_def)
  moreover have "list_all chunk_ok demo_chunks" "length (riff demo_chunks) < 2 ^ 32 + 8"
    by (simp_all add: demo_chunks_def extended_header_def opt_chunk_def chunk_ok_def length_riff chunk_bytes_def ascii_def)
  ultimately have "is_valid_webp (riff demo_chunks)" by (intro riff_valid)
  then show ?thesis using accepted_images_have_dimensions [of "riff demo_chunks"] by blast
qed

end
