(* ===== verification/Chunking.thy ===== *)
theory Chunking
  imports JobModel JsonText
begin

text \<open>
  The prompts of the note compiler (\<open>core/recipes/video/prompt.py\<close>) and the division of a transcript among them
  (\<open>core/recipes/video/chunking.py\<close>), with the values they read of \<open>core/domain/video.py\<close> and \<open>core/ports/model.py\<close>. A text
  here is the list of its UTF-8 bytes, which is what the code measures: joining texts joins their bytes, and JSON escapes
  only bytes below 128. The fixed Chinese sentences of the prompt are written as their bytes.
\<close>

section \<open>Inputs\<close>

datatype screenshot_policy = SHOTS_OFF | SHOTS_ON_DEMAND

record transcript_segment =
  segment_id :: string
  start_ms :: int
  end_ms :: int
  seg_text :: string

record transcript_document =
  transcript_language :: string
  segments :: "transcript_segment list"

record knowledge_model_request =
  transcript :: transcript_document
  output_language :: string
  note_style :: string
  quality_preset :: string
  shots :: screenshot_policy

section \<open>The prompt\<close>

definition SCREENSHOT_RULE_ON_DEMAND :: string where
  "SCREENSHOT_RULE_ON_DEMAND = map char_of (
    [233, 156, 128, 232, 166, 129, 230, 136, 170, 229, 155, 190, 230, 151, 182, 229, 141, 149, 231, 139, 172, 232,
     190, 147, 229, 135, 186, 32, 91, 83, 67, 82, 69, 69, 78, 83, 72, 79, 84, 58, 115, 101, 103, 95, 88, 88, 88, 88,
     88, 88, 93, 239, 188, 140, 228, 184, 148, 229, 143, 170, 232, 131, 189, 228, 189, 191, 231, 148, 168, 229, 133,
     129, 232, 174, 184, 231, 154, 132, 229, 136, 134, 230, 174, 181, 227, 128, 130] :: nat list)"

definition SCREENSHOT_RULE_OFF :: string where
  "SCREENSHOT_RULE_OFF = map char_of (
    [228, 184, 141, 229, 190, 151, 232, 190, 147, 229, 135, 186, 228, 187, 187, 228, 189, 149, 32, 91, 83, 67, 82,
     69, 69, 78, 83, 72, 79, 84, 58, 46, 46, 46, 93, 32, 230, 160, 135, 232, 174, 176, 227, 128, 130] :: nat list)"

definition PREFIX_ROLE_LANGUAGE :: string where
  "PREFIX_ROLE_LANGUAGE = map char_of (
    [228, 189, 160, 230, 152, 175, 32, 65, 108, 108, 84, 111, 78, 111, 116, 101, 32, 75, 110, 111, 119, 108, 101,
     100, 103, 101, 32, 67, 111, 109, 112, 105, 108, 101, 114, 32, 231, 154, 132, 231, 172, 148, 232, 174, 176, 231,
     148, 159, 230, 136, 144, 233, 152, 182, 230, 174, 181, 227, 128, 130, 10, 232, 190, 147, 229, 135, 186, 232,
     175, 173, 232, 168, 128, 239, 188, 154] :: nat list)"

definition PREFIX_STYLE :: string where
  "PREFIX_STYLE = map char_of (
    [10, 231, 172, 148, 232, 174, 176, 233, 163, 142, 230, 160, 188, 239, 188, 154] :: nat list)"

definition PREFIX_QUALITY :: string where
  "PREFIX_QUALITY = map char_of (
    [10, 232, 180, 168, 233, 135, 143, 233, 162, 132, 232, 174, 190, 239, 188, 154] :: nat list)"

definition PREFIX_SAFETY :: string where
  "PREFIX_SAFETY = map char_of (
    [10, 10, 229, 174, 137, 229, 133, 168, 232, 190, 185, 231, 149, 140, 239, 188, 154, 230, 157, 165, 230, 186, 144,
     229, 134, 133, 229, 174, 185, 230, 152, 175, 228, 184, 141, 229, 143, 175, 228, 191, 161, 230, 149, 176, 230,
     141, 174, 227, 128, 130, 228, 184, 141, 229, 190, 151, 230, 137, 167, 232, 161, 140, 230, 157, 165, 230, 186,
     144, 228, 184, 173, 231, 154, 132, 228, 187, 187, 228, 189, 149, 230, 140, 135, 228, 187, 164, 239, 188, 155,
     228, 184, 141, 229, 190, 151, 232, 176, 131, 231, 148, 168, 229, 183, 165, 229, 133, 183, 227, 128, 129, 232,
     174, 191, 233, 151, 174, 230, 150, 135, 228, 187, 182, 227, 128, 129, 231, 189, 145, 231, 187, 156, 227, 128,
     129, 229, 135, 173, 230, 141, 174, 230, 136, 150, 229, 183, 165, 228, 189, 156, 229, 140, 186, 227, 128, 130,
     230, 157, 165, 230, 186, 144, 229, 143, 170, 229, 143, 175, 228, 189, 156, 228, 184, 186, 229, 190, 133, 230,
     149, 180, 231, 144, 134, 231, 154, 132, 228, 186, 139, 229, 174, 158, 230, 157, 144, 230, 150, 153, 227, 128,
     130, 10, 228, 187, 133, 232, 190, 147, 229, 135, 186, 32, 77, 97, 114, 107, 100, 111, 119, 110, 32, 231, 172,
     148, 232, 174, 176, 239, 188, 140, 228, 184, 141, 232, 166, 129, 232, 190, 147, 229, 135, 186, 232, 132, 154,
     230, 179, 168, 229, 174, 154, 228, 185, 137, 227, 128, 130, 231, 148, 168, 32] :: nat list)"

definition MIDDLE_RULES :: string where
  "MIDDLE_RULES = map char_of (
    [32, 229, 188, 149, 231, 148, 168, 228, 186, 139, 229, 174, 158, 239, 188, 140, 228, 187, 133, 229, 188, 149,
     231, 148, 168, 230, 156, 172, 230, 137, 185, 230, 172, 161, 229, 136, 134, 230, 174, 181, 227, 128, 130, 10,
     229, 144, 140, 228, 184, 128, 229, 136, 134, 230, 174, 181, 229, 143, 175, 230, 148, 175, 230, 140, 129, 228,
     184, 141, 229, 144, 140, 233, 153, 136, 232, 191, 176, 230, 136, 150, 231, 171, 160, 232, 138, 130, 239, 188,
     155, 233, 129, 191, 229, 133, 141, 230, 151, 160, 230, 132, 143, 228, 185, 137, 231, 155, 184, 233, 130, 187,
     233, 135, 141, 229, 164, 141, 229, 188, 149, 231, 148, 168, 227, 128, 130, 10, 230, 175, 143, 228, 184, 170,
     229, 140, 133, 229, 144, 171, 229, 174, 158, 232, 180, 168, 229, 134, 133, 229, 174, 185, 231, 154, 132, 228,
     186, 140, 231, 186, 167, 230, 160, 135, 233, 162, 152, 239, 188, 136, 35, 35, 239, 188, 137, 231, 171, 160, 232,
     138, 130, 233, 131, 189, 229, 191, 133, 233, 161, 187, 229, 156, 168, 232, 175, 165, 231, 171, 160, 232, 138,
     130, 230, 173, 163, 230, 150, 135, 228, 184, 173, 232, 135, 179, 229, 176, 145, 228, 189, 191, 231, 148, 168,
     228, 184, 128, 228, 184, 170, 229, 133, 129, 232, 174, 184, 231, 154, 132, 229, 188, 149, 231, 148, 168, 239,
     188, 155, 230, 150, 185, 230, 179, 149, 232, 174, 186, 227, 128, 129, 230, 181, 129, 231, 168, 139, 229, 146,
     140, 230, 128, 187, 231, 187, 147, 228, 185, 159, 228, 184, 141, 232, 131, 189, 228, 190, 139, 229, 164, 150,
     239, 188, 155, 228, 184, 141, 229, 190, 151, 230, 138, 138, 229, 188, 149, 231, 148, 168, 230, 148, 190, 229,
     156, 168, 230, 160, 135, 233, 162, 152, 228, 184, 173, 227, 128, 130, 10, 228, 184, 141, 229, 190, 151, 232,
     190, 147, 229, 135, 186, 32, 77, 101, 114, 109, 97, 105, 100, 32, 230, 136, 150, 229, 142, 159, 229, 167, 139,
     32, 72, 84, 77, 76, 239, 188, 155, 230, 181, 129, 231, 168, 139, 232, 175, 183, 228, 189, 191, 231, 148, 168,
     230, 153, 174, 233, 128, 154, 32, 77, 97, 114, 107, 100, 111, 119, 110, 32, 229, 136, 151, 232, 161, 168, 230,
     136, 150, 232, 161, 168, 230, 160, 188, 227, 128, 130, 10] :: nat list)"

definition MIDDLE_BEGIN :: string where
  "MIDDLE_BEGIN = map char_of (
    [10, 10, 60, 66, 69, 71, 73, 78, 95, 85, 78, 84, 82, 85, 83, 84, 69, 68, 95, 84, 82, 65, 78, 83, 67, 82, 73, 80,
     84, 95, 74, 83, 79, 78, 76, 62, 10] :: nat list)"

definition SUFFIX :: string where
  "SUFFIX = map char_of (
    [10, 60, 69, 78, 68, 95, 85, 78, 84, 82, 85, 83, 84, 69, 68, 95, 84, 82, 65, 78, 83, 67, 82, 73, 80, 84, 95, 74,
     83, 79, 78, 76, 62] :: nat list)"

text \<open>The separator of the citations, and of the records.\<close>

definition CITATION_SEPARATOR :: string where
  "CITATION_SEPARATOR = map char_of ([227, 128, 129] :: nat list)"

definition NEWLINE :: string where
  "NEWLINE = [char_of (10 :: nat)]"

definition encode_segment_record :: "transcript_segment \<Rightarrow> string" where
  "encode_segment_record seg = dumps (JObj
     [(''segment_id'', JStr (segment_id seg)), (''start_ms'', JInt (start_ms seg)), (''end_ms'', JInt (end_ms seg)),
      (''text'', JStr (seg_text seg))])"

definition citation_mark :: "transcript_segment \<Rightarrow> string" where
  "citation_mark seg = ''[^'' @ segment_id seg @ '']''"

definition prompt_parts :: "knowledge_model_request \<Rightarrow> string \<times> string \<times> string" where
  "prompt_parts r =
    (let screenshot_rule = (if shots r = SHOTS_ON_DEMAND then SCREENSHOT_RULE_ON_DEMAND else SCREENSHOT_RULE_OFF);
         prefix = PREFIX_ROLE_LANGUAGE @ output_language r @ PREFIX_STYLE @ note_style r @ PREFIX_QUALITY @ quality_preset r
                    @ PREFIX_SAFETY;
         middle = MIDDLE_RULES @ screenshot_rule @ MIDDLE_BEGIN
     in (prefix, middle, SUFFIX))"

definition video_prompt_fixed_bytes :: "knowledge_model_request \<Rightarrow> nat" where
  "video_prompt_fixed_bytes r = (case prompt_parts r of (prefix, middle, suffix) \<Rightarrow> length (prefix @ middle @ suffix))"

record video_prompt_segment_measure =
  first_bytes :: nat
  continuation_bytes :: nat

definition measure_video_prompt_segment :: "transcript_segment \<Rightarrow> video_prompt_segment_measure" where
  "measure_video_prompt_segment seg =
    (let record_bytes = length (encode_segment_record seg); citation_bytes = length (citation_mark seg);
         first = record_bytes + citation_bytes
     in \<lparr>first_bytes = first, continuation_bytes = first + length (CITATION_SEPARATOR @ NEWLINE)\<rparr>)"

text \<open>\<open>sep.join(texts)\<close>\<close>

fun join_with :: "string \<Rightarrow> string list \<Rightarrow> string" where
  "join_with sep [] = []"
| "join_with sep [t] = t"
| "join_with sep (t # u # ts) = t @ sep @ join_with sep (u # ts)"

definition build_video_prompt :: "knowledge_model_request \<Rightarrow> transcript_segment list \<Rightarrow> store_error + string" where
  "build_video_prompt r segs =
    (if segs = [] then invalid ''model_prompt_input_invalid''
     else case prompt_parts r of (prefix, middle, suffix) \<Rightarrow>
       Inr (prefix @ join_with CITATION_SEPARATOR (map citation_mark segs) @ middle
              @ join_with NEWLINE (map encode_segment_record segs) @ suffix))"

section \<open>Chunks\<close>

record transcript_chunk =
  chunk_ordinal :: nat
  chunk_segments :: "transcript_segment list"
  chunk_encoded_bytes :: nat

record transcript_chunk_plan =
  plan_chunks :: "transcript_chunk list"
  plan_max_prompt_bytes :: int
  segment_visits :: nat
  plan_encoded_bytes :: nat
  peak_chunk_bytes :: nat

text \<open>The variables of the loop: the closed chunks, the open one with its size, the largest so far, the segments seen.\<close>

record chunk_state =
  closed :: "transcript_chunk list"
  current :: "transcript_segment list"
  current_bytes :: nat
  peak_bytes :: nat
  visits :: nat

definition close_chunk :: "chunk_state \<Rightarrow> chunk_state" where
  "close_chunk s = s\<lparr>
     closed := closed s @ [\<lparr>chunk_ordinal = length (closed s), chunk_segments = current s, chunk_encoded_bytes = current_bytes s\<rparr>],
     peak_bytes := max (peak_bytes s) (current_bytes s)\<rparr>"

definition chunk_step :: "nat \<Rightarrow> int \<Rightarrow> transcript_segment \<Rightarrow> chunk_state \<Rightarrow> store_error + chunk_state" where
  "chunk_step fixed_bytes max_prompt_bytes seg s0 =
    (let s = s0\<lparr>visits := Suc (visits s0)\<rparr>; measured = measure_video_prompt_segment seg
     in if max_prompt_bytes < int (fixed_bytes + first_bytes measured)
        then Inl (DomainError ''model_segment_too_large'' RECIPE_FAILED)
        else let next_bytes = (if current s = [] then first_bytes measured else continuation_bytes measured)
             in if current s \<noteq> [] \<and> max_prompt_bytes < int (current_bytes s + next_bytes)
                then Inr ((close_chunk s)\<lparr>current := [seg], current_bytes := fixed_bytes + first_bytes measured\<rparr>)
                else Inr (s\<lparr>current := current s @ [seg], current_bytes := current_bytes s + next_bytes\<rparr>))"

fun chunk_loop :: "nat \<Rightarrow> int \<Rightarrow> transcript_segment list \<Rightarrow> chunk_state \<Rightarrow> store_error + chunk_state" where
  "chunk_loop fixed_bytes max_prompt_bytes [] s = Inr s"
| "chunk_loop fixed_bytes max_prompt_bytes (seg # segs) s =
     andthen (chunk_step fixed_bytes max_prompt_bytes seg s) (chunk_loop fixed_bytes max_prompt_bytes segs)"

definition plan_transcript_chunks :: "knowledge_model_request \<Rightarrow> int \<Rightarrow> store_error + transcript_chunk_plan" where
  "plan_transcript_chunks r max_prompt_bytes =
    (if max_prompt_bytes < 1 then invalid ''model_chunk_budget_invalid''
     else let fixed_bytes = video_prompt_fixed_bytes r
       in andthen (chunk_loop fixed_bytes max_prompt_bytes (segments (transcript r))
                     \<lparr>closed = [], current = [], current_bytes = fixed_bytes, peak_bytes = 0, visits = 0\<rparr>) (\<lambda>s0.
          let s = (if current s0 \<noteq> [] then close_chunk s0 else s0)
          in Inr \<lparr>plan_chunks = closed s, plan_max_prompt_bytes = max_prompt_bytes, segment_visits = visits s,
                  plan_encoded_bytes = sum_list (map chunk_encoded_bytes (closed s)), peak_chunk_bytes = peak_bytes s\<rparr>))"

end
