(* ===== verification/ChunkingProperties.thy ===== *)
theory ChunkingProperties
  imports Chunking
begin

text \<open>
  The arithmetic of the chunk plan is that of the prompts: the running byte count is the length of the prompt that will be
  sent, so every planned prompt fits its budget, none is empty, no segment is lost, and no chunk could have taken one more.
\<close>

section \<open>The length of a prompt\<close>

definition separators :: nat where
  "separators = length (CITATION_SEPARATOR @ NEWLINE)"

fun segments_cost :: "transcript_segment list \<Rightarrow> nat" where
  "segments_cost [] = 0"
| "segments_cost [s] = first_bytes (measure_video_prompt_segment s)"
| "segments_cost (s # t # ts) = first_bytes (measure_video_prompt_segment s) + separators + segments_cost (t # ts)"

lemma continuation: "continuation_bytes (measure_video_prompt_segment s) = first_bytes (measure_video_prompt_segment s) + separators"
  by (simp add: measure_video_prompt_segment_def separators_def Let_def)

lemma segments_cost_join:
  "segments_cost ss = length (join_with CITATION_SEPARATOR (map citation_mark ss))
     + length (join_with NEWLINE (map encode_segment_record ss))"
  by (induction ss rule: segments_cost.induct) (simp_all add: measure_video_prompt_segment_def Let_def separators_def)

lemma segments_cost_snoc:
  "ss \<noteq> [] \<Longrightarrow> segments_cost (ss @ [s]) = segments_cost ss + continuation_bytes (measure_video_prompt_segment s)"
  by (induction ss rule: segments_cost.induct) (simp_all add: continuation)

definition prompt_bytes :: "knowledge_model_request \<Rightarrow> transcript_segment list \<Rightarrow> nat" where
  "prompt_bytes r ss = video_prompt_fixed_bytes r + segments_cost ss"

lemma build_video_prompt_length: "build_video_prompt r ss = Inr t \<Longrightarrow> length t = prompt_bytes r ss"
  by (auto simp: build_video_prompt_def prompt_bytes_def video_prompt_fixed_bytes_def segments_cost_join split: if_splits prod.splits)

lemma build_video_prompt_Inr: "ss \<noteq> [] \<Longrightarrow> \<exists>t. build_video_prompt r ss = Inr t \<and> length t = prompt_bytes r ss"
proof -
  assume "ss \<noteq> []"
  then obtain t where "build_video_prompt r ss = Inr t"
    by (cases "prompt_parts r") (simp add: build_video_prompt_def)
  then show ?thesis using build_video_prompt_length by blast
qed

section \<open>The loop\<close>

text \<open>A chunk is closed because the segment behind it does not fit.\<close>

fun greedy :: "knowledge_model_request \<Rightarrow> int \<Rightarrow> transcript_segment list list \<Rightarrow> bool" where
  "greedy r limit (c # d # cs) = (limit < int (prompt_bytes r (c @ [hd d])) \<and> greedy r limit (d # cs))"
| "greedy r limit _ = True"

lemma greedy_snoc:
  "greedy r limit (cs @ [c, d]) \<longleftrightarrow> greedy r limit (cs @ [c]) \<and> limit < int (prompt_bytes r (c @ [hd d]))"
  by (induction r limit cs rule: greedy.induct) auto

lemma greedy_extend:
  "c \<noteq> [] \<Longrightarrow> greedy r limit (cs @ [c @ [s]]) = greedy r limit (cs @ [c])"
  by (induction r limit cs rule: greedy.induct) auto

definition chunk_good :: "knowledge_model_request \<Rightarrow> int \<Rightarrow> transcript_chunk \<Rightarrow> bool" where
  "chunk_good r limit c \<longleftrightarrow> chunk_segments c \<noteq> [] \<and> chunk_encoded_bytes c = prompt_bytes r (chunk_segments c)
     \<and> int (chunk_encoded_bytes c) \<le> limit"

definition loop_good :: "knowledge_model_request \<Rightarrow> int \<Rightarrow> transcript_segment list \<Rightarrow> chunk_state \<Rightarrow> bool" where
  "loop_good r limit seen s \<longleftrightarrow>
     list_all (chunk_good r limit) (closed s)
     \<and> map chunk_ordinal (closed s) = [0..<length (closed s)]
     \<and> concat (map chunk_segments (closed s)) @ current s = seen
     \<and> current_bytes s = prompt_bytes r (current s)
     \<and> (current s \<noteq> [] \<longrightarrow> int (current_bytes s) \<le> limit)
     \<and> (current s = [] \<longrightarrow> closed s = [])
     \<and> (current s \<noteq> [] \<longrightarrow> greedy r limit (map chunk_segments (closed s) @ [current s]))
     \<and> peak_bytes s = Max (insert 0 (set (map chunk_encoded_bytes (closed s))))
     \<and> visits s = length seen"

abbreviation fits :: "knowledge_model_request \<Rightarrow> int \<Rightarrow> transcript_segment \<Rightarrow> bool" where
  "fits r limit seg \<equiv> int (prompt_bytes r [seg]) \<le> limit"

lemma chunk_step_fits:
  "is_ok (chunk_step (video_prompt_fixed_bytes r) limit seg s) \<longleftrightarrow> fits r limit seg"
  by (auto simp: chunk_step_def prompt_bytes_def Let_def is_ok_def)

lemma Max_snoc: "max (Max (insert 0 (set (xs :: nat list)))) x = Max (insert 0 (set (xs @ [x])))"
proof -
  have "insert 0 (set (xs @ [x])) = insert x (insert 0 (set xs))" by auto
  then show ?thesis by (simp add: max.commute)
qed

lemma close_chunk_good:
  assumes "loop_good r limit seen s" and "current s \<noteq> []"
  shows "list_all (chunk_good r limit) (closed (close_chunk s))"
    "map chunk_ordinal (closed (close_chunk s)) = [0..<length (closed (close_chunk s))]"
    "concat (map chunk_segments (closed (close_chunk s))) = seen"
    "greedy r limit (map chunk_segments (closed (close_chunk s)))"
    "peak_bytes (close_chunk s) = Max (insert 0 (set (map chunk_encoded_bytes (closed (close_chunk s)))))"
  using assms Max_snoc [of "map chunk_encoded_bytes (closed s)" "current_bytes s"]
  by (simp_all add: loop_good_def close_chunk_def chunk_good_def)

lemma chunk_step_good:
  assumes "loop_good r limit seen s" and "chunk_step (video_prompt_fixed_bytes r) limit seg s = Inr s'"
  shows "loop_good r limit (seen @ [seg]) s'"
proof -
  have fit: "fits r limit seg" using chunk_step_fits [of r limit seg s] assms(2) by simp
  let ?f = "video_prompt_fixed_bytes r" and ?m = "measure_video_prompt_segment seg"
  show ?thesis
  proof (cases "current s = []")
    case True
    then have "s' = s\<lparr>visits := Suc (visits s), current := [seg], current_bytes := prompt_bytes r [seg]\<rparr>"
      using assms by (auto simp: chunk_step_def Let_def loop_good_def prompt_bytes_def split: if_splits)
    then show ?thesis using assms(1) True fit by (auto simp: loop_good_def)
  next
    case False
    note grown = segments_cost_snoc [OF False, of seg]
    show ?thesis
    proof (cases "limit < int (current_bytes s + continuation_bytes ?m)")
      case True
      then have s': "s' = (close_chunk (s\<lparr>visits := Suc (visits s)\<rparr>))\<lparr>current := [seg], current_bytes := prompt_bytes r [seg]\<rparr>"
        using assms(2) False by (auto simp: chunk_step_def Let_def prompt_bytes_def split: if_splits)
      have "limit < int (prompt_bytes r (current s @ [seg]))"
        using True assms(1) by (simp add: loop_good_def prompt_bytes_def grown)
      then have "greedy r limit (map chunk_segments (closed (close_chunk s)) @ [[seg]])"
        using close_chunk_good(4) [OF assms(1) False] greedy_snoc [of r limit "map chunk_segments (closed s)" "current s" "[seg]"]
        by (simp add: close_chunk_def)
      then show ?thesis
        using close_chunk_good [OF assms(1) False] fit assms(1) unfolding s' loop_good_def
        by (simp add: close_chunk_def)
    next
      case fitting: False
      then have s': "s' = s\<lparr>visits := Suc (visits s), current := current s @ [seg],
          current_bytes := current_bytes s + continuation_bytes ?m\<rparr>"
        using assms(2) False by (auto simp: chunk_step_def Let_def split: if_splits)
      then show ?thesis
        using assms(1) False fitting greedy_extend [OF False, of r limit "map chunk_segments (closed s)" seg]
        by (simp add: loop_good_def prompt_bytes_def grown)
    qed
  qed
qed

lemma chunk_loop_good:
  "loop_good r limit seen s \<Longrightarrow> chunk_loop (video_prompt_fixed_bytes r) limit segs s = Inr s' \<Longrightarrow> loop_good r limit (seen @ segs) s'"
proof (induction segs arbitrary: seen s)
  case (Cons seg segs)
  then obtain s1 where "chunk_step (video_prompt_fixed_bytes r) limit seg s = Inr s1"
      "chunk_loop (video_prompt_fixed_bytes r) limit segs s1 = Inr s'" by (auto simp: result_simps)
  with Cons.IH [OF chunk_step_good [OF Cons.prems(1)]] show ?case by simp
qed simp

lemma chunk_loop_fits:
  "is_ok (chunk_loop (video_prompt_fixed_bytes r) limit segs s) \<longleftrightarrow> list_all (fits r limit) segs"
proof (induction segs arbitrary: s)
  case (Cons seg segs)
  then show ?case using chunk_step_fits [of r limit seg s]
    by (cases "chunk_step (video_prompt_fixed_bytes r) limit seg s") simp_all
qed simp

abbreviation start_state :: "knowledge_model_request \<Rightarrow> chunk_state" where
  "start_state r \<equiv> \<lparr>closed = [], current = [], current_bytes = video_prompt_fixed_bytes r, peak_bytes = 0, visits = 0\<rparr>"

lemma loop_start: "loop_good r limit [] (start_state r)"
  by (simp add: loop_good_def prompt_bytes_def)

abbreviation run_loop :: "knowledge_model_request \<Rightarrow> int \<Rightarrow> store_error + chunk_state" where
  "run_loop r limit \<equiv> chunk_loop (video_prompt_fixed_bytes r) limit (segments (transcript r)) (start_state r)"

lemma plan_cases:
  assumes "1 \<le> limit"
  shows "run_loop r limit = Inl e \<Longrightarrow> plan_transcript_chunks r limit = Inl e"
    and "run_loop r limit = Inr s \<Longrightarrow> plan_transcript_chunks r limit = Inr
      (let s' = (if current s \<noteq> [] then close_chunk s else s)
       in \<lparr>plan_chunks = closed s', plan_max_prompt_bytes = limit, segment_visits = visits s',
           plan_encoded_bytes = sum_list (map chunk_encoded_bytes (closed s')), peak_chunk_bytes = peak_bytes s'\<rparr>)"
  using assms by (simp_all add: plan_transcript_chunks_def Let_def)

lemma plan_ok_iff: "1 \<le> limit \<Longrightarrow> is_ok (plan_transcript_chunks r limit) \<longleftrightarrow> list_all (fits r limit) (segments (transcript r))"
  unfolding chunk_loop_fits [of r limit _ "start_state r", symmetric] using plan_cases [of limit r]
  by (cases "run_loop r limit") simp_all

lemma plan_good:
  assumes "plan_transcript_chunks r limit = Inr p"
  shows "list_all (chunk_good r limit) (plan_chunks p)" "concat (map chunk_segments (plan_chunks p)) = segments (transcript r)"
    "greedy r limit (map chunk_segments (plan_chunks p))" "segment_visits p = length (segments (transcript r))"
    "peak_chunk_bytes p = Max (insert 0 (set (map chunk_encoded_bytes (plan_chunks p))))"
proof -
  have limit: "1 \<le> limit" using assms by (simp add: plan_transcript_chunks_def split: if_splits)
  obtain s where s: "run_loop r limit = Inr s" using assms plan_cases(1) [OF limit] by (cases "run_loop r limit") auto
  define s' where "s' = (if current s \<noteq> [] then close_chunk s else s)"
  have "p = \<lparr>plan_chunks = closed s', plan_max_prompt_bytes = limit, segment_visits = visits s',
      plan_encoded_bytes = sum_list (map chunk_encoded_bytes (closed s')), peak_chunk_bytes = peak_bytes s'\<rparr>"
    using assms unfolding plan_cases(2) [OF limit s] by (simp add: s'_def Let_def)
  then have p: "plan_chunks p = closed s'" "segment_visits p = visits s'" "peak_chunk_bytes p = peak_bytes s'" by simp_all
  have good: "loop_good r limit (segments (transcript r)) s" using chunk_loop_good [OF loop_start s] by simp
  have v: "visits (close_chunk s) = visits s" by (simp add: close_chunk_def)
  show "list_all (chunk_good r limit) (plan_chunks p)" "concat (map chunk_segments (plan_chunks p)) = segments (transcript r)"
    "greedy r limit (map chunk_segments (plan_chunks p))" "segment_visits p = length (segments (transcript r))"
    "peak_chunk_bytes p = Max (insert 0 (set (map chunk_encoded_bytes (plan_chunks p))))"
    unfolding p s'_def using good close_chunk_good [OF good] v by (cases "current s = []"; simp add: loop_good_def)+
qed

text \<open>C23: The plan is a partition into prompts that fit. The chunks, read in order, are the segments of the transcript; none is
  empty; and the byte count of each, accumulated segment by segment, is exactly the length of the prompt that
  \<open>build_video_prompt\<close> builds for it and at most the budget. The plan's peak is the largest of them.\<close>

theorem planned_prompts_fit:
  assumes "plan_transcript_chunks r limit = Inr p"
  shows "concat (map chunk_segments (plan_chunks p)) = segments (transcript r)
    \<and> segment_visits p = length (segments (transcript r))
    \<and> (\<forall>c \<in> set (plan_chunks p). \<exists>t. build_video_prompt r (chunk_segments c) = Inr t
          \<and> chunk_encoded_bytes c = length t \<and> int (length t) \<le> limit \<and> length t \<le> peak_chunk_bytes p)"
proof (intro conjI ballI)
  fix c assume c: "c \<in> set (plan_chunks p)"
  then have "chunk_good r limit c" using plan_good(1) [OF assms] by (simp add: list_all_iff)
  moreover from this obtain t where "build_video_prompt r (chunk_segments c) = Inr t" "length t = prompt_bytes r (chunk_segments c)"
    using build_video_prompt_Inr unfolding chunk_good_def by blast
  moreover have "chunk_encoded_bytes c \<le> peak_chunk_bytes p" unfolding plan_good(5) [OF assms] using c by (intro Max_ge) auto
  ultimately show "\<exists>t. build_video_prompt r (chunk_segments c) = Inr t
      \<and> chunk_encoded_bytes c = length t \<and> int (length t) \<le> limit \<and> length t \<le> peak_chunk_bytes p"
    unfolding chunk_good_def by auto
qed (use plan_good [OF assms] in blast)+

text \<open>C24: The budget is used. With a budget of at least one byte, a request fails, with \<open>model_segment_too_large\<close>, exactly when some segment is over the budget in a prompt
  of its own: where it fails there is one, where there is a plan every segment fits. And no chunk of a plan could have
  taken the first segment of the next: that prompt would have been over the budget.\<close>

theorem plan_is_greedy:
  assumes "1 \<le> limit"
  shows "(case plan_transcript_chunks r limit of
      Inl err \<Rightarrow> err = DomainError ''model_segment_too_large'' RECIPE_FAILED
        \<and> (\<exists>seg \<in> set (segments (transcript r)). \<exists>t. build_video_prompt r [seg] = Inr t \<and> limit < int (length t))
    | Inr p \<Rightarrow> (\<forall>seg \<in> set (segments (transcript r)). \<exists>t. build_video_prompt r [seg] = Inr t \<and> int (length t) \<le> limit)
        \<and> (\<forall>cs c d ds. plan_chunks p = cs @ c # d # ds \<longrightarrow>
        (\<exists>t. build_video_prompt r (chunk_segments c @ [hd (chunk_segments d)]) = Inr t \<and> limit < int (length t))))"
proof (cases "plan_transcript_chunks r limit")
  case (Inl err)
  have only: "chunk_loop f limit segs s = Inl e \<Longrightarrow> e = DomainError ''model_segment_too_large'' RECIPE_FAILED" for f segs s e
  proof (induction segs arbitrary: s)
    case (Cons seg segs)
    then show ?case by (auto simp: result_simps chunk_step_def Let_def split: if_splits)
  qed simp
  from Inl have loop: "run_loop r limit = Inl err" using plan_cases [OF assms, of r] by (cases "run_loop r limit") simp_all
  have "\<not> list_all (fits r limit) (segments (transcript r))" using plan_ok_iff [OF assms, of r] by (simp add: Inl)
  then obtain seg where seg: "seg \<in> set (segments (transcript r))" "limit < int (prompt_bytes r [seg])" by (auto simp: list_all_iff)
  obtain t where t: "build_video_prompt r [seg] = Inr t" "length t = prompt_bytes r [seg]" using build_video_prompt_Inr [of "[seg]" r] by blast
  then have "limit < int (length t)" using seg(2) by simp
  with seg(1) only [OF loop] t(1) show ?thesis unfolding Inl sum.case by blast
next
  case (Inr p)
  have "\<exists>t. build_video_prompt r (chunk_segments c @ [hd (chunk_segments d)]) = Inr t \<and> limit < int (length t)"
    if split: "plan_chunks p = cs @ c # d # ds" for cs c d ds
  proof -
    have g: "greedy r limit (xs @ x # y # ys) \<Longrightarrow> limit < int (prompt_bytes r (x @ [hd y]))" for xs x y ys
      by (induction r limit xs rule: greedy.induct) auto
    have "greedy r limit (map chunk_segments cs @ chunk_segments c # chunk_segments d # map chunk_segments ds)"
      using plan_good(3) [OF Inr] by (simp add: split)
    from g [OF this] show ?thesis
      using build_video_prompt_Inr [of "chunk_segments c @ [hd (chunk_segments d)]" r] by auto
  qed
  moreover have "\<exists>t. build_video_prompt r [seg] = Inr t \<and> int (length t) \<le> limit" if "seg \<in> set (segments (transcript r))" for seg
  proof -
    have "fits r limit seg" using plan_ok_iff [OF assms, of r] that by (simp add: Inr list_all_iff)
    then show ?thesis using build_video_prompt_Inr [of "[seg]" r] by auto
  qed
  ultimately show ?thesis unfolding Inr by auto
qed

section \<open>A transcript\<close>

definition demo_segment :: "nat \<Rightarrow> string \<Rightarrow> transcript_segment" where
  "demo_segment n t = \<lparr>segment_id = ''seg_00000'' @ dec_nat n, start_ms = int n, end_ms = int n + 1, seg_text = t\<rparr>"

definition demo_request :: knowledge_model_request where
  "demo_request = \<lparr>transcript = \<lparr>transcript_language = ''en'', segments = map (\<lambda>n. demo_segment n ''word'') [1, 2, 3]\<rparr>,
     output_language = ''en'', note_style = ''structured'', quality_preset = ''balanced'', shots = SHOTS_OFF\<rparr>"

lemma fixed_lengths:
  "length PREFIX_ROLE_LANGUAGE = 76" "length PREFIX_STYLE = 16" "length PREFIX_QUALITY = 16" "length PREFIX_SAFETY = 260"
  "length MIDDLE_RULES = 412" "length SCREENSHOT_RULE_OFF = 45" "length MIDDLE_BEGIN = 37" "length SUFFIX = 33"
  by (simp_all add: PREFIX_ROLE_LANGUAGE_def PREFIX_STYLE_def PREFIX_QUALITY_def PREFIX_SAFETY_def MIDDLE_RULES_def
      SCREENSHOT_RULE_OFF_def MIDDLE_BEGIN_def SUFFIX_def)

lemma demo_measures: "list_all (\<lambda>seg. first_bytes (measure_video_prompt_segment seg) \<le> 100) (segments (transcript demo_request))"
  by code_simp

lemma demo_fits: "list_all (fits demo_request 3000) (segments (transcript demo_request))"
proof -
  have "video_prompt_fixed_bytes demo_request \<le> 2000"
    by (simp add: video_prompt_fixed_bytes_def prompt_parts_def fixed_lengths demo_request_def Let_def)
  then show ?thesis using demo_measures by (auto simp: list_all_iff prompt_bytes_def)
qed

theorem planned_prompts_fit_witness:
  "\<exists>p. plan_transcript_chunks demo_request 3000 = Inr p \<and> concat (map chunk_segments (plan_chunks p)) = segments (transcript demo_request)"
proof -
  have "is_ok (plan_transcript_chunks demo_request 3000)" using plan_ok_iff demo_fits by simp
  then obtain p where p: "plan_transcript_chunks demo_request 3000 = Inr p" by (cases "plan_transcript_chunks demo_request 3000") auto
  with planned_prompts_fit [OF p] show ?thesis by blast
qed

text \<open>With a budget of 1100 bytes the three segments make two chunks.\<close>

lemma demo_fixed: "video_prompt_fixed_bytes demo_request = 915"
  by (simp add: video_prompt_fixed_bytes_def prompt_parts_def fixed_lengths demo_request_def Let_def)

lemma demo_costs:
  "n \<in> {1, 2, 3} \<Longrightarrow> measure_video_prompt_segment (demo_segment n ''word'') = \<lparr>first_bytes = 78, continuation_bytes = 82\<rparr>"
  by (elim insertE emptyE; hypsubst; code_simp)

theorem plan_is_greedy_witness:
  "\<exists>p c d. plan_transcript_chunks demo_request 1100 = Inr p \<and> plan_chunks p = [c, d]
     \<and> (\<exists>t. build_video_prompt demo_request (chunk_segments c @ [hd (chunk_segments d)]) = Inr t \<and> 1100 < int (length t))"
proof -
  have "case plan_transcript_chunks demo_request 1100 of Inl _ \<Rightarrow> False | Inr p \<Rightarrow> length (plan_chunks p) = 2"
    unfolding plan_transcript_chunks_def Let_def demo_fixed
    by (simp add: demo_request_def chunk_step_def close_chunk_def demo_costs Let_def)
  then obtain p where p: "plan_transcript_chunks demo_request 1100 = Inr p" "length (plan_chunks p) = 2" by (auto split: sum.splits)
  then obtain c d where "plan_chunks p = [] @ c # d # []" by (auto simp: length_Suc_conv numeral_eq_Suc)
  with plan_is_greedy [of 1100 demo_request] p(1) show ?thesis by fastforce
qed

end
