(* ===== verification/Flows.thy ===== *)
theory Flows
  imports JobQueries OperationHistory
begin

text \<open>
  Code that runs across several transactions. A flow takes the state of the world and returns a result or the exception it
  ends with, and the world it leaves: unlike a transaction, an exception keeps what was committed before it. Nothing is
  assumed of the surroundings: a \<open>rig\<close> says, for every moment, what the transaction of that moment draws from outside,
  which commands other processes ran on the store just before it, whether the database refused it, and how the additional
  heartbeat fared. A theorem holds for every rig unless it names what it asks of the surroundings.
\<close>

section \<open>Worlds and flows\<close>

datatype failure = Failure store_error | Crash

record world =
  ticks :: nat
  w_store :: store

record rig =
  moment :: "nat \<Rightarrow> env"
  others :: "nat \<Rightarrow> (env \<times> command) list"
  fault :: "nat \<Rightarrow> store_error option"
  extra_beat :: "nat \<Rightarrow> store_error option"
  hasher :: "string \<Rightarrow> string"
  floats :: "string \<Rightarrow> string option"

type_synonym ('a, 'w) flow = "'w world_scheme \<Rightarrow> (failure + 'a) \<times> 'w world_scheme"

definition return :: "'a \<Rightarrow> ('a, 'w) flow" where
  "return x = (\<lambda>w. (Inr x, w))"

definition raise :: "failure \<Rightarrow> ('a, 'w) flow" where
  "raise x = (\<lambda>w. (Inl x, w))"

definition bind :: "('a, 'w) flow \<Rightarrow> ('a \<Rightarrow> ('b, 'w) flow) \<Rightarrow> ('b, 'w) flow" where
  "bind f g = (\<lambda>w. case f w of (Inl x, w') \<Rightarrow> (Inl x, w') | (Inr a, w') \<Rightarrow> g a w')"

text \<open>\<open>try: f except DomainError as error: h(error)\<close>; any other exception passes.\<close>

definition handle :: "('a, 'w) flow \<Rightarrow> (string \<Rightarrow> error_category \<Rightarrow> ('a, 'w) flow) \<Rightarrow> ('a, 'w) flow" where
  "handle f h = (\<lambda>w. case f w of (Inl (Failure (DomainError c k)), w') \<Rightarrow> h c k w' | r \<Rightarrow> r)"

abbreviation then_do :: "(unit, 'w) flow \<Rightarrow> ('b, 'w) flow \<Rightarrow> ('b, 'w) flow" where
  "then_do f g \<equiv> bind f (\<lambda>_. g)"

definition tick :: "'w world_scheme \<Rightarrow> 'w world_scheme" where
  "tick w = w\<lparr>ticks := Suc (ticks w)\<rparr>"

section \<open>Transactions\<close>

text \<open>What other processes did: a command that fails changes nothing.\<close>

fun interfere :: "(env \<times> command) list \<Rightarrow> store \<Rightarrow> store" where
  "interfere [] s = s"
| "interfere ((e, c) # cs) s = interfere cs (case run_command e c s of Inl _ \<Rightarrow> s | Inr s' \<Rightarrow> s')"

definition transact ::
    "rig \<Rightarrow> (env \<Rightarrow> store \<Rightarrow> store_error + ('a \<times> store)) \<Rightarrow> ('a, 'w) flow" where
  "transact rig f = (\<lambda>w.
    let s = interfere (others rig (ticks w)) (w_store w); w1 = tick w
    in case fault rig (ticks w) of
         Some err \<Rightarrow> (Inl (Failure err), w1\<lparr>w_store := s\<rparr>)
       | None \<Rightarrow> (case f (moment rig (ticks w)) s of
                   Inl err \<Rightarrow> (Inl (Failure err), w1\<lparr>w_store := s\<rparr>)
                 | Inr (a, s') \<Rightarrow> (Inr a, w1\<lparr>w_store := s'\<rparr>)))"

definition observe :: "rig \<Rightarrow> (env \<Rightarrow> store \<Rightarrow> store_error + 'a) \<Rightarrow> ('a, 'w) flow" where
  "observe rig f = transact rig (\<lambda>e s. andthen (f e s) (\<lambda>a. Inr (a, s)))"

text \<open>\<open>CancellationToken.raise_if_cancelled\<close>\<close>

definition is_cancelled :: "rig \<Rightarrow> string \<Rightarrow> (bool, 'w) flow" where
  "is_cancelled rig jid = observe rig (\<lambda>_. is_cancellation_requested jid)"

definition raise_if_cancelled :: "rig \<Rightarrow> string \<Rightarrow> (unit, 'w) flow" where
  "raise_if_cancelled rig jid =
     bind (is_cancelled rig jid) (\<lambda>c. if c then raise (Failure (DomainError ''job_cancelled'' CANCELLED_ERROR)) else return ())"

text \<open>\<open>CheckpointedStepRunner._heartbeat\<close>: the lease the authority stands for, then whatever else is to be kept alive.\<close>

definition additional_heartbeat :: "rig \<Rightarrow> (unit, 'w) flow" where
  "additional_heartbeat rig = (\<lambda>w. case extra_beat rig (ticks w) of
     Some err \<Rightarrow> (Inl (Failure err), tick w) | None \<Rightarrow> (Inr (), tick w))"

definition heartbeat :: "rig \<Rightarrow> int \<Rightarrow> any_authority \<Rightarrow> (unit, 'w) flow" where
  "heartbeat rig ttl authority =
     then_do (case authority of
         JobBound a \<Rightarrow> bind (transact rig (\<lambda>e. heartbeat_job_claim e a ttl)) (\<lambda>_. return ())
       | Leadership _ \<Rightarrow> bind (transact rig (\<lambda>e. heartbeat_scheduler_lease e authority ttl)) (\<lambda>_. return ()))
       (additional_heartbeat rig)"

text \<open>The steps of a run that ended, one by one.\<close>

lemma return_eq [simp]: "return a w = (res, w') \<longleftrightarrow> res = Inr a \<and> w' = w"
  and raise_eq [simp]: "raise err w = (res, w') \<longleftrightarrow> res = Inl err \<and> w' = w"
  by (auto simp: return_def raise_def)

lemma bind_elim:
  assumes "bind f g w = (res, w')"
  obtains (failed) err where "f w = (Inl err, w')" "res = Inl err" | (went_on) a w1 where "f w = (Inr a, w1)" "g a w1 = (res, w')"
  using assms by (cases "f w") (auto simp: bind_def split: sum.splits)

lemma handle_elim:
  assumes "handle f h w = (res, w')"
  obtains (handled) c k w1 where "f w = (Inl (Failure (DomainError c k)), w1)" "h c k w1 = (res, w')"
    | (same) "f w = (res, w')"
  using assms by (cases "f w") (auto simp: handle_def split: sum.splits failure.splits store_error.splits)

section \<open>What a flow may do to the store\<close>

text \<open>A transaction is lawful when it leaves a later store, as every command of the job store does.\<close>

definition lawful :: "(env \<Rightarrow> store \<Rightarrow> store_error + ('a \<times> store)) \<Rightarrow> bool" where
  "lawful f \<longleftrightarrow> (\<forall>e s a s'. f e s = Inr (a, s') \<longrightarrow> later s s')"

named_theorems lawful_intros \<open>lawful transactions\<close>

lemma interfere_later: "later s (interfere cs s)"
proof (induction cs s rule: interfere.induct)
  case (2 e c cs s)
  then show ?case by (cases "run_command e c s") (auto intro: later_trans later_command)
qed simp

lemma lawful_read [lawful_intros]: "lawful (\<lambda>e s. andthen (f e s) (\<lambda>a. Inr (a, s)))"
  by (auto simp: lawful_def result_simps)

lemma lawful_command: "(\<And>e s a s'. f e s = Inr (a, s') \<Longrightarrow> \<exists>c. run_command e c s = Inr s') \<Longrightarrow> lawful f"
  unfolding lawful_def by (metis later_command)

lemma lawful_heartbeats [lawful_intros]:
  "lawful (\<lambda>e. heartbeat_job_claim e a ttl)" "lawful (\<lambda>e. heartbeat_scheduler_lease e x ttl)"
  by (rule lawful_command, rule exI [where x = "HeartbeatClaim a ttl"], simp add: stored_Inr,
      rule lawful_command, rule exI [where x = "HeartbeatScheduler x ttl"], simp add: stored_Inr)

lemma transact_done:
  assumes "transact rig f w = (Inr a, w')" and "lawful f"
  obtains e s where "later (w_store w) s" "f e s = Inr (a, w_store w')"
  using assms interfere_later [of "w_store w" "others rig (ticks w)"]
  by (auto simp: transact_def tick_def Let_def split: option.splits sum.splits prod.splits)

text \<open>
  What the parts of a flow keep, stated once for every kind of world: a relation between the world before and the world
  after that is reflexive, transitive, and admits every later store.
\<close>

locale flow_frame =
  fixes R :: "'w world_scheme \<Rightarrow> 'w world_scheme \<Rightarrow> bool"
  assumes stays: "R w w"
    and joins: "R w w1 \<Longrightarrow> R w1 w2 \<Longrightarrow> R w w2"
    and admits: "later (w_store w) s \<Longrightarrow> R w (tick w\<lparr>w_store := s\<rparr>)"
begin

definition keeps :: "('a, 'w) flow \<Rightarrow> bool" where
  "keeps f \<longleftrightarrow> (\<forall>w. R w (snd (f w)))"

lemma keepsD: "keeps f \<Longrightarrow> f w = (res, w') \<Longrightarrow> R w w'"
  unfolding keeps_def by (metis snd_conv)

lemma keeps_tick: "R w (tick w)"
  using admits [of w "w_store w"] by (simp add: tick_def)

lemma keeps_return: "keeps (return x)" and keeps_raise: "keeps (raise y)"
  by (simp_all add: keeps_def return_def raise_def stays)

lemma keeps_bind:
  assumes "keeps f" and "\<And>a. keeps (g a)"
  shows "keeps (bind f g)"
  unfolding keeps_def
proof
  fix w
  obtain res w' where run: "bind f g w = (res, w')" by fastforce
  then have "R w w'" using assms by (cases rule: bind_elim) (metis keepsD joins)+
  with run show "R w (snd (bind f g w))" by simp
qed

lemma keeps_handle:
  assumes "keeps f" and "\<And>c k. keeps (h c k)"
  shows "keeps (handle f h)"
  unfolding keeps_def
proof
  fix w
  obtain res w' where run: "handle f h w = (res, w')" by fastforce
  then have "R w w'" using assms by (cases rule: handle_elim) (metis keepsD joins)+
  with run show "R w (snd (handle f h w))" by simp
qed

lemma keeps_if: "(c \<Longrightarrow> keeps f) \<Longrightarrow> (\<not> c \<Longrightarrow> keeps g) \<Longrightarrow> keeps (if c then f else g)"
  by simp

lemma keeps_transact:
  assumes "lawful f"
  shows "keeps (transact rig f)"
  unfolding keeps_def
proof
  fix w :: "'w world_scheme"
  let ?s = "interfere (others rig (ticks w)) (w_store w)"
  have "later (w_store w) ?s" by (rule interfere_later)
  moreover from this have "later (w_store w) s'" if "f (moment rig (ticks w)) ?s = Inr (a, s')" for a s'
    using assms that later_trans unfolding lawful_def by blast
  ultimately show "R w (snd (transact rig f w))"
    by (auto simp: transact_def Let_def intro!: admits split: option.splits sum.splits prod.splits)
qed

lemma keeps_observe: "keeps (observe rig f)"
  unfolding observe_def by (intro keeps_transact lawful_intros)

lemma keeps_heartbeat: "keeps (heartbeat rig ttl authority)"
proof -
  have "keeps (additional_heartbeat rig)"
    by (simp add: keeps_def additional_heartbeat_def keeps_tick split: option.splits)
  then show ?thesis
    unfolding heartbeat_def by (cases authority) (auto intro!: keeps_bind keeps_return keeps_transact lawful_intros)
qed

lemma keeps_cancellation: "keeps (is_cancelled rig jid)" "keeps (raise_if_cancelled rig jid)"
  unfolding raise_if_cancelled_def is_cancelled_def by (auto intro!: keeps_bind keeps_return keeps_raise keeps_observe)

text \<open>A part that keeps the relation either ends the run or hands over to the rest of it.\<close>

lemma keeps_prefix:
  assumes "bind f g w = (res, w')" and "keeps f"
  shows "R w w' \<and> (\<exists>err. res = Inl err) \<or> (\<exists>a w1. f w = (Inr a, w1) \<and> R w w1 \<and> g a w1 = (res, w'))"
  using assms(1)
proof (cases rule: bind_elim)
  case (failed err)
  with keepsD [OF assms(2)] show ?thesis by blast
next
  case (went_on a w1)
  with keepsD [OF assms(2)] show ?thesis by blast
qed

lemmas keeps_intros = keeps_return keeps_raise keeps_bind keeps_handle keeps_if keeps_transact keeps_observe keeps_heartbeat keeps_cancellation

end

end
