(* ===== verification/ModelCalls.thy ===== *)
theory ModelCalls
  imports Flows JsonRoundTrip Complex_Main
begin

text \<open>
  Recoverable calls of language models: the values of \<open>core/ports/model_executor.py\<close>, the store of their results
  (\<open>adapters/models/model_result_store.py\<close>, its files a map from names to their text), the guard of
  \<open>core/jobs/external_operation.py\<close>, the coordinator of \<open>core/application/model_call_coordinator.py\<close> and the call groups of
  \<open>core/application/reviewed_call_cache.py\<close>. What the provider answers, and which file operations fail, is part of the
  surroundings (\<open>call_rig\<close>) and arbitrary.
\<close>

section \<open>Values\<close>

datatype model_output_mode = OUT_TEXT | OUT_JSON_SCHEMA
datatype model_finish_reason = FINISH_STOP | FINISH_LENGTH | FINISH_CONTENT_FILTER | FINISH_UNKNOWN

fun output_mode_value :: "model_output_mode \<Rightarrow> string" where
  "output_mode_value OUT_TEXT = ''text''"
| "output_mode_value OUT_JSON_SCHEMA = ''json_schema''"

fun finish_reason_value :: "model_finish_reason \<Rightarrow> string" where
  "finish_reason_value FINISH_STOP = ''stop''"
| "finish_reason_value FINISH_LENGTH = ''length''"
| "finish_reason_value FINISH_CONTENT_FILTER = ''content_filter''"
| "finish_reason_value FINISH_UNKNOWN = ''unknown''"

definition finish_reason_of :: "string \<Rightarrow> model_finish_reason option" where
  "finish_reason_of t = List.find (\<lambda>r. finish_reason_value r = t) [FINISH_STOP, FINISH_LENGTH, FINISH_CONTENT_FILTER, FINISH_UNKNOWN]"

lemma finish_reason_of_value [simp]: "finish_reason_of (finish_reason_value r) = Some r"
  by (cases r) (simp_all add: finish_reason_of_def)

record model_execution_binding =
  mb_schema_version :: int
  mb_provider_type :: string
  mb_model_identity :: string
  mb_credential_profile_ref :: string
  mb_context_window_tokens :: int
  mb_max_output_tokens :: int
  mb_max_concurrency :: int
  mb_supports_structured_output :: bool
  mb_supports_temperature :: bool
  mb_timeout_seconds :: real
  mb_fallback_model_identity :: "string option"

definition accepts_model :: "model_execution_binding \<Rightarrow> string \<Rightarrow> bool" where
  "accepts_model b identity \<longleftrightarrow> identity = mb_model_identity b \<or> mb_fallback_model_identity b = Some identity"

text \<open>A temperature is a JSON number, an image the text of its bytes.\<close>

record model_execution_request =
  mq_schema_version :: int
  mq_stage_id :: string
  mq_stage_version :: int
  mq_prompt_id :: string
  mq_prompt_version :: int
  mq_system_instruction :: string
  mq_user_content :: string
  mq_output_mode :: model_output_mode
  mq_max_output_tokens :: int
  mq_timeout_seconds :: real
  mq_response_schema_json :: "string option"
  mq_temperature :: "json option"
  mq_image_webp :: "string list"

record model_execution_result =
  mr_text :: string
  mr_actual_model_identity :: string
  mr_input_tokens :: "int option"
  mr_output_tokens :: "int option"
  mr_finish_reason :: model_finish_reason
  mr_provider_request_id :: "string option"
  mr_warnings :: "string list"

text \<open>\<open>[A-Za-z0-9][A-Za-z0-9._:-]{0,255}\<close>\<close>

definition provider_request_id_ok :: "string \<Rightarrow> bool" where
  "provider_request_id_ok t \<longleftrightarrow> t \<noteq> [] \<and> length t \<le> 256 \<and> ascii_alnum (hd t)
     \<and> list_all (\<lambda>c. ascii_alnum c \<or> c \<in> set ''._:-'') (tl t)"

definition model_execution_result_init :: "model_execution_result \<Rightarrow> store_error + model_execution_result" where
  "model_execution_result_init r =
    (if blank (mr_text r) \<or> blank (mr_actual_model_identity r)
        \<or> (case mr_input_tokens r of Some n \<Rightarrow> n < 0 | None \<Rightarrow> False) \<or> (case mr_output_tokens r of Some n \<Rightarrow> n < 0 | None \<Rightarrow> False)
        \<or> (case mr_provider_request_id r of Some t \<Rightarrow> \<not> provider_request_id_ok t | None \<Rightarrow> False)
        \<or> list_ex blank (mr_warnings r)
     then invalid ''model_execution_result_invalid'' else Inr r)"

section \<open>Texts\<close>

definition text_or_null :: "string option \<Rightarrow> json" where
  "text_or_null x = (case x of None \<Rightarrow> JNull | Some t \<Rightarrow> JStr t)"

definition int_or_null :: "int option \<Rightarrow> json" where
  "int_or_null x = (case x of None \<Rightarrow> JNull | Some n \<Rightarrow> JInt n)"

text \<open>\<open>core/portable/jsonio.py\<close>: canonical JSON and a line feed.\<close>

definition encode_json :: "json \<Rightarrow> string" where
  "encode_json v = dumps v @ [CHR 0x0A]"

definition OPERATION_NAME :: string where
  "OPERATION_NAME = ''model-completion''"

section \<open>The store of results\<close>

datatype file_fault = NoFault | FaultBefore | FaultAfter

datatype provider_reply = Completed model_execution_result | Refused store_error | Crashed | Malformed

record reviewed_calls =
  cached :: "(string \<times> model_execution_result) list"
  completed :: "(string \<times> model_execution_result) list"

record call_world = world +
  result_files :: "string \<Rightarrow> string option"
  provider_calls :: "model_execution_request list"
  reviewed :: "reviewed_calls option"

type_synonym 'a call_flow = "call_world \<Rightarrow> (failure + 'a) \<times> call_world"

record call_rig = rig +
  provider_answer :: "nat \<Rightarrow> model_execution_request \<Rightarrow> provider_reply"
  file_faults :: "nat \<Rightarrow> file_fault"

record stored_result =
  relative_file :: string
  stored_sha256 :: string

abbreviation unavailable :: failure where
  "unavailable \<equiv> Failure (DomainError ''external_result_unavailable'' CONFLICT)"

text \<open>\<open>op_[0-9A-Za-z-]+\<close>\<close>

definition safe_operation_id :: "string \<Rightarrow> bool" where
  "safe_operation_id t \<longleftrightarrow> take 3 t = ''op_'' \<and> drop 3 t \<noteq> [] \<and> list_all (\<lambda>c. ascii_alnum c \<or> c = CHR ''-'') (drop 3 t)"

definition result_target :: "string \<Rightarrow> string" where
  "result_target oid = oid @ ''.model.json''"

definition check_hash :: "string \<Rightarrow> bool" where
  "check_hash rhash \<longleftrightarrow> take 7 rhash = ''sha256:'' \<and> length rhash = 71 \<and> list_all hex_digit (drop 7 rhash)"

definition RESULT_SCHEMA :: string where
  "RESULT_SCHEMA = ''alltonote.model-operation-result.v1''"

definition encode_result :: "string \<Rightarrow> model_execution_result \<Rightarrow> string" where
  "encode_result rhash r = encode_json (JObj
     [(''actual_model_identity'', JStr (mr_actual_model_identity r)), (''finish_reason'', JStr (finish_reason_value (mr_finish_reason r))),
      (''input_tokens'', int_or_null (mr_input_tokens r)), (''output_tokens'', int_or_null (mr_output_tokens r)),
      (''provider_request_id'', text_or_null (mr_provider_request_id r)), (''request_hash'', JStr rhash),
      (''schema'', JStr RESULT_SCHEMA), (''text'', JStr (mr_text r)), (''warnings'', JList (map JStr (mr_warnings r)))])"

fun json_text :: "json \<Rightarrow> string option" where
  "json_text (JStr t) = Some t"
| "json_text _ = None"

fun nullable_text :: "json \<Rightarrow> string option option" where
  "nullable_text JNull = Some None"
| "nullable_text (JStr t) = Some (Some t)"
| "nullable_text _ = None"

fun nullable_int :: "json \<Rightarrow> int option option" where
  "nullable_int JNull = Some None"
| "nullable_int (JInt n) = Some (Some n)"
| "nullable_int _ = None"

fun text_list :: "json list \<Rightarrow> string list option" where
  "text_list [] = Some []"
| "text_list (JStr t # vs) = map_option ((#) t) (text_list vs)"
| "text_list (_ # vs) = None"

definition RESULT_KEYS :: "string list" where
  "RESULT_KEYS = [''actual_model_identity'', ''finish_reason'', ''input_tokens'', ''output_tokens'', ''provider_request_id'',
     ''request_hash'', ''schema'', ''text'', ''warnings'']"

text \<open>A field of another type makes \<open>ModelExecutionResult\<close> raise, which the decoder answers as an unavailable result.\<close>

definition decode_result :: "(string \<Rightarrow> string option) \<Rightarrow> string \<Rightarrow> string \<Rightarrow> model_execution_result option" where
  "decode_result fr payload rhash =
    (case loads fr payload of
       Some (JObj v) \<Rightarrow>
         if set (map fst v) \<noteq> set RESULT_KEYS \<or> map_of v ''schema'' \<noteq> Some (JStr RESULT_SCHEMA)
            \<or> map_of v ''request_hash'' \<noteq> Some (JStr rhash) then None
         else (case (Option.bind (map_of v ''text'') json_text, Option.bind (map_of v ''actual_model_identity'') json_text,
                     Option.bind (map_of v ''input_tokens'') nullable_int, Option.bind (map_of v ''output_tokens'') nullable_int,
                     Option.bind (Option.bind (map_of v ''finish_reason'') json_text) finish_reason_of,
                     Option.bind (map_of v ''provider_request_id'') nullable_text, map_of v ''warnings'') of
                 (Some t, Some identity, Some i, Some out, Some reason, Some prid, Some (JList ws)) \<Rightarrow>
                   (case text_list ws of
                      None \<Rightarrow> None
                    | Some texts \<Rightarrow>
                       (case model_execution_result_init \<lparr>mr_text = t, mr_actual_model_identity = identity, mr_input_tokens = i,
                               mr_output_tokens = out, mr_finish_reason = reason, mr_provider_request_id = prid, mr_warnings = texts\<rparr> of
                          Inl _ \<Rightarrow> None | Inr r \<Rightarrow> Some r))
               | _ \<Rightarrow> None)
     | _ \<Rightarrow> None)"

text \<open>An existing file is kept if it holds the same result; a new one is written beside its place and moved there.\<close>

definition save_result ::
    "call_rig \<Rightarrow> string \<Rightarrow> string \<Rightarrow> model_execution_result \<Rightarrow> stored_result call_flow" where
  "save_result rig oid rhash r = (\<lambda>w.
    let payload = encode_result rhash r; target = result_target oid;
        stored = \<lparr>relative_file = target, stored_sha256 = hasher rig payload\<rparr>;
        written = tick w\<lparr>result_files := (result_files w)(target \<mapsto> payload)\<rparr>
    in if \<not> safe_operation_id oid \<or> \<not> check_hash rhash \<or> file_faults rig (ticks w) = FaultBefore then (Inl unavailable, tick w)
       else (case result_files w target of
               Some existing \<Rightarrow>
                 if file_faults rig (ticks w) \<noteq> NoFault then (Inl unavailable, tick w)
                 else if existing \<noteq> payload then (Inl (Failure (DomainError ''external_result_conflict'' CONFLICT)), tick w)
                 else (Inr stored, tick w)
             | None \<Rightarrow> if file_faults rig (ticks w) \<noteq> NoFault then (Inl unavailable, written) else (Inr stored, written)))"

text \<open>What an operation's summary and the stored files say its result is.\<close>

definition read_result ::
    "(string \<Rightarrow> string) \<Rightarrow> (string \<Rightarrow> string option) \<Rightarrow> (string \<Rightarrow> string option) \<Rightarrow> string \<Rightarrow> string \<Rightarrow> string
      \<Rightarrow> model_execution_result option" where
  "read_result sha fr files oid rhash summary =
    (if \<not> check_hash rhash then None
     else (case loads fr summary of
       Some (JObj v) \<Rightarrow>
         (if set (map fst v) \<noteq> set [''operation'', ''result'', ''shard_key''] \<or> map_of v ''operation'' \<noteq> Some (JStr OPERATION_NAME)
          then None
          else (case map_of v ''result'' of
                  Some (JObj ref) \<Rightarrow>
                    (if set (map fst ref) \<noteq> set [''path'', ''request_hash'', ''sha256''] \<or> \<not> safe_operation_id oid
                        \<or> map_of ref ''path'' \<noteq> Some (JStr (result_target oid)) \<or> map_of ref ''request_hash'' \<noteq> Some (JStr rhash)
                     then None
                     else (case files (result_target oid) of
                             None \<Rightarrow> None
                           | Some payload \<Rightarrow>
                              if map_of ref ''sha256'' \<noteq> Some (JStr (sha payload)) then None else decode_result fr payload rhash))
                | _ \<Rightarrow> None))
     | _ \<Rightarrow> None))"

definition load_result :: "call_rig \<Rightarrow> string \<Rightarrow> string \<Rightarrow> string \<Rightarrow> model_execution_result call_flow" where
  "load_result rig oid rhash summary = (\<lambda>w.
    (case (if file_faults rig (ticks w) \<noteq> NoFault then None
           else read_result (hasher rig) (floats rig) (result_files w) oid rhash summary) of
       None \<Rightarrow> (Inl unavailable, tick w)
     | Some r \<Rightarrow> (Inr r, tick w)))"

section \<open>The guard of external operations\<close>

record model_call_execution =
  mx_job_id :: string
  mx_step_id :: string
  mx_attempt_id :: string
  mx_authority :: any_authority
  mx_lease_ttl :: int

definition model_call_execution_valid :: "model_call_execution \<Rightarrow> bool" where
  "model_call_execution_valid x \<longleftrightarrow> \<not> blank (mx_job_id x) \<and> \<not> blank (mx_step_id x) \<and> \<not> blank (mx_attempt_id x)"

definition guard_prepare ::
    "call_rig \<Rightarrow> model_call_execution \<Rightarrow> string \<Rightarrow> string \<Rightarrow> string \<Rightarrow> int \<Rightarrow> external_operation call_flow" where
  "guard_prepare rig x prov rhash summary max_attempts =
    (if max_attempts < 1 then raise (Failure (DomainError ''external_attempt_budget_invalid'' INVALID_REQUEST))
     else transact (rig.truncate rig) (\<lambda>e. prepare_external_operation e (mx_job_id x) (mx_step_id x) (mx_attempt_id x) prov rhash None summary
            (mx_authority x) (Some max_attempts)))"

definition guard_start :: "call_rig \<Rightarrow> model_call_execution \<Rightarrow> string \<Rightarrow> external_operation call_flow" where
  "guard_start rig x oid = transact (rig.truncate rig) (\<lambda>e. start_external_operation e oid (mx_authority x))"

definition guard_succeed ::
    "call_rig \<Rightarrow> model_call_execution \<Rightarrow> string \<Rightarrow> string option \<Rightarrow> string \<Rightarrow> external_operation call_flow" where
  "guard_succeed rig x oid prid summary =
     transact (rig.truncate rig) (\<lambda>e. finish_external_operation e oid O_SUCCEEDED prid summary (mx_authority x))"

definition guard_fail :: "call_rig \<Rightarrow> model_call_execution \<Rightarrow> string \<Rightarrow> string \<Rightarrow> external_operation call_flow" where
  "guard_fail rig x oid summary =
     transact (rig.truncate rig) (\<lambda>e. finish_external_operation e oid O_FAILED None summary (mx_authority x))"

definition guard_unknown :: "call_rig \<Rightarrow> model_call_execution \<Rightarrow> string \<Rightarrow> string \<Rightarrow> external_operation call_flow" where
  "guard_unknown rig x oid summary =
     transact (rig.truncate rig) (\<lambda>e. mark_external_operation_unknown e oid summary (mx_authority x))"

section \<open>What a call is known by\<close>

definition prepared_summary :: "model_execution_binding \<Rightarrow> model_execution_request \<Rightarrow> string \<Rightarrow> string" where
  "prepared_summary b q shard = dumps (JObj
     [(''model_identity'', JStr (mb_model_identity b)), (''operation'', JStr OPERATION_NAME), (''prompt_id'', JStr (mq_prompt_id q)),
      (''prompt_version'', JInt (mq_prompt_version q)), (''shard_key'', JStr shard), (''stage_id'', JStr (mq_stage_id q)),
      (''stage_version'', JInt (mq_stage_version q))])"

definition success_summary :: "string \<Rightarrow> string \<Rightarrow> stored_result \<Rightarrow> string" where
  "success_summary shard rhash st = dumps (JObj
     [(''operation'', JStr OPERATION_NAME),
      (''result'', JObj [(''path'', JStr (relative_file st)), (''request_hash'', JStr rhash), (''sha256'', JStr (stored_sha256 st))]),
      (''shard_key'', JStr shard)])"

definition error_json_of :: "string \<Rightarrow> error_category \<Rightarrow> json" where
  "error_json_of c k = JObj [(''category'', JStr (error_category_value k)), (''code'', JStr c)]"

definition failure_summary :: "string \<Rightarrow> string \<Rightarrow> error_category \<Rightarrow> string" where
  "failure_summary shard c k =
     dumps (JObj [(''error'', error_json_of c k), (''operation'', JStr OPERATION_NAME), (''shard_key'', JStr shard)])"

definition unknown_summary :: "string \<Rightarrow> string" where
  "unknown_summary shard = dumps (JObj [(''operation'', JStr OPERATION_NAME), (''shard_key'', JStr shard)])"

definition terminal_error_summary :: "string \<Rightarrow> string \<Rightarrow> error_category \<Rightarrow> string" where
  "terminal_error_summary shard c k =
     dumps (JObj [(''operation'', JStr OPERATION_NAME), (''shard_key'', JStr shard), (''terminal_error'', error_json_of c k)])"

definition request_hash_json :: "(string \<Rightarrow> string) \<Rightarrow> model_execution_binding \<Rightarrow> model_execution_request \<Rightarrow> string \<Rightarrow> json" where
  "request_hash_json sha b q shard = JObj
     [(''binding'', JObj
        [(''context_window_tokens'', JInt (mb_context_window_tokens b)), (''credential_profile_ref'', JStr (mb_credential_profile_ref b)),
         (''max_concurrency'', JInt (mb_max_concurrency b)), (''max_output_tokens'', JInt (mb_max_output_tokens b)),
         (''model_identity'', JStr (mb_model_identity b)), (''fallback_model_identity'', text_or_null (mb_fallback_model_identity b)),
         (''provider_type'', JStr (mb_provider_type b)), (''schema_version'', JInt (mb_schema_version b)),
         (''supports_structured_output'', JBool (mb_supports_structured_output b)),
         (''supports_temperature'', JBool (mb_supports_temperature b))]),
      (''operation'', JStr OPERATION_NAME),
      (''request'', JObj (
        [(''max_output_tokens'', JInt (mq_max_output_tokens q)), (''output_mode'', JStr (output_mode_value (mq_output_mode q))),
         (''prompt_id'', JStr (mq_prompt_id q)), (''prompt_version'', JInt (mq_prompt_version q)),
         (''response_schema_json'', text_or_null (mq_response_schema_json q)), (''schema_version'', JInt (mq_schema_version q)),
         (''stage_id'', JStr (mq_stage_id q)), (''stage_version'', JInt (mq_stage_version q)),
         (''system_instruction'', JStr (mq_system_instruction q)),
         (''temperature'', (case mq_temperature q of None \<Rightarrow> JNull | Some v \<Rightarrow> v)), (''user_content'', JStr (mq_user_content q))]
        @ (if mq_image_webp q \<noteq> [] then [(''image_webp_sha256'', JList (map (\<lambda>v. JStr (sha v)) (mq_image_webp q)))] else []))),
      (''shard_key'', JStr shard)]"

definition model_request_hash :: "(string \<Rightarrow> string) \<Rightarrow> model_execution_binding \<Rightarrow> model_execution_request \<Rightarrow> string \<Rightarrow> string" where
  "model_request_hash sha b q shard = sha (encode_json (request_hash_json sha b q shard))"

text \<open>\<open>[A-Za-z0-9][A-Za-z0-9._-]{0,127}\<close>\<close>

definition safe_shard_key :: "string \<Rightarrow> bool" where
  "safe_shard_key t \<longleftrightarrow> t \<noteq> [] \<and> length t \<le> 128 \<and> ascii_alnum (hd t)
     \<and> list_all (\<lambda>c. ascii_alnum c \<or> c \<in> set ''._-'') (tl t)"

definition validate_call :: "model_execution_binding \<Rightarrow> model_execution_request \<Rightarrow> string \<Rightarrow> store_error + unit" where
  "validate_call b q shard =
    (if \<not> safe_shard_key shard then invalid ''model_shard_key_invalid''
     else if mb_max_output_tokens b < mq_max_output_tokens q then invalid ''model_call_invalid''
     else if mb_timeout_seconds b < mq_timeout_seconds q then invalid ''model_call_invalid''
     else if mq_output_mode q = OUT_JSON_SCHEMA \<and> \<not> mb_supports_structured_output b
       then Inl (DomainError ''model_capability_missing'' POLICY_DENIED)
     else if mq_image_webp q \<noteq> [] \<and> mb_provider_type b \<noteq> ''codex-app-server''
       then Inl (DomainError ''model_capability_missing'' POLICY_DENIED)
     else if mq_temperature q \<noteq> None \<and> \<not> mb_supports_temperature b
       then Inl (DomainError ''model_capability_missing'' POLICY_DENIED)
     else Inr ())"

text \<open>The error a terminal summary records, \<open>Inr None\<close> when it records a result.\<close>

definition decode_terminal_error :: "(string \<Rightarrow> string option) \<Rightarrow> string \<Rightarrow> failure + (string \<times> error_category) option" where
  "decode_terminal_error fr summary =
    (case loads fr summary of
       Some (JObj v) \<Rightarrow>
         (case map_of v ''terminal_error'' of
            None \<Rightarrow> Inr None
          | Some JNull \<Rightarrow> Inr None
          | Some (JObj t) \<Rightarrow>
              (if map_of v ''operation'' \<noteq> Some (JStr OPERATION_NAME) \<or> set (map fst t) \<noteq> set [''category'', ''code''] then Inl unavailable
               else (case (Option.bind (map_of t ''code'') json_text, Option.bind (Option.bind (map_of t ''category'') json_text) error_category_of) of
                       (Some c, Some k) \<Rightarrow> Inr (Some (c, k))
                     | _ \<Rightarrow> Inl unavailable))
          | _ \<Rightarrow> Inl unavailable)
     | _ \<Rightarrow> Inl unavailable)"

section \<open>The coordinator\<close>

text \<open>\<open>active_reviewed_calls\<close>: a call group under review remembers what it completed.\<close>

definition remember :: "string \<Rightarrow> model_execution_result \<Rightarrow> unit call_flow" where
  "remember rhash r = (\<lambda>w. (Inr (), case reviewed w of None \<Rightarrow> w
     | Some c \<Rightarrow> w\<lparr>reviewed := Some (c\<lparr>completed := (rhash, r) # filter (\<lambda>(h, _). h \<noteq> rhash) (completed c)\<rparr>)\<rparr>))"

text \<open>\<open>tuple(dict.fromkeys(...))\<close>: the first of equal texts stays.\<close>

definition unique_texts :: "string list \<Rightarrow> string list" where
  "unique_texts ts = rev (remdups (rev ts))"

definition cached_result :: "model_execution_result \<Rightarrow> model_execution_result" where
  "cached_result r = r\<lparr>mr_input_tokens := Some 0, mr_output_tokens := Some 0, mr_provider_request_id := None,
     mr_warnings := unique_texts (mr_warnings r @ [''reviewed_call_cache_hit''])\<rparr>"

text \<open>
  The completion: from the cache of the group under review, or from the provider, whose answer is a result (constructing
  one of invalid fields raises), an exception, or a value that is no result. Every provider call is counted.
\<close>

definition complete_call :: "call_rig \<Rightarrow> string \<Rightarrow> model_execution_request \<Rightarrow> provider_reply call_flow" where
  "complete_call rig rhash q = (\<lambda>w.
    let constructed = (\<lambda>r. case model_execution_result_init r of Inl err \<Rightarrow> Refused err | Inr r' \<Rightarrow> Completed r') in
    case Option.bind (reviewed w) (\<lambda>c. map_of (cached c) rhash) of
      Some r \<Rightarrow> (Inr (constructed (cached_result r)), w)
    | None \<Rightarrow>
       (Inr (case provider_answer rig (ticks w) q of Completed r \<Rightarrow> constructed r | reply \<Rightarrow> reply),
        tick w\<lparr>provider_calls := provider_calls w @ [q]\<rparr>))"

text \<open>The summary of a finished operation keeps a terminal error for whoever asks for the call again.\<close>

definition finish_terminal_error ::
    "call_rig \<Rightarrow> model_call_execution \<Rightarrow> string \<Rightarrow> string \<Rightarrow> string \<Rightarrow> error_category \<Rightarrow> 'a call_flow" where
  "finish_terminal_error rig x oid shard c k =
     bind (guard_succeed rig x oid None (terminal_error_summary shard c k)) (\<lambda>_. raise (Failure (DomainError c k)))"

definition recover_terminal_operation ::
    "call_rig \<Rightarrow> model_call_execution \<Rightarrow> external_operation \<Rightarrow> model_execution_binding \<Rightarrow> string \<Rightarrow> model_execution_result call_flow" where
  "recover_terminal_operation rig x operation b rhash =
    (case decode_terminal_error (floats rig) (summary_json operation) of
       Inl err \<Rightarrow> raise err
     | Inr (Some (c, k)) \<Rightarrow> raise (Failure (DomainError c k))
     | Inr None \<Rightarrow>
         bind (load_result rig (operation_id operation) rhash (summary_json operation)) (\<lambda>r.
         if \<not> accepts_model b (mr_actual_model_identity r) then raise (Failure (DomainError ''model_identity_mismatch'' RECIPE_FAILED))
         else bind (raise_if_cancelled (rig.truncate rig) (mx_job_id x)) (\<lambda>_. return r)))"

definition unknown_and_raise :: "call_rig \<Rightarrow> model_call_execution \<Rightarrow> string \<Rightarrow> string \<Rightarrow> string \<Rightarrow> error_category \<Rightarrow> 'a call_flow" where
  "unknown_and_raise rig x oid shard c k =
     bind (guard_unknown rig x oid (unknown_summary shard)) (\<lambda>_. raise (Failure (DomainError c k)))"

definition accept_result ::
    "call_rig \<Rightarrow> model_call_execution \<Rightarrow> model_execution_binding \<Rightarrow> string \<Rightarrow> string \<Rightarrow> string \<Rightarrow> model_execution_result
      \<Rightarrow> model_execution_result call_flow" where
  "accept_result rig x b rhash shard oid r =
    (if \<not> accepts_model b (mr_actual_model_identity r)
     then finish_terminal_error rig x oid shard ''model_identity_mismatch'' RECIPE_FAILED
     else bind (handle (save_result rig oid rhash r) (unknown_and_raise rig x oid shard)) (\<lambda>stored.
          then_do (heartbeat (rig.truncate rig) (mx_lease_ttl x) (mx_authority x))
          (bind (guard_succeed rig x oid (mr_provider_request_id r) (success_summary shard rhash stored)) (\<lambda>_.
           then_do (raise_if_cancelled (rig.truncate rig) (mx_job_id x))
           (then_do (remember rhash r) (return r))))))"

text \<open>What the reply leads to: a result, or \<open>None\<close> to try again.\<close>

definition settle_reply ::
    "call_rig \<Rightarrow> model_call_execution \<Rightarrow> model_execution_binding \<Rightarrow> string \<Rightarrow> string \<Rightarrow> string \<Rightarrow> provider_reply
      \<Rightarrow> model_execution_result option call_flow" where
  "settle_reply rig x b rhash shard oid reply =
    (case reply of
       Refused (DomainError c k) \<Rightarrow>
         if c = ''external_outcome_unknown'' then unknown_and_raise rig x oid shard c k
         else if k = RETRYABLE_RUNTIME then bind (guard_fail rig x oid (failure_summary shard c k)) (\<lambda>_. return None)
         else if k = CANCELLED_ERROR then unknown_and_raise rig x oid shard c k
         else finish_terminal_error rig x oid shard c k
     | Refused (IntegrityError _) \<Rightarrow> unknown_and_raise rig x oid shard ''external_outcome_unknown'' CONFLICT
     | Crashed \<Rightarrow> unknown_and_raise rig x oid shard ''external_outcome_unknown'' CONFLICT
     | _ \<Rightarrow>
         then_do (heartbeat (rig.truncate rig) (mx_lease_ttl x) (mx_authority x))
         (then_do (handle (raise_if_cancelled (rig.truncate rig) (mx_job_id x)) (\<lambda>c k.
                     if k \<noteq> CANCELLED_ERROR then raise (Failure (DomainError c k)) else unknown_and_raise rig x oid shard c k))
         (case reply of
            Completed r \<Rightarrow> bind (accept_result rig x b rhash shard oid r) (\<lambda>r'. return (Some r'))
          | _ \<Rightarrow> finish_terminal_error rig x oid shard ''model_response_invalid'' RECIPE_FAILED)))"

definition perform_call ::
    "call_rig \<Rightarrow> model_call_execution \<Rightarrow> model_execution_binding \<Rightarrow> model_execution_request \<Rightarrow> string \<Rightarrow> string \<Rightarrow> string
      \<Rightarrow> model_execution_result option call_flow" where
  "perform_call rig x b q rhash shard oid =
     then_do (raise_if_cancelled (rig.truncate rig) (mx_job_id x))
     (then_do (heartbeat (rig.truncate rig) (mx_lease_ttl x) (mx_authority x))
     (bind (guard_start rig x oid) (\<lambda>_.
      bind (complete_call rig rhash q) (settle_reply rig x b rhash shard oid))))"

text \<open>The operation of this call: preparing it fails for good once its attempts are used up.\<close>

definition prepare_call ::
    "call_rig \<Rightarrow> int \<Rightarrow> model_call_execution \<Rightarrow> model_execution_binding \<Rightarrow> model_execution_request \<Rightarrow> string \<Rightarrow> string \<Rightarrow> nat
      \<Rightarrow> external_operation call_flow" where
  "prepare_call rig max_attempts x b q rhash shard failures_in_call =
     handle (guard_prepare rig x (mb_provider_type b) rhash (prepared_summary b q shard) max_attempts) (\<lambda>c k.
       if c = ''external_attempt_budget_exhausted'' \<and> failures_in_call \<noteq> 0
       then raise (Failure (DomainError ''model_generation_failed'' RETRYABLE_RUNTIME))
       else raise (Failure (DomainError c k)))"

text \<open>One turn of the loop.\<close>

definition attempt_call ::
    "call_rig \<Rightarrow> int \<Rightarrow> model_call_execution \<Rightarrow> model_execution_binding \<Rightarrow> model_execution_request \<Rightarrow> string \<Rightarrow> string \<Rightarrow> nat
      \<Rightarrow> model_execution_result option call_flow" where
  "attempt_call rig max_attempts x b q rhash shard failures_in_call =
     then_do (raise_if_cancelled (rig.truncate rig) (mx_job_id x))
     (then_do (heartbeat (rig.truncate rig) (mx_lease_ttl x) (mx_authority x))
     (bind (prepare_call rig max_attempts x b q rhash shard failures_in_call) (\<lambda>operation.
      if outcome operation = O_SUCCEEDED
      then bind (recover_terminal_operation rig x operation b rhash) (\<lambda>r. then_do (remember rhash r) (return (Some r)))
      else perform_call rig x b q rhash shard (operation_id operation))))"

text \<open>\<open>None\<close>: out of fuel.\<close>

fun call_loop ::
    "nat \<Rightarrow> call_rig \<Rightarrow> int \<Rightarrow> model_call_execution \<Rightarrow> model_execution_binding \<Rightarrow> model_execution_request \<Rightarrow> string \<Rightarrow> string \<Rightarrow> nat
      \<Rightarrow> call_world \<Rightarrow> ((failure + model_execution_result) \<times> call_world) option" where
  "call_loop 0 rig max_attempts x b q rhash shard failures w = None"
| "call_loop (Suc n) rig max_attempts x b q rhash shard failures w =
    (case attempt_call rig max_attempts x b q rhash shard failures w of
       (Inl err, w') \<Rightarrow> Some (Inl err, w')
     | (Inr (Some r), w') \<Rightarrow> Some (Inr r, w')
     | (Inr None, w') \<Rightarrow> call_loop n rig max_attempts x b q rhash shard (Suc failures) w')"

definition execute_call ::
    "nat \<Rightarrow> call_rig \<Rightarrow> int \<Rightarrow> model_execution_binding \<Rightarrow> model_execution_request \<Rightarrow> model_call_execution \<Rightarrow> string
      \<Rightarrow> call_world \<Rightarrow> ((failure + model_execution_result) \<times> call_world) option" where
  "execute_call n rig max_attempts b q x shard w =
    (case validate_call b q shard of
       Inl err \<Rightarrow> Some (Inl (Failure err), w)
     | Inr _ \<Rightarrow> call_loop n rig max_attempts x b q (model_request_hash (hasher rig) b q shard) shard 0 w)"

text \<open>\<open>run_reviewed_calls\<close>: what an approved group completed is published, nothing of any other.\<close>

definition run_reviewed_calls ::
    "(string \<Rightarrow> call_world \<Rightarrow> (string \<times> model_execution_result) list) \<Rightarrow> string \<Rightarrow> 'a call_flow \<Rightarrow> ('a \<Rightarrow> bool)
      \<Rightarrow> call_world \<Rightarrow> ((failure + 'a) \<times> call_world) \<times> (string \<times> model_execution_result) list option" where
  "run_reviewed_calls load key action approved w =
    (let before = reviewed w in
     case action (w\<lparr>reviewed := Some \<lparr>cached = load key w, completed = []\<rparr>\<rparr>) of
       (Inl err, w') \<Rightarrow> ((Inl err, w'\<lparr>reviewed := before\<rparr>), None)
     | (Inr v, w') \<Rightarrow>
         (let done' = (case reviewed w' of Some c \<Rightarrow> completed c | None \<Rightarrow> [])
          in ((Inr v, w'\<lparr>reviewed := before\<rparr>), if approved v \<and> done' \<noteq> [] then Some done' else None)))"

end
