(* ===== verification/CallHistory.thy ===== *)
theory CallHistory
  imports ModelCalls
begin

text \<open>
  What the parts of a model call leave behind: every part only moves the job store on and keeps the stored results, and
  only the completion itself calls the provider.
\<close>

section \<open>Quiet flows\<close>

definition still :: "call_world \<Rightarrow> call_world \<Rightarrow> bool" where
  "still w w' \<longleftrightarrow> later (w_store w) (w_store w') \<and> provider_calls w' = provider_calls w
     \<and> (\<forall>t p. result_files w t = Some p \<longrightarrow> result_files w' t = Some p)"

lemma still_refl [simp]: "still w w" and still_tick [simp]: "still w (tick w)"
  by (simp_all add: still_def tick_def)

lemma still_trans: "still w w1 \<Longrightarrow> still w1 w2 \<Longrightarrow> still w w2"
  unfolding still_def using later_trans by metis

interpretation calls: flow_frame still
  by unfold_locales (simp, erule (1) still_trans, simp add: still_def tick_def)

abbreviation quiet :: "'a call_flow \<Rightarrow> bool" where
  "quiet \<equiv> calls.keeps"

lemmas quietD = calls.keepsD and quiet_def = calls.keeps_def and quiet_prefix = calls.keeps_prefix
  and quiet_heartbeat = calls.keeps_heartbeat and quiet_cancellation = calls.keeps_cancellation

named_theorems quiet_intros \<open>parts of a call that do not call the provider\<close>

lemmas quiet_parts [quiet_intros] = calls.keeps_intros

lemma lawful_operations [lawful_intros]:
  "lawful (\<lambda>e. prepare_external_operation e jid step aid prov rhash ikey summary authority m)"
  "lawful (\<lambda>e. start_external_operation e oid authority)"
  "lawful (\<lambda>e. finish_external_operation e oid out prid summary authority)"
  "lawful (\<lambda>e. mark_external_operation_unknown e oid summary authority)"
     apply (rule lawful_command, rule exI [where x = "PrepareOperation jid step aid prov rhash ikey summary authority m"], simp add: stored_Inr)
    apply (rule lawful_command, rule exI [where x = "StartOperation oid authority"], simp add: stored_Inr)
   apply (rule lawful_command, rule exI [where x = "FinishOperation oid out prid summary authority"], simp add: stored_Inr)
  apply (rule lawful_command, rule exI [where x = "MarkUnknown oid summary authority"], simp add: stored_Inr)
  done

lemma quiet_guards [quiet_intros]:
  "quiet (guard_prepare rig x prov rhash summary m)" "quiet (guard_start rig x oid)" "quiet (guard_succeed rig x oid prid summary)"
  "quiet (guard_fail rig x oid summary)" "quiet (guard_unknown rig x oid summary)"
  unfolding guard_prepare_def guard_start_def guard_succeed_def guard_fail_def guard_unknown_def
  by (intro quiet_intros lawful_intros)+

lemma quiet_files [quiet_intros]:
  "quiet (save_result rig oid rhash r)" "quiet (load_result rig oid rhash summary)" "quiet (remember rhash r)"
  by (auto simp: quiet_def still_def save_result_def load_result_def remember_def tick_def Let_def split: option.splits if_splits)

lemma quiet_endings [quiet_intros]:
  "quiet (finish_terminal_error rig x oid shard c k)" "quiet (unknown_and_raise rig x oid shard c k)"
  "quiet (recover_terminal_operation rig x operation b rhash)" "quiet (accept_result rig x b rhash shard oid r)"
  "quiet (prepare_call rig m x b q rhash shard failures)"
  unfolding finish_terminal_error_def unknown_and_raise_def recover_terminal_operation_def accept_result_def prepare_call_def
  by (auto intro!: quiet_intros split: sum.splits option.splits prod.splits)

lemma quiet_settle [quiet_intros]: "quiet (settle_reply rig x b rhash shard oid reply)"
  unfolding settle_reply_def
  by (auto intro!: quiet_intros split: provider_reply.splits store_error.splits)

section \<open>The results that are on record\<close>

definition call_key :: "model_call_execution \<Rightarrow> model_execution_binding \<Rightarrow> string \<Rightarrow> string \<times> string \<times> string \<times> string" where
  "call_key x b rhash = (mx_job_id x, mx_step_id x, mb_provider_type b, rhash)"

definition recorded :: "call_rig \<Rightarrow> model_call_execution \<Rightarrow> model_execution_binding \<Rightarrow> string \<Rightarrow> model_execution_result \<Rightarrow> call_world \<Rightarrow> bool" where
  "recorded rig x b rhash r w \<longleftrightarrow> accepts_model b (mr_actual_model_identity r) \<and>
     (\<exists>y. get_operation_row (w_store w) (operation_id y) = Some y \<and> op_key y = call_key x b rhash \<and> outcome y = O_SUCCEEDED
        \<and> decode_terminal_error (floats rig) (summary_json y) = Inr None
        \<and> read_result (hasher rig) (floats rig) (result_files w) (operation_id y) rhash (summary_json y) = Some r)"

lemma decoded_result:
  assumes "model_execution_result_init r = Inr r"
  shows "decode_result fr (encode_result rhash r) rhash = Some r"
proof -
  let ?fields = "[(''actual_model_identity'', JStr (mr_actual_model_identity r)), (''finish_reason'', JStr (finish_reason_value (mr_finish_reason r))),
      (''input_tokens'', int_or_null (mr_input_tokens r)), (''output_tokens'', int_or_null (mr_output_tokens r)),
      (''provider_request_id'', text_or_null (mr_provider_request_id r)), (''request_hash'', JStr rhash),
      (''schema'', JStr RESULT_SCHEMA), (''text'', JStr (mr_text r)), (''warnings'', JList (map JStr (mr_warnings r)))]"
  have nulls [simp]: "sort_keys (int_or_null i) = int_or_null i" "sort_keys (text_or_null t) = text_or_null t"
      "json_exact (int_or_null i)" "json_exact (text_or_null t)"
      "nullable_int (int_or_null i) = Some i" "nullable_text (text_or_null t) = Some t" for i t
    by (simp_all add: int_or_null_def text_or_null_def split: option.splits)
  have texts: "text_list (map JStr ts) = Some ts" for ts by (induction ts) simp_all
  have sorted: "sort_key fst ?fields = ?fields" by (rule sort_key_id_if_sorted) code_simp
  have "loads fr (encode_result rhash r) = Some (sort_keys (JObj ?fields))"
    unfolding encode_result_def encode_json_def by (rule loads_dumps_line) simp
  also have "sort_keys (JObj ?fields) = JObj ?fields" using sorted by (simp add: comp_def)
  finally show ?thesis using assms by (cases r) (simp add: decode_result_def RESULT_KEYS_def texts)
qed

lemma read_stored_result:
  assumes "safe_operation_id oid" and "check_hash rhash" and "files (result_target oid) = Some (encode_result rhash r)"
    and "model_execution_result_init r = Inr r"
  shows "read_result sha fr files oid rhash
      (success_summary shard rhash \<lparr>relative_file = result_target oid, stored_sha256 = sha (encode_result rhash r)\<rparr>) = Some r"
    and "decode_terminal_error fr
      (success_summary shard rhash \<lparr>relative_file = result_target oid, stored_sha256 = sha (encode_result rhash r)\<rparr>) = Inr None"
proof -
  let ?ref = "[(''path'', JStr (result_target oid)), (''request_hash'', JStr rhash), (''sha256'', JStr (sha (encode_result rhash r)))]"
  let ?fields = "[(''operation'', JStr OPERATION_NAME), (''result'', JObj ?ref), (''shard_key'', JStr shard)]"
  have sorted: "sort_key fst ?ref = ?ref" "sort_key fst ?fields = ?fields" by (rule sort_key_id_if_sorted, code_simp)+
  have "loads fr (success_summary shard rhash \<lparr>relative_file = result_target oid, stored_sha256 = sha (encode_result rhash r)\<rparr>)
      = Some (sort_keys (JObj ?fields))"
    unfolding success_summary_def stored_result.simps by (rule loads_dumps_sorted) simp
  also have "sort_keys (JObj ?fields) = JObj ?fields" using sorted by simp
  finally have loads: "loads fr (success_summary shard rhash \<lparr>relative_file = result_target oid, stored_sha256 = sha (encode_result rhash r)\<rparr>)
      = Some (JObj ?fields)" .
  show "read_result sha fr files oid rhash
      (success_summary shard rhash \<lparr>relative_file = result_target oid, stored_sha256 = sha (encode_result rhash r)\<rparr>) = Some r"
    using assms by (simp add: read_result_def loads decoded_result)
  show "decode_terminal_error fr
      (success_summary shard rhash \<lparr>relative_file = result_target oid, stored_sha256 = sha (encode_result rhash r)\<rparr>) = Inr None"
    by (simp add: decode_terminal_error_def loads)
qed

section \<open>One turn\<close>

lemma still_reachable: "still w w' \<Longrightarrow> reachable (w_store w) \<Longrightarrow> reachable (w_store w')"
  unfolding still_def using reachable_later by blast

lemma operation_still:
  assumes "reachable (w_store w)" and "still w w'" and "get_operation_row (w_store w) oid = Some y"
  obtains y' where "get_operation_row (w_store w') oid = Some y'" "op_key y' = op_key y" "operation_later y y'"
proof -
  from assms(2) have "later (w_store w) (w_store w')" by (simp add: still_def)
  from operation_later_row [OF assms(1) this assms(3)] that show thesis by (auto simp: operation_later_def same_operation_def)
qed

lemma prepared_call:
  assumes "prepare_call rig m x b q rhash shard failures w = (Inr operation, w')" and "reachable (w_store w)"
  shows "op_key operation = call_key x b rhash \<and> get_operation_row (w_store w') (operation_id operation) = Some operation
    \<and> (outcome operation = O_SUCCEEDED \<or> outcome operation = O_PREPARED \<and> int (failed_count (call_key x b rhash) (w_store w)) < m)"
proof -
  have "guard_prepare rig x (mb_provider_type b) rhash (prepared_summary b q shard) m w = (Inr operation, w')"
    using assms(1) unfolding prepare_call_def by (rule handle_elim) (auto split: if_splits)
  then have "transact (rig.truncate rig) (\<lambda>e. prepare_external_operation e (mx_job_id x) (mx_step_id x) (mx_attempt_id x)
      (mb_provider_type b) rhash None (prepared_summary b q shard) (mx_authority x) (Some m)) w = (Inr operation, w')"
    by (auto simp: guard_prepare_def split: if_splits)
  then obtain e s where s: "later (w_store w) s" and prep: "prepare_external_operation e (mx_job_id x) (mx_step_id x)
      (mx_attempt_id x) (mb_provider_type b) rhash None (prepared_summary b q shard) (mx_authority x) (Some m) s
      = Inr (operation, w_store w')"
    by (rule transact_done) (intro lawful_intros)
  have "failed_count k (w_store w) \<le> failed_count k s" for k by (rule failed_count_later [OF assms(2) s])
  with prepared_operation [OF prep reachable_ids [OF reachable_later [OF assms(2) s]]] show ?thesis
    unfolding call_key_def by (metis of_nat_le_iff order_le_less_trans)
qed

lemma finished_call:
  assumes "transact rig (\<lambda>e. finish_external_operation e oid out prid summary authority) w = (Inr z, w')"
    and "reachable (w_store w)" and "get_operation_row (w_store w) oid = Some y"
  shows "get_operation_row (w_store w') oid = Some z \<and> op_key z = op_key y \<and> outcome z = out \<and> summary_json z = summary
    \<and> operation_id z = oid"
proof -
  obtain e s where s: "later (w_store w) s" and fin: "finish_external_operation e oid out prid summary authority s = Inr (z, w_store w')"
    using assms(1) by (rule transact_done) (intro lawful_intros)
  obtain y' where "get_operation_row s oid = Some y'" "op_key y' = op_key y"
    using operation_later_row [OF assms(2) s assms(3)] by (auto simp: operation_later_def same_operation_def)
  with finished_operation [OF fin] show ?thesis by auto
qed

lemma constructed_result: "model_execution_result_init r = Inr r' \<Longrightarrow> r' = r \<and> model_execution_result_init r' = Inr r'"
  by (auto simp: model_execution_result_init_def split: if_splits)

lemma completed_call:
  assumes "complete_call rig rhash q w = (res, w')"
  obtains reply where "res = Inr reply" "w_store w' = w_store w" "result_files w' = result_files w"
    "provider_calls w' = provider_calls w \<or> provider_calls w' = provider_calls w @ [q]"
    "\<And>r. reply = Completed r \<Longrightarrow> model_execution_result_init r = Inr r"
  using assms
  by (auto simp: complete_call_def Let_def tick_def split: option.splits sum.splits provider_reply.splits dest: constructed_result)

lemma endings_raise [simp]:
  "finish_terminal_error rig x oid shard c k w \<noteq> (Inr a, w')" "unknown_and_raise rig x oid shard c k w \<noteq> (Inr a, w')"
  by (auto simp: finish_terminal_error_def unknown_and_raise_def elim!: bind_elim)

lemma settle_failed:
  assumes "settle_reply rig x b rhash shard oid reply w = (Inr None, w')"
    and "reachable (w_store w)" and "get_operation_row (w_store w) oid = Some y"
  shows "\<exists>z. get_operation_row (w_store w') oid = Some z \<and> op_key z = op_key y \<and> outcome z = O_FAILED"
proof -
  from assms(1) obtain c k z where "guard_fail rig x oid (failure_summary shard c k) w = (Inr z, w')"
    by (auto simp: settle_reply_def split: provider_reply.splits store_error.splits if_splits elim!: bind_elim)
  from finished_call [OF this [unfolded guard_fail_def] assms(2,3)] show ?thesis by blast
qed

lemma accepted_result:
  assumes "accept_result rig x b rhash shard oid r w = (Inr r', w')" and "model_execution_result_init r = Inr r"
    and "reachable (w_store w)" and "get_operation_row (w_store w) oid = Some y" and "op_key y = call_key x b rhash"
  shows "r' = r \<and> recorded rig x b rhash r w'"
proof -
  let ?stored = "\<lparr>relative_file = result_target oid, stored_sha256 = hasher rig (encode_result rhash r)\<rparr>"
  from assms(1) have accepts: "accepts_model b (mr_actual_model_identity r)"
    by (auto simp: accept_result_def split: if_splits)
  from assms(1) accepts have "bind (handle (save_result rig oid rhash r) (unknown_and_raise rig x oid shard)) (\<lambda>stored.
      then_do (heartbeat (rig.truncate rig) (mx_lease_ttl x) (mx_authority x))
      (bind (guard_succeed rig x oid (mr_provider_request_id r) (success_summary shard rhash stored)) (\<lambda>_.
       then_do (raise_if_cancelled (rig.truncate rig) (mx_job_id x)) (then_do (remember rhash r) (return r))))) w = (Inr r', w')"
    by (simp add: accept_result_def)
  then obtain stored w1 where save: "save_result rig oid rhash r w = (Inr stored, w1)"
    and rest: "then_do (heartbeat (rig.truncate rig) (mx_lease_ttl x) (mx_authority x))
      (bind (guard_succeed rig x oid (mr_provider_request_id r) (success_summary shard rhash stored)) (\<lambda>_.
       then_do (raise_if_cancelled (rig.truncate rig) (mx_job_id x)) (then_do (remember rhash r) (return r)))) w1 = (Inr r', w')"
    by (rule bind_elim) (auto elim!: handle_elim)
  from rest obtain u w2 where beat: "heartbeat (rig.truncate rig) (mx_lease_ttl x) (mx_authority x) w1 = (Inr u, w2)"
    and rest2: "bind (guard_succeed rig x oid (mr_provider_request_id r) (success_summary shard rhash stored)) (\<lambda>_.
       then_do (raise_if_cancelled (rig.truncate rig) (mx_job_id x)) (then_do (remember rhash r) (return r))) w2 = (Inr r', w')"
    by (rule bind_elim) simp
  from rest2 obtain z w3 where succ: "guard_succeed rig x oid (mr_provider_request_id r) (success_summary shard rhash stored) w2 = (Inr z, w3)"
    and last: "then_do (raise_if_cancelled (rig.truncate rig) (mx_job_id x)) (then_do (remember rhash r) (return r)) w3 = (Inr r', w')"
    by (rule bind_elim) simp
  from last have r': "r' = r" by (elim bind_elim) auto
  from save have stored: "stored = ?stored" "safe_operation_id oid" "check_hash rhash"
      "result_files w1 (result_target oid) = Some (encode_result rhash r)"
    by (auto simp: save_result_def Let_def tick_def split: if_splits option.splits)
  have s1: "still w w1" by (rule quietD [OF quiet_files(1) save])
  have s2: "still w1 w2" by (rule quietD [OF quiet_heartbeat beat])
  have s3: "still w2 w3" by (rule quietD [OF quiet_guards(3) succ])
  have "quiet (then_do (raise_if_cancelled (rig.truncate rig) (mx_job_id x)) (then_do (remember rhash r) (return r)))"
    by (intro quiet_intros)
  from quietD [OF this, OF last] have s4: "still w3 w'" .
  obtain y2 where y2: "get_operation_row (w_store w2) oid = Some y2" "op_key y2 = call_key x b rhash"
    using operation_still [OF assms(3) still_trans [OF s1 s2] assms(4)] assms(5) by metis
  have r2: "reachable (w_store w2)" using still_reachable [OF still_trans [OF s1 s2] assms(3)] .
  from finished_call [OF succ [unfolded guard_succeed_def] r2 y2(1)] y2(2)
  have z: "get_operation_row (w_store w3) oid = Some z" "op_key z = call_key x b rhash" "outcome z = O_SUCCEEDED"
      "summary_json z = success_summary shard rhash stored" "operation_id z = oid" by auto
  have "later (w_store w3) (w_store w')" using s4 by (simp add: still_def)
  with operation_later_row [OF still_reachable [OF s3 r2] this z(1)] z(3)
  have row: "get_operation_row (w_store w') oid = Some z" by (auto simp: operation_later_def)
  have "result_files w' (result_target oid) = Some (encode_result rhash r)"
    using s2 s3 s4 stored(4) unfolding still_def by blast
  with read_stored_result [OF stored(2,3) _ assms(2)] z row stored(1) accepts show ?thesis
    unfolding recorded_def r' by auto
qed

lemma settle_returned:
  assumes "settle_reply rig x b rhash shard oid reply w = (Inr (Some r), w')"
    and "\<And>r. reply = Completed r \<Longrightarrow> model_execution_result_init r = Inr r"
    and "reachable (w_store w)" and "get_operation_row (w_store w) oid = Some y" and "op_key y = call_key x b rhash"
  shows "recorded rig x b rhash r w'"
proof -
  let ?check = "handle (raise_if_cancelled (rig.truncate rig) (mx_job_id x)) (\<lambda>c k.
       if k \<noteq> CANCELLED_ERROR then raise (Failure (DomainError c k)) else unknown_and_raise rig x oid shard c k)"
  from assms(1) obtain v where reply: "reply = Completed v"
    and run: "then_do (heartbeat (rig.truncate rig) (mx_lease_ttl x) (mx_authority x))
      (then_do ?check (bind (accept_result rig x b rhash shard oid v) (\<lambda>r'. return (Some r')))) w = (Inr (Some r), w')"
    by (auto simp: settle_reply_def split: provider_reply.splits store_error.splits if_splits elim!: bind_elim)
  from run obtain u w1 where beat: "heartbeat (rig.truncate rig) (mx_lease_ttl x) (mx_authority x) w = (Inr u, w1)"
    and run1: "then_do ?check (bind (accept_result rig x b rhash shard oid v) (\<lambda>r'. return (Some r'))) w1 = (Inr (Some r), w')"
    by (rule bind_elim) simp
  from run1 obtain u' w2 where check: "?check w1 = (Inr u', w2)"
    and run2: "bind (accept_result rig x b rhash shard oid v) (\<lambda>r'. return (Some r')) w2 = (Inr (Some r), w')"
    by (rule bind_elim) simp
  from run2 have accept: "accept_result rig x b rhash shard oid v w2 = (Inr r, w')" by (rule bind_elim) auto
  have "quiet ?check" by (intro quiet_intros)
  from quietD [OF this, OF check] have s: "still w w2" by (rule still_trans [OF quietD [OF quiet_heartbeat beat]])
  obtain y2 where "get_operation_row (w_store w2) oid = Some y2" "op_key y2 = call_key x b rhash"
    using operation_still [OF assms(3) s assms(4)] assms(5) by metis
  from accepted_result [OF accept assms(2) [OF reply] still_reachable [OF s assms(3)] this] show ?thesis by simp
qed

lemma recovered_result:
  assumes "recover_terminal_operation rig x y b rhash w = (Inr r, w')"
  shows "decode_terminal_error (floats rig) (summary_json y) = Inr None \<and> accepts_model b (mr_actual_model_identity r)
    \<and> read_result (hasher rig) (floats rig) (result_files w) (operation_id y) rhash (summary_json y) = Some r"
  using assms
  by (auto simp: recover_terminal_operation_def load_result_def split: sum.splits option.splits if_splits elim!: bind_elim)

lemma read_result_kept:
  assumes "read_result sha fr files oid rhash summary = Some r" and "\<And>t p. files t = Some p \<Longrightarrow> files' t = Some p"
  shows "read_result sha fr files' oid rhash summary = Some r"
proof (cases "files (result_target oid)")
  case None
  with assms(1) show ?thesis by (auto simp: read_result_def split: if_splits option.splits json.splits)
next
  case (Some p)
  with assms(2) have "files' (result_target oid) = files (result_target oid)" by simp
  with assms(1) show ?thesis by (simp only: read_result_def)
qed

lemma recorded_still:
  assumes "recorded rig x b rhash r w" and "reachable (w_store w)" and "later (w_store w) (w_store w')"
    and "\<And>t p. result_files w t = Some p \<Longrightarrow> result_files w' t = Some p"
  shows "recorded rig x b rhash r w'"
proof -
  from assms(1) obtain y where y: "get_operation_row (w_store w) (operation_id y) = Some y" "op_key y = call_key x b rhash"
      "outcome y = O_SUCCEEDED" "decode_terminal_error (floats rig) (summary_json y) = Inr None"
      "read_result (hasher rig) (floats rig) (result_files w) (operation_id y) rhash (summary_json y) = Some r"
    and accepts: "accepts_model b (mr_actual_model_identity r)"
    by (auto simp: recorded_def)
  have "get_operation_row (w_store w') (operation_id y) = Some y"
    using operation_later_row [OF assms(2,3) y(1)] y(3) by (auto simp: operation_later_def)
  moreover have "read_result (hasher rig) (floats rig) (result_files w') (operation_id y) rhash (summary_json y) = Some r"
    using read_result_kept [OF y(5)] assms(4) by blast
  ultimately show ?thesis using y accepts unfolding recorded_def by blast
qed

text \<open>That a provider was asked for a request is on record: an operation of it was started.\<close>

definition on_record :: "string \<times> string \<times> string \<times> string \<Rightarrow> call_world \<Rightarrow> bool" where
  "on_record k w \<longleftrightarrow> (\<exists>z. get_operation_row (w_store w) (operation_id z) = Some z \<and> op_key z = k \<and> outcome z \<noteq> O_PREPARED)"

lemma on_record_later:
  assumes "on_record k w" and "reachable (w_store w)" and "later (w_store w) (w_store w')"
  shows "on_record k w'"
proof -
  from assms(1) obtain z where z: "get_operation_row (w_store w) (operation_id z) = Some z" "op_key z = k" "outcome z \<noteq> O_PREPARED"
    by (auto simp: on_record_def)
  obtain z' where z': "get_operation_row (w_store w') (operation_id z) = Some z'" "operation_later z z'"
    using operation_later_row [OF assms(2,3) z(1)] by blast
  then have "op_key z' = k" "outcome z' \<noteq> O_PREPARED" "operation_id z' = operation_id z"
    using z(2,3) by (auto simp: operation_later_def same_operation_def less_eq_external_outcome_def less_external_outcome_def)
  with z'(1) show ?thesis unfolding on_record_def by (intro exI [where x = z']) simp
qed

lemma started_call:
  assumes "guard_start rig x oid w = (Inr u, w')" and "reachable (w_store w)" and "get_operation_row (w_store w) oid = Some y"
    and "op_key y = k"
  shows "on_record k w'"
proof -
  obtain e s where s: "later (w_store w) s" and start: "start_external_operation e oid (mx_authority x) s = Inr (u, w_store w')"
    using assms(1) unfolding guard_start_def by (rule transact_done) (intro lawful_intros)
  obtain y' where "get_operation_row s oid = Some y'" "op_key y' = op_key y"
    using operation_later_row [OF assms(2) s assms(3)] by (auto simp: operation_later_def same_operation_def)
  with started_operation [OF start] assms(4) show ?thesis
    by (auto simp: on_record_def dest: get_operation_row_SomeD intro!: exI [where x = u])
qed

section \<open>A turn as a whole\<close>

definition called :: "model_execution_request \<Rightarrow> call_world \<Rightarrow> call_world \<Rightarrow> bool" where
  "called q w w' \<longleftrightarrow> later (w_store w) (w_store w') \<and> (\<forall>t p. result_files w t = Some p \<longrightarrow> result_files w' t = Some p)
     \<and> (provider_calls w' = provider_calls w \<or> provider_calls w' = provider_calls w @ [q])"

lemma still_called: "still w w' \<Longrightarrow> called q w w'"
  by (simp add: still_def called_def)

lemma called_extend: "called q w1 w2 \<Longrightarrow> still w w1 \<Longrightarrow> still w2 w3 \<Longrightarrow> called q w w3"
  unfolding still_def called_def using later_trans by metis

lemma performed_call:
  assumes run: "perform_call rig x b q rhash shard oid w = (res, w')" and "reachable (w_store w)"
    and "get_operation_row (w_store w) oid = Some y" and "op_key y = call_key x b rhash"
  shows "called q w w'
    \<and> (res = Inr None \<longrightarrow> (\<exists>z. get_operation_row (w_store w') oid = Some z \<and> op_key z = call_key x b rhash \<and> outcome z = O_FAILED))
    \<and> (\<forall>r. res = Inr (Some r) \<longrightarrow> recorded rig x b rhash r w')
    \<and> (provider_calls w' \<noteq> provider_calls w \<longrightarrow> on_record (call_key x b rhash) w')"
proof -
  let ?body = "bind (complete_call rig rhash q) (settle_reply rig x b rhash shard oid)"
  have stops: "?thesis" if "still w w'" "\<exists>err. res = Inl err" using that still_called by (auto simp: still_def)
  consider "still w w' \<and> (\<exists>err. res = Inl err)"
    | u w0 w1 where "still w w0" "guard_start rig x oid w0 = (Inr u, w1)" "still w0 w1" "?body w1 = (res, w')"
    using run unfolding perform_call_def
    by (blast dest!: quiet_prefix [OF _ quiet_cancellation(2)] quiet_prefix [OF _ quiet_heartbeat] quiet_prefix [OF _ quiet_guards(2)]
        intro: still_trans)
  then show ?thesis
  proof cases
    case (2 u w0 w1)
    note s1 = still_trans [OF 2(1,3)]
    obtain y0 where "get_operation_row (w_store w0) oid = Some y0" "op_key y0 = call_key x b rhash"
      using operation_still [OF assms(2) 2(1) assms(3)] assms(4) by metis
    from started_call [OF 2(2) still_reachable [OF 2(1) assms(2)] this] have on1: "on_record (call_key x b rhash) w1" .
    from 2(4) obtain reply w2 where complete: "complete_call rig rhash q w1 = (Inr reply, w2)"
      and settle: "settle_reply rig x b rhash shard oid reply w2 = (res, w')"
      by (rule bind_elim) (auto elim: completed_call)
    from complete have w2: "w_store w2 = w_store w1" "result_files w2 = result_files w1"
        "provider_calls w2 = provider_calls w1 \<or> provider_calls w2 = provider_calls w1 @ [q]"
      and valid: "\<And>r. reply = Completed r \<Longrightarrow> model_execution_result_init r = Inr r"
      by (rule completed_call, simp)+
    obtain y1 where y1: "get_operation_row (w_store w2) oid = Some y1" "op_key y1 = call_key x b rhash"
      using operation_still [OF assms(2) s1 assms(3)] assms(4) w2(1) by metis
    have reach: "reachable (w_store w2)" using still_reachable [OF s1 assms(2)] w2(1) by simp
    have "called q w1 w2" using w2 by (simp add: called_def)
    then have "called q w w'" by (rule called_extend [OF _ s1 quietD [OF quiet_settle settle]])
    moreover have "on_record (call_key x b rhash) w'"
      by (rule on_record_later [OF on1 still_reachable [OF s1 assms(2)]])
         (use quietD [OF quiet_settle settle] w2(1) in \<open>simp add: still_def\<close>)
    moreover have "\<exists>z. get_operation_row (w_store w') oid = Some z \<and> op_key z = call_key x b rhash \<and> outcome z = O_FAILED"
      if "res = Inr None"
      using settle_failed [OF _ reach y1(1)] settle y1(2) that by metis
    moreover have "recorded rig x b rhash r w'" if "res = Inr (Some r)" for r
      using settle_returned [OF _ valid reach y1] settle that by metis
    ultimately show ?thesis by blast
  qed (use stops in blast)
qed

lemma recovered_turn:
  assumes run: "bind (recover_terminal_operation rig x y b rhash) (\<lambda>r. then_do (remember rhash r) (return (Some r))) w = (res, w')"
    and "reachable (w_store w)" and "get_operation_row (w_store w) (operation_id y) = Some y"
    and "op_key y = call_key x b rhash" and "outcome y = O_SUCCEEDED"
  shows "still w w' \<and> res \<noteq> Inr None \<and> (\<forall>r. res = Inr (Some r) \<longrightarrow> recorded rig x b rhash r w')"
proof -
  have "quiet (bind (recover_terminal_operation rig x y b rhash) (\<lambda>r. then_do (remember rhash r) (return (Some r))))"
    by (intro quiet_intros)
  from quietD [OF this, OF run] have s: "still w w'" .
  have "recorded rig x b rhash r w'" if "res = Inr (Some r)" for r
  proof -
    from run that obtain w1 where "recover_terminal_operation rig x y b rhash w = (Inr r, w1)"
      by (auto elim!: bind_elim)
    from recovered_result [OF this] assms(3-5) have "recorded rig x b rhash r w"
      unfolding recorded_def by auto
    then show ?thesis by (rule recorded_still [OF _ assms(2)]) (use s in \<open>auto simp: still_def\<close>)
  qed
  moreover have "res \<noteq> Inr None" using run by (auto elim!: bind_elim)
  ultimately show ?thesis using s by blast
qed

lemma attempted_call:
  assumes run: "attempt_call rig m x b q rhash shard failures w = (res, w')" and "reachable (w_store w)"
  shows "called q w w'
    \<and> (provider_calls w' \<noteq> provider_calls w \<longrightarrow> int (failed_count (call_key x b rhash) (w_store w)) < m
         \<and> on_record (call_key x b rhash) w')
    \<and> (res = Inr None \<longrightarrow> int (failed_count (call_key x b rhash) (w_store w)) < m
         \<and> failed_count (call_key x b rhash) (w_store w) < failed_count (call_key x b rhash) (w_store w'))
    \<and> (\<forall>r. res = Inr (Some r) \<longrightarrow> recorded rig x b rhash r w')"
proof -
  let ?k = "call_key x b rhash"
  let ?body = "bind (prepare_call rig m x b q rhash shard failures) (\<lambda>operation.
      if outcome operation = O_SUCCEEDED
      then bind (recover_terminal_operation rig x operation b rhash) (\<lambda>r. then_do (remember rhash r) (return (Some r)))
      else perform_call rig x b q rhash shard (operation_id operation))"
  have stops: "?thesis" if "still w w'" "\<exists>err. res = Inl err" using that still_called by (auto simp: still_def)
  consider "still w w' \<and> (\<exists>err. res = Inl err)" | w1 where "still w w1" "?body w1 = (res, w')"
    using run unfolding attempt_call_def
    by (blast dest!: quiet_prefix [OF _ quiet_cancellation(2)] quiet_prefix [OF _ quiet_heartbeat] intro: still_trans)
  then show ?thesis
  proof cases
    case 2
    have w1: "reachable (w_store w1)" using still_reachable [OF 2(1) assms(2)] .
    have less: "int (failed_count ?k (w_store w)) < m" if "int (failed_count ?k (w_store w1)) < m"
      using failed_count_later [OF assms(2), of "w_store w1" ?k] 2(1) that by (simp add: still_def)
    from quiet_prefix [OF 2(2) quiet_endings(5)] consider "still w1 w' \<and> (\<exists>err. res = Inl err)"
      | operation w2 where "prepare_call rig m x b q rhash shard failures w1 = (Inr operation, w2)" "still w1 w2"
          "(if outcome operation = O_SUCCEEDED
            then bind (recover_terminal_operation rig x operation b rhash) (\<lambda>r. then_do (remember rhash r) (return (Some r)))
            else perform_call rig x b q rhash shard (operation_id operation)) w2 = (res, w')"
      by blast
    then show ?thesis
    proof cases
      case 1
      with 2(1) show ?thesis using still_trans stops by blast
    next
      case (2 operation w2)
      note prepared = prepared_call [OF 2(1) w1] and s2 = still_trans [OF \<open>still w w1\<close> 2(2)]
      have w2: "reachable (w_store w2)" using still_reachable [OF 2(2) w1] .
      show ?thesis
      proof (cases "outcome operation = O_SUCCEEDED")
        case True
        with 2(3) have "bind (recover_terminal_operation rig x operation b rhash)
            (\<lambda>r. then_do (remember rhash r) (return (Some r))) w2 = (res, w')" by simp
        note turn = recovered_turn [OF this w2 conjunct1 [OF conjunct2 [OF prepared]] conjunct1 [OF prepared] True]
        have "still w w'" using turn still_trans [OF s2] by blast
        then show ?thesis using turn still_called [of w w' q] by (simp add: still_def)
      next
        case False
        with 2(3) have "perform_call rig x b q rhash shard (operation_id operation) w2 = (res, w')" by simp
        note turn = performed_call [OF this w2 conjunct1 [OF conjunct2 [OF prepared]] conjunct1 [OF prepared]]
        have count: "int (failed_count ?k (w_store w)) < m" using prepared False less by blast
        have l2: "later (w_store w2) (w_store w')" using turn by (simp add: called_def)
        have "failed_count ?k (w_store w) < failed_count ?k (w_store w')" if "res = Inr None"
        proof -
          from turn that obtain z where "get_operation_row (w_store w') (operation_id operation) = Some z" "op_key z = ?k" "outcome z = O_FAILED"
            by blast
          with failed_count_grows [OF assms(2) _ l2, of "operation_id operation" operation z ?k] s2 prepared False
          show ?thesis by (auto simp: still_def)
        qed
        moreover have "called q w w'"
          using turn called_extend [OF _ s2 still_refl] by blast
        moreover have "provider_calls w2 = provider_calls w" using s2 by (simp add: still_def)
        ultimately show ?thesis using count turn by simp
      qed
    qed
  qed (use stops in blast)
qed

end
