(* ===== verification/ModelCallProperties.thy ===== *)
theory ModelCallProperties
  imports CallHistory Scenarios
begin

text \<open>
  What the coordinator of model calls guarantees: a call ends within its budget of attempts, a result that was returned
  is returned again without asking the provider, and a cancelled job asks nothing.
\<close>

section \<open>Runs\<close>

definition call_env :: "int \<Rightarrow> env" where
  "call_env now = demo_env now\<lparr>new_id := (\<lambda>pre n. pre @ ''_'' @ [char_of (65 + n)])\<rparr>"

definition call_rig_demo :: call_rig where
  "call_rig_demo = \<lparr>moment = (\<lambda>t. call_env 2000), others = (\<lambda>_. []), fault = (\<lambda>_. None), extra_beat = (\<lambda>_. None),
     hasher = (\<lambda>_. ''sha256:'' @ replicate 64 (CHR ''0'')), floats = (\<lambda>_. None),
     provider_answer = (\<lambda>_ _. Completed \<lparr>mr_text = ''answer'', mr_actual_model_identity = ''m1'', mr_input_tokens = Some 3,
       mr_output_tokens = None, mr_finish_reason = FINISH_STOP, mr_provider_request_id = Some ''req-1'', mr_warnings = []\<rparr>),
     file_faults = (\<lambda>_. NoFault)\<rparr>"

definition demo_binding :: model_execution_binding where
  "demo_binding = \<lparr>mb_schema_version = 1, mb_provider_type = ''openai'', mb_model_identity = ''m1'', mb_credential_profile_ref = ''c'',
     mb_context_window_tokens = 1000, mb_max_output_tokens = 100, mb_max_concurrency = 1, mb_supports_structured_output = False,
     mb_supports_temperature = False, mb_timeout_seconds = 1, mb_fallback_model_identity = None\<rparr>"

definition demo_request :: model_execution_request where
  "demo_request = \<lparr>mq_schema_version = 1, mq_stage_id = ''st'', mq_stage_version = 1, mq_prompt_id = ''p'', mq_prompt_version = 1,
     mq_system_instruction = ''i'', mq_user_content = ''u'', mq_output_mode = OUT_TEXT, mq_max_output_tokens = 10, mq_timeout_seconds = 1,
     mq_response_schema_json = None, mq_temperature = None, mq_image_webp = []\<rparr>"

definition demo_execution :: model_call_execution where
  "demo_execution = \<lparr>mx_job_id = ''jobA'', mx_step_id = ''s'', mx_attempt_id = ''attA'', mx_authority = JobBound (demo_auth ''w'' 1),
     mx_lease_ttl = 60\<rparr>"

definition demo_world :: call_world where
  "demo_world = \<lparr>ticks = 0, w_store = demo_store demo_running, result_files = (\<lambda>_. None), provider_calls = [], reviewed = None\<rparr>"

abbreviation demo_hash :: string where
  "demo_hash \<equiv> ''sha256:'' @ replicate 64 (CHR ''0'')"

lemma demo_valid: "validate_call demo_binding demo_request ''s1'' = Inr ()"
  by (simp add: validate_call_def demo_binding_def demo_request_def safe_shard_key_def ascii_alnum_def)

lemma demo_request_hash: "model_request_hash (hasher call_rig_demo) b q shard = demo_hash"
  by (simp add: model_request_hash_def call_rig_demo_def)

lemma demo_loop: "case call_loop 3 call_rig_demo 2 demo_execution demo_binding demo_request demo_hash ''s1'' 0 demo_world of
    Some (Inr r, w') \<Rightarrow> mr_text r = ''answer'' \<and> length (provider_calls w') = 1
      \<and> (case get_row (w_store w') ''jobA'' of Some row \<Rightarrow> \<not> cancellation_requested row | None \<Rightarrow> False)
      \<and> (case heartbeat_job_claim (call_env 2000) (demo_auth ''w'' 1) 60 (w_store w') of Inr _ \<Rightarrow> True | Inl _ \<Rightarrow> False)
  | _ \<Rightarrow> False"
  by code_simp

lemma demo_call:
  obtains r w' where "execute_call 3 call_rig_demo 2 demo_binding demo_request demo_execution ''s1'' demo_world = Some (Inr r, w')"
    "mr_text r = ''answer''" "length (provider_calls w') = 1"
    "case get_row (w_store w') ''jobA'' of Some row \<Rightarrow> \<not> cancellation_requested row | None \<Rightarrow> False"
    "case heartbeat_job_claim (call_env 2000) (demo_auth ''w'' 1) 60 (w_store w') of Inr _ \<Rightarrow> True | Inl _ \<Rightarrow> False"
proof -
  let ?c = "call_loop 3 call_rig_demo 2 demo_execution demo_binding demo_request demo_hash ''s1'' 0 demo_world"
  obtain r w' where c: "?c = Some (Inr r, w')"
  proof (cases ?c)
    case (Some out)
    with demo_loop that show ?thesis by (cases out; cases "fst out") auto
  qed (use demo_loop in simp)
  have "execute_call 3 call_rig_demo 2 demo_binding demo_request demo_execution ''s1'' demo_world = Some (Inr r, w')"
    unfolding execute_call_def demo_valid demo_request_hash sum.case by (rule c)
  with that show thesis using demo_loop unfolding c option.case prod.case sum.case by blast
qed

lemma demo_world_reachable: "reachable (w_store demo_world)"
  by (simp add: demo_world_def demo_reachable)

section \<open>The loop\<close>

lemma loop_ends:
  assumes "reachable (w_store w)" and "nat (m - int (failed_count (call_key x b rhash) (w_store w))) < n"
  shows "\<exists>res w' j. call_loop n rig m x b q rhash shard failures w = Some (res, w')
    \<and> later (w_store w) (w_store w') \<and> (\<forall>t p. result_files w t = Some p \<longrightarrow> result_files w' t = Some p)
    \<and> j \<le> nat (m - int (failed_count (call_key x b rhash) (w_store w)))
    \<and> provider_calls w' = provider_calls w @ replicate j q
    \<and> (\<forall>r. res = Inr r \<longrightarrow> recorded rig x b rhash r w')
    \<and> (0 < j \<longrightarrow> on_record (call_key x b rhash) w')"
  using assms
proof (induction n arbitrary: failures w)
  case (Suc n)
  let ?count = "\<lambda>w. failed_count (call_key x b rhash) (w_store w)"
  obtain out w1 where turn: "attempt_call rig m x b q rhash shard failures w = (out, w1)" by fastforce
  note facts = attempted_call [OF turn Suc.prems(1)]
  obtain i where i: "provider_calls w1 = provider_calls w @ replicate i q" "i \<le> 1" "i = 1 \<longrightarrow> int (?count w) < m \<and> on_record (call_key x b rhash) w1"
    using facts by (cases "provider_calls w1 = provider_calls w") (auto simp: called_def intro: that [of 0] that [of 1])
  have l1: "later (w_store w) (w_store w1)" and f1: "\<And>t p. result_files w t = Some p \<Longrightarrow> result_files w1 t = Some p"
    using facts by (auto simp: called_def)
  show ?case
  proof (cases "out = Inr None")
    case True
    with facts have count: "int (?count w) < m" "?count w < ?count w1" by auto
    then have "nat (m - int (?count w1)) < n" using Suc.prems(2) by linarith
    from Suc.IH [OF reachable_later [OF Suc.prems(1) l1] this, of "Suc failures"] obtain res w' j where
      rest: "call_loop n rig m x b q rhash shard (Suc failures) w1 = Some (res, w')" "later (w_store w1) (w_store w')"
        "\<forall>t p. result_files w1 t = Some p \<longrightarrow> result_files w' t = Some p" "j \<le> nat (m - int (?count w1))"
        "provider_calls w' = provider_calls w1 @ replicate j q" "\<forall>r. res = Inr r \<longrightarrow> recorded rig x b rhash r w'"
        "0 < j \<longrightarrow> on_record (call_key x b rhash) w'"
      by blast
    have "on_record (call_key x b rhash) w'" if "0 < i + j"
      using that rest(7) i(2,3) on_record_later [OF _ reachable_later [OF Suc.prems(1) l1] rest(2)] by (cases "i = 0") auto
    moreover
    have "i + j \<le> nat (m - int (?count w))" using i(2) rest(4) count by linarith
    moreover have "provider_calls w' = provider_calls w @ replicate (i + j) q"
      using rest(5) i(1) by (simp add: replicate_add)
    moreover have "call_loop (Suc n) rig m x b q rhash shard failures w = Some (res, w')" using rest(1) turn True by simp
    moreover have "\<forall>t p. result_files w t = Some p \<longrightarrow> result_files w' t = Some p" using f1 rest(3) by blast
    ultimately show ?thesis using rest(6) later_trans [OF l1 rest(2)] by blast
  next
    case False
    then consider err where "out = Inl err" | r where "out = Inr (Some r)" by (cases out) auto
    moreover have "i \<le> nat (m - int (?count w))" using i(2,3) by linarith
    moreover have "0 < i \<longrightarrow> on_record (call_key x b rhash) w1" using i(2,3) by linarith
    ultimately show ?thesis using turn l1 f1 i(1) facts by cases auto
  qed
qed simp

lemma execute_call_ends:
  assumes "reachable (w_store w)" and "nat m < n"
  shows "\<exists>res w' j. execute_call n rig m b q x shard w = Some (res, w')
    \<and> later (w_store w) (w_store w') \<and> (\<forall>t p. result_files w t = Some p \<longrightarrow> result_files w' t = Some p)
    \<and> j \<le> nat (m - int (failed_count (call_key x b (model_request_hash (hasher rig) b q shard)) (w_store w)))
    \<and> provider_calls w' = provider_calls w @ replicate j q
    \<and> (\<forall>r. res = Inr r \<longrightarrow> recorded rig x b (model_request_hash (hasher rig) b q shard) r w')
    \<and> (0 < j \<longrightarrow> on_record (call_key x b (model_request_hash (hasher rig) b q shard)) w')"
proof (cases "validate_call b q shard")
  case (Inl err)
  then show ?thesis by (auto simp: execute_call_def intro: exI [where x = 0])
next
  case (Inr u)
  have "nat (m - int (failed_count (call_key x b (model_request_hash (hasher rig) b q shard)) (w_store w))) < n"
    using assms(2) by linarith
  from loop_ends [OF assms(1) this] show ?thesis by (simp add: execute_call_def Inr)
qed

text \<open>Enough fuel changes nothing.\<close>

lemma loop_fuel: "call_loop n rig m x b q rhash shard failures w = Some out \<Longrightarrow> n \<le> n' \<Longrightarrow>
   call_loop n' rig m x b q rhash shard failures w = Some out"
proof (induction n arbitrary: failures w n')
  case (Suc n)
  then obtain k where "n' = Suc k" "n \<le> k" by (cases n') auto
  with Suc show ?case by (auto split: prod.splits sum.splits option.splits)
qed simp

section \<open>A recorded result\<close>

lemma prepared_again:
  assumes "get_operation_row (w_store v) oid = Some y" and "outcome y = O_SUCCEEDED" and "op_key y = call_key x b rhash"
    and "reachable (w_store v)" and "prepare_call rig m x b q rhash shard failures v = (Inr operation, v')"
  shows "operation = y"
proof -
  have "guard_prepare rig x (mb_provider_type b) rhash (prepared_summary b q shard) m v = (Inr operation, v')"
    using assms(5) unfolding prepare_call_def by (rule handle_elim) (auto split: if_splits)
  then have m: "1 \<le> m" and run: "transact (rig.truncate rig) (\<lambda>e. prepare_external_operation e (mx_job_id x) (mx_step_id x) (mx_attempt_id x)
      (mb_provider_type b) rhash None (prepared_summary b q shard) (mx_authority x) (Some m)) v = (Inr operation, v')"
    by (auto simp: guard_prepare_def split: if_splits)
  from run obtain e s where s: "later (w_store v) s" and prep: "prepare_external_operation e (mx_job_id x) (mx_step_id x)
      (mx_attempt_id x) (mb_provider_type b) rhash None (prepared_summary b q shard) (mx_authority x) (Some m) s
      = Inr (operation, w_store v')"
    by (rule transact_done) (intro lawful_intros)
  have "\<forall>n. Some m = Some n \<longrightarrow> 1 \<le> n" using m by simp
  with prepare_succeeded_request [OF assms(4,1,2) assms(3) [unfolded call_key_def] s this] prep show ?thesis by simp
qed

lemma recorded_result_answers:
  assumes "recorded rig x b rhash r v" and "reachable (w_store v)" and "floats rig' = floats rig" and "hasher rig' = hasher rig"
    and "mx_job_id x' = mx_job_id x" and "mx_step_id x' = mx_step_id x"
    and "attempt_call rig' m x' b q rhash shard failures v = (res, v')"
  shows "provider_calls v' = provider_calls v \<and> (res = Inr (Some r) \<or> (\<exists>err. res = Inl err))"
proof -
  from assms(1) obtain y where y: "get_operation_row (w_store v) (operation_id y) = Some y" "op_key y = call_key x' b rhash"
      "outcome y = O_SUCCEEDED" "decode_terminal_error (floats rig') (summary_json y) = Inr None"
      "read_result (hasher rig') (floats rig') (result_files v) (operation_id y) rhash (summary_json y) = Some r"
    using assms(3-6) by (auto simp: recorded_def call_key_def)
  let ?rest = "\<lambda>operation. if outcome operation = O_SUCCEEDED
      then bind (recover_terminal_operation rig' x' operation b rhash) (\<lambda>r. then_do (remember rhash r) (return (Some r)))
      else perform_call rig' x' b q rhash shard (operation_id operation)"
  consider "still v v' \<and> (\<exists>err. res = Inl err)"
    | v1 where "still v v1" "bind (prepare_call rig' m x' b q rhash shard failures) ?rest v1 = (res, v')"
    using assms(7) unfolding attempt_call_def
    by (blast dest!: quiet_prefix [OF _ quiet_cancellation(2)] quiet_prefix [OF _ quiet_heartbeat] intro: still_trans)
  then show ?thesis
  proof cases
    case 1
    then show ?thesis by (auto simp: still_def)
  next
    case (2 v1)
    have v1: "reachable (w_store v1)" using still_reachable [OF 2(1) assms(2)] .
    have row: "get_operation_row (w_store v1) (operation_id y) = Some y"
      using operation_later_row [OF assms(2) _ y(1), of "w_store v1"] y(3) 2(1) by (auto simp: still_def operation_later_def)
    from quiet_prefix [OF 2(2) quiet_endings(5)] show ?thesis
    proof (elim disjE exE conjE)
      fix err assume "still v1 v'" "res = Inl err"
      with 2(1) show ?thesis by (auto simp: still_def)
    next
      fix operation v2
      assume prep: "prepare_call rig' m x' b q rhash shard failures v1 = (Inr operation, v2)" and s2: "still v1 v2"
        and rest: "?rest operation v2 = (res, v')"
      have "operation = y" by (rule prepared_again [OF row y(3,2) v1 prep])
      with rest y(3) have run: "bind (recover_terminal_operation rig' x' y b rhash) (\<lambda>r. then_do (remember rhash r) (return (Some r))) v2
          = (res, v')" by simp
      have "quiet (bind (recover_terminal_operation rig' x' y b rhash) (\<lambda>r. then_do (remember rhash r) (return (Some r))))"
        by (intro quiet_intros)
      from quietD [OF this, OF run] have s3: "still v2 v'" .
      have "read_result (hasher rig') (floats rig') (result_files v2) (operation_id y) rhash (summary_json y) = Some r"
        using read_result_kept [OF y(5)] still_trans [OF 2(1) s2] by (auto simp: still_def)
      then have "r' = r" if "recover_terminal_operation rig' x' y b rhash v2 = (Inr r', v3)" for r' v3
        using recovered_result [OF that] by simp
      then have "res = Inr (Some r) \<or> (\<exists>err. res = Inl err)"
        using run by (auto elim!: bind_elim)
      then show ?thesis using still_trans [OF still_trans [OF 2(1) s2] s3] by (simp add: still_def)
    qed
  qed
qed

text \<open>C35: A call ends within its budget. Whatever the database, the files, the provider and other processes do, a call
  with a budget of \<open>m\<close> attempts returns or raises after at most \<open>m + 1\<close> turns of its loop, the attempts that may fail and the
  turn that finds the budget used up, and asks the provider at most as often as the budget leaves after the attempts already recorded as failed, each
  time the same request.\<close>

theorem model_call_ends:
  assumes "reachable (w_store w)" and "nat m < n"
  shows "\<exists>res w' j. execute_call n rig m b q x shard w = Some (res, w')
    \<and> j \<le> nat (m - int (failed_count (call_key x b (model_request_hash (hasher rig) b q shard)) (w_store w)))
    \<and> provider_calls w' = provider_calls w @ replicate j q"
  using execute_call_ends [OF assms] by blast

lemma model_call_ends_witness:
  "\<exists>res w' j. execute_call 3 call_rig_demo 2 demo_binding demo_request demo_execution ''s1'' demo_world = Some (res, w')
    \<and> j \<le> 2 \<and> provider_calls w' = provider_calls demo_world @ replicate j demo_request"
proof -
  have "nat 2 < 3" by simp
  from model_call_ends [OF demo_world_reachable this, of call_rig_demo demo_binding demo_request demo_execution "''s1''"]
  show ?thesis by (elim exE conjE) (intro exI conjI, assumption, simp_all)
qed

text \<open>C36: A result that was returned is the result for ever. Once a call has returned a result, any later call of the
  same step with the same binding, request and shard, by whichever process and attempt, with the stored files still there, asks the
  provider nothing, and returns that result or raises.\<close>

theorem returned_result_is_final:
  assumes "reachable (w_store w)" and "execute_call n rig m b q x shard w = Some (Inr r, w')" and "nat m < n"
    and "later (w_store w') (w_store v)" and "\<And>t p. result_files w' t = Some p \<Longrightarrow> result_files v t = Some p"
    and "floats rig' = floats rig" and "hasher rig' = hasher rig"
    and "mx_job_id x' = mx_job_id x" and "mx_step_id x' = mx_step_id x"
    and "execute_call n' rig' m' b q x' shard v = Some (res, v')"
  shows "provider_calls v' = provider_calls v \<and> (res = Inr r \<or> (\<exists>err. res = Inl err))"
proof -
  let ?h = "model_request_hash (hasher rig) b q shard"
  have w': "later (w_store w) (w_store w')" and rec: "recorded rig x b ?h r w'"
    using execute_call_ends [OF assms(1,3), of rig b q x shard] assms(2) by auto
  have reach: "reachable (w_store w')" using reachable_later [OF assms(1) w'] .
  have rec: "recorded rig x b ?h r v" by (rule recorded_still [OF rec reach assms(4,5)])
  obtain out v1 where turn: "attempt_call rig' m' x' b q ?h shard 0 v = (out, v1)" by fastforce
  note recorded_result_answers [OF rec reachable_later [OF reach assms(4)] assms(6-9) turn]
  moreover obtain u where "validate_call b q shard = Inr u" using assms(2) by (auto simp: execute_call_def split: sum.splits)
  ultimately show ?thesis
    using assms(7,10) turn by (cases n') (auto simp: execute_call_def)
qed

lemma returned_result_is_final_witness:
  "\<exists>r w'. execute_call 3 call_rig_demo 2 demo_binding demo_request demo_execution ''s1'' demo_world = Some (Inr r, w')
    \<and> (\<forall>res v'. execute_call 1 call_rig_demo 2 demo_binding demo_request demo_execution ''s1'' w' = Some (res, v')
         \<longrightarrow> provider_calls v' = provider_calls w' \<and> (res = Inr r \<or> (\<exists>err. res = Inl err)))"
proof (rule demo_call)
  fix r w' assume run: "execute_call 3 call_rig_demo 2 demo_binding demo_request demo_execution ''s1'' demo_world = Some (Inr r, w')"
  have "nat 2 < 3" by simp
  from returned_result_is_final [OF demo_world_reachable run this later_refl _ refl refl refl refl]
  have "\<forall>res v'. execute_call 1 call_rig_demo 2 demo_binding demo_request demo_execution ''s1'' w' = Some (res, v')
         \<longrightarrow> provider_calls v' = provider_calls w' \<and> (res = Inr r \<or> (\<exists>err. res = Inl err))" by blast
  with run show ?thesis by blast
qed

section \<open>Cancellation\<close>

lemma cancelled_raises:
  assumes "reachable (w_store w)" and "get_row (w_store w) jid = Some r" and "cancellation_requested r"
    and "raise_if_cancelled rig jid w = (res, w')"
  shows "\<exists>err. res = Inl err"
proof (rule ccontr)
  assume "\<nexists>err. res = Inl err"
  then obtain a where "res = Inr a" by (cases res) auto
  with assms(4) have "is_cancelled rig jid w = (Inr False, w')"
    unfolding raise_if_cancelled_def by (auto elim!: bind_elim split: if_splits)
  then have "transact rig (\<lambda>e s. andthen (is_cancellation_requested jid s) (\<lambda>a. Inr (a, s))) w = (Inr False, w')"
    by (simp add: is_cancelled_def observe_def)
  then obtain s where s: "later (w_store w) s" and read: "is_cancellation_requested jid s = Inr False"
    by (rule transact_done) (auto intro: lawful_intros simp: result_simps)
  obtain r' where "get_row s jid = Some r'" "row_later r r'"
    using job_later [OF later_store_later [OF assms(1) s] reachable_ids [OF reachable_later [OF assms(1) s]] assms(2)] by blast
  with read assms(3) show False by (auto simp: is_cancellation_requested_def get_job_def row_later_def result_simps)
qed

text \<open>C37: A cancelled job asks nothing. Once its cancellation was requested, a call of a job raises without asking the
  provider, whatever state its operation is in.\<close>

theorem cancelled_job_asks_nothing:
  assumes "reachable (w_store w)" and "get_row (w_store w) (mx_job_id x) = Some r" and "cancellation_requested r"
    and "execute_call n rig m b q x shard w = Some (res, w')"
  shows "provider_calls w' = provider_calls w \<and> (\<exists>err. res = Inl err)"
proof (cases "validate_call b q shard")
  case (Inr u)
  have stop: "still w w1 \<and> (\<exists>err. out = Inl err)"
    if "attempt_call rig m x b q rhash shard 0 w = (out, w1)" for rhash out w1
    using that unfolding attempt_call_def
    by (rule bind_elim) (auto dest: quietD [OF quiet_cancellation(2)] cancelled_raises [OF assms(1-3)])
  obtain out w1 where turn: "attempt_call rig m x b q (model_request_hash (hasher rig) b q shard) shard 0 w = (out, w1)" by fastforce
  from assms(4) Inr turn stop [OF turn] show ?thesis by (cases n) (auto simp: execute_call_def still_def)
qed (use assms(4) in \<open>auto simp: execute_call_def\<close>)

lemma cancelled_run_row: "case run_commands (demo_running @ [(demo_env 3000, CancelJob ''jobA'')]) empty_store of
    Inr s \<Rightarrow> (case get_row s ''jobA'' of Some r \<Rightarrow> cancellation_requested r | None \<Rightarrow> False) | Inl _ \<Rightarrow> False"
  by code_simp

lemma cancelled_job_asks_nothing_witness:
  "case execute_call 3 call_rig_demo 2 demo_binding demo_request demo_execution ''s1''
      (demo_world\<lparr>w_store := demo_store (demo_running @ [(demo_env 3000, CancelJob ''jobA'')])\<rparr>) of
     Some (res, w') \<Rightarrow> provider_calls w' = [] \<and> (\<exists>err. res = Inl err) | None \<Rightarrow> True"
proof -
  let ?s = "demo_store (demo_running @ [(demo_env 3000, CancelJob ''jobA'')])"
  let ?w = "demo_world\<lparr>w_store := ?s\<rparr>"
  obtain r where r: "get_row ?s ''jobA'' = Some r" "cancellation_requested r"
    using cancelled_run_row by (auto simp: demo_store_def split: sum.splits option.splits)
  have "provider_calls w' = [] \<and> (\<exists>err. res = Inl err)"
    if "execute_call 3 call_rig_demo 2 demo_binding demo_request demo_execution ''s1'' ?w = Some (res, w')" for res w'
    using cancelled_job_asks_nothing [OF _ _ r(2) that] r(1) demo_reachable by (simp add: demo_execution_def demo_world_def)
  then show ?thesis by (auto split: option.splits)
qed

section \<open>Recovery\<close>

text \<open>Surroundings in which nothing fails and nobody else acts.\<close>

definition calm :: "call_rig \<Rightarrow> bool" where
  "calm rig \<longleftrightarrow> (\<forall>t. others rig t = [] \<and> fault rig t = None \<and> extra_beat rig t = None \<and> file_faults rig t = NoFault)"

lemma calm_transact: "calm rig \<Longrightarrow> f (moment rig (ticks w)) (w_store w) = Inr (a, s') \<Longrightarrow>
   transact (rig.truncate rig) f w = (Inr a, tick w\<lparr>w_store := s'\<rparr>)"
  by (simp add: calm_def transact_def rig.defs Let_def tick_def)

lemma calm_not_cancelled:
  assumes "calm rig" and "get_row (w_store w) jid = Some r" and "\<not> cancellation_requested r"
  shows "raise_if_cancelled (rig.truncate rig) jid w = (Inr (), tick w)"
proof -
  have "is_cancelled (rig.truncate rig) jid w = (Inr False, tick w\<lparr>w_store := w_store w\<rparr>)"
    unfolding is_cancelled_def observe_def
    by (rule calm_transact [OF assms(1)]) (use assms(2,3) in \<open>simp add: is_cancellation_requested_def get_job_def\<close>)
  then show ?thesis by (simp add: raise_if_cancelled_def bind_def return_def tick_def)
qed

lemma calm_heartbeat:
  assumes "calm rig" and "heartbeat_job_claim (moment rig (ticks w)) a ttl (w_store w) = Inr (a', s')"
  shows "heartbeat (rig.truncate rig) ttl (JobBound a) w = (Inr (), tick (tick w\<lparr>w_store := s'\<rparr>))"
  using calm_transact [OF assms(1), of "\<lambda>e. heartbeat_job_claim e a ttl", OF assms(2)] assms(1)
  by (simp add: heartbeat_def bind_def return_def additional_heartbeat_def calm_def rig.defs tick_def)

lemma heartbeat_keeps_jobs: "heartbeat_job_claim e a ttl s = Inr (a', s') \<Longrightarrow> jobs s' = jobs s \<and> operations s' = operations s"
  by (auto simp: heartbeat_job_claim_def update_leases_def Let_def result_simps split: if_splits)

lemma recorded_attempt_returns:
  assumes "recorded rig x b h r v" and "reachable (w_store v)" and "calm rig" and "get_row (w_store v) (mx_job_id x) = Some row"
    and "\<not> cancellation_requested row" and "mx_authority x = JobBound a"
    and "heartbeat_job_claim (moment rig (Suc (ticks v))) a (mx_lease_ttl x) (w_store v) = Inr (a', s')" and "1 \<le> m"
  shows "\<exists>v'. attempt_call rig m x b q h shard failures v = (Inr (Some r), v') \<and> provider_calls v' = provider_calls v"
proof -
  from assms(1) obtain y where y: "get_operation_row (w_store v) (operation_id y) = Some y"
      "op_key y = (mx_job_id x, mx_step_id x, mb_provider_type b, h)" "outcome y = O_SUCCEEDED"
      "decode_terminal_error (floats rig) (summary_json y) = Inr None"
      "read_result (hasher rig) (floats rig) (result_files v) (operation_id y) h (summary_json y) = Some r"
    and accepts: "accepts_model b (mr_actual_model_identity r)"
    by (auto simp: recorded_def call_key_def)
  let ?v2 = "tick (tick (tick v)\<lparr>w_store := s'\<rparr>)"
  let ?prepare = "\<lambda>e. prepare_external_operation e (mx_job_id x) (mx_step_id x) (mx_attempt_id x) (mb_provider_type b) h None
      (prepared_summary b q shard) (mx_authority x) (Some m)"
  have ready: "raise_if_cancelled (rig.truncate rig) (mx_job_id x) v = (Inr (), tick v)"
      "heartbeat (rig.truncate rig) (mx_lease_ttl x) (mx_authority x) (tick v) = (Inr (), ?v2)"
    using calm_not_cancelled [OF assms(3,4,5)] calm_heartbeat [OF assms(3), of "tick v"] assms(6,7)
    by (simp_all add: tick_def)
  have "later (w_store v) s'"
    using quietD [OF quiet_heartbeat ready(2)] by (simp add: still_def tick_def)
  from prepare_succeeded_request [OF assms(2) y(1,3,2) this, of "Some m"] assms(8)
  have "?prepare (moment rig (ticks ?v2)) (w_store ?v2) = Inr (y, s')" by (simp add: tick_def)
  from calm_transact [of rig ?prepare, OF assms(3) this] assms(8)
  have prepared: "prepare_call rig m x b q h shard failures ?v2 = (Inr y, tick ?v2\<lparr>w_store := s'\<rparr>)"
    by (simp add: prepare_call_def guard_prepare_def handle_def)
  let ?v3 = "tick ?v2\<lparr>w_store := s'\<rparr>"
  have again: "raise_if_cancelled (rig.truncate rig) (mx_job_id x) (tick ?v3) = (Inr (), tick (tick ?v3))"
    by (rule calm_not_cancelled [OF assms(3) _ assms(5)])
       (use assms(4) heartbeat_keeps_jobs [OF assms(7)] in \<open>simp add: get_row_def tick_def\<close>)
  have files: "result_files ?v3 = result_files v" "file_faults rig (ticks ?v3) = NoFault"
    using assms(3) by (simp_all add: tick_def calm_def)
  have recover: "recover_terminal_operation rig x y b h ?v3 = (Inr r, tick (tick ?v3))"
    using y(4,5) accepts again files
    by (simp add: recover_terminal_operation_def load_result_def bind_def return_def)
  have "attempt_call rig m x b q h shard failures v = then_do (remember h r) (return (Some r)) (tick (tick ?v3))"
    by (simp add: attempt_call_def bind_def ready prepared y(3) recover)
  then show ?thesis by (auto simp: bind_def remember_def return_def tick_def split: option.splits)
qed

text \<open>C38: A recorded result is recovered. Once a call has returned a result, a later call of the same step, as long as the
  job is not cancelled, the caller's claim can be renewed, nobody else writes to the store meanwhile and nothing fails on the way, returns that result; it needs neither the
  attempt that made the call nor any of the budget of attempts.\<close>

theorem returned_result_is_recovered:
  assumes "reachable (w_store w)" and "execute_call n rig m b q x shard w = Some (Inr r, w')" and "nat m < n"
    and "later (w_store w') (w_store v)" and "\<And>t p. result_files w' t = Some p \<Longrightarrow> result_files v t = Some p"
    and "floats rig' = floats rig" and "hasher rig' = hasher rig"
    and "mx_job_id x' = mx_job_id x" and "mx_step_id x' = mx_step_id x"
    and "calm rig'" and "get_row (w_store v) (mx_job_id x) = Some row" and "\<not> cancellation_requested row"
    and "mx_authority x' = JobBound a"
    and "heartbeat_job_claim (moment rig' (Suc (ticks v))) a (mx_lease_ttl x') (w_store v) = Inr (a', s')" and "1 \<le> m'"
  shows "\<exists>v'. execute_call (Suc n') rig' m' b q x' shard v = Some (Inr r, v') \<and> provider_calls v' = provider_calls v"
proof -
  let ?h = "model_request_hash (hasher rig) b q shard"
  have w': "later (w_store w) (w_store w')" and rec: "recorded rig x b ?h r w'"
    using execute_call_ends [OF assms(1,3), of rig b q x shard] assms(2) by auto
  have reach: "reachable (w_store w')" using reachable_later [OF assms(1) w'] .
  have "recorded rig x b ?h r v" by (rule recorded_still [OF rec reach assms(4,5)])
  then have "recorded rig' x' b ?h r v" using assms(6-9) by (simp add: recorded_def call_key_def)
  from recorded_attempt_returns [OF this reachable_later [OF reach assms(4)] assms(10) assms(11) [folded assms(8)] assms(12-15)]
  obtain v' where turn: "attempt_call rig' m' x' b q ?h shard 0 v = (Inr (Some r), v')" "provider_calls v' = provider_calls v"
    by blast
  obtain u where "validate_call b q shard = Inr u" using assms(2) by (auto simp: execute_call_def split: sum.splits)
  with turn assms(7) show ?thesis by (simp add: execute_call_def)
qed

lemma demo_calm: "calm call_rig_demo"
  by (simp add: calm_def call_rig_demo_def)

lemma returned_result_is_recovered_witness:
  "\<exists>r w' v'. execute_call 3 call_rig_demo 2 demo_binding demo_request demo_execution ''s1'' demo_world = Some (Inr r, w')
    \<and> mr_text r = ''answer'' \<and> length (provider_calls w') = 1
    \<and> execute_call 1 call_rig_demo 1 demo_binding demo_request demo_execution ''s1'' w' = Some (Inr r, v')
    \<and> length (provider_calls v') = 1"
proof (rule demo_call)
  fix r w' assume run: "execute_call 3 call_rig_demo 2 demo_binding demo_request demo_execution ''s1'' demo_world = Some (Inr r, w')"
    and r: "mr_text r = ''answer''" "length (provider_calls w') = 1"
    and row: "case get_row (w_store w') ''jobA'' of Some row \<Rightarrow> \<not> cancellation_requested row | None \<Rightarrow> False"
    and beat: "case heartbeat_job_claim (call_env 2000) (demo_auth ''w'' 1) 60 (w_store w') of Inr _ \<Rightarrow> True | Inl _ \<Rightarrow> False"
  from row obtain ro where ro: "get_row (w_store w') (mx_job_id demo_execution) = Some ro" "\<not> cancellation_requested ro"
    by (auto simp: demo_execution_def split: option.splits)
  from beat obtain a' s' where beat': "heartbeat_job_claim (moment call_rig_demo (Suc (ticks w'))) (demo_auth ''w'' 1)
      (mx_lease_ttl demo_execution) (w_store w') = Inr (a', s')"
    by (auto simp: demo_execution_def call_rig_demo_def split: sum.splits)
  have "nat 2 < 3" and auth: "mx_authority demo_execution = JobBound (demo_auth ''w'' 1)" by (simp_all add: demo_execution_def)
  from returned_result_is_recovered [OF demo_world_reachable run this(1) later_refl _ refl refl refl refl demo_calm ro auth beat', of 1 0] r run
  show ?thesis by auto
qed

section \<open>Records\<close>

text \<open>No call without a record. When a call asked the provider, however it ended, an operation of its request is on
  record as started or settled, so that whoever takes the job over sees that the provider may have been asked.\<close>

theorem asked_calls_are_on_record:
  assumes "reachable (w_store w)" and "nat m < n" and "execute_call n rig m b q x shard w = Some (res, w')"
    and "provider_calls w' \<noteq> provider_calls w"
  shows "\<exists>z. get_operation_row (w_store w') (operation_id z) = Some z \<and> outcome z \<noteq> O_PREPARED
    \<and> op_key z = (mx_job_id x, mx_step_id x, mb_provider_type b, model_request_hash (hasher rig) b q shard)"
proof -
  from execute_call_ends [OF assms(1,2), of rig b q x shard] assms(3) obtain j where
    "provider_calls w' = provider_calls w @ replicate j q"
    "0 < j \<longrightarrow> on_record (call_key x b (model_request_hash (hasher rig) b q shard)) w'" by auto
  with assms(4) show ?thesis by (cases "j = 0") (auto simp: on_record_def call_key_def)
qed

lemma asked_calls_are_on_record_witness:
  "\<exists>r w' z. execute_call 3 call_rig_demo 2 demo_binding demo_request demo_execution ''s1'' demo_world = Some (Inr r, w')
    \<and> get_operation_row (w_store w') (operation_id z) = Some z \<and> outcome z \<noteq> O_PREPARED"
proof (rule demo_call)
  fix r w' assume run: "execute_call 3 call_rig_demo 2 demo_binding demo_request demo_execution ''s1'' demo_world = Some (Inr r, w')"
    and "length (provider_calls w') = 1"
  then have "provider_calls w' \<noteq> provider_calls demo_world" and "nat 2 < 3" by (auto simp: demo_world_def)
  from asked_calls_are_on_record [OF demo_world_reachable this(2) run this(1)] run show ?thesis by blast
qed

end
