(* ===== verification/StepRunner.thy ===== *)
theory StepRunner
  imports Flows
begin

text \<open>
  Durable steps of a job: the checkpoints of \<open>adapters/jobs/file_attempt_storage.py\<close> (their files a map from the parts of a
  path to the bytes), the runner of \<open>core/application/checkpoint_runner.py\<close> and the planner of \<open>core/jobs/recovery.py\<close>. The
  action of a step is an arbitrary flow; the heartbeats of the thread that runs beside it are transactions of other
  parties, and how that thread ended is part of the surroundings.
\<close>

section \<open>Worlds\<close>

datatype storage_fault = Sound | Unsafe_path | Io_error

record step_world = world +
  checkpoint_files :: "string list \<Rightarrow> string option"
  actions :: nat

type_synonym 'a step_flow = "step_world \<Rightarrow> (failure + 'a) \<times> step_world"

record step_rig = rig +
  storage_faults :: "nat \<Rightarrow> storage_fault"
  uuid4_hex :: "nat \<Rightarrow> string"
  validators :: "string \<Rightarrow> (string \<Rightarrow> bool) option"
  metadata_text :: "nat \<Rightarrow> string"
  beat_failure :: "nat \<Rightarrow> failure option"

text \<open>The settings of a runner.\<close>

record runner =
  checkpoint_schema :: string
  scheduler_lease_ttl :: int

section \<open>Checkpoint files\<close>

text \<open>\<open>Path(text).parts\<close>, and the parts of the place of a checkpoint.\<close>

fun split_slash :: "string \<Rightarrow> string list" where
  "split_slash [] = [[]]"
| "split_slash (c # cs) = (if c = CHR ''/'' then [] # split_slash cs else case split_slash cs of [] \<Rightarrow> [[c]] | p # ps \<Rightarrow> (c # p) # ps)"

definition path_parts :: "string \<Rightarrow> string list" where
  "path_parts t = (if take 1 t = ''/'' then [''/''] else []) @ filter (\<lambda>p. p \<noteq> [] \<and> p \<noteq> ''.'') (split_slash t)"

definition checkpoint_text :: "string \<Rightarrow> string \<Rightarrow> string" where
  "checkpoint_text jid cid = ''jobs/'' @ jid @ ''/checkpoints/'' @ cid @ ''.payload''"

definition checkpoint_parts :: "string \<Rightarrow> string \<Rightarrow> string list" where
  "checkpoint_parts jid cid = (if take 1 cid = ''/'' then path_parts (cid @ ''.payload'') else path_parts (checkpoint_text jid cid))"

definition ascii_upper :: "char \<Rightarrow> char" where
  "ascii_upper c = (let n = of_char c :: nat in if 97 \<le> n \<and> n \<le> 122 then char_of (n - 32) else c)"

definition WINDOWS_RESERVED_SEGMENTS :: "string list" where
  "WINDOWS_RESERVED_SEGMENTS = [''CON'', ''PRN'', ''AUX'', ''NUL''] @ map (\<lambda>d. ''COM'' @ [d]) ''123456789'' @ map (\<lambda>d. ''LPT'' @ [d]) ''123456789''"

text \<open>\<open>[A-Za-z0-9][A-Za-z0-9_.-]*\<close>, at most 255 characters, no final dot, no reserved name before the first dot.\<close>

definition safe_job_id :: "string \<Rightarrow> bool" where
  "safe_job_id jid \<longleftrightarrow> length jid \<le> 255 \<and> jid \<noteq> [] \<and> ascii_alnum (hd jid) \<and> list_all (\<lambda>c. ascii_alnum c \<or> c \<in> set ''_.-'') (tl jid)
     \<and> last jid \<noteq> CHR ''.'' \<and> \<not> List.member WINDOWS_RESERVED_SEGMENTS (map ascii_upper (takeWhile (\<lambda>c. c \<noteq> CHR ''.'') jid))"

definition content_is_valid :: "step_rig \<Rightarrow> string \<Rightarrow> string \<Rightarrow> bool" where
  "content_is_valid rig schema payload = (case validators rig schema of None \<Rightarrow> False | Some valid \<Rightarrow> valid payload)"

record checkpoint_record =
  r_job_id :: string
  r_step_id :: string
  r_attempt_id :: string
  r_schema_id :: string
  r_input_hash :: string
  r_payload :: string
  r_metadata_json :: string

definition storage_path_invalid :: failure where
  "storage_path_invalid = Failure (DomainError ''attempt_storage_path_invalid'' WORKSPACE_INCOMPATIBLE)"

text \<open>The file is moved to its place before the row is written: a refused row leaves a file no row names.\<close>

definition save_checkpoint :: "step_rig \<Rightarrow> checkpoint_record \<Rightarrow> any_authority \<Rightarrow> checkpoint_metadata step_flow" where
  "save_checkpoint rig r authority = (\<lambda>w.
    if \<not> safe_job_id (r_job_id r) then (Inl storage_path_invalid, w)
    else if \<not> content_is_valid rig (r_schema_id r) (r_payload r)
      then (Inl (Failure (DomainError ''checkpoint_content_invalid'' INVALID_REQUEST)), w)
    else
      let cid = ''cp_'' @ uuid4_hex rig (ticks w); parts = checkpoint_parts (r_job_id r) cid;
          k = \<lparr>checkpoint_id = cid, k_job_id = r_job_id r, k_step_id = r_step_id r, k_attempt_id = r_attempt_id r,
               relative_path = checkpoint_text (r_job_id r) cid, schema_id = r_schema_id r, input_hash = r_input_hash r,
               output_hash = hasher rig (r_payload r), byte_length = int (length (r_payload r)), metadata_json = r_metadata_json r,
               k_created_at = utc (moment rig (ticks w))\<rparr>
      in case storage_faults rig (ticks w) of
           Unsafe_path \<Rightarrow> (Inl storage_path_invalid, tick w)
         | Io_error \<Rightarrow> (Inl Crash, tick w)
         | Sound \<Rightarrow> transact (rig.truncate rig) (\<lambda>e. record_checkpoint e k authority)
                     (tick w\<lparr>checkpoint_files := (checkpoint_files w)(parts \<mapsto> r_payload r)\<rparr>))"

definition valid_checkpoint :: "step_rig \<Rightarrow> (string list \<Rightarrow> string option) \<Rightarrow> checkpoint_metadata \<Rightarrow> string \<Rightarrow> string \<Rightarrow> bool" where
  "valid_checkpoint rig files k expected_schema expected_input \<longleftrightarrow>
     schema_id k = expected_schema \<and> input_hash k = expected_input \<and> safe_job_id (k_job_id k)
     \<and> (let parts = checkpoint_parts (k_job_id k) (checkpoint_id k) in
         path_parts (relative_path k) = parts \<and> take 1 parts \<noteq> [''/''] \<and> \<not> List.member parts ''..''
         \<and> (case files parts of
              None \<Rightarrow> False
            | Some payload \<Rightarrow> int (length payload) = byte_length k \<and> hasher rig payload = output_hash k
                \<and> content_is_valid rig (schema_id k) payload))"

definition validate_checkpoint :: "step_rig \<Rightarrow> checkpoint_metadata \<Rightarrow> string \<Rightarrow> string \<Rightarrow> bool step_flow" where
  "validate_checkpoint rig k expected_schema expected_input = (\<lambda>w.
     (Inr (storage_faults rig (ticks w) = Sound \<and> valid_checkpoint rig (checkpoint_files w) k expected_schema expected_input), tick w))"

section \<open>Reading a checkpoint back\<close>

text \<open>What reading or decoding gives: a value, an exception the runner passes over, or one it does not.\<close>

datatype 'v reading = Value 'v | Unreadable | Broken failure

definition read_checkpoint :: "step_rig \<Rightarrow> checkpoint_metadata \<Rightarrow> string reading step_flow" where
  "read_checkpoint rig k = (\<lambda>w.
     let parts = checkpoint_parts (k_job_id k) (checkpoint_id k)
     in (Inr (if path_parts (relative_path k) \<noteq> parts \<or> storage_faults rig (ticks w) \<noteq> Sound then Unreadable
              else case checkpoint_files w parts of None \<Rightarrow> Unreadable | Some payload \<Rightarrow> Value payload), tick w))"

definition success_marker :: "string \<Rightarrow> string" where
  "success_marker step = dumps_ascii (JObj [(''step'', JStr step), (''state'', JStr ''succeeded'')])"

definition decode_success_marker :: "(string \<Rightarrow> string option) \<Rightarrow> string \<Rightarrow> string \<Rightarrow> bool" where
  "decode_success_marker fr payload step =
    (case loads fr payload of
       Some (JObj v) \<Rightarrow> set (map fst v) = {''state'', ''step''} \<and> map_of v ''state'' = Some (JStr ''succeeded'')
                         \<and> map_of v ''step'' = Some (JStr step)
     | _ \<Rightarrow> False)"

text \<open>How the values of a step are written and read: \<open>None\<close> for the success marker, which carries no value.\<close>

record 'v codec =
  encoder :: "('v \<Rightarrow> failure + string) option"
  decoder :: "(string \<Rightarrow> 'v reading) option"
  no_value :: 'v

definition encode_value :: "'v codec \<Rightarrow> string \<Rightarrow> 'v \<Rightarrow> failure + string" where
  "encode_value c step v = (case encoder c of Some enc \<Rightarrow> enc v | None \<Rightarrow> Inr (success_marker step))"

definition decode_value :: "(string \<Rightarrow> string option) \<Rightarrow> 'v codec \<Rightarrow> string \<Rightarrow> string \<Rightarrow> 'v reading" where
  "decode_value fr c step payload =
    (case decoder c of
       Some dec \<Rightarrow> dec payload
     | None \<Rightarrow> if decode_success_marker fr payload step then Value (no_value c) else Unreadable)"

section \<open>The runner\<close>

text \<open>The operations on attempts under either kind of authority: leadership of the scheduler is not accepted for a job.\<close>

definition create_attempt_under ::
    "env \<Rightarrow> string \<Rightarrow> string \<Rightarrow> any_authority \<Rightarrow> store \<Rightarrow> store_error + (attempt \<times> store)" where
  "create_attempt_under e jid step authority s =
     create_attempt e jid step (case authority of JobBound a \<Rightarrow> Some a | Leadership _ \<Rightarrow> None) s"

definition start_attempt_under :: "env \<Rightarrow> string \<Rightarrow> any_authority \<Rightarrow> store \<Rightarrow> store_error + (attempt \<times> store)" where
  "start_attempt_under e aid authority s =
    (case authority of
       JobBound a \<Rightarrow> start_attempt e aid a s
     | Leadership _ \<Rightarrow>
         andthen (get_attempt s aid) (\<lambda>a.
           if a_state a = A_RUNNING then conflict ''attempt_fenced''
           else andthen (transition_attempt (a_state a) A_RUNNING) (\<lambda>_.
                andthen (get_job s (a_job_id a)) (\<lambda>j.
                  if state j \<noteq> RUNNING then conflict ''attempt_job_not_running''
                  else if cancellation_requested j then job_cancelled
                  else job_claim_fenced))))"

definition transition_attempt_under ::
    "env \<Rightarrow> string \<Rightarrow> attempt_state \<Rightarrow> any_authority \<Rightarrow> store \<Rightarrow> store_error + (attempt \<times> store)" where
  "transition_attempt_under e aid st authority s =
    (case authority of
       JobBound a \<Rightarrow> transition_attempt_op e aid st (Some a) s
     | Leadership _ \<Rightarrow>
         if st = A_RUNNING then conflict ''attempt_start_required'' else andthen (get_attempt s aid) (\<lambda>_. job_claim_fenced))"

definition pause_under ::
    "env \<Rightarrow> string \<Rightarrow> string \<Rightarrow> any_authority \<Rightarrow> store \<Rightarrow> store_error + (challenge option \<times> store)" where
  "pause_under e jid aid authority s =
    (case authority of
       JobBound a \<Rightarrow> pause_for_external_outcome_atomic e jid aid a s
     | Leadership _ \<Rightarrow>
         andthen (get_job s jid) (\<lambda>j. if state j \<noteq> RUNNING then conflict ''challenge_job_not_running'' else job_claim_fenced))"

definition AUTHORITY_LOSS_CODES :: "string list" where
  "AUTHORITY_LOSS_CODES = [''attempt_fenced'', ''job_claim_fenced'', ''scheduler_lease_lost'']"

definition is_resumed_step :: "attempt option \<Rightarrow> string \<Rightarrow> string \<Rightarrow> bool" where
  "is_resumed_step resumed jid step =
    (case resumed of None \<Rightarrow> False | Some a \<Rightarrow> a_job_id a = jid \<and> a_step_id a = step \<and> a_state a = A_RUNNING)"

text \<open>\<open>_run_action\<close>: a heartbeat that failed beside the action takes the place of its value, never of its exception.\<close>

definition run_action :: "step_rig \<Rightarrow> (string \<Rightarrow> 'v step_flow) \<Rightarrow> string \<Rightarrow> 'v step_flow" where
  "run_action rig action aid = (\<lambda>w.
    case action aid (w\<lparr>actions := Suc (actions w)\<rparr>) of
      (Inl err, w') \<Rightarrow> (Inl err, w')
    | (Inr v, w') \<Rightarrow> (case beat_failure rig (ticks w') of Some err \<Rightarrow> (Inl err, tick w') | None \<Rightarrow> (Inr v, tick w')))"

text \<open>
  The \<open>except\<close> clauses: the attempt is closed, and the exception goes on; if closing it is refused because the authority
  was lost, the exception goes on all the same, and any other refusal takes its place.
\<close>

definition close_attempt :: "step_rig \<Rightarrow> string \<Rightarrow> string \<Rightarrow> any_authority \<Rightarrow> failure \<Rightarrow> unit step_flow" where
  "close_attempt rig jid aid authority err =
    (case err of
       Failure (DomainError c k) \<Rightarrow>
         if c = ''external_outcome_unknown''
         then bind (transact (rig.truncate rig) (\<lambda>e. pause_under e jid aid authority)) (\<lambda>_. return ())
         else bind (transact (rig.truncate rig)
                (\<lambda>e. transition_attempt_under e aid (if k = CANCELLED_ERROR then A_CANCELLED else A_FAILED) authority)) (\<lambda>_. return ())
     | _ \<Rightarrow> bind (transact (rig.truncate rig) (\<lambda>e. transition_attempt_under e aid A_FAILED authority)) (\<lambda>_. return ()))"

definition settle_failure :: "step_rig \<Rightarrow> string \<Rightarrow> string \<Rightarrow> any_authority \<Rightarrow> failure \<Rightarrow> 'v step_flow" where
  "settle_failure rig jid aid authority err =
     bind (handle (close_attempt rig jid aid authority err)
             (\<lambda>c k. if List.member AUTHORITY_LOSS_CODES c then return () else raise (Failure (DomainError c k))))
          (\<lambda>_. raise err)"

definition perform_action ::
    "step_rig \<Rightarrow> runner \<Rightarrow> string \<Rightarrow> string \<Rightarrow> string \<Rightarrow> any_authority \<Rightarrow> (string \<Rightarrow> 'v step_flow) \<Rightarrow> 'v codec \<Rightarrow> string \<Rightarrow> 'v step_flow" where
  "perform_action rig run jid step inp authority action c aid =
     then_do (heartbeat (rig.truncate rig) (scheduler_lease_ttl run) authority)
     (bind (run_action rig action aid) (\<lambda>v.
      then_do (heartbeat (rig.truncate rig) (scheduler_lease_ttl run) authority)
      (case encode_value c step v of
         Inl err \<Rightarrow> raise err
       | Inr payload \<Rightarrow>
           bind (\<lambda>w. save_checkpoint rig \<lparr>r_job_id = jid, r_step_id = step, r_attempt_id = aid, r_schema_id = checkpoint_schema run,
                   r_input_hash = inp, r_payload = payload, r_metadata_json = metadata_text rig (ticks w)\<rparr> authority w)
                (\<lambda>_. return v))))"

definition perform_step ::
    "step_rig \<Rightarrow> runner \<Rightarrow> string \<Rightarrow> string \<Rightarrow> string \<Rightarrow> any_authority \<Rightarrow> (string \<Rightarrow> 'v step_flow) \<Rightarrow> 'v codec \<Rightarrow> string \<Rightarrow> 'v step_flow" where
  "perform_step rig run jid step inp authority action c aid = (\<lambda>w.
    case perform_action rig run jid step inp authority action c aid w of
      (Inl err, w') \<Rightarrow> settle_failure rig jid aid authority err w'
    | (Inr v, w') \<Rightarrow>
        bind (transact (rig.truncate rig) (\<lambda>e. transition_attempt_under e aid A_SUCCEEDED authority)) (\<lambda>_. return v) w')"

definition reusable_value ::
    "step_rig \<Rightarrow> runner \<Rightarrow> string \<Rightarrow> string \<Rightarrow> 'v codec \<Rightarrow> bool \<Rightarrow> checkpoint_metadata option \<Rightarrow> 'v reading step_flow" where
  "reusable_value rig run step inp c reuse existing =
    (case (reuse, existing) of
       (True, Some k) \<Rightarrow>
         bind (validate_checkpoint rig k (checkpoint_schema run) inp) (\<lambda>ok.
           if \<not> ok then return Unreadable
           else bind (read_checkpoint rig k) (\<lambda>r. return
                  (case r of Value payload \<Rightarrow> decode_value (floats rig) c step payload | Unreadable \<Rightarrow> Unreadable | Broken err \<Rightarrow> Broken err)))
     | _ \<Rightarrow> return Unreadable)"

definition open_attempt :: "step_rig \<Rightarrow> string \<Rightarrow> string \<Rightarrow> any_authority \<Rightarrow> attempt option \<Rightarrow> string step_flow" where
  "open_attempt rig jid step authority resumed =
    (if is_resumed_step resumed jid step then return (attempt_id (the resumed))
     else bind (transact (rig.truncate rig) (\<lambda>e. create_attempt_under e jid step authority)) (\<lambda>a.
          bind (transact (rig.truncate rig) (\<lambda>e. start_attempt_under e (attempt_id a) authority)) (\<lambda>a'. return (attempt_id a'))))"

definition run_step ::
    "step_rig \<Rightarrow> runner \<Rightarrow> string \<Rightarrow> string \<Rightarrow> string \<Rightarrow> any_authority \<Rightarrow> (string \<Rightarrow> 'v step_flow) \<Rightarrow> 'v codec \<Rightarrow> bool
      \<Rightarrow> attempt option \<Rightarrow> 'v step_flow" where
  "run_step rig run jid step inp authority action c reuse resumed =
     then_do (heartbeat (rig.truncate rig) (scheduler_lease_ttl run) authority)
     (bind (observe (rig.truncate rig) (\<lambda>_ s. Inr (latest_checkpoint jid step s))) (\<lambda>existing.
      bind (reusable_value rig run step inp c reuse existing) (\<lambda>r.
      case r of
        Value v \<Rightarrow>
          then_do (if is_resumed_step resumed jid step
                   then bind (transact (rig.truncate rig) (\<lambda>e. transition_attempt_under e (attempt_id (the resumed)) A_SUCCEEDED authority)) (\<lambda>_. return ())
                   else return ())
          (then_do (heartbeat (rig.truncate rig) (scheduler_lease_ttl run) authority) (return v))
      | Broken err \<Rightarrow> raise err
      | Unreadable \<Rightarrow>
          bind (open_attempt rig jid step authority resumed) (\<lambda>aid. perform_step rig run jid step inp authority action c aid))))"

section \<open>Recovery plans\<close>

record artifact_step =
  checkpoint_step_id :: string
  pending_step :: string
  s_schema_id :: string
  s_input_hash :: string

record recovery_plan =
  reusable_checkpoint_steps :: "string list"
  pending_steps :: "string list"

fun plan_steps :: "step_rig \<Rightarrow> string \<Rightarrow> string list \<Rightarrow> artifact_step list \<Rightarrow> recovery_plan step_flow" where
  "plan_steps rig jid reusable [] = return \<lparr>reusable_checkpoint_steps = reusable, pending_steps = []\<rparr>"
| "plan_steps rig jid reusable (st # sts) =
     bind (observe (rig.truncate rig) (\<lambda>_ s. Inr (latest_checkpoint jid (checkpoint_step_id st) s))) (\<lambda>k.
     bind (case k of None \<Rightarrow> return False | Some k \<Rightarrow> validate_checkpoint rig k (s_schema_id st) (s_input_hash st)) (\<lambda>ok.
       if \<not> ok then return \<lparr>reusable_checkpoint_steps = reusable, pending_steps = map pending_step (st # sts)\<rparr>
       else plan_steps rig jid (reusable @ [checkpoint_step_id st]) sts))"

definition plan_remaining_steps :: "step_rig \<Rightarrow> string \<Rightarrow> artifact_step list \<Rightarrow> recovery_plan step_flow" where
  "plan_remaining_steps rig jid ds = plan_steps rig jid [] ds"

end
