(* ===== verification/RunnerProperties.thy ===== *)
theory RunnerProperties
  imports StepRunner JsonRoundTrip Scenarios
begin

text \<open>
  What running a durable step guarantees: a step that ended left a checkpoint that is valid and a settled attempt, a valid
  checkpoint takes the place of the action, and a recovery plan resumes at the first step without one.
\<close>

section \<open>Runs\<close>

definition demo_step_rig :: step_rig where
  "demo_step_rig = \<lparr>moment = (\<lambda>t. demo_env 2000), others = (\<lambda>_. []), fault = (\<lambda>_. None), extra_beat = (\<lambda>_. None),
     hasher = (\<lambda>p. ''h'' @ p), floats = (\<lambda>_. None), storage_faults = (\<lambda>_. Sound), uuid4_hex = (\<lambda>_. ''0a''),
     validators = (\<lambda>_. Some (\<lambda>_. True)), metadata_text = (\<lambda>_. ''{}''), beat_failure = (\<lambda>_. None)\<rparr>"

definition demo_runner :: runner where
  "demo_runner = \<lparr>checkpoint_schema = ''c1'', scheduler_lease_ttl = 60\<rparr>"

definition demo_codec :: "unit codec" where
  "demo_codec = \<lparr>encoder = None, decoder = None, no_value = ()\<rparr>"

definition demo_action :: "string \<Rightarrow> unit step_flow" where
  "demo_action aid = return ()"

definition demo_step_world :: step_world where
  "demo_step_world = \<lparr>ticks = 0, w_store = demo_store demo_running, checkpoint_files = (\<lambda>_. None), actions = 0\<rparr>"

abbreviation run_demo_step :: "bool \<Rightarrow> attempt option \<Rightarrow> unit step_flow" where
  "run_demo_step \<equiv> run_step demo_step_rig demo_runner ''jobA'' ''s'' ''in'' (JobBound (demo_auth ''w'' 1)) demo_action demo_codec"

lemma demo_step_runs: "case run_demo_step False (get_attempt_row (w_store demo_step_world) ''attA'') demo_step_world of
    (Inr v, w') \<Rightarrow> actions w' = 1 \<and> (case latest_checkpoint ''jobA'' ''s'' (w_store w') of None \<Rightarrow> False | Some k \<Rightarrow>
       valid_checkpoint demo_step_rig (checkpoint_files w') k ''c1'' ''in''
       \<and> checkpoint_files w' (checkpoint_parts (k_job_id k) (checkpoint_id k)) = Some (success_marker ''s''))
  | _ \<Rightarrow> False"
  by code_simp

lemma demo_step_run:
  obtains w' k where "run_demo_step False (get_attempt_row (w_store demo_step_world) ''attA'') demo_step_world = (Inr (), w')"
    "latest_checkpoint ''jobA'' ''s'' (w_store w') = Some k" "valid_checkpoint demo_step_rig (checkpoint_files w') k ''c1'' ''in''"
    "checkpoint_files w' (checkpoint_parts (k_job_id k) (checkpoint_id k)) = Some (success_marker ''s'')" "actions w' = 1"
proof -
  obtain res w' where run: "run_demo_step False (get_attempt_row (w_store demo_step_world) ''attA'') demo_step_world = (res, w')"
    by fastforce
  note facts = demo_step_runs [unfolded run prod.case]
  from facts obtain v where "res = Inr v" by (cases res) simp_all
  with facts that run show thesis by (cases "latest_checkpoint ''jobA'' ''s'' (w_store w')") auto
qed

lemma demo_steps_surroundings:
  "others demo_step_rig t = []" "fault demo_step_rig t = None" "storage_faults demo_step_rig t = Sound"
  "list_all hex_digit (uuid4_hex demo_step_rig t)" "later (w_store w) (w_store (snd (demo_action aid w)))"
  "reachable (w_store demo_step_world)"
  by (simp_all add: demo_step_rig_def demo_action_def return_def demo_step_world_def demo_reachable hex_digit_def)

section \<open>The parts of a run\<close>

definition steady :: "step_world \<Rightarrow> step_world \<Rightarrow> bool" where
  "steady w w' \<longleftrightarrow> later (w_store w) (w_store w') \<and> checkpoint_files w' = checkpoint_files w \<and> actions w' = actions w"

interpretation step_run: flow_frame steady
  by unfold_locales (auto simp: steady_def tick_def intro: later_trans)

lemma steady_trans: "steady w w1 \<Longrightarrow> steady w1 w2 \<Longrightarrow> steady w w2"
  by (rule step_run.joins)

lemma lawful_under [lawful_intros]:
  "lawful (\<lambda>e. create_attempt_under e jid step authority)" "lawful (\<lambda>e. start_attempt_under e aid authority)"
  "lawful (\<lambda>e. transition_attempt_under e aid st authority)" "lawful (\<lambda>e. pause_under e jid aid authority)"
  "lawful (\<lambda>e. record_checkpoint e k authority)"
proof -
  show "lawful (\<lambda>e. create_attempt_under e jid step authority)"
    by (rule lawful_command, rule exI [where x = "CreateAttempt jid step (case authority of JobBound a \<Rightarrow> Some a | Leadership _ \<Rightarrow> None)"])
       (simp add: create_attempt_under_def stored_Inr)
  show "lawful (\<lambda>e. start_attempt_under e aid authority)"
  proof (cases authority)
    case (JobBound a)
    show ?thesis
      by (rule lawful_command, rule exI [where x = "StartAttempt aid a"]) (simp add: start_attempt_under_def stored_Inr JobBound)
  qed (auto simp: lawful_def start_attempt_under_def result_simps split: if_splits)
  show "lawful (\<lambda>e. transition_attempt_under e aid st authority)"
  proof (cases authority)
    case (JobBound a)
    show ?thesis
      by (rule lawful_command, rule exI [where x = "TransitionAttempt aid st (Some a)"])
         (simp add: transition_attempt_under_def stored_Inr JobBound)
  qed (auto simp: lawful_def transition_attempt_under_def result_simps split: if_splits)
  show "lawful (\<lambda>e. pause_under e jid aid authority)"
  proof (cases authority)
    case (JobBound a)
    show ?thesis
      by (rule lawful_command, rule exI [where x = "PauseForOutcome jid aid a"]) (simp add: pause_under_def stored_Inr JobBound)
  qed (auto simp: lawful_def pause_under_def result_simps split: if_splits)
  show "lawful (\<lambda>e. record_checkpoint e k authority)"
    by (rule lawful_command, rule exI [where x = "RecordCheckpoint k authority"]) (simp add: stored_Inr)
qed

lemma steady_storage:
  "step_run.keeps (validate_checkpoint rig k schema inp)" "step_run.keeps (read_checkpoint rig k)"
  by (auto simp: step_run.keeps_def validate_checkpoint_def read_checkpoint_def Let_def step_run.keeps_tick)

lemmas steady_intros = step_run.keeps_intros steady_storage lawful_intros

section \<open>Checkpoint paths\<close>

lemma split_plain: "CHR ''/'' \<notin> set t \<Longrightarrow> split_slash t = [t]"
  by (induction t) auto

lemma split_append: "CHR ''/'' \<notin> set t \<Longrightarrow> split_slash (t @ CHR ''/'' # rest) = t # split_slash rest"
  by (induction t) auto

lemma safe_job_id_plain:
  assumes "safe_job_id jid"
  shows "CHR ''/'' \<notin> set jid" and "jid \<noteq> []" and "jid \<noteq> ''.''" and "jid \<noteq> ''..''"
proof -
  have slash: "\<not> ascii_alnum (CHR ''/'')" "CHR ''/'' \<notin> set ''_.-''" and dot: "\<not> ascii_alnum (CHR ''.'')" by code_simp+
  from assms have ok: "jid \<noteq> []" "ascii_alnum (hd jid)" "list_all (\<lambda>c. ascii_alnum c \<or> c \<in> set ''_.-'') (tl jid)"
    by (simp_all add: safe_job_id_def)
  then show "jid \<noteq> []" by simp
  from ok show "CHR ''/'' \<notin> set jid"
    using slash by (cases jid) (auto simp only: list.sel list.set list_all_iff insert_iff)
  show "jid \<noteq> ''.''" "jid \<noteq> ''..''" using ok(2) dot by auto
qed

lemma checkpoint_path:
  assumes "safe_job_id jid" and "CHR ''/'' \<notin> set cid" and "cid \<noteq> []"
  shows "path_parts (checkpoint_text jid cid) = checkpoint_parts jid cid"
    and "checkpoint_parts jid cid = [''jobs'', jid, ''checkpoints'', cid @ ''.payload'']"
proof -
  have whole: "checkpoint_text jid cid = ''jobs'' @ CHR ''/'' # jid @ CHR ''/'' # ''checkpoints'' @ CHR ''/'' # cid @ ''.payload''"
    by (simp add: checkpoint_text_def)
  have plain: "CHR ''/'' \<notin> set ''jobs''" "CHR ''/'' \<notin> set ''checkpoints''" "CHR ''/'' \<notin> set ''.payload''" by code_simp+
  then have "CHR ''/'' \<notin> set (cid @ ''.payload'')" using assms(2) by (simp only: set_append Un_iff simp_thms)
  then have split: "split_slash (checkpoint_text jid cid) = [''jobs'', jid, ''checkpoints'', cid @ ''.payload'']"
    unfolding whole using plain safe_job_id_plain(1) [OF assms(1)]
    by (simp only: split_append split_plain not_False_eq_True)
  have cid: "take 1 cid \<noteq> ''/''" using assms(2,3) by (cases cid) auto
  have "take 1 (checkpoint_text jid cid) \<noteq> ''/''" by (simp add: checkpoint_text_def)
  moreover have "cid @ ''.payload'' \<noteq> ''.''" using assms(3) by (cases cid) auto
  ultimately show "checkpoint_parts jid cid = [''jobs'', jid, ''checkpoints'', cid @ ''.payload'']"
    using cid safe_job_id_plain [OF assms(1)] by (simp add: checkpoint_parts_def path_parts_def split)
  show "path_parts (checkpoint_text jid cid) = checkpoint_parts jid cid"
    using cid by (simp add: checkpoint_parts_def)
qed

section \<open>The success marker\<close>

lemma marker_round_trip: "decode_success_marker fr (success_marker step) step"
proof -
  have "loads fr (success_marker step) = Some (sort_keys (JObj [(''step'', JStr step), (''state'', JStr ''succeeded'')]))"
    unfolding success_marker_def by (rule loads_dumps_ascii) simp
  also have "sort_keys (JObj [(''step'', JStr step), (''state'', JStr ''succeeded'')])
      = JObj [(''state'', JStr ''succeeded''), (''step'', JStr step)]"
  proof -
    have "\<not> (''step'' :: string) \<le> ''state''" by code_simp
    then show ?thesis by simp
  qed
  finally show ?thesis by (auto simp: decode_success_marker_def)
qed

section \<open>A step that ended\<close>

lemma settled_attempt:
  assumes "transition_attempt_under e aid st authority s = Inr (a, s')"
  shows "get_attempt_row s' aid = Some a \<and> a_state a = st"
proof -
  from assms obtain b where run: "transition_attempt_op e aid st (Some b) s = Inr (a, s')"
    by (cases authority) (auto simp: transition_attempt_under_def result_simps split: if_splits)
  then obtain a0 nxt s1 where a0: "get_attempt_row s aid = Some a0" and nxt: "transition_attempt (a_state a0) st = Inr nxt"
    and ann: "announce_attempt e aid (set_attempt_state e aid nxt s) = Inr (a, s1)"
    and idle: "settle_cancelled_job_if_idle e (a_job_id a0) s1 = Inr s'"
    by (auto simp: transition_attempt_op_def result_simps split: if_splits)
  have "nxt = st" using transition_attempt_InrD [OF nxt] by simp
  have "get_attempt_row (set_attempt_state e aid nxt s) aid = Some a" "attempts s1 = attempts (set_attempt_state e aid nxt s)"
    using announce_attempt_frame [OF ann] by auto
  moreover have "attempts s' = attempts s1" using settle_idle_frame [OF idle] by simp
  moreover have "a_state a = nxt"
    using calculation(1) a0
    by (auto simp: set_attempt_state_def update_attempt_def get_attempt_row_def fetchone_key_update dest: fetchone_SomeD)
  ultimately show ?thesis using \<open>nxt = st\<close> by (simp add: get_attempt_row_def)
qed

lemma recorded_row: "record_checkpoint e k authority s = Inr (k', s') \<Longrightarrow> k' = k \<and> s' = s\<lparr>checkpoints := checkpoints s @ [k]\<rparr>"
  by (auto simp: record_checkpoint_def result_simps split: if_splits)

lemma saved_checkpoint:
  assumes save: "save_checkpoint rig r authority w = (Inr k, w')" and hex: "\<And>t. list_all hex_digit (uuid4_hex rig t)"
  shows "valid_checkpoint rig (checkpoint_files w') k (r_schema_id r) (r_input_hash r) \<and> k_job_id k = r_job_id r \<and> k_step_id k = r_step_id r
    \<and> k_attempt_id k = r_attempt_id r \<and> k \<in> set (checkpoints (w_store w'))
    \<and> checkpoint_files w' (checkpoint_parts (r_job_id r) (checkpoint_id k)) = Some (r_payload r)
    \<and> later (w_store w) (w_store w') \<and> actions w' = actions w"
proof -
  let ?cid = "''cp_'' @ uuid4_hex rig (ticks w)"
  let ?w = "tick w\<lparr>checkpoint_files := (checkpoint_files w)(checkpoint_parts (r_job_id r) ?cid \<mapsto> r_payload r)\<rparr>"
  let ?k = "\<lparr>checkpoint_id = ?cid, k_job_id = r_job_id r, k_step_id = r_step_id r, k_attempt_id = r_attempt_id r,
               relative_path = checkpoint_text (r_job_id r) ?cid, schema_id = r_schema_id r, input_hash = r_input_hash r,
               output_hash = hasher rig (r_payload r), byte_length = int (length (r_payload r)), metadata_json = r_metadata_json r,
               k_created_at = utc (moment rig (ticks w))\<rparr>"
  from save have safe: "safe_job_id (r_job_id r)" "content_is_valid rig (r_schema_id r) (r_payload r)"
    by (auto simp: save_checkpoint_def split: if_splits)
  with save have run: "transact (rig.truncate rig) (\<lambda>e. record_checkpoint e ?k authority) ?w = (Inr k, w')"
    by (auto simp: save_checkpoint_def Let_def split: storage_fault.splits)
  from run obtain e s where s: "record_checkpoint e ?k authority s = Inr (k, w_store w')"
    by (rule transact_done) (intro lawful_intros)
  from recorded_row [OF s] have k: "k = ?k" and "checkpoints (w_store w') = checkpoints s @ [?k]" by simp_all
  then have row: "k \<in> set (checkpoints (w_store w'))" by simp
  have "steady ?w w'" using step_run.keepsD [OF step_run.keeps_transact [OF lawful_under(5)], OF run] .
  then have w': "later (w_store w) (w_store w')" "actions w' = actions w" "checkpoint_files w' = checkpoint_files ?w"
    by (auto simp: steady_def tick_def)
  have no_slash: "CHR ''/'' \<notin> set ?cid"
  proof -
    have "\<not> hex_digit (CHR ''/'')" "CHR ''/'' \<notin> set ''cp_''" by code_simp+
    then show ?thesis using hex [of "ticks w"] by (auto simp only: set_append Un_iff list_all_iff)
  qed
  have parts: "path_parts (checkpoint_text (r_job_id r) ?cid) = checkpoint_parts (r_job_id r) ?cid"
    "checkpoint_parts (r_job_id r) ?cid = [''jobs'', r_job_id r, ''checkpoints'', ?cid @ ''.payload'']"
    by (rule checkpoint_path [OF safe(1) no_slash]; simp)+
  have "\<not> List.member (checkpoint_parts (r_job_id r) ?cid) ''..''"
    unfolding parts(2) using safe_job_id_plain(4) [OF safe(1)] by simp
  moreover have "take 1 (checkpoint_parts (r_job_id r) ?cid) \<noteq> [''/'']" unfolding parts(2) by simp
  ultimately have "valid_checkpoint rig (checkpoint_files w') k (r_schema_id r) (r_input_hash r)"
    using safe parts(1) unfolding valid_checkpoint_def w'(3) k(1) by (simp add: Let_def)
  then show ?thesis using k row w' by simp
qed

definition step_on_record :: "step_rig \<Rightarrow> runner \<Rightarrow> string \<Rightarrow> string \<Rightarrow> string \<Rightarrow> 'v codec \<Rightarrow> 'v \<Rightarrow> step_world \<Rightarrow> bool" where
  "step_on_record rig run jid step inp c v w \<longleftrightarrow>
     (\<exists>k payload. encode_value c step v = Inr payload \<and> k \<in> set (checkpoints (w_store w)) \<and> k_job_id k = jid \<and> k_step_id k = step
        \<and> valid_checkpoint rig (checkpoint_files w) k (checkpoint_schema run) inp
        \<and> checkpoint_files w (checkpoint_parts jid (checkpoint_id k)) = Some payload
        \<and> (\<exists>a. get_attempt_row (w_store w) (k_attempt_id k) = Some a \<and> a_state a = A_SUCCEEDED))"

lemma checkpoints_later: "reachable s \<Longrightarrow> later s s' \<Longrightarrow> k \<in> set (checkpoints s) \<Longrightarrow> k \<in> set (checkpoints s')"
  using later_store_later [of s s'] by (auto simp: store_later_def all_later_eq)

lemma performed_action:
  assumes run: "perform_action rig run jid step inp authority action c aid w = (Inr v, w')"
    and action: "\<And>aid w. later (w_store w) (w_store (snd (action aid w)))"
  obtains payload k w1 where "encode_value c step v = Inr payload" "later (w_store w) (w_store w1)"
    "save_checkpoint rig \<lparr>r_job_id = jid, r_step_id = step, r_attempt_id = aid, r_schema_id = checkpoint_schema run,
                   r_input_hash = inp, r_payload = payload, r_metadata_json = metadata_text rig (ticks w1)\<rparr> authority w1 = (Inr k, w')"
proof -
  from run obtain u w2 where beat: "heartbeat (rig.truncate rig) (scheduler_lease_ttl run) authority w = (Inr u, w2)"
    and run2: "bind (run_action rig action aid) (\<lambda>v.
      then_do (heartbeat (rig.truncate rig) (scheduler_lease_ttl run) authority)
      (case encode_value c step v of
         Inl err \<Rightarrow> raise err
       | Inr payload \<Rightarrow>
           bind (\<lambda>w. save_checkpoint rig \<lparr>r_job_id = jid, r_step_id = step, r_attempt_id = aid, r_schema_id = checkpoint_schema run,
                   r_input_hash = inp, r_payload = payload, r_metadata_json = metadata_text rig (ticks w)\<rparr> authority w)
                (\<lambda>_. return v))) w2 = (Inr v, w')"
    unfolding perform_action_def by (rule bind_elim) simp
  from run2 obtain x w3 where act: "run_action rig action aid w2 = (Inr x, w3)"
    and run3: "then_do (heartbeat (rig.truncate rig) (scheduler_lease_ttl run) authority)
      (case encode_value c step x of
         Inl err \<Rightarrow> raise err
       | Inr payload \<Rightarrow>
           bind (\<lambda>w. save_checkpoint rig \<lparr>r_job_id = jid, r_step_id = step, r_attempt_id = aid, r_schema_id = checkpoint_schema run,
                   r_input_hash = inp, r_payload = payload, r_metadata_json = metadata_text rig (ticks w)\<rparr> authority w)
                (\<lambda>_. return x)) w3 = (Inr v, w')"
    by (rule bind_elim) simp
  from run3 obtain u' w4 payload where beat2: "heartbeat (rig.truncate rig) (scheduler_lease_ttl run) authority w3 = (Inr u', w4)"
    and enc: "encode_value c step x = Inr payload"
    and run4: "bind (\<lambda>w. save_checkpoint rig \<lparr>r_job_id = jid, r_step_id = step, r_attempt_id = aid, r_schema_id = checkpoint_schema run,
                   r_input_hash = inp, r_payload = payload, r_metadata_json = metadata_text rig (ticks w)\<rparr> authority w)
                (\<lambda>_. return x) w4 = (Inr v, w')"
    by (rule bind_elim) (auto split: sum.splits)
  from run4 obtain k where save: "save_checkpoint rig \<lparr>r_job_id = jid, r_step_id = step, r_attempt_id = aid, r_schema_id = checkpoint_schema run,
                   r_input_hash = inp, r_payload = payload, r_metadata_json = metadata_text rig (ticks w4)\<rparr> authority w4 = (Inr k, w')"
    and v: "v = x"
    by (rule bind_elim) auto
  have "later (w_store w2) (w_store w3)"
    using action [of "w2\<lparr>actions := Suc (actions w2)\<rparr>" aid] act
    by (auto simp: run_action_def tick_def split: prod.splits sum.splits option.splits)
  then have "later (w_store w) (w_store w4)"
    using step_run.keepsD [OF step_run.keeps_heartbeat, OF beat] step_run.keepsD [OF step_run.keeps_heartbeat, OF beat2]
    by (auto simp: steady_def intro: later_trans)
  with that enc save v show thesis by blast
qed

lemma bind_returned: "bind f (\<lambda>_. return v) w = (Inr x, w') \<Longrightarrow> x = v"
  by (rule bind_elim) auto

lemma settle_raises [simp]: "settle_failure rig jid aid authority err w \<noteq> (Inr a, w')"
  by (auto simp: settle_failure_def elim!: bind_elim)

lemma performed_step:
  assumes run: "perform_step rig run jid step inp authority action c aid w = (Inr v, w')"
    and action: "\<And>aid w. later (w_store w) (w_store (snd (action aid w)))"
    and hex: "\<And>t. list_all hex_digit (uuid4_hex rig t)" and reach: "reachable (w_store w)"
  shows "step_on_record rig run jid step inp c v w'"
proof -
  let ?succeed = "\<lambda>e. transition_attempt_under e aid A_SUCCEEDED authority"
  from run obtain w1 where act: "perform_action rig run jid step inp authority action c aid w = (Inr v, w1)"
    and close: "bind (transact (rig.truncate rig) ?succeed) (\<lambda>_. return v) w1 = (Inr v, w')"
    by (auto simp: perform_step_def split: prod.splits sum.splits dest: bind_returned)
  from close obtain a where close: "transact (rig.truncate rig) ?succeed w1 = (Inr a, w')" by (rule bind_elim) auto
  from close obtain e s where "?succeed e s = Inr (a, w_store w')" by (rule transact_done) (intro lawful_intros)
  from settled_attempt [OF this] have a: "get_attempt_row (w_store w') aid = Some a" "a_state a = A_SUCCEEDED" by auto
  have s1: "steady w1 w'" using step_run.keepsD [OF step_run.keeps_transact [OF lawful_under(3)], OF close] .
  from act action obtain payload k w0 where enc: "encode_value c step v = Inr payload" and l0: "later (w_store w) (w_store w0)"
    and save: "save_checkpoint rig \<lparr>r_job_id = jid, r_step_id = step, r_attempt_id = aid, r_schema_id = checkpoint_schema run,
                   r_input_hash = inp, r_payload = payload, r_metadata_json = metadata_text rig (ticks w0)\<rparr> authority w0 = (Inr k, w1)"
    by (rule performed_action)
  note saved = saved_checkpoint [OF save hex, simplified checkpoint_record.simps]
  have r1: "reachable (w_store w1)" using reach l0 saved reachable_later later_trans by blast
  have "k \<in> set (checkpoints (w_store w'))"
    by (rule checkpoints_later [OF r1]) (use s1 saved in \<open>auto simp: steady_def\<close>)
  with saved s1 a enc show ?thesis unfolding step_on_record_def by (auto simp: steady_def intro!: exI [where x = k])
qed

lemma steady_opening: "step_run.keeps (open_attempt rig jid step authority resumed)"
  unfolding open_attempt_def by (intro steady_intros)

lemma steady_reading: "step_run.keeps (reusable_value rig run step inp c reuse existing)"
  unfolding reusable_value_def by (auto intro!: steady_intros split: option.splits bool.splits)

text \<open>A run comes to its reading of the latest checkpoint, or raises.\<close>

lemma run_step_reads:
  assumes "run_step rig run jid step inp authority action c reuse resumed w = (res, w')"
  shows "steady w w' \<and> (\<exists>err. res = Inl err) \<or>
    (\<exists>existing w1 r w2. observe (rig.truncate rig) (\<lambda>_ s. Inr (latest_checkpoint jid step s)) w1 = (Inr existing, w2) \<and> steady w w1 \<and> steady w w2
       \<and> (\<exists>w3. reusable_value rig run step inp c reuse existing w2 = (Inr r, w3) \<and> steady w w3 \<and>
       (case r of
        Value v \<Rightarrow>
          then_do (if is_resumed_step resumed jid step
                   then bind (transact (rig.truncate rig) (\<lambda>e. transition_attempt_under e (attempt_id (the resumed)) A_SUCCEEDED authority)) (\<lambda>_. return ())
                   else return ())
          (then_do (heartbeat (rig.truncate rig) (scheduler_lease_ttl run) authority) (return v))
      | Broken err \<Rightarrow> raise err
      | Unreadable \<Rightarrow>
          bind (open_attempt rig jid step authority resumed) (\<lambda>aid. perform_step rig run jid step inp authority action c aid)) w3 = (res, w')))"
  using assms unfolding run_step_def
  by (blast dest!: step_run.keeps_prefix [OF _ step_run.keeps_heartbeat] step_run.keeps_prefix [OF _ step_run.keeps_observe]
      step_run.keeps_prefix [OF _ steady_reading] intro: steady_trans)

text \<open>C39: A step that ended is on record. When running a step without looking for a checkpoint returns a value, then a
  checkpoint of the step with its input hash is recorded, its file holds the encoding of that value and passes validation,
  and the attempt that wrote it has succeeded. Other processes and the action may do to the store what its commands allow; of
  \<open>uuid4().hex\<close> only hexadecimal digits are asked.\<close>

theorem finished_step_is_on_record:
  assumes "reachable (w_store w)" and "run_step rig run jid step inp authority action c False resumed w = (Inr v, w')"
    and "\<And>aid w. later (w_store w) (w_store (snd (action aid w)))" and "\<And>t. list_all hex_digit (uuid4_hex rig t)"
  shows "\<exists>k payload. encode_value c step v = Inr payload \<and> k \<in> set (checkpoints (w_store w')) \<and> k_job_id k = jid \<and> k_step_id k = step
    \<and> valid_checkpoint rig (checkpoint_files w') k (checkpoint_schema run) inp
    \<and> checkpoint_files w' (checkpoint_parts jid (checkpoint_id k)) = Some payload
    \<and> (\<exists>a. get_attempt_row (w_store w') (k_attempt_id k) = Some a \<and> a_state a = A_SUCCEEDED)"
proof -
  from run_step_reads [OF assms(2)] obtain r w3 where r: "r = Unreadable" and s3: "steady w w3" and rest: "bind (open_attempt rig jid step authority resumed) (\<lambda>aid. perform_step rig run jid step inp authority action c aid) w3 = (Inr v, w')"
    by (auto simp: reusable_value_def)
  from step_run.keeps_prefix [OF rest steady_opening] obtain aid w4 where s4: "steady w3 w4"
    and perform: "perform_step rig run jid step inp authority action c aid w4 = (Inr v, w')"
    by auto
  have "reachable (w_store w4)" using assms(1) s3 s4 reachable_later by (auto simp: steady_def)
  from performed_step [OF perform assms(3,4) this] show ?thesis unfolding step_on_record_def .
qed

lemma finished_step_is_on_record_witness:
  "\<exists>w' k. run_demo_step False (get_attempt_row (w_store demo_step_world) ''attA'') demo_step_world = (Inr (), w')
    \<and> k \<in> set (checkpoints (w_store w')) \<and> valid_checkpoint demo_step_rig (checkpoint_files w') k ''c1'' ''in''
    \<and> checkpoint_files w' (checkpoint_parts ''jobA'' (checkpoint_id k)) = Some (success_marker ''s'')"
proof (rule demo_step_run)
  fix w' assume run: "run_demo_step False (get_attempt_row (w_store demo_step_world) ''attA'') demo_step_world = (Inr (), w')"
  from finished_step_is_on_record [OF demo_steps_surroundings(6) run demo_steps_surroundings(5,4)] run show ?thesis
    by (auto simp: encode_value_def demo_codec_def demo_runner_def)
qed

lemma lonely_transact:
  assumes "transact (rig.truncate rig) f w = (res, w')" and "\<And>t. others rig t = []"
  shows "w_store w' = w_store w \<or> (\<exists>a e. res = Inr a \<and> f e (w_store w) = Inr (a, w_store w'))"
  using assms by (auto simp: transact_def rig.defs Let_def tick_def split: option.splits sum.splits prod.splits)

lemma heartbeat_keeps_checkpoints:
  "heartbeat_job_claim e a ttl s = Inr (x, s') \<Longrightarrow> checkpoints s' = checkpoints s"
  "heartbeat_scheduler_lease e b ttl s = Inr (y, s') \<Longrightarrow> checkpoints s' = checkpoints s"
  by (auto simp: heartbeat_job_claim_def heartbeat_scheduler_lease_def update_leases_def Let_def result_simps
      split: if_splits option.splits any_authority.splits)

lemma lonely_heartbeat:
  assumes "heartbeat (rig.truncate rig) ttl authority w = (Inr u, w')" and "\<And>t. others rig t = []"
  shows "checkpoints (w_store w') = checkpoints (w_store w)"
  using assms(1)
  by (cases authority)
     (auto simp: heartbeat_def additional_heartbeat_def tick_def split: option.splits elim!: bind_elim
       dest!: lonely_transact [OF _ assms(2)] heartbeat_keeps_checkpoints)

lemma lonely_observe:
  assumes "observe (rig.truncate rig) (\<lambda>_ s. Inr (f s)) w = (Inr x, w')" and "\<And>t. others rig t = []"
  shows "x = f (w_store w) \<and> w_store w' = w_store w"
  using assms by (auto simp: observe_def transact_def rig.defs Let_def tick_def split: option.splits)

lemma reused_value:
  assumes "valid_checkpoint rig (checkpoint_files w) k (checkpoint_schema run) inp"
    and "checkpoint_files w (checkpoint_parts (k_job_id k) (checkpoint_id k)) = Some payload"
    and "decode_value (floats rig) c step payload = Value v" and "\<And>t. storage_faults rig t = Sound"
  shows "reusable_value rig run step inp c True (Some k) w = (Inr (Value v), tick (tick w))"
  using assms
  by (auto simp: reusable_value_def bind_def validate_checkpoint_def read_checkpoint_def return_def tick_def Let_def valid_checkpoint_def)

text \<open>A valid checkpoint takes the place of the action. When the latest checkpoint of a step is valid for its schema and
  input hash and decodes to a value, running the step with reuse runs no action and returns that value or raises,
  as long as nobody else writes to the store and reading the files does not fail.\<close>

theorem valid_checkpoint_replaces_action:
  assumes "latest_checkpoint jid step (w_store w) = Some k"
    and "valid_checkpoint rig (checkpoint_files w) k (checkpoint_schema run) inp"
    and "checkpoint_files w (checkpoint_parts (k_job_id k) (checkpoint_id k)) = Some payload"
    and "decode_value (floats rig) c step payload = Value v"
    and alone: "\<And>t. others rig t = []" and sound: "\<And>t. storage_faults rig t = Sound"
    and run: "run_step rig run jid step inp authority action c True resumed w = (res, w')"
  shows "actions w' = actions w \<and> (res = Inr v \<or> (\<exists>err. res = Inl err))"
proof -
  let ?rest = "then_do (if is_resumed_step resumed jid step
       then bind (transact (rig.truncate rig) (\<lambda>e. transition_attempt_under e (attempt_id (the resumed)) A_SUCCEEDED authority)) (\<lambda>_. return ())
       else return ())
      (then_do (heartbeat (rig.truncate rig) (scheduler_lease_ttl run) authority) (return v))"
  have rest: "step_run.keeps ?rest" by (intro steady_intros)
  from run show ?thesis
    unfolding run_step_def
  proof (cases rule: bind_elim)
    case (failed err)
    with step_run.keepsD [OF step_run.keeps_heartbeat, OF failed(1)] show ?thesis by (simp add: steady_def)
  next
    case (went_on u w1)
    have s1: "steady w w1" using step_run.keepsD [OF step_run.keeps_heartbeat, OF went_on(1)] .
    from lonely_heartbeat [OF went_on(1) alone] assms(1) have k: "latest_checkpoint jid step (w_store w1) = Some k"
      by (simp add: latest_checkpoint_def)
    from went_on(2) show ?thesis
    proof (cases rule: bind_elim)
      case (failed err)
      with step_run.keepsD [OF step_run.keeps_observe, OF failed(1)] s1 show ?thesis by (simp add: steady_def)
    next
      case (went_on existing w2)
      from lonely_observe [OF went_on(1) alone] k have "existing = Some k" by simp
      have "steady w w2" using s1 step_run.keepsD [OF step_run.keeps_observe, OF went_on(1)] by (rule steady_trans)
      then have "reusable_value rig run step inp c True (Some k) w2 = (Inr (Value v), tick (tick w2))"
        using assms(2-4) sound by (intro reused_value) (auto simp: steady_def)
      with went_on(2) \<open>existing = Some k\<close> have last: "?rest (tick (tick w2)) = (res, w')" by (simp add: bind_def)
      have "actions w' = actions w"
        using step_run.keepsD [OF rest, OF last] \<open>steady w w2\<close> by (simp add: steady_def tick_def)
      moreover have "res = Inr v \<or> (\<exists>err. res = Inl err)" using last by (auto elim!: bind_elim)
      ultimately show ?thesis by blast
    qed
  qed
qed

lemma valid_checkpoint_replaces_action_witness:
  "\<exists>w' res v'. run_demo_step False (get_attempt_row (w_store demo_step_world) ''attA'') demo_step_world = (Inr (), w') \<and> actions w' = 1
    \<and> run_demo_step True None w' = (res, v') \<and> actions v' = 1 \<and> (res = Inr () \<or> (\<exists>err. res = Inl err))"
proof (rule demo_step_run)
  fix w' k assume run: "run_demo_step False (get_attempt_row (w_store demo_step_world) ''attA'') demo_step_world = (Inr (), w')"
    and k: "latest_checkpoint ''jobA'' ''s'' (w_store w') = Some k" "valid_checkpoint demo_step_rig (checkpoint_files w') k ''c1'' ''in''"
      "checkpoint_files w' (checkpoint_parts (k_job_id k) (checkpoint_id k)) = Some (success_marker ''s'')" "actions w' = 1"
  obtain res v' where again: "run_demo_step True None w' = (res, v')" by fastforce
  have schema: "valid_checkpoint demo_step_rig (checkpoint_files w') k (checkpoint_schema demo_runner) ''in''"
    using k(2) by (simp add: demo_runner_def)
  have "decode_value (floats demo_step_rig) demo_codec ''s'' (success_marker ''s'') = Value ()"
    by (simp add: decode_value_def demo_codec_def marker_round_trip)
  from valid_checkpoint_replaces_action [OF k(1) schema k(3) this demo_steps_surroundings(1,3) again] run again k(4)
  show ?thesis by auto
qed

section \<open>Recovery plans\<close>

text \<open>In a store: the latest checkpoint of a step is there and valid.\<close>

definition resumable :: "step_rig \<Rightarrow> string \<Rightarrow> (string list \<Rightarrow> string option) \<Rightarrow> store \<Rightarrow> artifact_step \<Rightarrow> bool" where
  "resumable rig jid files s st \<longleftrightarrow> (case latest_checkpoint jid (checkpoint_step_id st) s of
     None \<Rightarrow> False | Some k \<Rightarrow> valid_checkpoint rig files k (s_schema_id st) (s_input_hash st))"

definition alone_and_sound :: "step_rig \<Rightarrow> bool" where
  "alone_and_sound rig \<longleftrightarrow> (\<forall>t. others rig t = [] \<and> storage_faults rig t = Sound)"

text \<open>The steps are cut where the first was found that cannot be reused.\<close>

definition cut_at_gap :: "step_rig \<Rightarrow> string \<Rightarrow> artifact_step list \<Rightarrow> step_world \<Rightarrow> step_world \<Rightarrow> nat \<Rightarrow> bool" where
  "cut_at_gap rig jid ds w w' n \<longleftrightarrow> n \<le> length ds
     \<and> (\<forall>i < n. \<exists>s. later (w_store w) s \<and> later s (w_store w') \<and> resumable rig jid (checkpoint_files w) s (ds ! i))
     \<and> (n < length ds \<longrightarrow> (\<exists>t. storage_faults rig t \<noteq> Sound)
          \<or> (\<exists>s. later (w_store w) s \<and> later s (w_store w') \<and> \<not> resumable rig jid (checkpoint_files w) s (ds ! n)))
     \<and> (alone_and_sound rig \<longrightarrow> n = length (takeWhile (resumable rig jid (checkpoint_files w) (w_store w)) ds))"

lemma observe_cases:
  assumes "observe (rig.truncate rig) (\<lambda>_ s. Inr (f s)) w = (res, w')"
  shows "steady w w' \<and> (case res of Inl err \<Rightarrow> \<exists>t e. fault rig t = Some e \<and> err = Failure e
    | Inr x \<Rightarrow> x = f (w_store w') \<and> ((\<forall>t. others rig t = []) \<longrightarrow> w_store w' = w_store w))"
  using step_run.keepsD [OF step_run.keeps_observe assms] assms
  by (auto simp: observe_def transact_def rig.defs Let_def tick_def split: option.splits)

text \<open>What one step of a plan adds to the cut of the steps after it.\<close>

lemma cut_here:
  assumes "steady w w'" and "st = hd ds" "ds \<noteq> []" and "alone_and_sound rig \<longrightarrow> w_store w' = w_store w"
    and "(\<exists>t. storage_faults rig t \<noteq> Sound) \<or> \<not> resumable rig jid (checkpoint_files w) (w_store w') st"
  shows "cut_at_gap rig jid ds w w' 0"
  using assms later_refl by (cases ds) (auto simp: cut_at_gap_def steady_def alone_and_sound_def)

lemma cut_later:
  assumes "steady w w1" and "steady w1 w'" and "resumable rig jid (checkpoint_files w) (w_store w1) st"
    and "alone_and_sound rig \<longrightarrow> w_store w1 = w_store w" and "cut_at_gap rig jid ds w1 w' n"
  shows "cut_at_gap rig jid (st # ds) w w' (Suc n)"
proof -
  have files: "checkpoint_files w1 = checkpoint_files w" and w1: "later (w_store w) (w_store w1)" "later (w_store w1) (w_store w')"
    using assms(1,2) by (simp_all add: steady_def)
  note rest = assms(5) [unfolded cut_at_gap_def files]
  have first: "\<exists>s. later (w_store w) s \<and> later s (w_store w') \<and> resumable rig jid (checkpoint_files w) s ((st # ds) ! i)" if "i < Suc n" for i
  proof (cases i)
    case 0
    then show ?thesis using w1 assms(3) by auto
  next
    case (Suc j)
    then show ?thesis using that rest later_trans [OF w1(1)] by fastforce
  qed
  have gap: "(\<exists>t. storage_faults rig t \<noteq> Sound)
      \<or> (\<exists>s. later (w_store w) s \<and> later s (w_store w') \<and> \<not> resumable rig jid (checkpoint_files w) s ((st # ds) ! Suc n))" if "n < length ds"
    using that rest later_trans [OF w1(1)] by auto
  have "alone_and_sound rig \<longrightarrow> Suc n = length (takeWhile (resumable rig jid (checkpoint_files w) (w_store w)) (st # ds))"
    using rest assms(3,4) by auto
  with first gap rest show ?thesis by (simp add: cut_at_gap_def)
qed

lemma plan_steps_cut:
  assumes "plan_steps rig jid acc ds w = (res, w')"
  shows "steady w w' \<and> (case res of
      Inl err \<Rightarrow> \<exists>t e. fault rig t = Some e \<and> err = Failure e
    | Inr plan \<Rightarrow> \<exists>n. cut_at_gap rig jid ds w w' n \<and> reusable_checkpoint_steps plan = acc @ map checkpoint_step_id (take n ds)
        \<and> pending_steps plan = map pending_step (drop n ds))"
  using assms
proof (induction ds arbitrary: acc w)
  case Nil
  have "cut_at_gap rig jid [] w w 0" "steady w w" by (simp_all add: cut_at_gap_def steady_def later_refl)
  with Nil show ?case by (auto simp: return_def)
next
  case (Cons st sts)
  obtain r w1 where look: "observe (rig.truncate rig) (\<lambda>_ s. Inr (latest_checkpoint jid (checkpoint_step_id st) s)) w = (r, w1)" by fastforce
  note seen = observe_cases [OF look]
  show ?case
  proof (cases r)
    case (Inl err)
    with Cons.prems look seen show ?thesis by (auto simp: bind_def)
  next
    case (Inr k)
    have k: "k = latest_checkpoint jid (checkpoint_step_id st) (w_store w1)" "steady w w1"
      and same: "alone_and_sound rig \<longrightarrow> w_store w1 = w_store w"
      using seen Inr by (simp_all add: alone_and_sound_def)
    obtain ok w2 where check: "(case k of None \<Rightarrow> return False | Some k \<Rightarrow> validate_checkpoint rig k (s_schema_id st) (s_input_hash st)) w1 = (Inr ok, w2)"
      by (cases k) (auto simp: return_def validate_checkpoint_def)
    have w2: "steady w1 w2" "w_store w2 = w_store w1"
      using check later_refl by (cases k; auto simp: return_def validate_checkpoint_def tick_def steady_def)+
    have files: "checkpoint_files w = checkpoint_files w1" using k(2) by (simp add: steady_def)
    have valid: "resumable rig jid (checkpoint_files w) (w_store w1) st
        \<longleftrightarrow> (case k of None \<Rightarrow> False | Some k \<Rightarrow> valid_checkpoint rig (checkpoint_files w1) k (s_schema_id st) (s_input_hash st))"
      unfolding resumable_def k(1) files ..
    have ok: "ok \<longrightarrow> resumable rig jid (checkpoint_files w) (w_store w1) st"
      "\<not> ok \<longrightarrow> (\<exists>t. storage_faults rig t \<noteq> Sound) \<or> \<not> resumable rig jid (checkpoint_files w) (w_store w1) st"
      unfolding valid using check by (cases k; auto simp: return_def validate_checkpoint_def)+
    note stead = steady_trans [OF k(2) w2(1)]
    show ?thesis
    proof (cases ok)
      case False
      with Cons.prems look Inr check have "res = Inr \<lparr>reusable_checkpoint_steps = acc, pending_steps = map pending_step (st # sts)\<rparr>" "w' = w2"
        by (simp_all add: bind_def return_def)
      moreover have "cut_at_gap rig jid (st # sts) w w2 0"
        using False ok(2) same w2(2) by (intro cut_here [OF stead]) auto
      ultimately show ?thesis using stead by (auto intro: exI [of _ 0])
    next
      case True
      with Cons.prems look Inr check have "plan_steps rig jid (acc @ [checkpoint_step_id st]) sts w2 = (res, w')"
        by (simp add: bind_def)
      note rest = Cons.IH [OF this]
      show ?thesis
      proof (cases res)
        case (Inl err)
        with rest steady_trans [OF stead] show ?thesis by simp
      next
        case (Inr plan)
        with rest obtain n where n: "cut_at_gap rig jid sts w2 w' n" "steady w2 w'"
          "reusable_checkpoint_steps plan = (acc @ [checkpoint_step_id st]) @ map checkpoint_step_id (take n sts)"
          "pending_steps plan = map pending_step (drop n sts)" by auto
        have "cut_at_gap rig jid (st # sts) w w' (Suc n)"
          using True ok(1) same w2(2) by (intro cut_later [OF stead n(2) _ _ n(1)]) auto
        with n steady_trans [OF stead n(2)] Inr show ?thesis by (auto intro!: exI [of _ "Suc n"])
      qed
    qed
  qed
qed

text \<open>C40: A recovery plan resumes at the first step without a valid checkpoint. Whatever the database, the files and other processes
  do, making a plan runs no action and changes no file, and it either ends with a refusal of the database or cuts the steps in two.
  The first are reused: each had, in a store between the beginning and the end of the planning, a latest checkpoint that is valid for
  its schema and input. The others are all pending, whether the later ones have checkpoints or not: the first of them had, in such a
  store, no latest checkpoint that is valid, unless the storage failed. When no other process writes meanwhile and the storage does
  not fail, the cut is exactly before the first step without a valid latest checkpoint in the store.\<close>

theorem recovery_resumes_at_first_gap:
  assumes "plan_remaining_steps rig jid ds w = (res, w')"
  shows "actions w' = actions w \<and> checkpoint_files w' = checkpoint_files w \<and> later (w_store w) (w_store w') \<and> (case res of
      Inl err \<Rightarrow> \<exists>t e. fault rig t = Some e \<and> err = Failure e
    | Inr plan \<Rightarrow> \<exists>n \<le> length ds. reusable_checkpoint_steps plan = map checkpoint_step_id (take n ds) \<and> pending_steps plan = map pending_step (drop n ds)
        \<and> (\<forall>i < n. \<exists>s. later (w_store w) s \<and> later s (w_store w') \<and> resumable rig jid (checkpoint_files w) s (ds ! i))
        \<and> (n < length ds \<longrightarrow> (\<exists>t. storage_faults rig t \<noteq> Sound)
             \<or> (\<exists>s. later (w_store w) s \<and> later s (w_store w') \<and> \<not> resumable rig jid (checkpoint_files w) s (ds ! n)))
        \<and> ((\<forall>t. others rig t = [] \<and> storage_faults rig t = Sound)
             \<longrightarrow> n = length (takeWhile (resumable rig jid (checkpoint_files w) (w_store w)) ds)))"
  using plan_steps_cut [OF assms [unfolded plan_remaining_steps_def]]
  by (cases res) (auto simp: steady_def cut_at_gap_def alone_and_sound_def)

text \<open>After the step \<open>s\<close> ran, a plan of three steps of which only it has a checkpoint: it is reused, the others are pending.\<close>

definition demo_steps :: "artifact_step list" where
  "demo_steps = [\<lparr>checkpoint_step_id = ''s'', pending_step = ''do-s'', s_schema_id = ''c1'', s_input_hash = ''in''\<rparr>,
     \<lparr>checkpoint_step_id = ''t'', pending_step = ''do-t'', s_schema_id = ''c1'', s_input_hash = ''in''\<rparr>,
     \<lparr>checkpoint_step_id = ''s'', pending_step = ''do-u'', s_schema_id = ''c1'', s_input_hash = ''in''\<rparr>]"

lemma demo_no_other_step: "case run_demo_step False (get_attempt_row (w_store demo_step_world) ''attA'') demo_step_world of
    (_, w') \<Rightarrow> latest_checkpoint ''jobA'' ''t'' (w_store w') = None"
  by code_simp

lemma recovery_resumes_at_first_gap_witness:
  "\<exists>w w'. run_demo_step False (get_attempt_row (w_store demo_step_world) ''attA'') demo_step_world = (Inr (), w)
    \<and> plan_remaining_steps demo_step_rig ''jobA'' demo_steps w
        = (Inr \<lparr>reusable_checkpoint_steps = [''s''], pending_steps = [''do-t'', ''do-u'']\<rparr>, w')"
proof (rule demo_step_run)
  fix w k assume run: "run_demo_step False (get_attempt_row (w_store demo_step_world) ''attA'') demo_step_world = (Inr (), w)"
    and k: "latest_checkpoint ''jobA'' ''s'' (w_store w) = Some k" "valid_checkpoint demo_step_rig (checkpoint_files w) k ''c1'' ''in''"
  have none: "latest_checkpoint ''jobA'' ''t'' (w_store w) = None" using demo_no_other_step run by simp
  obtain res w' where plan: "plan_remaining_steps demo_step_rig ''jobA'' demo_steps w = (res, w')" by fastforce
  note found = recovery_resumes_at_first_gap [OF plan]
  then obtain p where res: "res = Inr p" using demo_steps_surroundings(2) by (cases res) auto
  have "takeWhile (resumable demo_step_rig ''jobA'' (checkpoint_files w) (w_store w)) demo_steps = [hd demo_steps]"
    using k none by (simp add: demo_steps_def resumable_def)
  then have "reusable_checkpoint_steps p = map checkpoint_step_id (take 1 demo_steps) \<and> pending_steps p = map pending_step (drop 1 demo_steps)"
    using found demo_steps_surroundings(1,3) unfolding res sum.case by fastforce
  then have "p = \<lparr>reusable_checkpoint_steps = [''s''], pending_steps = [''do-t'', ''do-u'']\<rparr>" by (simp add: demo_steps_def)
  with run plan res show ?thesis by blast
qed

end
