(* ===== verification/EngineContracts.thy ===== *)
theory EngineContracts
  imports TypedIds MachineLease JsonRoundTrip
begin

text \<open>
  The messages of the engine (\<open>engine/contracts.py\<close>): the descriptor a running engine publishes, the requests and
  responses of its protocol, and the launch a worker process reads from its input. A message is bytes, the UTF-8 form of a
  JSON object without repeated keys; a refusal is the code of an \<open>EngineProtocolError\<close>. Code points beyond the range of
  the model's texts read as no text.
\<close>

section \<open>Bytes\<close>

definition utf8_char :: "char \<Rightarrow> string" where
  "utf8_char c = (let n = of_char c :: nat in if n < 128 then [c] else [char_of (192 + n div 64), char_of (128 + n mod 64)])"

definition utf8_encode :: "string \<Rightarrow> string" where
  "utf8_encode s = concat (map utf8_char s)"

fun utf8_decode :: "string \<Rightarrow> string option" where
  "utf8_decode [] = Some []"
| "utf8_decode (b # bs) =
    (let n = of_char b :: nat in
     if n < 128 then map_option ((#) b) (utf8_decode bs)
     else if n = 194 \<or> n = 195 then
       (case bs of
          [] \<Rightarrow> None
        | c # cs \<Rightarrow> let k = of_char c :: nat in
            if 128 \<le> k \<and> k < 192 then map_option ((#) (char_of (64 * (n - 192) + (k - 128)))) (utf8_decode cs) else None)
     else None)"

type_synonym 'a protocol = "string + 'a"

abbreviation protocol_invalid :: "'a protocol" where
  "protocol_invalid \<equiv> Inl ''engine_protocol_invalid''"

definition ENGINE_PROTOCOL_VERSION :: int where
  "ENGINE_PROTOCOL_VERSION = 2"

definition MAX_DESCRIPTOR_BYTES :: nat where
  "MAX_DESCRIPTOR_BYTES = 16 * 1024"

definition MAX_FRAME_BYTES :: nat where
  "MAX_FRAME_BYTES = 1024 * 1024"

definition MAX_JOB_NOTIFY_BYTES :: nat where
  "MAX_JOB_NOTIFY_BYTES = 4 * 1024"

definition MAX_WORKER_LAUNCH_BYTES :: nat where
  "MAX_WORKER_LAUNCH_BYTES = 4 * 1024"

definition decode_object :: "(string \<Rightarrow> string option) \<Rightarrow> nat \<Rightarrow> string \<Rightarrow> (string \<times> json) list protocol" where
  "decode_object fr maximum payload =
    (if payload = [] \<or> maximum < length payload then protocol_invalid
     else case utf8_decode payload of
            None \<Rightarrow> protocol_invalid
          | Some t \<Rightarrow> (case loads_with unique_keys fr t of Some (JObj kvs) \<Rightarrow> Inr kvs | _ \<Rightarrow> protocol_invalid))"

definition canonical_bytes :: "(string \<times> json) list \<Rightarrow> bool \<Rightarrow> string" where
  "canonical_bytes kvs newline = utf8_encode (dumps (JObj kvs)) @ (if newline then [CHR 0x0A] else [])"

text \<open>The keys of an object, and its values, once the keys are known.\<close>

definition has_keys :: "(string \<times> json) list \<Rightarrow> string list \<Rightarrow> bool" where
  "has_keys kvs ks \<longleftrightarrow> set (map fst kvs) = set ks"

definition the_field :: "(string \<times> json) list \<Rightarrow> string \<Rightarrow> json" where
  "the_field kvs k = (case map_of kvs k of None \<Rightarrow> JNull | Some v \<Rightarrow> v)"

definition short_string :: "nat \<Rightarrow> json \<Rightarrow> string protocol" where
  "short_string maximum v = (case v of JStr s \<Rightarrow> if s = [] \<or> maximum < length s then protocol_invalid else Inr s | _ \<Rightarrow> protocol_invalid)"

text \<open>\<open>[A-Za-z0-9_-]{43}\<close>; 43 such characters and a padding always decode to 32 bytes.\<close>

definition nonce_of :: "json \<Rightarrow> string protocol" where
  "nonce_of v = andthen (short_string 43 v) (\<lambda>s. if length s = 43 \<and> list_all nonce_char s then Inr s else protocol_invalid)"

section \<open>References to jobs\<close>

record engine_job_reference =
  workspace_instance_id :: string
  ref_job_id :: string

definition engine_job_reference_valid :: "engine_job_reference \<Rightarrow> bool" where
  "engine_job_reference_valid r \<longleftrightarrow> length (workspace_instance_id r) = 32 \<and> list_all hex_digit (workspace_instance_id r)
     \<and> is_typed_uuid7 (ref_job_id r) ''job''"

definition reference_of :: "json \<Rightarrow> json \<Rightarrow> engine_job_reference protocol" where
  "reference_of i j =
    (case (i, j) of
       (JStr instance_id, JStr jid) \<Rightarrow>
         let r = \<lparr>workspace_instance_id = instance_id, ref_job_id = jid\<rparr> in
         if engine_job_reference_valid r then Inr r else Inl ''engine_job_reference_invalid''
     | _ \<Rightarrow> Inl ''engine_job_reference_invalid'')"

definition reference_fields :: "engine_job_reference \<Rightarrow> (string \<times> json) list" where
  "reference_fields r = [(''workspace_instance_id'', JStr (workspace_instance_id r)), (''job_id'', JStr (ref_job_id r))]"

section \<open>Launches of workers\<close>

record engine_worker_launch =
  launch_version :: int
  l_reference :: engine_job_reference
  l_handoff :: resource_handoff
  l_authority :: job_execution_authority

text \<open>\<open>EngineWorkerLaunchV1.__post_init__\<close>; its parts have been checked by their own constructors.\<close>

definition launch_consistent :: "engine_worker_launch \<Rightarrow> bool" where
  "launch_consistent l \<longleftrightarrow> launch_version l = 1 \<and> x_job_id (l_authority l) = ref_job_id (l_reference l)
     \<and> owner_id (l_authority l) = process_instance_id (h_owner (l_handoff l))"

definition launch_valid :: "engine_worker_launch \<Rightarrow> bool" where
  "launch_valid l \<longleftrightarrow> engine_job_reference_valid (l_reference l) \<and> resource_handoff_valid (l_handoff l)
     \<and> owner_id_valid (owner_id (l_authority l)) \<and> 1 \<le> fencing_token (l_authority l) \<and> \<not> blank (x_job_id (l_authority l))
     \<and> launch_consistent l"

abbreviation launch_invalid :: "'a protocol" where
  "launch_invalid \<equiv> Inl ''engine_worker_launch_invalid''"

definition owner_fields :: "resource_owner \<Rightarrow> (string \<times> json) list" where
  "owner_fields w = [(''workspace_identity'', JStr (workspace_identity w)), (''process_instance_id'', JStr (process_instance_id w)),
     (''process_id'', case process_id w of None \<Rightarrow> JNull | Some n \<Rightarrow> JInt n)]"

definition handoff_fields :: "resource_handoff \<Rightarrow> (string \<times> json) list" where
  "handoff_fields h = [(''handoff_version'', JInt (handoff_version h)), (''resource_name'', JStr (h_resource h)),
     (''owner'', JObj (owner_fields (h_owner h))), (''fencing_token'', JInt (int (h_token h))),
     (''expires_at_ms'', JInt (h_expires_at h)), (''nonce'', JStr (nonce h))]"

definition authority_fields :: "job_execution_authority \<Rightarrow> (string \<times> json) list" where
  "authority_fields a = [(''job_id'', JStr (x_job_id a)), (''owner_id'', JStr (owner_id a)), (''fencing_token'', JInt (int (fencing_token a)))]"

definition launch_fields :: "engine_worker_launch \<Rightarrow> (string \<times> json) list" where
  "launch_fields l =
    [(''launch_version'', JInt (launch_version l)), (''reference'', JObj (reference_fields (l_reference l))),
     (''resource_handoff'', JObj (handoff_fields (l_handoff l))), (''job_authority'', JObj (authority_fields (l_authority l)))]"

definition launch_to_bytes :: "engine_worker_launch \<Rightarrow> string protocol" where
  "launch_to_bytes l = (let payload = canonical_bytes (launch_fields l) True in
     if MAX_WORKER_LAUNCH_BYTES < length payload then launch_invalid else Inr payload)"

text \<open>
  The constructors of the parts, applied to the values of a message: \<open>None\<close> stands for the \<open>DomainError\<close> they raise
  when a value has the wrong type or is refused.
\<close>

definition owner_of_json :: "(string \<times> json) list \<Rightarrow> resource_owner option" where
  "owner_of_json kvs =
    (case (the_field kvs ''workspace_identity'', the_field kvs ''process_instance_id'', the_field kvs ''process_id'') of
       (JStr w, JStr p, JNull) \<Rightarrow> let q = \<lparr>workspace_identity = w, process_instance_id = p, process_id = None\<rparr> in
         if resource_owner_valid q then Some q else None
     | (JStr w, JStr p, JInt n) \<Rightarrow> let q = \<lparr>workspace_identity = w, process_instance_id = p, process_id = Some n\<rparr> in
         if resource_owner_valid q then Some q else None
     | _ \<Rightarrow> None)"

definition handoff_of_json :: "(string \<times> json) list \<Rightarrow> resource_owner \<Rightarrow> resource_handoff option" where
  "handoff_of_json kvs w =
    (case (the_field kvs ''handoff_version'', the_field kvs ''resource_name'', the_field kvs ''fencing_token'',
           the_field kvs ''expires_at_ms'', the_field kvs ''nonce'') of
       (JInt v, JStr name, JInt token, JInt expires, JStr secret) \<Rightarrow>
         let h = \<lparr>handoff_version = v, h_resource = name, h_owner = w, h_token = nat token, h_expires_at = expires, nonce = secret\<rparr> in
         if 1 \<le> token \<and> resource_handoff_valid h then Some h else None
     | _ \<Rightarrow> None)"

definition authority_of_json :: "(string \<times> json) list \<Rightarrow> job_execution_authority option" where
  "authority_of_json kvs =
    (case (the_field kvs ''owner_id'', the_field kvs ''fencing_token'', the_field kvs ''job_id'') of
       (JStr owner, JInt token, JStr jid) \<Rightarrow>
         (case job_execution_authority owner (nat token) jid of Inl _ \<Rightarrow> None | Inr a \<Rightarrow> Some a)
     | _ \<Rightarrow> None)"

definition launch_require :: "bool \<Rightarrow> unit protocol" where
  "launch_require ok = (if ok then Inr () else launch_invalid)"

definition launch_dict :: "json \<Rightarrow> (string \<times> json) list protocol" where
  "launch_dict v = (case v of JObj kvs \<Rightarrow> Inr kvs | _ \<Rightarrow> launch_invalid)"

definition launch_part :: "'a option \<Rightarrow> 'a protocol" where
  "launch_part x = (case x of None \<Rightarrow> launch_invalid | Some a \<Rightarrow> Inr a)"

definition launch_from_bytes :: "(string \<Rightarrow> string option) \<Rightarrow> string \<Rightarrow> engine_worker_launch protocol" where
  "launch_from_bytes fr payload =
     andthen (decode_object fr MAX_WORKER_LAUNCH_BYTES payload) (\<lambda>kvs.
     andthen (launch_require (has_keys kvs [''launch_version'', ''reference'', ''resource_handoff'', ''job_authority''])) (\<lambda>_.
     andthen (launch_dict (the_field kvs ''reference'')) (\<lambda>r.
     andthen (launch_require (has_keys r [''workspace_instance_id'', ''job_id''])) (\<lambda>_.
     andthen (launch_dict (the_field kvs ''resource_handoff'')) (\<lambda>h.
     andthen (launch_require
       (has_keys h [''handoff_version'', ''resource_name'', ''owner'', ''fencing_token'', ''expires_at_ms'', ''nonce''])) (\<lambda>_.
     andthen (launch_dict (the_field kvs ''job_authority'')) (\<lambda>a.
     andthen (launch_require (has_keys a [''job_id'', ''owner_id'', ''fencing_token''])) (\<lambda>_.
     andthen (launch_dict (the_field h ''owner'')) (\<lambda>w.
     andthen (launch_require (has_keys w [''workspace_identity'', ''process_instance_id'', ''process_id''])) (\<lambda>_.
     andthen (reference_of (the_field r ''workspace_instance_id'') (the_field r ''job_id'')) (\<lambda>ref.
     andthen (launch_part (owner_of_json w)) (\<lambda>owner.
     andthen (launch_part (handoff_of_json h owner)) (\<lambda>handoff.
     andthen (launch_part (authority_of_json a)) (\<lambda>auth.
     andthen (launch_part (case the_field kvs ''launch_version'' of JInt v \<Rightarrow> Some v | _ \<Rightarrow> None)) (\<lambda>v.
     let l = \<lparr>launch_version = v, l_reference = ref, l_handoff = handoff, l_authority = auth\<rparr> in
     andthen (launch_require (launch_consistent l)) (\<lambda>_.
     andthen (launch_to_bytes l) (\<lambda>canonical.
     andthen (launch_require (canonical = payload)) (\<lambda>_. Inr l))))))))))))))))))"

section \<open>Requests\<close>

record engine_request =
  request_id :: string
  r_method :: string
  r_nonce :: string
  params :: "(string \<times> json) list"

definition LIFECYCLE_METHODS :: "string list" where
  "LIFECYCLE_METHODS = [''hello'', ''health'', ''shutdown'']"

text \<open>\<open>EngineRequest.__post_init__\<close>. A list or a dictionary for a method is a \<open>TypeError\<close>, which the decoder reports.\<close>

definition make_request :: "json \<Rightarrow> json \<Rightarrow> json \<Rightarrow> json \<Rightarrow> json \<Rightarrow> engine_request protocol" where
  "make_request version rid method secret parameters =
    (if version \<noteq> JInt ENGINE_PROTOCOL_VERSION then Inl ''engine_protocol_incompatible''
     else andthen (short_string 128 rid) (\<lambda>i.
       case method of
         JList _ \<Rightarrow> protocol_invalid
       | JObj _ \<Rightarrow> protocol_invalid
       | JStr mth \<Rightarrow>
           if \<not> List.member (''job.notify'' # LIFECYCLE_METHODS) mth then Inl ''engine_method_unsupported''
           else andthen (nonce_of secret) (\<lambda>n.
             case parameters of
               JObj ps \<Rightarrow>
                 let q = \<lparr>request_id = i, r_method = mth, r_nonce = n, params = ps\<rparr> in
                 if List.member LIFECYCLE_METHODS mth then (if ps \<noteq> [] then protocol_invalid else Inr q)
                 else if \<not> has_keys ps [''workspace_instance_id'', ''job_id''] then Inl ''engine_job_reference_invalid''
                 else andthen (reference_of (the_field ps ''workspace_instance_id'') (the_field ps ''job_id'')) (\<lambda>_. Inr q)
             | _ \<Rightarrow> protocol_invalid)
       | _ \<Rightarrow> Inl ''engine_method_unsupported''))"

definition job_reference :: "engine_request \<Rightarrow> engine_job_reference protocol option" where
  "job_reference q = (if r_method q \<noteq> ''job.notify'' then None
     else Some (reference_of (the_field (params q) ''workspace_instance_id'') (the_field (params q) ''job_id'')))"

definition request_fields :: "engine_request \<Rightarrow> (string \<times> json) list" where
  "request_fields q = [(''engine_protocol_version'', JInt ENGINE_PROTOCOL_VERSION), (''request_id'', JStr (request_id q)),
     (''method'', JStr (r_method q)), (''nonce'', JStr (r_nonce q)), (''params'', JObj (params q))]"

definition encode_request :: "string \<Rightarrow> string \<Rightarrow> string \<Rightarrow> (string \<times> json) list \<Rightarrow> string protocol" where
  "encode_request rid method secret parameters =
     andthen (make_request (JInt ENGINE_PROTOCOL_VERSION) (JStr rid) (JStr method) (JStr secret) (JObj parameters)) (\<lambda>q.
     let payload = canonical_bytes (request_fields q) False in
     if MAX_FRAME_BYTES < length payload then protocol_invalid
     else if method = ''job.notify'' \<and> MAX_JOB_NOTIFY_BYTES < length payload then protocol_invalid
     else Inr payload)"

definition decode_request :: "(string \<Rightarrow> string option) \<Rightarrow> string \<Rightarrow> engine_request protocol" where
  "decode_request fr payload =
     andthen (decode_object fr MAX_FRAME_BYTES payload) (\<lambda>kvs.
     if \<not> has_keys kvs [''engine_protocol_version'', ''request_id'', ''method'', ''nonce'', ''params''] then protocol_invalid
     else andthen (make_request (the_field kvs ''engine_protocol_version'') (the_field kvs ''request_id'') (the_field kvs ''method'')
         (the_field kvs ''nonce'') (the_field kvs ''params'')) (\<lambda>q.
       if r_method q = ''job.notify'' \<and> MAX_JOB_NOTIFY_BYTES < length payload then protocol_invalid else Inr q))"

section \<open>Responses\<close>

definition is_error_object :: "(string \<times> json) list \<Rightarrow> bool" where
  "is_error_object kvs \<longleftrightarrow> has_keys kvs [''code''] \<and> short_string 128 (the_field kvs ''code'') \<noteq> protocol_invalid"

definition response_fields :: "string \<Rightarrow> json \<Rightarrow> json \<Rightarrow> json \<Rightarrow> (string \<times> json) list" where
  "response_fields rid ok result_data err = [(''engine_protocol_version'', JInt ENGINE_PROTOCOL_VERSION), (''request_id'', JStr rid),
     (''ok'', ok), (''data'', result_data), (''error'', err)]"

definition encode_response ::
    "string \<Rightarrow> (string \<times> json) list option \<Rightarrow> (string \<times> json) list option \<Rightarrow> string protocol" where
  "encode_response rid result_data err =
     andthen (short_string 128 (JStr rid)) (\<lambda>_.
     if (result_data = None) = (err = None) then protocol_invalid
     else if (case err of None \<Rightarrow> False | Some kvs \<Rightarrow> \<not> is_error_object kvs) then protocol_invalid
     else let payload = canonical_bytes (response_fields rid (JBool (err = None))
             (case result_data of None \<Rightarrow> JNull | Some kvs \<Rightarrow> JObj kvs) (case err of None \<Rightarrow> JNull | Some kvs \<Rightarrow> JObj kvs)) False
          in if MAX_FRAME_BYTES < length payload then protocol_invalid else Inr payload)"

definition decode_response :: "(string \<Rightarrow> string option) \<Rightarrow> string \<Rightarrow> string \<Rightarrow> (string \<times> json) list protocol" where
  "decode_response fr payload rid =
     andthen (decode_object fr MAX_FRAME_BYTES payload) (\<lambda>kvs.
     if \<not> has_keys kvs [''engine_protocol_version'', ''request_id'', ''ok'', ''data'', ''error''] then protocol_invalid
     else if the_field kvs ''engine_protocol_version'' \<noteq> JInt ENGINE_PROTOCOL_VERSION then Inl ''engine_protocol_incompatible''
     else if the_field kvs ''request_id'' \<noteq> JStr rid then protocol_invalid
     else case (the_field kvs ''ok'', the_field kvs ''data'', the_field kvs ''error'') of
       (JBool True, JObj _, JNull) \<Rightarrow> Inr kvs
     | (JBool False, JNull, JObj err) \<Rightarrow> if is_error_object err then Inr kvs else protocol_invalid
     | _ \<Rightarrow> protocol_invalid)"

section \<open>Descriptors\<close>

text \<open>
  \<open>UUID(text)\<close> for one text: \<open>urn:\<close> and \<open>uuid:\<close> are removed anywhere, braces at the ends, all dashes; 32 characters must
  remain, and \<open>int(_, 16)\<close> must accept them as a number that is not negative.
\<close>

function remove_all :: "string \<Rightarrow> string \<Rightarrow> string" where
  "remove_all p s = (if p = [] \<or> s = [] then s else if take (length p) s = p then remove_all p (drop (length p) s) else hd s # remove_all p (tl s))"
  by pat_completeness auto
termination by (relation "measure (\<lambda>(p, s). length s)") auto

declare remove_all.simps [simp del]

definition strip_with :: "(char \<Rightarrow> bool) \<Rightarrow> string \<Rightarrow> string" where
  "strip_with p s = rev (dropWhile p (rev (dropWhile p s)))"

definition hex_digit_any :: "char \<Rightarrow> bool" where
  "hex_digit_any c \<longleftrightarrow> hex_digit c \<or> c \<in> set ''ABCDEF''"

text \<open>Hexadecimal digits with single underscores between them; one may stand before the first when \<open>gap\<close> is set.\<close>

fun hex_digits :: "bool \<Rightarrow> string \<Rightarrow> bool" where
  "hex_digits gap [] = False"
| "hex_digits gap (c # cs) =
    (if c = CHR ''_'' then gap \<and> hex_digits False cs else hex_digit_any c \<and> (cs = [] \<or> hex_digits True cs))"

definition unsigned_hex :: "string \<Rightarrow> bool" where
  "unsigned_hex s = (if take 2 s = ''0x'' \<or> take 2 s = ''0X'' then hex_digits True (drop 2 s) else hex_digits False s)"

definition natural_hex :: "string \<Rightarrow> bool" where
  "natural_hex s = (case strip_with py_space s of
     [] \<Rightarrow> False
   | c # cs \<Rightarrow> if c = CHR ''+'' then unsigned_hex cs
               else if c = CHR ''-'' then unsigned_hex cs \<and> list_all (\<lambda>d. d \<in> set ''0_xX'') cs else unsigned_hex (c # cs))"

definition uuid_parses :: "string \<Rightarrow> bool" where
  "uuid_parses s = (let h = filter (\<lambda>c. c \<noteq> CHR ''-'') (strip_with (\<lambda>c. c \<in> set ''{}'') (remove_all ''uuid:'' (remove_all ''urn:'' s)))
     in length h = 32 \<and> natural_hex h)"

record engine_descriptor =
  scope_id :: string
  engine_id :: string
  pid :: int
  process_start_identity :: string
  endpoint_kind :: string
  endpoint_name :: string
  d_nonce :: string
  started_at :: string

text \<open>
  The argument \<open>zoned\<close> tells the texts \<open>datetime.fromisoformat\<close> reads as a time with a zone, after \<open>Z\<close> has become \<open>+00:00\<close>.
\<close>

definition zone_text :: "string \<Rightarrow> string" where
  "zone_text s = concat (map (\<lambda>c. if c = CHR ''Z'' then ''+00:00'' else [c]) s)"

definition make_descriptor :: "(string \<Rightarrow> bool) \<Rightarrow> (string \<times> json) list \<Rightarrow> engine_descriptor protocol" where
  "make_descriptor zoned kvs =
    (if the_field kvs ''descriptor_version'' \<noteq> JInt 1 then protocol_invalid
     else if the_field kvs ''engine_protocol_version'' \<noteq> JInt ENGINE_PROTOCOL_VERSION \<or> the_field kvs ''runtime_major'' \<noteq> JInt 0
       then Inl ''engine_protocol_incompatible''
     else case (the_field kvs ''scope_id'', the_field kvs ''pid'', the_field kvs ''endpoint_kind'') of
       (JStr scope, JInt n, JStr kind) \<Rightarrow>
         if length scope \<noteq> 64 \<or> \<not> list_all hex_digit scope then protocol_invalid
         else andthen (short_string 64 (the_field kvs ''engine_id'')) (\<lambda>eid.
         if \<not> uuid_parses eid \<or> n \<le> 0 then protocol_invalid
         else andthen (short_string 128 (the_field kvs ''process_start_identity'')) (\<lambda>start.
         if \<not> List.member [''windows-named-pipe'', ''unix-domain-socket''] kind then protocol_invalid
         else andthen (short_string 512 (the_field kvs ''endpoint_name'')) (\<lambda>name.
         andthen (nonce_of (the_field kvs ''nonce'')) (\<lambda>secret.
         andthen (short_string 64 (the_field kvs ''started_at'')) (\<lambda>t.
         if \<not> zoned (zone_text t) then protocol_invalid
         else Inr \<lparr>scope_id = scope, engine_id = eid, pid = n, process_start_identity = start, endpoint_kind = kind,
                   endpoint_name = name, d_nonce = secret, started_at = t\<rparr>)))))
     | _ \<Rightarrow> protocol_invalid)"

definition descriptor_fields :: "engine_descriptor \<Rightarrow> (string \<times> json) list" where
  "descriptor_fields d =
    [(''descriptor_version'', JInt 1), (''engine_protocol_version'', JInt ENGINE_PROTOCOL_VERSION), (''runtime_major'', JInt 0),
     (''scope_id'', JStr (scope_id d)), (''engine_id'', JStr (engine_id d)), (''pid'', JInt (pid d)),
     (''process_start_identity'', JStr (process_start_identity d)), (''endpoint_kind'', JStr (endpoint_kind d)),
     (''endpoint_name'', JStr (endpoint_name d)), (''nonce'', JStr (d_nonce d)), (''started_at'', JStr (started_at d))]"

definition descriptor_to_bytes :: "engine_descriptor \<Rightarrow> string" where
  "descriptor_to_bytes d = canonical_bytes (descriptor_fields d) True"

definition descriptor_from_bytes :: "(string \<Rightarrow> string option) \<Rightarrow> (string \<Rightarrow> bool) \<Rightarrow> string \<Rightarrow> engine_descriptor protocol" where
  "descriptor_from_bytes fr zoned payload =
     andthen (decode_object fr MAX_DESCRIPTOR_BYTES payload) (\<lambda>kvs.
     if \<not> has_keys kvs (map fst (descriptor_fields \<lparr>scope_id = [], engine_id = [], pid = 0, process_start_identity = [],
          endpoint_kind = [], endpoint_name = [], d_nonce = [], started_at = []\<rparr>)) then protocol_invalid
     else make_descriptor zoned kvs)"

end
