(* ===== verification/ContractProperties.thy ===== *)
theory ContractProperties
  imports EngineContracts "HOL-Library.Code_Target_Nat"
begin

text \<open>
  The messages of the engine read back as they were written, and a worker's launch has exactly one encoding.
\<close>

section \<open>Bytes and text\<close>

lemma utf8_decode_char: "utf8_decode (utf8_char c @ bs) = map_option ((#) c) (utf8_decode bs)"
proof -
  define n where "n = (of_char c :: nat)"
  have n: "n < 256" "c = char_of n" by (simp_all add: n_def)
  show ?thesis
  proof (cases "n < 128")
    case True
    then show ?thesis by (simp add: utf8_char_def Let_def flip: n_def)
  next
    case False
    have "n div 64 < 4" using n(1) by (simp add: less_mult_imp_div_less)
    moreover have "2 \<le> n div 64" using False by presburger
    ultimately have q: "n div 64 = 2 \<or> n div 64 = 3" by linarith
    have k: "n mod 64 < 64" by simp
    have "(of_char (char_of (192 + n div 64)) :: nat) = 192 + n div 64" "(of_char (char_of (128 + n mod 64)) :: nat) = 128 + n mod 64"
      using q k by auto
    moreover have "64 * (n div 64) + n mod 64 = n" by simp
    ultimately show ?thesis using False q k n(2) by (auto simp: utf8_char_def Let_def simp flip: n_def)
  qed
qed

lemma utf8_decode_encode: "utf8_decode (utf8_encode s) = Some s"
  by (induction s) (simp_all add: utf8_encode_def utf8_decode_char)

lemma utf8_decode_line: "utf8_decode (utf8_encode s @ [CHR 0x0A]) = Some (s @ [CHR 0x0A])"
proof -
  have "utf8_encode s @ [CHR 0x0A] = utf8_encode (s @ [CHR 0x0A])" by (simp add: utf8_encode_def utf8_char_def)
  then show ?thesis by (simp only: utf8_decode_encode)
qed

section \<open>Objects\<close>

text \<open>Reading back sorts the keys, which neither the set of keys nor the values under them notice.\<close>

definition sorted_fields :: "(string \<times> json) list \<Rightarrow> (string \<times> json) list" where
  "sorted_fields kvs = sort_key fst (map (\<lambda>(k, v). (k, sort_keys v)) kvs)"

lemma sort_keys_object: "sort_keys (JObj kvs) = JObj (sorted_fields kvs)"
  by (simp add: sorted_fields_def)

lemma has_keys_sorted: "has_keys (sorted_fields kvs) ks = has_keys kvs ks"
  by (simp add: has_keys_def sorted_fields_def image_image case_prod_beta)

lemma has_keys_Cons: "has_keys ((k, v) # kvs) ks \<longleftrightarrow> insert k (fst ` set kvs) = set ks"
  by (simp add: has_keys_def)

lemma map_of_same_set:
  "set xs = set ys \<Longrightarrow> distinct (map fst xs) \<Longrightarrow> distinct (map fst ys) \<Longrightarrow> map_of xs = map_of ys"
  by (metis map_of_inject_set)

lemma map_of_map_values: "map_of (map (\<lambda>(k, v). (k, f v)) kvs) k = map_option f (map_of kvs k)"
  by (induction kvs) auto

lemma the_field_sorted: "distinct (map fst kvs) \<Longrightarrow> the_field (sorted_fields kvs) k = sort_keys (the_field kvs k)"
proof -
  assume distinct: "distinct (map fst kvs)"
  let ?kvs = "map (\<lambda>(k, v). (k, sort_keys v)) kvs"
  have "distinct (map fst ?kvs)" using distinct by (simp add: comp_def case_prod_beta)
  then have "map_of (sort_key fst ?kvs) = map_of ?kvs" by (intro map_of_same_set) (simp_all add: distinct_sort_key)
  then show ?thesis by (simp add: the_field_def sorted_fields_def map_of_map_values split: option.split)
qed

lemma the_field_simps: "the_field [] k = JNull" "the_field ((k', v) # kvs) k = (if k' = k then v else the_field kvs k)"
  by (simp_all add: the_field_def)

lemma decode_canonical:
  assumes "json_exact (JObj kvs)" and "length (canonical_bytes kvs newline) \<le> maximum"
  shows "decode_object fr maximum (canonical_bytes kvs newline) = Inr (sorted_fields kvs)"
proof -
  have "dumps (JObj kvs) \<noteq> []" by simp
  then have "canonical_bytes kvs newline \<noteq> []" by (auto simp: canonical_bytes_def utf8_encode_def utf8_char_def Let_def)
  with assms(2) strict_loads_dumps [OF assms(1), of fr] show ?thesis
    by (auto simp: decode_object_def canonical_bytes_def utf8_decode_encode utf8_decode_line sort_keys_object
        simp del: dumps_with.simps sort_keys.simps)
qed

section \<open>Launches\<close>

lemma fields_distinct: "distinct (map fst (reference_fields r))" "distinct (map fst (owner_fields w))" "distinct (map fst (handoff_fields h))"
  "distinct (map fst (authority_fields a))" "distinct (map fst (launch_fields l))"
  by (simp_all add: reference_fields_def owner_fields_def handoff_fields_def authority_fields_def launch_fields_def)

lemma fields_exact: "json_exact (JObj (launch_fields l))"
  by (simp add: launch_fields_def reference_fields_def owner_fields_def handoff_fields_def authority_fields_def split: option.split)

lemma fields_keys: "has_keys (reference_fields r) [''workspace_instance_id'', ''job_id'']"
  "has_keys (owner_fields w) [''workspace_identity'', ''process_instance_id'', ''process_id'']"
  "has_keys (handoff_fields h) [''handoff_version'', ''resource_name'', ''owner'', ''fencing_token'', ''expires_at_ms'', ''nonce'']"
  "has_keys (authority_fields a) [''job_id'', ''owner_id'', ''fencing_token'']"
  "has_keys (launch_fields l) [''launch_version'', ''reference'', ''resource_handoff'', ''job_authority'']"
  by (simp_all add: has_keys_def reference_fields_def owner_fields_def handoff_fields_def authority_fields_def launch_fields_def)

lemma fields_of_launch: "the_field (launch_fields l) ''launch_version'' = JInt (launch_version l)"
  "the_field (launch_fields l) ''reference'' = JObj (reference_fields (l_reference l))"
  "the_field (launch_fields l) ''resource_handoff'' = JObj (handoff_fields (l_handoff l))"
  "the_field (launch_fields l) ''job_authority'' = JObj (authority_fields (l_authority l))"
  "the_field (handoff_fields h) ''owner'' = JObj (owner_fields (h_owner h))"
  by (simp_all add: launch_fields_def handoff_fields_def the_field_simps)

lemma owner_of_fields: "resource_owner_valid w \<Longrightarrow> owner_of_json (sorted_fields (owner_fields w)) = Some w"
  by (cases w; cases "process_id w") (simp_all add: owner_of_json_def the_field_sorted owner_fields_def the_field_simps Let_def)

lemma handoff_of_fields: "resource_handoff_valid h \<Longrightarrow> handoff_of_json (sorted_fields (handoff_fields h)) (h_owner h) = Some h"
  by (simp add: handoff_of_json_def the_field_sorted handoff_fields_def the_field_simps Let_def resource_handoff_valid_def)

lemma authority_of_fields:
  "owner_id_valid (owner_id a) \<Longrightarrow> 1 \<le> fencing_token a \<Longrightarrow> \<not> blank (x_job_id a) \<Longrightarrow>
     authority_of_json (sorted_fields (authority_fields a)) = Some a"
  by (simp add: authority_of_json_def the_field_sorted authority_fields_def the_field_simps job_execution_authority_def)

lemma reference_of_fields: "engine_job_reference_valid r \<Longrightarrow>
    reference_of (the_field (sorted_fields (reference_fields r)) ''workspace_instance_id'')
      (the_field (sorted_fields (reference_fields r)) ''job_id'') = Inr r"
  by (cases r) (simp add: the_field_sorted reference_fields_def the_field_simps reference_of_def Let_def)

lemma launch_decodes:
  assumes "launch_valid l" and "launch_to_bytes l = Inr payload"
  shows "launch_from_bytes fr payload = Inr l"
proof -
  have payload: "payload = canonical_bytes (launch_fields l) True" "length payload \<le> MAX_WORKER_LAUNCH_BYTES"
    using assms(2) by (auto simp: launch_to_bytes_def Let_def split: if_splits)
  then have decoded: "decode_object fr MAX_WORKER_LAUNCH_BYTES payload = Inr (sorted_fields (launch_fields l))"
    by (simp add: decode_canonical fields_exact del: json_exact.simps)
  have parts: "the_field (sorted_fields (launch_fields l)) ''launch_version'' = JInt (launch_version l)"
    "the_field (sorted_fields (launch_fields l)) ''reference'' = JObj (sorted_fields (reference_fields (l_reference l)))"
    "the_field (sorted_fields (launch_fields l)) ''resource_handoff'' = JObj (sorted_fields (handoff_fields (l_handoff l)))"
    "the_field (sorted_fields (launch_fields l)) ''job_authority'' = JObj (sorted_fields (authority_fields (l_authority l)))"
    "the_field (sorted_fields (handoff_fields (l_handoff l))) ''owner'' = JObj (sorted_fields (owner_fields (h_owner (l_handoff l))))"
    by (simp_all add: the_field_sorted fields_distinct fields_of_launch sort_keys_object del: sort_keys.simps(2))
  from assms(1) have valid: "engine_job_reference_valid (l_reference l)" "resource_handoff_valid (l_handoff l)"
    "resource_owner_valid (h_owner (l_handoff l))" "owner_id_valid (owner_id (l_authority l))" "1 \<le> fencing_token (l_authority l)"
    "\<not> blank (x_job_id (l_authority l))" "launch_consistent l"
    by (simp_all add: launch_valid_def resource_handoff_valid_def)
  have same: "\<lparr>launch_version = launch_version l, l_reference = l_reference l, l_handoff = l_handoff l, l_authority = l_authority l\<rparr> = l"
    by (cases l) simp
  show ?thesis
    using assms(2) valid
    by (simp add: launch_from_bytes_def Let_def same decoded parts launch_require_def launch_dict_def launch_part_def has_keys_sorted fields_keys reference_of_fields owner_of_fields handoff_of_fields authority_of_fields)
qed

lemma launch_steps: "launch_require ok = Inr u \<longleftrightarrow> ok" "launch_dict v = Inr kvs \<longleftrightarrow> v = JObj kvs" "launch_part x = Inr y \<longleftrightarrow> x = Some y"
  by (auto simp: launch_require_def launch_dict_def launch_part_def split: json.splits option.splits)

lemma made_parts: "owner_of_json kvs = Some w \<Longrightarrow> resource_owner_valid w" "handoff_of_json kvs w = Some h \<Longrightarrow> resource_handoff_valid h"
  "authority_of_json kvs = Some a \<Longrightarrow> owner_id_valid (owner_id a) \<and> 1 \<le> fencing_token a \<and> \<not> blank (x_job_id a)"
  "reference_of i j = Inr r \<Longrightarrow> engine_job_reference_valid r"
  by (auto simp: owner_of_json_def handoff_of_json_def authority_of_json_def reference_of_def job_execution_authority_def Let_def
      split: json.splits if_splits sum.splits)

lemma launch_decoded:
  assumes "launch_from_bytes fr payload = Inr l"
  shows "launch_valid l \<and> launch_to_bytes l = Inr payload"
  using assms by (auto simp: launch_from_bytes_def launch_valid_def launch_steps result_simps Let_def dest: made_parts)

section \<open>Requests and responses\<close>

lemma short_string_json: "short_string k v = Inr s \<longleftrightarrow> v = JStr s \<and> s \<noteq> [] \<and> length s \<le> k"
  by (auto simp: short_string_def split: json.splits if_splits)

lemma nonce_of_json: "nonce_of v = Inr s \<longleftrightarrow> v = JStr s \<and> length s = 43 \<and> list_all nonce_char s"
  by (auto simp: nonce_of_def result_simps short_string_json split: if_splits)

lemma reference_of_json: "reference_of i j = Inr r \<longleftrightarrow>
    i = JStr (workspace_instance_id r) \<and> j = JStr (ref_job_id r) \<and> engine_job_reference_valid r"
  by (cases r) (auto simp: reference_of_def Let_def split: json.splits if_splits)

lemma two_keys:
  assumes "distinct (map fst kvs)" and "has_keys kvs [j, i]" and "i \<noteq> j"
  shows "kvs = [(i, the_field kvs i), (j, the_field kvs j)] \<or> kvs = [(j, the_field kvs j), (i, the_field kvs i)]"
proof -
  have "card (set (map fst kvs)) = 2" using assms(2,3) by (simp add: has_keys_def del: set_map)
  then have "length kvs = 2" using distinct_card [OF assms(1)] by simp
  then obtain x y where "kvs = [x, y]" by (auto simp: numeral_2_eq_2 length_Suc_conv)
  with assms show ?thesis by (cases x; cases y) (auto simp: has_keys_def the_field_simps insert_eq_iff doubleton_eq_iff)
qed

text \<open>What a request that could be made carries: nothing, or a reference to a job.\<close>

lemma make_request_Inr:
  assumes "make_request (JInt ENGINE_PROTOCOL_VERSION) (JStr rid) (JStr method) (JStr secret) (JObj ps) = Inr q" and "distinct (map fst ps)"
  shows "q = \<lparr>request_id = rid, r_method = method, r_nonce = secret, params = ps\<rparr>" and "\<forall>(k, v) \<in> set ps. \<exists>s. v = JStr s"
    and "make_request (JInt ENGINE_PROTOCOL_VERSION) (JStr rid) (JStr method) (JStr secret) (JObj (sort_key fst ps))
      = Inr (q\<lparr>params := sort_key fst ps\<rparr>)"
proof -
  from assms show q: "q = \<lparr>request_id = rid, r_method = method, r_nonce = secret, params = ps\<rparr>"
    by (auto simp: make_request_def result_simps short_string_json nonce_of_json Let_def split: if_splits)
  consider (bare) "ps = []"
    | (reference) r where "has_keys ps [''workspace_instance_id'', ''job_id'']" "engine_job_reference_valid r"
        "the_field ps ''workspace_instance_id'' = JStr (workspace_instance_id r)" "the_field ps ''job_id'' = JStr (ref_job_id r)"
    using assms(1) by (auto simp: make_request_def result_simps short_string_json nonce_of_json reference_of_json Let_def split: if_splits)
  then show strings: "\<forall>(k, v) \<in> set ps. \<exists>s. v = JStr s"
    by cases (use two_keys [OF assms(2), of "''workspace_instance_id''" "''job_id''"] in auto)
  then have "map (\<lambda>(k, v). (k, sort_keys v)) ps = ps" by (intro map_idI) auto
  then have sorted: "sorted_fields ps = sort_key fst ps" by (simp add: sorted_fields_def)
  have same: "has_keys (sort_key fst ps) ks = has_keys ps ks" "the_field (sort_key fst ps) k = sort_keys (the_field ps k)" for ks k
    by (simp_all add: has_keys_sorted the_field_sorted assms(2) flip: sorted)
  have empty: "sort_key fst ps = [] \<longleftrightarrow> ps = []" by (metis length_sort length_0_conv)
  show "make_request (JInt ENGINE_PROTOCOL_VERSION) (JStr rid) (JStr method) (JStr secret) (JObj (sort_key fst ps)) = Inr (q\<lparr>params := sort_key fst ps\<rparr>)"
    using assms(1) by (auto simp: make_request_def q same empty result_simps short_string_json nonce_of_json reference_of_json Let_def split: if_splits)
qed

lemma request_fields_facts: "distinct (map fst (request_fields q))"
  "has_keys (request_fields q) [''engine_protocol_version'', ''request_id'', ''method'', ''nonce'', ''params'']"
  "the_field (request_fields q) ''engine_protocol_version'' = JInt ENGINE_PROTOCOL_VERSION"
  "the_field (request_fields q) ''request_id'' = JStr (request_id q)" "the_field (request_fields q) ''method'' = JStr (r_method q)"
  "the_field (request_fields q) ''nonce'' = JStr (r_nonce q)" "the_field (request_fields q) ''params'' = JObj (params q)"
  by (simp_all add: request_fields_def has_keys_def the_field_simps)

lemma request_decodes:
  assumes "encode_request rid method secret ps = Inr payload" and "distinct (map fst ps)"
  shows "decode_request fr payload = Inr \<lparr>request_id = rid, r_method = method, r_nonce = secret, params = sort_key fst ps\<rparr>"
proof -
  let ?q = "\<lparr>request_id = rid, r_method = method, r_nonce = secret, params = ps\<rparr>"
  obtain q where made: "make_request (JInt ENGINE_PROTOCOL_VERSION) (JStr rid) (JStr method) (JStr secret) (JObj ps) = Inr q"
    and payload: "payload = canonical_bytes (request_fields q) False" "length payload \<le> MAX_FRAME_BYTES"
      "method = ''job.notify'' \<longrightarrow> length payload \<le> MAX_JOB_NOTIFY_BYTES"
    using assms(1) by (auto simp: encode_request_def result_simps Let_def split: if_splits)
  note q = make_request_Inr [OF made assms(2)]
  have same: "map (\<lambda>(k, v). (k, sort_keys v)) ps = ps" using q(2) by (intro map_idI) auto
  have "json_exact (JObj (request_fields q))" using q(1,2) assms(2) by (auto simp: request_fields_def)
  from decode_canonical [OF this] payload
  have decoded: "decode_object fr MAX_FRAME_BYTES payload = Inr (sorted_fields (request_fields q))" by simp
  show ?thesis
    using payload(3) q(3)
    by (auto simp: decode_request_def decoded has_keys_sorted the_field_sorted request_fields_facts q(1) same)
qed

text \<open>A response carries data or an error, which \<open>kvs\<close> tells apart.\<close>

lemma response_fields_facts: "distinct (map fst (response_fields rid b d x))"
  "has_keys (response_fields rid b d x) [''engine_protocol_version'', ''request_id'', ''ok'', ''data'', ''error'']"
  "the_field (response_fields rid b d x) ''engine_protocol_version'' = JInt ENGINE_PROTOCOL_VERSION"
  "the_field (response_fields rid b d x) ''request_id'' = JStr rid" "the_field (response_fields rid b d x) ''ok'' = b"
  "the_field (response_fields rid b d x) ''data'' = d" "the_field (response_fields rid b d x) ''error'' = x"
  by (simp_all add: response_fields_def has_keys_def the_field_simps)

lemma is_error_sorted: "distinct (map fst kvs) \<Longrightarrow> is_error_object (sorted_fields kvs) = is_error_object kvs"
  by (cases "the_field kvs ''code''") (simp_all add: is_error_object_def has_keys_sorted the_field_sorted short_string_def)

lemma response_decodes:
  assumes "encode_response rid result_data err = Inr payload"
    and "\<forall>kvs. result_data = Some kvs \<or> err = Some kvs \<longrightarrow> json_exact (JObj kvs)"
  shows "\<exists>kvs. decode_response fr payload rid = Inr kvs
      \<and> the_field kvs ''data'' = (case result_data of None \<Rightarrow> JNull | Some d \<Rightarrow> sort_keys (JObj d))
      \<and> the_field kvs ''error'' = (case err of None \<Rightarrow> JNull | Some x \<Rightarrow> sort_keys (JObj x))"
    and "rid' \<noteq> rid \<Longrightarrow> decode_response fr payload rid' = protocol_invalid"
proof -
  let ?d = "case result_data of None \<Rightarrow> JNull | Some kvs \<Rightarrow> JObj kvs" and ?x = "case err of None \<Rightarrow> JNull | Some kvs \<Rightarrow> JObj kvs"
  let ?kvs = "response_fields rid (JBool (err = None)) ?d ?x"
  have payload: "payload = canonical_bytes ?kvs False" "length payload \<le> MAX_FRAME_BYTES" "(result_data = None) \<noteq> (err = None)"
      "\<And>x. err = Some x \<Longrightarrow> is_error_object x"
    using assms(1) by (auto simp: encode_response_def result_simps Let_def split: if_splits option.splits)
  have "json_exact (JObj ?kvs)" using assms(2) by (auto simp: response_fields_def split: option.split)
  from decode_canonical [OF this] payload
  have decoded: "decode_object fr MAX_FRAME_BYTES payload = Inr (sorted_fields ?kvs)" by simp
  have exact: "err = Some x \<Longrightarrow> distinct (map fst x)" for x using assms(2) by auto
  show "\<exists>kvs. decode_response fr payload rid = Inr kvs
      \<and> the_field kvs ''data'' = (case result_data of None \<Rightarrow> JNull | Some d \<Rightarrow> sort_keys (JObj d))
      \<and> the_field kvs ''error'' = (case err of None \<Rightarrow> JNull | Some x \<Rightarrow> sort_keys (JObj x))"
    using payload(3,4) exact
    by (cases err; cases result_data)
       (auto simp: decode_response_def decoded has_keys_sorted the_field_sorted response_fields_facts sort_keys_object is_error_sorted
         simp del: sort_keys.simps(2))
  show "decode_response fr payload rid' = protocol_invalid" if "rid' \<noteq> rid"
    using that by (simp add: decode_response_def decoded has_keys_sorted the_field_sorted response_fields_facts)
qed

section \<open>Descriptors\<close>

lemma descriptor_decodes:
  assumes "make_descriptor zoned (descriptor_fields d) = Inr d" and "length (descriptor_to_bytes d) \<le> MAX_DESCRIPTOR_BYTES"
  shows "descriptor_from_bytes fr zoned (descriptor_to_bytes d) = Inr d"
proof -
  have "json_exact (JObj (descriptor_fields d))" by (simp add: descriptor_fields_def)
  from decode_canonical [OF this] assms(2)
  have decoded: "decode_object fr MAX_DESCRIPTOR_BYTES (descriptor_to_bytes d) = Inr (sorted_fields (descriptor_fields d))"
    by (simp add: descriptor_to_bytes_def)
  have "map (\<lambda>(k, v). (k, sort_keys v)) (descriptor_fields d) = descriptor_fields d" by (simp add: descriptor_fields_def)
  moreover have "distinct (map fst (descriptor_fields d))" by (simp add: descriptor_fields_def)
  ultimately have "the_field (sorted_fields (descriptor_fields d)) = the_field (descriptor_fields d)"
    by (auto simp: fun_eq_iff the_field_sorted descriptor_fields_def the_field_simps)
  then have "make_descriptor zoned (sorted_fields (descriptor_fields d)) = make_descriptor zoned (descriptor_fields d)"
    by (simp only: make_descriptor_def)
  with assms(1) have "make_descriptor zoned (sorted_fields (descriptor_fields d)) = Inr d" by simp
  then show ?thesis
    by (simp add: descriptor_from_bytes_def decoded has_keys_sorted) (simp add: has_keys_def descriptor_fields_def)
qed

section \<open>The theorems\<close>

text \<open>C33: A worker reads a launch exactly when its input is the encoding of that launch and the launch is valid: each valid launch
  that fits has one encoding, and nothing else is read as a launch.\<close>

theorem launch_encoding: "launch_from_bytes fr payload = Inr l \<longleftrightarrow> launch_valid l \<and> launch_to_bytes l = Inr payload"
  using launch_decodes launch_decoded by blast

text \<open>A request that was encoded is decoded to the same request, up to the order of its parameters, and names the same job.\<close>

theorem request_round_trip:
  assumes "encode_request rid method secret ps = Inr payload" and "distinct (map fst ps)"
  shows "\<exists>q. decode_request fr payload = Inr q \<and> request_id q = rid \<and> r_method q = method \<and> r_nonce q = secret
    \<and> map_of (params q) = map_of ps"
proof -
  have "map_of (sort_key fst ps) = map_of ps" using assms(2) by (intro map_of_same_set) (simp_all add: distinct_sort_key)
  with request_decodes [OF assms] show ?thesis by simp
qed

lemma request_round_trip_witness:
  "\<exists>payload q. encode_request ''r'' ''health'' (replicate 43 CHR ''n'') [] = Inr payload \<and> decode_request (\<lambda>_. None) payload = Inr q \<and> r_method q = ''health''"
proof -
  have "case encode_request ''r'' ''health'' (replicate 43 CHR ''n'') [] of Inr _ \<Rightarrow> True | Inl _ \<Rightarrow> False" by code_simp
  then obtain payload where "encode_request ''r'' ''health'' (replicate 43 CHR ''n'') [] = Inr payload" by (auto split: sum.splits)
  from this request_round_trip [OF this, of "\<lambda>_. None"] show ?thesis by auto
qed

end
