(* ===== verification/Dispatcher.thy ===== *)
theory Dispatcher
  imports EngineContracts Systems
begin

text \<open>
  The queue of the engine's job dispatcher (\<open>engine/job_dispatcher.py\<close>): the jobs that wait for a worker and those that
  have one. Every section of the code that holds the dispatcher's condition is one function; the threads around it (the
  loop, one supervisor per worker, and whoever notifies, reconciles or closes) interleave these sections, as the events of
  an engine say.
\<close>

section \<open>Values\<close>

text \<open>
  The configuration the constructor checks. Of the interval between two reconciliations, a float, only its
  check matters here: whether it is finite and positive.
\<close>

record dispatcher_settings =
  maximum_pending_jobs :: int
  maximum_active_workers :: int
  interval_is_positive :: bool

definition MAXIMUM_ACTIVE_WORKERS :: int where
  "MAXIMUM_ACTIVE_WORKERS = 4"

definition settings_valid :: "dispatcher_settings \<Rightarrow> bool" where
  "settings_valid cfg \<longleftrightarrow> 1 \<le> maximum_pending_jobs cfg \<and> maximum_pending_jobs cfg \<le> 1000
     \<and> 1 \<le> maximum_active_workers cfg \<and> maximum_active_workers cfg \<le> MAXIMUM_ACTIVE_WORKERS
     \<and> maximum_active_workers cfg \<le> maximum_pending_jobs cfg \<and> interval_is_positive cfg"

text \<open>\<open>_scan_cursors\<close> maps an instance to the place its scan goes on from; \<open>None\<close> there and no entry both mean the beginning.\<close>

record dispatcher =
  pending :: "engine_job_reference list"
  known :: "engine_job_reference set"
  active :: "engine_job_reference set"
  reconcile_requested :: bool
  reconciling :: bool
  reconcile_failed :: bool
  scan_cursors :: "string \<Rightarrow> (string \<times> string) option"
  next_instance_id :: "string option"
  draining :: bool
  stopped :: bool

definition new_dispatcher :: "dispatcher_settings \<Rightarrow> string + dispatcher" where
  "new_dispatcher cfg =
    (if \<not> settings_valid cfg then Inl ''engine_dispatcher_configuration_invalid''
     else Inr \<lparr>pending = [], known = {}, active = {}, reconcile_requested = False, reconciling = False, reconcile_failed = False,
       scan_cursors = (\<lambda>_. None), next_instance_id = None, draining = False, stopped = False\<rparr>)"

section \<open>Sections under the condition\<close>

definition pending_count :: "dispatcher \<Rightarrow> nat" where
  "pending_count d = length (pending d)"

definition has_work :: "dispatcher \<Rightarrow> bool" where
  "has_work d \<longleftrightarrow> pending d \<noteq> [] \<or> active d \<noteq> {} \<or> reconciling d \<or> reconcile_failed d"

definition ready_to_close :: "dispatcher \<Rightarrow> bool" where
  "ready_to_close d \<longleftrightarrow> draining d \<and> pending d = [] \<and> active d = {} \<and> \<not> reconciling d"

text \<open>The thread of a closed dispatcher is joined afterwards.\<close>

definition close_dispatcher :: "bool \<Rightarrow> dispatcher \<Rightarrow> string + dispatcher" where
  "close_dispatcher force d =
    (if \<not> force \<and> (pending d \<noteq> [] \<or> active d \<noteq> {} \<or> reconciling d \<or> (reconcile_failed d \<and> \<not> draining d))
     then Inl ''engine_dispatcher_busy'' else Inr (d\<lparr>draining := True, stopped := True\<rparr>))"

definition try_begin_draining :: "dispatcher \<Rightarrow> bool \<times> dispatcher" where
  "try_begin_draining d =
    (if pending d \<noteq> [] \<or> active d \<noteq> {} \<or> reconciling d \<or> reconcile_failed d then (False, d)
     else (True, d\<lparr>draining := True\<rparr>))"

definition begin_graceful_shutdown :: "dispatcher \<Rightarrow> dispatcher" where
  "begin_graceful_shutdown d = d\<lparr>draining := True, pending := [], known := known d - set (pending d)\<rparr>"

definition engine_draining :: store_error where
  "engine_draining = DomainError ''engine_draining'' RETRYABLE_RUNTIME"

text \<open>\<open>_enqueue\<close>: whether the reference is new to the queue.\<close>

definition enqueue :: "dispatcher_settings \<Rightarrow> engine_job_reference \<Rightarrow> dispatcher \<Rightarrow> store_error + (bool \<times> dispatcher)" where
  "enqueue cfg r d =
    (if draining d then Inl engine_draining
     else if r \<in> known d then Inr (False, d)
     else if maximum_pending_jobs cfg \<le> int (card (known d)) then Inl (DomainError ''engine_notification_backpressure'' RETRYABLE_RUNTIME)
     else Inr (True, d\<lparr>known := insert r (known d), pending := pending d @ [r]\<rparr>))"

definition finish_reference :: "engine_job_reference \<Rightarrow> bool \<Rightarrow> dispatcher \<Rightarrow> dispatcher" where
  "finish_reference r reconcile d =
     d\<lparr>active := active d - {r}, known := known d - {r}, reconcile_requested := reconcile_requested d \<or> reconcile\<rparr>"

text \<open>The first section of \<open>_next_reference\<close>; \<open>due\<close> says that no time remains until the next reconciliation.\<close>

datatype choice = NoReference | Taken engine_job_reference | HeadWaits engine_job_reference | Sleeps

definition choose_reference :: "dispatcher_settings \<Rightarrow> bool \<Rightarrow> dispatcher \<Rightarrow> choice \<times> dispatcher" where
  "choose_reference cfg due d =
    (if reconcile_requested d then (NoReference, d)
     else if pending d \<noteq> [] \<and> int (card (active d)) < maximum_active_workers cfg
       then (Taken (hd (pending d)), d\<lparr>pending := tl (pending d), active := insert (hd (pending d)) (active d)\<rparr>)
     else if due then (NoReference, d)
     else (case pending d of [] \<Rightarrow> Sleeps | r # _ \<Rightarrow> HeadWaits r, d))"

text \<open>\<open>reconcile\<close> waits for another reconciliation to end, gives up when draining, and otherwise begins.\<close>

datatype reconcile_entry = Waits | Refused | Begins

definition begin_reconcile :: "dispatcher \<Rightarrow> reconcile_entry \<times> dispatcher" where
  "begin_reconcile d =
    (if reconciling d \<and> \<not> draining d then (Waits, d)
     else if draining d then (Refused, d)
     else (Begins, d\<lparr>reconciling := True, reconcile_failed := True\<rparr>))"

definition complete_reconcile :: "dispatcher \<Rightarrow> dispatcher" where
  "complete_reconcile d = d\<lparr>reconcile_failed := False\<rparr>"

definition end_reconcile :: "dispatcher \<Rightarrow> dispatcher" where
  "end_reconcile d = d\<lparr>reconciling := False\<rparr>"

section \<open>The threads\<close>

text \<open>
  The loop chooses references and admits their workers; \<open>supervised\<close> are the references whose supervisor has not yet
  given them back, \<open>leaving\<close> counts the supervisors that have but are still among the threads to be joined.
\<close>

datatype loop_phase = Unstarted | Choosing | Admitting engine_job_reference | Joining | Ended

record engine =
  queue :: dispatcher
  loop :: loop_phase
  supervised :: "engine_job_reference list"
  leaving :: nat

datatype engine_event =
  StartLoop | Enqueue engine_job_reference
| BeginReconcile | CompleteReconcile | EndReconcile | MoveCursor string "(string \<times> string) option" | NextInstance "string option"
| TakeRequest | Choose bool | Decline | AdmissionFailed | StartWorker
| SettlementFailed engine_job_reference | WorkerEnds engine_job_reference bool | SupervisorLeaves
| TryDrain | Shutdown | CloseDispatcher bool | LoopStops | LoopJoined

text \<open>\<open>start\<close>, \<open>_run\<close>, \<open>_start_worker\<close>, \<open>_supervise_worker\<close> and \<open>_join_worker_threads\<close>, section by section.\<close>

fun run_event :: "dispatcher_settings \<Rightarrow> engine_event \<Rightarrow> engine \<Rightarrow> engine option" where
  "run_event cfg StartLoop g =
    (if loop g = Unstarted \<and> \<not> draining (queue g) then Some (g\<lparr>loop := Choosing\<rparr>) else None)"
| "run_event cfg (Enqueue r) g = (case enqueue cfg r (queue g) of Inl _ \<Rightarrow> None | Inr (_, d) \<Rightarrow> Some (g\<lparr>queue := d\<rparr>))"
| "run_event cfg BeginReconcile g = (case begin_reconcile (queue g) of (Begins, d) \<Rightarrow> Some (g\<lparr>queue := d\<rparr>) | _ \<Rightarrow> None)"
| "run_event cfg CompleteReconcile g =
    (if reconciling (queue g) then Some (g\<lparr>queue := complete_reconcile (queue g)\<rparr>) else None)"
| "run_event cfg EndReconcile g = (if reconciling (queue g) then Some (g\<lparr>queue := end_reconcile (queue g)\<rparr>) else None)"
| "run_event cfg (MoveCursor i c) g =
    (if reconciling (queue g) then Some (g\<lparr>queue := (queue g)\<lparr>scan_cursors := (scan_cursors (queue g))(i := c)\<rparr>\<rparr>) else None)"
| "run_event cfg (NextInstance i) g =
    (if reconciling (queue g) then Some (g\<lparr>queue := (queue g)\<lparr>next_instance_id := i\<rparr>\<rparr>) else None)"
| "run_event cfg TakeRequest g =
    (if loop g = Choosing \<and> \<not> stopped (queue g) then Some (g\<lparr>queue := (queue g)\<lparr>reconcile_requested := False\<rparr>\<rparr>) else None)"
| "run_event cfg (Choose due) g =
    (if loop g = Choosing \<and> \<not> stopped (queue g)
     then (case choose_reference cfg due (queue g) of (Taken r, d) \<Rightarrow> Some (g\<lparr>queue := d, loop := Admitting r\<rparr>) | _ \<Rightarrow> Some g) else None)"
| "run_event cfg Decline g =
    (case loop g of Admitting r \<Rightarrow> Some (g\<lparr>queue := finish_reference r True (queue g), loop := Choosing\<rparr>) | _ \<Rightarrow> None)"
| "run_event cfg AdmissionFailed g =
    (case loop g of Admitting r \<Rightarrow> Some (g\<lparr>queue := finish_reference r False (queue g), loop := Choosing\<rparr>) | _ \<Rightarrow> None)"
| "run_event cfg StartWorker g =
    (case loop g of Admitting r \<Rightarrow> Some (g\<lparr>supervised := supervised g @ [r], loop := Choosing\<rparr>) | _ \<Rightarrow> None)"
| "run_event cfg (SettlementFailed r) g =
    (if List.member (supervised g) r then Some (g\<lparr>queue := (queue g)\<lparr>reconcile_failed := True\<rparr>\<rparr>) else None)"
| "run_event cfg (WorkerEnds r reconcile) g =
    (if List.member (supervised g) r
     then Some (g\<lparr>queue := finish_reference r reconcile (queue g), supervised := remove1 r (supervised g), leaving := leaving g + 1\<rparr>)
     else None)"
| "run_event cfg SupervisorLeaves g = (if 0 < leaving g then Some (g\<lparr>leaving := leaving g - 1\<rparr>) else None)"
| "run_event cfg TryDrain g = Some (g\<lparr>queue := snd (try_begin_draining (queue g))\<rparr>)"
| "run_event cfg Shutdown g = Some (g\<lparr>queue := begin_graceful_shutdown (queue g)\<rparr>)"
| "run_event cfg (CloseDispatcher force) g = (case close_dispatcher force (queue g) of Inl _ \<Rightarrow> None | Inr d \<Rightarrow> Some (g\<lparr>queue := d\<rparr>))"
| "run_event cfg LoopStops g = (if loop g = Choosing \<and> stopped (queue g) then Some (g\<lparr>loop := Joining\<rparr>) else None)"
| "run_event cfg LoopJoined g =
    (if loop g = Joining \<and> supervised g = [] \<and> leaving g = 0 then Some (g\<lparr>loop := Ended\<rparr>) else None)"

fun run_events :: "dispatcher_settings \<Rightarrow> engine_event list \<Rightarrow> engine \<Rightarrow> engine" where
  "run_events cfg [] g = g"
| "run_events cfg (v # vs) g = run_events cfg vs (case run_event cfg v g of None \<Rightarrow> g | Some g' \<Rightarrow> g')"

definition new_engine :: "dispatcher \<Rightarrow> engine" where
  "new_engine d = \<lparr>queue = d, loop = Unstarted, supervised = [], leaving = 0\<rparr>"

inductive engine_step :: "dispatcher_settings \<Rightarrow> engine \<Rightarrow> engine \<Rightarrow> bool" for cfg where
  event: "run_event cfg v g = Some g' \<Longrightarrow> engine_step cfg g g'"

definition engine_reachable :: "dispatcher_settings \<Rightarrow> engine \<Rightarrow> bool" where
  "engine_reachable cfg g \<longleftrightarrow> (\<exists>d. new_dispatcher cfg = Inr d \<and> (engine_step cfg)\<^sup>*\<^sup>* (new_engine d) g)"

section \<open>The invariant\<close>

definition admitting :: "engine \<Rightarrow> engine_job_reference list" where
  "admitting g = (case loop g of Admitting r \<Rightarrow> [r] | _ \<Rightarrow> [])"

definition queue_ok :: "dispatcher_settings \<Rightarrow> engine \<Rightarrow> bool" where
  "queue_ok cfg g \<longleftrightarrow> settings_valid cfg
     \<and> distinct (pending (queue g) @ admitting g @ supervised g)
     \<and> known (queue g) = set (pending (queue g) @ admitting g @ supervised g)
     \<and> active (queue g) = set (admitting g @ supervised g)
     \<and> int (card (known (queue g))) \<le> maximum_pending_jobs cfg
     \<and> int (card (active (queue g))) \<le> maximum_active_workers cfg
     \<and> (stopped (queue g) \<longrightarrow> draining (queue g))"

lemma queue_ok_new: "new_dispatcher cfg = Inr d \<Longrightarrow> queue_ok cfg (new_engine d)"
  by (auto simp: new_dispatcher_def new_engine_def queue_ok_def admitting_def settings_valid_def split: if_splits)

text \<open>With the sets written as the lists they are the sets of, the bounds are bounds on lengths.\<close>

lemma queue_ok_lists:
  "queue_ok cfg g \<longleftrightarrow> settings_valid cfg
     \<and> distinct (pending (queue g) @ admitting g @ supervised g)
     \<and> known (queue g) = set (pending (queue g) @ admitting g @ supervised g)
     \<and> active (queue g) = set (admitting g @ supervised g)
     \<and> int (length (pending (queue g)) + length (admitting g) + length (supervised g)) \<le> maximum_pending_jobs cfg
     \<and> int (length (admitting g) + length (supervised g)) \<le> maximum_active_workers cfg
     \<and> (stopped (queue g) \<longrightarrow> draining (queue g))"
proof -
  have "card (set (pending (queue g) @ admitting g @ supervised g)) = length (pending (queue g)) + length (admitting g) + length (supervised g)"
    and "card (set (admitting g @ supervised g)) = length (admitting g) + length (supervised g)"
    if "distinct (pending (queue g) @ admitting g @ supervised g)"
    using that distinct_card [of "pending (queue g) @ admitting g @ supervised g"] distinct_card [of "admitting g @ supervised g"]
    by auto
  then show ?thesis by (auto simp: queue_ok_def)
qed

lemma queue_ok_known:
  "queue_ok cfg g \<Longrightarrow> card (known (queue g)) = length (pending (queue g)) + length (admitting g) + length (supervised g)"
  unfolding queue_ok_def using distinct_card [of "pending (queue g) @ admitting g @ supervised g"] by simp

lemma queue_ok_active: "queue_ok cfg g \<Longrightarrow> card (active (queue g)) = length (admitting g) + length (supervised g)"
  unfolding queue_ok_def using distinct_card [of "admitting g @ supervised g"] by simp

text \<open>The fields of the queue no bound depends on.\<close>

lemma queue_ok_flags:
  assumes "queue_ok cfg g" and "pending d = pending (queue g)" and "known d = known (queue g)" and "active d = active (queue g)"
    and "stopped d \<longrightarrow> draining d"
  shows "queue_ok cfg (g\<lparr>queue := d\<rparr>)"
  using assms by (auto simp: queue_ok_def admitting_def)

lemma queue_ok_finish:
  assumes "queue_ok cfg g" and "loop g = Admitting r"
  shows "queue_ok cfg (g\<lparr>queue := finish_reference r b (queue g), loop := Choosing\<rparr>)"
  using assms by (auto simp: finish_reference_def queue_ok_lists admitting_def)

lemma queue_ok_drop:
  assumes "queue_ok cfg g" and "r \<in> set (supervised g)"
  shows "queue_ok cfg (g\<lparr>queue := finish_reference r b (queue g), supervised := remove1 r (supervised g), leaving := n\<rparr>)"
proof -
  let ?g = "g\<lparr>queue := finish_reference r b (queue g), supervised := remove1 r (supervised g), leaving := n\<rparr>"
  have "distinct (supervised g)" "r \<notin> set (pending (queue g))" "r \<notin> set (admitting g)"
    using assms by (auto simp: queue_ok_def)
  then have "set (supervised ?g) = set (supervised g) - {r}" "length (supervised ?g) \<le> length (supervised g)"
    and "admitting ?g = admitting g" "pending (queue ?g) = pending (queue g)"
    by (simp_all add: length_remove1 admitting_def finish_reference_def)
  with assms \<open>r \<notin> set (pending (queue g))\<close> \<open>r \<notin> set (admitting g)\<close> show ?thesis
    unfolding queue_ok_lists by (auto simp: finish_reference_def)
qed

lemma queue_ok_choose:
  assumes "queue_ok cfg g" and "loop g = Choosing" and "pending (queue g) = r # rs"
    and "int (card (active (queue g))) < maximum_active_workers cfg"
  shows "queue_ok cfg (g\<lparr>queue := (queue g)\<lparr>pending := rs, active := insert r (active (queue g))\<rparr>, loop := Admitting r\<rparr>)"
  using assms queue_ok_active [OF assms(1)] by (auto simp: queue_ok_lists admitting_def)

lemma queue_ok_enqueue:
  assumes "queue_ok cfg g" and "enqueue cfg r (queue g) = Inr (b, d)"
  shows "queue_ok cfg (g\<lparr>queue := d\<rparr>)"
  using assms queue_ok_known [OF assms(1)] by (auto simp: enqueue_def queue_ok_lists admitting_def split: if_splits)

lemma queue_ok_loop:
  "queue_ok cfg g \<Longrightarrow> admitting g = [] \<Longrightarrow> admitting (g\<lparr>loop := p\<rparr>) = [] \<Longrightarrow> queue_ok cfg (g\<lparr>loop := p\<rparr>)"
  by (simp add: queue_ok_lists)

lemma queue_ok_stopped: "queue_ok cfg g \<Longrightarrow> stopped (queue g) \<longrightarrow> draining (queue g)"
  by (simp add: queue_ok_def)

lemma queue_ok_event:
  assumes ok: "queue_ok cfg g" and run: "run_event cfg v g = Some g'"
  shows "queue_ok cfg g'"
proof (cases v)
  case TryDrain
  with run have "g' = g\<lparr>queue := snd (try_begin_draining (queue g))\<rparr>" by simp
  with queue_ok_flags [OF ok, of "snd (try_begin_draining (queue g))"] queue_ok_stopped [OF ok] show ?thesis by (simp add: try_begin_draining_def)
next
  case (Enqueue r)
  with run show ?thesis by (auto intro: queue_ok_enqueue [OF ok] split: sum.splits)
next
  case (Choose due)
  show ?thesis
  proof (cases "choose_reference cfg due (queue g)")
    case (Pair c d)
    with Choose run have "g' = g \<or> (\<exists>r. c = Taken r \<and> g' = g\<lparr>queue := d, loop := Admitting r\<rparr>)" and "loop g = Choosing"
      by (auto split: if_splits choice.splits)
    with Pair ok show ?thesis
      by (cases "pending (queue g)") (auto simp: choose_reference_def split: if_splits intro!: queue_ok_choose [OF ok])
  qed
next
  case Decline
  with run show ?thesis by (auto intro: queue_ok_finish [OF ok] split: loop_phase.splits)
next
  case AdmissionFailed
  with run show ?thesis by (auto intro: queue_ok_finish [OF ok] split: loop_phase.splits)
next
  case StartWorker
  with run ok show ?thesis by (auto simp: queue_ok_lists admitting_def split: loop_phase.splits)
next
  case (WorkerEnds r b)
  with run show ?thesis by (auto intro: queue_ok_drop [OF ok] split: if_splits)
next
  case Shutdown
  with run ok show ?thesis by (auto simp: begin_graceful_shutdown_def queue_ok_lists admitting_def)
next
  case SupervisorLeaves
  with run ok show ?thesis by (auto simp: queue_ok_def admitting_def split: if_splits)
qed (use run queue_ok_stopped [OF ok] in \<open>auto simp: begin_reconcile_def complete_reconcile_def end_reconcile_def close_dispatcher_def
        admitting_def intro!: queue_ok_flags [OF ok] queue_ok_loop [OF ok] split: if_splits\<close>)

interpretation engines: guarded_system "\<lambda>g. \<exists>d. new_dispatcher cfg = Inr d \<and> g = new_engine d" "engine_step cfg" "queue_ok cfg" for cfg
  by unfold_locales (auto simp: queue_ok_new elim!: engine_step.cases intro: queue_ok_event)

lemma engine_reachable_ok: "engine_reachable cfg g \<Longrightarrow> queue_ok cfg g"
  using engines.reach_inv [of cfg g] unfolding engines.reach_def engine_reachable_def by blast

end
