(* ===== verification/Reconciliation.thy ===== *)
theory Reconciliation
  imports Dispatcher JobQueries
begin

text \<open>
  How the dispatcher finds its work (\<open>EngineJobDispatcher.reconcile\<close>): it pages through the jobs of every registered
  workspace that wait for the engine and queues them, until the queue is full. What the stores answer at each
  moment, and which sections of other threads run before it, are arguments.
\<close>

section \<open>The surroundings\<close>

record scan_rig =
  settings :: dispatcher_settings
  registry_instances :: "store_error + string list"
  open_error :: "nat \<Rightarrow> string \<Rightarrow> store_error option"
  read_error :: "nat \<Rightarrow> string \<Rightarrow> store_error option"
  store_at :: "nat \<Rightarrow> string \<Rightarrow> store"
  env_at :: "nat \<Rightarrow> env"
  time_parser :: "string \<Rightarrow> parsed_time"
  meanwhile :: "nat \<Rightarrow> engine_event list"

record scan_world =
  moments :: nat
  the_engine :: engine

text \<open>Before each section of the reconciliation the sections of other threads run.\<close>

definition advance :: "scan_rig \<Rightarrow> scan_world \<Rightarrow> scan_world" where
  "advance rig w = \<lparr>moments = moments w + 1,
     the_engine = run_events (settings rig) (meanwhile rig (moments w)) (the_engine w)\<rparr>"

definition with_queue :: "dispatcher \<Rightarrow> scan_world \<Rightarrow> scan_world" where
  "with_queue d w = w\<lparr>the_engine := (the_engine w)\<lparr>queue := d\<rparr>\<rparr>"

abbreviation the_queue :: "scan_world \<Rightarrow> dispatcher" where
  "the_queue w \<equiv> queue (the_engine w)"

section \<open>One page\<close>

definition DISCOVERY_PAGE_SIZE :: nat where
  "DISCOVERY_PAGE_SIZE = 100"

type_synonym scan_cursor = "(string \<times> string) option"

datatype page_end = PageDone nat scan_cursor | PageFull nat scan_cursor | PageRaised store_error

text \<open>\<open>EngineProtocolError\<close>, a \<open>ValueError\<close> of its own, carries only its code.\<close>

definition reference_invalid :: store_error where
  "reference_invalid = DomainError ''engine_job_reference_invalid'' INTERNAL"

fun enqueue_page :: "scan_rig \<Rightarrow> string \<Rightarrow> job list \<Rightarrow> scan_cursor \<Rightarrow> nat \<Rightarrow> scan_world \<Rightarrow> page_end \<times> scan_world" where
  "enqueue_page rig inst [] after n w = (PageDone n after, w)"
| "enqueue_page rig inst (j # js) after n w =
    (let r = \<lparr>workspace_instance_id = inst, ref_job_id = job_id j\<rparr>; w1 = advance rig w in
     if \<not> engine_job_reference_valid r then (PageRaised reference_invalid, w)
     else case enqueue (settings rig) r (the_queue w1) of
            Inr (new, d) \<Rightarrow> enqueue_page rig inst js (Some (created_at j, job_id j)) (n + of_bool new) (with_queue d w1)
          | Inl err \<Rightarrow> (if err = DomainError ''engine_notification_backpressure'' RETRYABLE_RUNTIME then PageFull n after else PageRaised err, w1))"

section \<open>One instance, and all of them\<close>

datatype scan_end = ScanDone nat | ScanFull nat | ScanRaised store_error | ScanEndless

definition set_cursor :: "string \<Rightarrow> scan_cursor \<Rightarrow> scan_world \<Rightarrow> scan_world" where
  "set_cursor inst c w = with_queue ((the_queue w)\<lparr>scan_cursors := (scan_cursors (the_queue w))(inst := c)\<rparr>) w"

definition set_next_instance :: "string option \<Rightarrow> scan_world \<Rightarrow> scan_world" where
  "set_next_instance i w = with_queue ((the_queue w)\<lparr>next_instance_id := i\<rparr>) w"

definition read_candidates :: "scan_rig \<Rightarrow> string \<Rightarrow> scan_cursor \<Rightarrow> scan_world \<Rightarrow> store_error + job list" where
  "read_candidates rig inst after w =
    (case read_error rig (moments w) inst of
       Some err \<Rightarrow> Inl err
     | None \<Rightarrow> list_engine_execution_candidates (time_parser rig) (env_at rig (moments w)) LOCAL_USER_PRINCIPAL
                (map_option fst after) (map_option snd after) (int DISCOVERY_PAGE_SIZE) (store_at rig (moments w) inst))"

text \<open>The \<open>while True\<close> of \<open>reconcile\<close>, with fuel for its pages.\<close>

fun scan_instance :: "scan_rig \<Rightarrow> string \<Rightarrow> nat \<Rightarrow> scan_cursor \<Rightarrow> nat \<Rightarrow> scan_world \<Rightarrow> scan_end \<times> scan_world" where
  "scan_instance rig inst 0 after n w = (ScanEndless, w)"
| "scan_instance rig inst (Suc fuel) after n w =
    (let w1 = advance rig w in
     case read_candidates rig inst after w of
       Inl err \<Rightarrow> (ScanRaised err, w1)
     | Inr js \<Rightarrow>
         if js = [] then (ScanDone n, set_cursor inst None w1)
         else case enqueue_page rig inst js after n w1 of
                (PageRaised err, w2) \<Rightarrow> (ScanRaised err, w2)
              | (PageFull m c, w2) \<Rightarrow> (ScanFull m, set_next_instance (Some inst) (set_cursor inst c w2))
              | (PageDone m c, w2) \<Rightarrow>
                  if length js < DISCOVERY_PAGE_SIZE then (ScanDone m, set_cursor inst None w2)
                  else scan_instance rig inst fuel c m (set_cursor inst c w2))"

text \<open>An instance whose store cannot be opened is passed over; the first such error is raised at the end.\<close>

fun scan_instances ::
    "scan_rig \<Rightarrow> nat \<Rightarrow> string list \<Rightarrow> nat \<Rightarrow> store_error option \<Rightarrow> scan_world \<Rightarrow> (scan_end \<times> store_error option) \<times> scan_world" where
  "scan_instances rig fuel [] n first_error w = ((ScanDone n, first_error), w)"
| "scan_instances rig fuel (i # is) n first_error w =
    (case open_error rig (moments w) i of
       Some (DomainError c k) \<Rightarrow>
         scan_instances rig fuel is n (if first_error = None then Some (DomainError c k) else first_error) (advance rig w)
     | Some err \<Rightarrow> ((ScanRaised err, first_error), advance rig w)
     | None \<Rightarrow> (case scan_instance rig i fuel (scan_cursors (the_queue w) i) n (advance rig w) of
                 (ScanDone m, w1) \<Rightarrow> scan_instances rig fuel is m first_error w1
               | (stop, w1) \<Rightarrow> ((stop, first_error), w1)))"

text \<open>\<open>_ordered_instances\<close>: the scan goes on with the instance that filled the queue.\<close>

definition ordered_instances :: "string list \<Rightarrow> string option \<Rightarrow> string list \<times> string option" where
  "ordered_instances ids start =
    (case start of
       None \<Rightarrow> (ids, start)
     | Some i \<Rightarrow> if ids = [] then (ids, start)
                 else if i \<in> set ids then (dropWhile (\<lambda>x. x \<noteq> i) ids @ takeWhile (\<lambda>x. x \<noteq> i) ids, start)
                 else (ids, None))"

section \<open>The reconciliation\<close>

datatype reconcile_result = StillWaiting | Scheduled nat | ReconcileRaised store_error | Endless

definition reconcile_body :: "scan_rig \<Rightarrow> nat \<Rightarrow> scan_world \<Rightarrow> reconcile_result \<times> scan_world" where
  "reconcile_body rig fuel w =
    (case registry_instances rig of
       Inl err \<Rightarrow> (ReconcileRaised err, w)
     | Inr ids \<Rightarrow>
         (case ordered_instances ids (next_instance_id (the_queue w)) of (ids', start) \<Rightarrow>
          (case scan_instances rig fuel ids' 0 None (set_next_instance start w) of
             ((ScanDone n, None), w1) \<Rightarrow>
               let w2 = advance rig (set_next_instance None w1) in (Scheduled n, with_queue (complete_reconcile (the_queue w2)) w2)
           | ((ScanDone n, Some err), w1) \<Rightarrow> (ReconcileRaised err, w1)
           | ((ScanFull n, _), w1) \<Rightarrow> (Scheduled n, w1)
           | ((ScanRaised err, _), w1) \<Rightarrow> (ReconcileRaised err, w1)
           | ((ScanEndless, _), w1) \<Rightarrow> (Endless, w1))))"

definition reconcile :: "scan_rig \<Rightarrow> nat \<Rightarrow> scan_world \<Rightarrow> reconcile_result \<times> scan_world" where
  "reconcile rig fuel w =
    (let w1 = advance rig w in
     case begin_reconcile (the_queue w1) of
       (Waits, _) \<Rightarrow> (StillWaiting, w1)
     | (Refused, _) \<Rightarrow> (Scheduled 0, w1)
     | (Begins, d) \<Rightarrow>
         (case reconcile_body rig fuel (with_queue d w1) of (res, w2) \<Rightarrow>
            let w3 = advance rig w2 in (res, with_queue (end_reconcile (the_queue w3)) w3)))"

end
