(* ===== verification/DispatchProperties.thy ===== *)
theory DispatchProperties
  imports Reconciliation
begin

text \<open>
  What the dispatcher guarantees: every job has at most one worker and workers are given in the order of the queue, a
  shutdown starts nothing more, and a reconciliation ends and misses no job unless the queue is full.
\<close>

section \<open>Draining\<close>

lemma drained_event:
  assumes "run_event cfg v g = Some g'" and "draining (queue g)" and "pending (queue g) = []"
  shows "draining (queue g') \<and> pending (queue g') = [] \<and> active (queue g') \<subseteq> active (queue g)
    \<and> (reconciling (queue g') \<longrightarrow> reconciling (queue g))"
  using assms
  by (cases v) (auto simp: enqueue_def begin_reconcile_def complete_reconcile_def end_reconcile_def choose_reference_def
      finish_reference_def try_begin_draining_def begin_graceful_shutdown_def close_dispatcher_def split: if_splits loop_phase.splits)

lemma drained_steps:
  assumes "(engine_step cfg)\<^sup>*\<^sup>* g g'" and "draining (queue g)" and "pending (queue g) = []"
  shows "draining (queue g') \<and> pending (queue g') = [] \<and> active (queue g') \<subseteq> active (queue g)
    \<and> (reconciling (queue g') \<longrightarrow> reconciling (queue g))"
  using assms(1)
proof (induction rule: rtranclp_induct)
  case (step g1 g2)
  then obtain v where "run_event cfg v g1 = Some g2" by (auto elim: engine_step.cases)
  from drained_event [OF this] step.IH show ?case by auto
qed (use assms in simp)

section \<open>The order of the queue\<close>

text \<open>The references that an event appends to the queue, and that it takes from it.\<close>

definition added_by :: "dispatcher_settings \<Rightarrow> engine_event \<Rightarrow> engine \<Rightarrow> engine_job_reference list" where
  "added_by cfg v g = (case v of Enqueue r \<Rightarrow> (case enqueue cfg r (queue g) of Inr (True, _) \<Rightarrow> [r] | _ \<Rightarrow> []) | _ \<Rightarrow> [])"

definition taken_by :: "dispatcher_settings \<Rightarrow> engine_event \<Rightarrow> engine \<Rightarrow> engine_job_reference list" where
  "taken_by cfg v g =
    (case v of
       Choose due \<Rightarrow> if loop g = Choosing \<and> \<not> stopped (queue g)
                     then (case fst (choose_reference cfg due (queue g)) of Taken r \<Rightarrow> [r] | _ \<Rightarrow> []) else []
     | _ \<Rightarrow> [])"

fun log_of :: "(dispatcher_settings \<Rightarrow> engine_event \<Rightarrow> engine \<Rightarrow> engine_job_reference list)
    \<Rightarrow> dispatcher_settings \<Rightarrow> engine_event list \<Rightarrow> engine \<Rightarrow> engine_job_reference list" where
  "log_of f cfg [] g = []"
| "log_of f cfg (v # vs) g = f cfg v g @ log_of f cfg vs (case run_event cfg v g of None \<Rightarrow> g | Some g' \<Rightarrow> g')"

lemma fifo_event:
  assumes "v \<noteq> Shutdown"
  shows "taken_by cfg v g @ pending (queue (case run_event cfg v g of None \<Rightarrow> g | Some g' \<Rightarrow> g')) = pending (queue g) @ added_by cfg v g"
  using assms
  by (cases v) (auto simp: taken_by_def added_by_def enqueue_def begin_reconcile_def complete_reconcile_def end_reconcile_def
      choose_reference_def finish_reference_def try_begin_draining_def close_dispatcher_def split: if_splits loop_phase.splits list.splits)

lemma fifo_events:
  "Shutdown \<notin> set vs \<Longrightarrow>
     log_of taken_by cfg vs g @ pending (queue (run_events cfg vs g)) = pending (queue g) @ log_of added_by cfg vs g"
proof (induction cfg vs g rule: run_events.induct)
  case (2 cfg v vs g)
  let ?g = "case run_event cfg v g of None \<Rightarrow> g | Some g' \<Rightarrow> g'"
  have "taken_by cfg v g @ pending (queue ?g) = pending (queue g) @ added_by cfg v g"
    using "2.prems" by (intro fifo_event) auto
  with 2 show ?case by (simp only: run_events.simps log_of.simps append_assoc list.set) (metis append_assoc insertCI)
qed simp

section \<open>Pages of candidates\<close>

text \<open>A job that waits for the engine and that no worker holds at any moment of the scan.\<close>

definition waits_for_engine :: "scan_rig \<Rightarrow> store \<Rightarrow> job_row \<Rightarrow> bool" where
  "waits_for_engine rig s r \<longleftrightarrow> execution_owner r = ENGINE \<and> principal r = LOCAL_USER_PRINCIPAL \<and> (state r = QUEUED \<or> state r = RUNNING)
     \<and> (\<forall>n. \<not> (\<exists>l \<in> set (job_leases s). l_job_id l = job_id r \<and> clock (env_at rig n) < l_expires_at l))"

definition stores_stand_still :: "scan_rig \<Rightarrow> (string \<Rightarrow> store) \<Rightarrow> bool" where
  "stores_stand_still rig st \<longleftrightarrow> (\<forall>k i. store_at rig k i = st i) \<and> (\<forall>i. distinct (map job_id (jobs (st i))))"

definition beyond :: "scan_cursor \<Rightarrow> job_row \<Rightarrow> bool" where
  "beyond c r \<longleftrightarrow> (case c of None \<Rightarrow> True | Some k \<Rightarrow> k < job_order r)"

lemma beyond_simps: "beyond None r" "beyond (Some (a, b)) r \<longleftrightarrow> a < created_at r \<or> (created_at r = a \<and> b < job_id r)"
  by (auto simp: beyond_def)

definition the_reference :: "string \<Rightarrow> 'a job_scheme \<Rightarrow> engine_job_reference" where
  "the_reference inst r = \<lparr>workspace_instance_id = inst, ref_job_id = job_id r\<rparr>"

lemma job_order_from_row [simp]: "job_order (job_from_row r) = job_order r" "the_reference inst (job_from_row r) = the_reference inst r"
  by (simp_all add: job_from_row_def the_reference_def job.defs)

text \<open>A page is the beginning of a strictly ordered list of jobs beyond the cursor that contains every job that waits.\<close>

lemma read_candidatesD:
  assumes "read_candidates rig inst after w = Inr js" and "distinct (map job_id (jobs s))" and "store_at rig (moments w) inst = s"
  obtains rs where "js = map job_from_row (take DISCOVERY_PAGE_SIZE rs)" and "sorted_wrt (\<lambda>x y. job_order x < job_order y) rs"
    and "\<And>r. r \<in> set rs \<Longrightarrow> r \<in> set (jobs s) \<and> beyond after r"
    and "\<And>r. r \<in> set (jobs s) \<Longrightarrow> waits_for_engine rig s r \<Longrightarrow> beyond after r \<Longrightarrow> r \<in> set rs"
proof -
  define p where "p r \<longleftrightarrow> execution_owner r = ENGINE \<and> principal r = LOCAL_USER_PRINCIPAL \<and> (state r = QUEUED \<or> state r = RUNNING)
     \<and> \<not> (\<exists>l \<in> set (job_leases s). l_job_id l = job_id r \<and> clock (env_at rig (moments w)) < l_expires_at l) \<and> beyond after r" for r :: job_row
  define rs where "rs = sort_key job_order (filter p (jobs s))"
  have "js = map job_from_row (take DISCOVERY_PAGE_SIZE rs)"
    using assms(1,3) unfolding rs_def p_def
    by (cases after) (auto simp: beyond_simps read_candidates_def list_engine_execution_candidates_def DISCOVERY_PAGE_SIZE_def result_simps split: option.splits if_splits)
  moreover have "sorted_wrt (\<lambda>x y. job_order x < job_order y) rs"
  proof -
    have "distinct (map job_order (filter p (jobs s)))"
      using assms(2) by (intro distinct_map_filter) (auto simp: distinct_map inj_on_def)
    then have "sorted_wrt (<) (map job_order rs)"
      by (simp add: rs_def strict_sorted_iff distinct_map)
    then show ?thesis by (simp add: sorted_wrt_map)
  qed
  moreover have "r \<in> set rs \<longleftrightarrow> r \<in> set (jobs s) \<and> p r" for r by (auto simp: rs_def)
  ultimately show thesis by (intro that [of rs]) (auto simp: p_def waits_for_engine_def)
qed

lemma enqueue_page_cursor:
  "enqueue_page rig inst js after n w = (PageDone m c, w') \<Longrightarrow> c = (if js = [] then after else Some (job_order (last js)))"
  by (induction rig inst js after n w rule: enqueue_page.induct) (auto simp: Let_def split: if_splits sum.splits prod.splits)

section \<open>A reconciliation ends\<close>

definition jobs_beyond :: "scan_cursor \<Rightarrow> store \<Rightarrow> nat" where
  "jobs_beyond c s = length (filter (beyond c) (jobs s))"

lemma jobs_beyond_last:
  assumes "rs \<noteq> []" and "\<And>r. r \<in> set rs \<Longrightarrow> r \<in> set (jobs s) \<and> beyond after r"
  shows "jobs_beyond (Some (job_order (last rs))) s < jobs_beyond after s"
proof -
  let ?r = "last rs"
  have last: "?r \<in> set (jobs s)" "beyond after ?r" using assms by simp_all
  then have imp: "beyond (Some (job_order ?r)) r \<Longrightarrow> beyond after r" for r
    by (auto simp: beyond_def split: option.splits)
  have "filter (beyond (Some (job_order ?r))) (jobs s) = filter (\<lambda>r. beyond (Some (job_order ?r)) r) (filter (beyond after) (jobs s))"
    using imp by (auto intro!: filter_cong simp: conj_absorb)
  also have "length \<dots> < length (filter (beyond after) (jobs s))"
    using last by (intro length_filter_less [of ?r]) (auto simp: beyond_def)
  finally show ?thesis by (simp add: jobs_beyond_def)
qed

lemma scan_instance_ends:
  assumes "\<And>k. store_at rig k inst = s" and "distinct (map job_id (jobs s))" and "jobs_beyond after s < fuel"
  shows "fst (scan_instance rig inst fuel after n w) \<noteq> ScanEndless"
  using assms(3)
proof (induction fuel arbitrary: after n w)
  case (Suc fuel)
  have next_page: "jobs_beyond c s < fuel"
    if "read_candidates rig inst after w = Inr js" "js \<noteq> []" "enqueue_page rig inst js after n (advance rig w) = (PageDone m c, w2)" for js m c w2
  proof -
    from that(1) assms obtain rs where js: "js = map job_from_row (take DISCOVERY_PAGE_SIZE rs)"
      and rs: "\<And>r. r \<in> set rs \<Longrightarrow> r \<in> set (jobs s) \<and> beyond after r" by (elim read_candidatesD) auto
    with that(2) have "c = Some (job_order (last (take DISCOVERY_PAGE_SIZE rs)))"
      using enqueue_page_cursor [OF that(3)] by (simp add: last_map)
    moreover have "jobs_beyond (Some (job_order (last (take DISCOVERY_PAGE_SIZE rs)))) s < jobs_beyond after s"
      using js that(2) rs by (intro jobs_beyond_last) (auto dest: in_set_takeD)
    ultimately show ?thesis using Suc.prems by simp
  qed
  show ?case using Suc.IH next_page by (auto simp: Let_def split: sum.splits page_end.splits prod.splits)
qed simp

section \<open>A reconciliation misses nothing\<close>

text \<open>What the sections of other threads may do while no job is finished and only this reconciliation moves its cursors.\<close>

fun keeps_jobs :: "engine_event \<Rightarrow> bool" where
  "keeps_jobs Decline = False"
| "keeps_jobs AdmissionFailed = False"
| "keeps_jobs (WorkerEnds _ _) = False"
| "keeps_jobs Shutdown = False"
| "keeps_jobs BeginReconcile = False"
| "keeps_jobs CompleteReconcile = False"
| "keeps_jobs EndReconcile = False"
| "keeps_jobs (MoveCursor _ _) = False"
| "keeps_jobs _ = True"

definition grows :: "dispatcher \<Rightarrow> dispatcher \<Rightarrow> bool" where
  "grows d d' \<longleftrightarrow> known d \<subseteq> known d' \<and> (finite (known d) \<longrightarrow> finite (known d')) \<and> scan_cursors d' = scan_cursors d
     \<and> (draining d \<longrightarrow> draining d')"

lemma grows_refl: "grows d d" and grows_trans: "grows d d1 \<Longrightarrow> grows d1 d2 \<Longrightarrow> grows d d2"
  by (auto simp: grows_def)

lemma grows_event: "run_event cfg v g = Some g' \<Longrightarrow> keeps_jobs v \<Longrightarrow> grows (queue g) (queue g')"
  by (cases v) (auto simp: grows_def enqueue_def choose_reference_def try_begin_draining_def close_dispatcher_def
      split: if_splits loop_phase.splits list.splits)

lemma grows_events: "(\<forall>v \<in> set vs. keeps_jobs v) \<Longrightarrow> grows (queue g) (queue (run_events cfg vs g))"
proof (induction cfg vs g rule: run_events.induct)
  case (2 cfg v vs g)
  then show ?case
    by (cases "run_event cfg v g") (auto intro: grows_trans dest: grows_event)
qed (simp add: grows_refl)

text \<open>The surroundings of a scan that misses nothing: the stores stand still, and other threads finish no job.\<close>

definition undisturbed :: "scan_rig \<Rightarrow> (string \<Rightarrow> store) \<Rightarrow> bool" where
  "undisturbed rig st \<longleftrightarrow> stores_stand_still rig st \<and> (\<forall>k. \<forall>v \<in> set (meanwhile rig k). keeps_jobs v)"

lemma grows_advance: "undisturbed rig st \<Longrightarrow> grows (the_queue w) (the_queue (advance rig w))"
  by (simp add: advance_def undisturbed_def grows_events)

lemma the_queue_with [simp]: "the_queue (with_queue d w) = d"
  by (simp add: with_queue_def)

definition full :: "scan_rig \<Rightarrow> dispatcher \<Rightarrow> bool" where
  "full rig d \<longleftrightarrow> maximum_pending_jobs (settings rig) \<le> int (card (known d))"

lemma full_grows: "full rig d \<Longrightarrow> finite (known d) \<Longrightarrow> known d \<subseteq> known d' \<Longrightarrow> finite (known d') \<Longrightarrow> full rig d'"
  using card_mono [of "known d'" "known d"] by (auto simp: full_def)

lemma enqueue_grows: "enqueue cfg r d = Inr (b, d') \<Longrightarrow> grows d d' \<and> r \<in> known d'"
  by (auto simp: enqueue_def grows_def split: if_splits)

text \<open>A page that fills the queue: its first jobs are known, and the cursor stands behind them.\<close>

definition stops_after :: "string \<Rightarrow> job list \<Rightarrow> scan_cursor \<Rightarrow> scan_cursor \<Rightarrow> dispatcher \<Rightarrow> bool" where
  "stops_after inst js after c d \<longleftrightarrow> (\<exists>k. the_reference inst ` set (take k js) \<subseteq> known d
     \<and> c = (if take k js = [] then after else Some (job_order (last (take k js)))))"

lemma stops_after_Cons:
  assumes "the_reference inst j \<in> known d" and "stops_after inst js (Some (job_order j)) c d"
  shows "stops_after inst (j # js) after c d"
proof -
  from assms(2) obtain k where "the_reference inst ` set (take k js) \<subseteq> known d"
    "c = (if take k js = [] then Some (job_order j) else Some (job_order (last (take k js))))" by (auto simp: stops_after_def)
  with assms(1) show ?thesis unfolding stops_after_def by (intro exI [of _ "Suc k"]) simp
qed

lemma enqueue_page_knows:
  assumes "undisturbed rig st" and "enqueue_page rig inst js after n w = (e, w')"
  shows "grows (the_queue w) (the_queue w') \<and> (\<forall>m c. e = PageDone m c \<longrightarrow> the_reference inst ` set js \<subseteq> known (the_queue w'))
    \<and> (\<forall>m c. e = PageFull m c \<longrightarrow> full rig (the_queue w') \<and> stops_after inst js after c (the_queue w'))"
  using assms
proof (induction rig inst js after n w rule: enqueue_page.induct)
  case (2 rig inst j js after n w)
  let ?r = "the_reference inst j" and ?w = "advance rig w"
  have ref: "\<lparr>workspace_instance_id = inst, ref_job_id = job_id j\<rparr> = ?r" by (simp add: the_reference_def)
  have grows: "grows (the_queue w) (the_queue ?w)" using "2.prems"(1) by (rule grows_advance)
  show ?case
  proof (cases "engine_job_reference_valid ?r")
    case False
    with "2.prems" show ?thesis by (auto simp: ref grows_refl)
  next
    case valid: True
    show ?thesis
    proof (cases "enqueue (settings rig) ?r (the_queue ?w)")
      case (Inl err)
      with valid "2.prems" grows show ?thesis
        by (auto simp: ref Let_def full_def enqueue_def engine_draining_def stops_after_def intro: exI [of _ 0] split: if_splits)
    next
      case (Inr x)
      obtain b d where x: "x = (b, d)" by fastforce
      let ?w1 = "with_queue d ?w"
      have "enqueue_page rig inst js (Some (job_order j)) (n + of_bool b) ?w1 = (e, w')"
        using "2.prems"(2) valid Inr x by (simp add: ref Let_def)
      from "2.IH" [OF refl refl _ Inr [unfolded x the_reference_def] refl "2.prems"(1) this [unfolded the_reference_def]] valid
      have ih: "grows d (the_queue w') \<and> (\<forall>m c. e = PageDone m c \<longrightarrow> the_reference inst ` set js \<subseteq> known (the_queue w'))
          \<and> (\<forall>m c. e = PageFull m c \<longrightarrow> full rig (the_queue w') \<and> stops_after inst js (Some (job_order j)) c (the_queue w'))"
        by (simp add: the_reference_def)
      moreover have "grows (the_queue ?w) d \<and> ?r \<in> known d" using Inr x by (auto dest: enqueue_grows)
      moreover from this ih have "?r \<in> known (the_queue w')" by (auto simp: grows_def)
      ultimately show ?thesis using grows stops_after_Cons [of inst j "the_queue w'" js _ after] by (auto intro: grows_trans)
    qed
  qed
qed (auto simp: grows_refl)

text \<open>Moving a cursor changes nothing else.\<close>

lemma cursor_queue [simp]: "known (the_queue (set_cursor i c w)) = known (the_queue w)"
  "draining (the_queue (set_cursor i c w)) = draining (the_queue w)"
  "scan_cursors (the_queue (set_cursor i c w)) = (scan_cursors (the_queue w))(i := c)"
  "known (the_queue (set_next_instance s w)) = known (the_queue w)"
  "draining (the_queue (set_next_instance s w)) = draining (the_queue w)"
  "scan_cursors (the_queue (set_next_instance s w)) = scan_cursors (the_queue w)"
  by (simp_all add: set_cursor_def set_next_instance_def)

definition keeps_known :: "dispatcher \<Rightarrow> dispatcher \<Rightarrow> bool" where
  "keeps_known d d' \<longleftrightarrow> known d \<subseteq> known d' \<and> (finite (known d) \<longrightarrow> finite (known d')) \<and> (draining d \<longrightarrow> draining d')"

lemma keeps_known_trans: "keeps_known d d1 \<Longrightarrow> keeps_known d1 d2 \<Longrightarrow> keeps_known d d2"
  and keeps_known_grows: "grows d d' \<Longrightarrow> keeps_known d d'"
  and keeps_known_same: "known d' = known d \<Longrightarrow> draining d' = draining d \<Longrightarrow> keeps_known d d'"
  by (auto simp: keeps_known_def grows_def)

lemma page_covers:
  assumes "sorted_wrt (\<lambda>x y. job_order x < job_order y) rs" and "take k rs \<noteq> []" and "r \<in> set rs"
    and "\<not> beyond (Some (job_order (last (take k rs)))) r"
  shows "r \<in> set (take k rs)"
proof (rule ccontr)
  assume "r \<notin> set (take k rs)"
  then have "r \<in> set (drop k rs)" using assms(3) by (metis Un_iff append_take_drop_id set_append)
  moreover have "sorted_wrt (\<lambda>x y. job_order x < job_order y) (take k rs @ drop k rs)" using assms(1) by simp
  ultimately have "job_order (last (take k rs)) < job_order r"
    using assms(2) unfolding sorted_wrt_append by (meson last_in_set)
  with assms(4) show False by (simp add: beyond_def)
qed

text \<open>What is known of an instance's jobs between two cursors, and from a cursor on.\<close>

definition knows_between :: "scan_rig \<Rightarrow> store \<Rightarrow> string \<Rightarrow> scan_cursor \<Rightarrow> scan_cursor \<Rightarrow> dispatcher \<Rightarrow> bool" where
  "knows_between rig s inst c0 c d \<longleftrightarrow>
     (\<forall>r \<in> set (jobs s). waits_for_engine rig s r \<and> beyond c0 r \<and> \<not> beyond c r \<longrightarrow> the_reference inst r \<in> known d)"

definition knows_from :: "scan_rig \<Rightarrow> store \<Rightarrow> string \<Rightarrow> scan_cursor \<Rightarrow> dispatcher \<Rightarrow> bool" where
  "knows_from rig s inst c0 d \<longleftrightarrow>
     (\<forall>r \<in> set (jobs s). waits_for_engine rig s r \<and> beyond c0 r \<longrightarrow> the_reference inst r \<in> known d)"

lemma knows_grows:
  "knows_from rig s inst c0 d \<Longrightarrow> keeps_known d d' \<Longrightarrow> knows_from rig s inst c0 d'"
  "knows_between rig s inst c0 c d \<Longrightarrow> keeps_known d d' \<Longrightarrow> knows_between rig s inst c0 c d'"
  by (auto simp: knows_from_def knows_between_def keeps_known_def)

lemma knows_between_trivial: "knows_between rig s inst c0 c0 d" "knows_between rig s inst c0 None d"
  by (auto simp: knows_between_def beyond_simps)

lemma knows_page:
  assumes "undisturbed rig st" and "read_candidates rig inst after w = Inr js" and "knows_between rig (st inst) inst c0 after d"
    and "known d \<subseteq> known d'"
  shows "stops_after inst js after c d' \<Longrightarrow> knows_between rig (st inst) inst c0 c d'"
    and "the_reference inst ` set js \<subseteq> known d' \<Longrightarrow> length js < DISCOVERY_PAGE_SIZE \<Longrightarrow> knows_from rig (st inst) inst c0 d'"
proof -
  have st: "distinct (map job_id (jobs (st inst)))" "store_at rig (moments w) inst = st inst"
    using assms(1) by (auto simp: undisturbed_def stores_stand_still_def)
  obtain rs where js: "js = map job_from_row (take DISCOVERY_PAGE_SIZE rs)" and sorted: "sorted_wrt (\<lambda>x y. job_order x < job_order y) rs"
    and "\<And>r. r \<in> set rs \<Longrightarrow> r \<in> set (jobs (st inst)) \<and> beyond after r"
    and complete: "\<And>r. r \<in> set (jobs (st inst)) \<Longrightarrow> waits_for_engine rig (st inst) r \<Longrightarrow> beyond after r \<Longrightarrow> r \<in> set rs"
    by (rule read_candidatesD [OF assms(2) st]) (rule that; assumption)
  have before: "the_reference inst r \<in> known d'"
    if "r \<in> set (jobs (st inst))" "waits_for_engine rig (st inst) r" "beyond c0 r" "\<not> beyond after r" for r
    using that assms(3,4) by (auto simp: knows_between_def)
  show "knows_between rig (st inst) inst c0 c d'" if "stops_after inst js after c d'"
  proof -
    from that obtain k where k: "the_reference inst ` set (take k js) \<subseteq> known d'"
      and c: "c = (if take k js = [] then after else Some (job_order (last (take k js))))" by (auto simp: stops_after_def)
    let ?page = "take (min k DISCOVERY_PAGE_SIZE) rs"
    have cut: "take k js = map job_from_row ?page" by (simp add: js take_map)
    have page: "r \<in> set ?page \<Longrightarrow> the_reference inst r \<in> known d'" for r
      using k by (auto simp: cut image_image)
    have "the_reference inst r \<in> known d'"
      if r: "r \<in> set (jobs (st inst))" "waits_for_engine rig (st inst) r" "beyond c0 r" "\<not> beyond c r" for r
    proof (cases "beyond after r")
      case True
      then have inside: "?page \<noteq> []" using r(4) c cut by (auto split: if_splits)
      then have "c = Some (job_order (last ?page))" unfolding c cut by (simp only: last_map [OF inside] job_order_from_row inside map_is_Nil_conv if_False)
      then have "\<not> beyond (Some (job_order (last ?page))) r" using r(4) by simp
      with page_covers [OF sorted inside] complete [OF r(1,2) True] page show ?thesis by blast
    qed (use r before in blast)
    then show ?thesis by (auto simp: knows_between_def)
  qed
  show "knows_from rig (st inst) inst c0 d'" if "the_reference inst ` set js \<subseteq> known d'" "length js < DISCOVERY_PAGE_SIZE"
  proof -
    have "r \<in> set rs \<Longrightarrow> the_reference inst r \<in> known d'" for r using that js by (auto simp: image_image)
    with before complete show ?thesis by (auto simp: knows_from_def)
  qed
qed

lemma scan_instance_finds:
  assumes "undisturbed rig st" and "scan_instance rig inst fuel after n w = (e, w')"
    and "knows_between rig (st inst) inst c0 after (the_queue w)"
  shows "keeps_known (the_queue w) (the_queue w')
    \<and> (\<forall>m. e = ScanDone m \<longrightarrow> knows_from rig (st inst) inst c0 (the_queue w')
         \<and> scan_cursors (the_queue w') = (scan_cursors (the_queue w))(inst := None))
    \<and> (\<forall>m. e = ScanFull m \<longrightarrow> full rig (the_queue w') \<and> (\<exists>c. knows_between rig (st inst) inst c0 c (the_queue w')
         \<and> scan_cursors (the_queue w') = (scan_cursors (the_queue w))(inst := c)))"
  using assms(2,3)
proof (induction fuel arbitrary: after n w)
  case 0
  then show ?case by (auto simp: keeps_known_def)
next
  case (Suc fuel)
  let ?w = "advance rig w"
  have w: "grows (the_queue w) (the_queue ?w)" using assms(1) by (rule grows_advance)
  consider (unread) err where "e = ScanRaised err" "w' = ?w"
    | (raised) js err where "enqueue_page rig inst js after n ?w = (PageRaised err, w')" "e = ScanRaised err"
    | (over) "read_candidates rig inst after w = Inr []" "e = ScanDone n" "w' = set_cursor inst None ?w"
    | (page) js m c w2 where "read_candidates rig inst after w = Inr js" "js \<noteq> []" "enqueue_page rig inst js after n ?w = (PageDone m c, w2)"
        "(if length js < DISCOVERY_PAGE_SIZE then (ScanDone m, set_cursor inst None w2)
          else scan_instance rig inst fuel c m (set_cursor inst c w2)) = (e, w')"
    | (filled) js m c w2 where "read_candidates rig inst after w = Inr js" "enqueue_page rig inst js after n ?w = (PageFull m c, w2)"
        "e = ScanFull m" "w' = set_next_instance (Some inst) (set_cursor inst c w2)"
    using Suc.prems(1) by (auto simp: Let_def split: sum.splits if_splits prod.splits page_end.splits)
  then show ?case
  proof cases
    case unread
    with w show ?thesis by (simp add: keeps_known_grows)
  next
    case raised
    with w enqueue_page_knows [OF assms(1) raised(1)] show ?thesis by (auto intro: keeps_known_trans keeps_known_grows)
  next
    case over
    have "knows_from rig (st inst) inst c0 (the_queue w')"
      using knows_page(2) [OF assms(1) over(1) Suc.prems(2), of "the_queue w'"] over(3) w by (simp add: grows_def DISCOVERY_PAGE_SIZE_def)
    moreover have "keeps_known (the_queue w) (the_queue w')" using w over(3) by (auto simp: grows_def keeps_known_def)
    ultimately show ?thesis using over w by (simp add: grows_def)
  next
    case page
    have w2: "grows (the_queue w) (the_queue w2)" and inside: "the_reference inst ` set js \<subseteq> known (the_queue w2)"
      using enqueue_page_knows [OF assms(1) page(3)] w by (auto intro: grows_trans)
    have "c = Some (job_order (last js))" using enqueue_page_cursor [OF page(3)] page(2) by simp
    then have stops: "stops_after inst js after c (the_queue w2)"
      using inside page(2) unfolding stops_after_def by (intro exI [of _ "length js"]) simp
    let ?w2 = "set_cursor inst c w2"
    have "known (the_queue w) \<subseteq> known (the_queue w2)" using w2 by (simp add: grows_def)
    note covers = knows_page [OF assms(1) page(1) Suc.prems(2) this]
    show ?thesis
    proof (cases "length js < DISCOVERY_PAGE_SIZE")
      case True
      with page(4) covers(2) [OF inside] w2 show ?thesis by (auto simp: grows_def keeps_known_def knows_from_def)
    next
      case False
      with page(4) have "scan_instance rig inst fuel c m ?w2 = (e, w')" by simp
      moreover have "knows_between rig (st inst) inst c0 c (the_queue ?w2)"
        using covers(1) [OF stops] by (simp add: knows_between_def)
      ultimately have "keeps_known (the_queue ?w2) (the_queue w')
          \<and> (\<forall>m. e = ScanDone m \<longrightarrow> knows_from rig (st inst) inst c0 (the_queue w')
            \<and> scan_cursors (the_queue w') = (scan_cursors (the_queue ?w2))(inst := None))
          \<and> (\<forall>m. e = ScanFull m \<longrightarrow> full rig (the_queue w') \<and> (\<exists>c. knows_between rig (st inst) inst c0 c (the_queue w')
            \<and> scan_cursors (the_queue w') = (scan_cursors (the_queue ?w2))(inst := c)))" by (rule Suc.IH)
      moreover have "scan_cursors (the_queue ?w2) = (scan_cursors (the_queue w))(inst := c)" using w2 by (simp add: grows_def)
      moreover have "keeps_known (the_queue w) (the_queue ?w2)" using w2 by (simp add: grows_def keeps_known_def)
      ultimately show ?thesis using keeps_known_trans by (simp only: fun_upd_upd) blast
    qed
  next
    case filled
    note knows = enqueue_page_knows [OF assms(1) filled(2)]
    have w2: "grows (the_queue w) (the_queue w2)" using w knows by (auto intro: grows_trans)
    then have "known (the_queue w) \<subseteq> known (the_queue w2)" by (simp add: grows_def)
    from knows_page(1) [OF assms(1) filled(1) Suc.prems(2) this] knows
    have "knows_between rig (st inst) inst c0 c (the_queue w2)" by simp
    with knows w2 filled(3,4) show ?thesis by (auto simp: grows_def keeps_known_def full_def knows_between_def)
  qed
qed

text \<open>
  All instances, from the cursors \<open>c0\<close> on: an instance that was scanned begins at the beginning again, one whose scan filled the
  queue goes on where it stopped, and the others keep their cursors.
\<close>

lemma scan_instances_find:
  assumes "undisturbed rig st" and "scan_instances rig fuel ids n err w = ((e, err'), w')"
    and "\<forall>i. scan_cursors (the_queue w) i \<in> {c0 i, None}"
  shows "keeps_known (the_queue w) (the_queue w')
    \<and> (err' = None \<longrightarrow> err = None \<and> (\<forall>m. e = ScanDone m \<longrightarrow>
         (\<forall>i \<in> set ids. knows_from rig (st i) i (c0 i) (the_queue w') \<and> scan_cursors (the_queue w') i = None)))
    \<and> (\<forall>m. e = ScanFull m \<longrightarrow> full rig (the_queue w'))
    \<and> (\<forall>m. e = ScanDone m \<or> e = ScanFull m \<longrightarrow> (\<forall>i. knows_between rig (st i) i (c0 i) (scan_cursors (the_queue w') i) (the_queue w')))
    \<and> (\<forall>m. e = ScanDone m \<longrightarrow> (\<forall>i. scan_cursors (the_queue w') i \<in> {scan_cursors (the_queue w) i, None}))"
  using assms(2,3)
proof (induction ids arbitrary: n err w)
  case Nil
  then have "knows_between rig (st i) i (c0 i) (scan_cursors (the_queue w) i) (the_queue w)" for i
    using knows_between_trivial by (metis insertE singletonD)
  with Nil show ?case by (auto simp: keeps_known_def)
next
  case (Cons i ids)
  let ?w = "advance rig w"
  have w: "grows (the_queue w) (the_queue ?w)" using assms(1) by (rule grows_advance)
  then have k: "keeps_known (the_queue w) (the_queue ?w)" and same: "scan_cursors (the_queue ?w) = scan_cursors (the_queue w)"
    by (simp_all add: keeps_known_grows grows_def)
  then have cursors: "\<forall>i. scan_cursors (the_queue ?w) i \<in> {c0 i, None}" using Cons.prems(2) by simp
  show ?case
  proof (cases "open_error rig (moments w) i")
    case (Some x)
    then consider (later) c k where "x = DomainError c k"
        "scan_instances rig fuel ids n (if err = None then Some (DomainError c k) else err) ?w = ((e, err'), w')"
      | (raised) "e = ScanRaised x" "w' = ?w" "err' = err"
      using Cons.prems(1) by (cases x) auto
    then show ?thesis
    proof cases
      case later
      from Cons.IH [OF later(2) cursors] keeps_known_trans [OF k] same show ?thesis
        by (auto split: if_splits)
    next
      case raised
      with k show ?thesis by simp
    qed
  next
    case None
    let ?c = "scan_cursors (the_queue w) i"
    obtain e1 w1 where scan: "scan_instance rig i fuel ?c n ?w = (e1, w1)" by fastforce
    have "knows_between rig (st i) i (c0 i) ?c (the_queue ?w)"
      using Cons.prems(2) knows_between_trivial by (metis insertE singletonD)
    note found = scan_instance_finds [OF assms(1) scan this]
    from None scan Cons.prems(1) consider (on) m where "e1 = ScanDone m" "scan_instances rig fuel ids m err w1 = ((e, err'), w')"
      | (stop) "e = e1" "err' = err" "w' = w1" "\<And>m. e1 \<noteq> ScanDone m"
      by (cases e1) auto
    then show ?thesis
    proof cases
      case on
      with found have w1: "scan_cursors (the_queue w1) = (scan_cursors (the_queue w))(i := None)" "keeps_known (the_queue ?w) (the_queue w1)"
        and knows: "knows_from rig (st i) i (c0 i) (the_queue w1)" using same by auto
      have kept: "keeps_known (the_queue w) (the_queue w1)" using k w1(2) by (blast intro: keeps_known_trans)
      have "\<forall>i. scan_cursors (the_queue w1) i \<in> {c0 i, None}" using w1(1) Cons.prems(2) by simp
      note ih = Cons.IH [OF on(2) this]
      have "knows_from rig (st i) i (c0 i) (the_queue w')" using ih knows_grows(1) [OF knows] by blast
      moreover have "\<forall>m. e = ScanDone m \<longrightarrow> scan_cursors (the_queue w') i = None" using ih w1(1) by (metis fun_upd_same insertE singletonD)
      moreover have "\<forall>m. e = ScanDone m \<longrightarrow> (\<forall>j. scan_cursors (the_queue w') j \<in> {scan_cursors (the_queue w) j, None})"
        using ih w1(1) by (metis fun_upd_apply insertE insertI1 insert_commute singletonD)
      moreover have "keeps_known (the_queue w) (the_queue w')" using ih keeps_known_trans [OF kept] by blast
      ultimately show ?thesis using ih by (metis set_ConsD)
    next
      case stop
      have full_end: "knows_between rig (st j) j (c0 j) (scan_cursors (the_queue w') j) (the_queue w')" if "e = ScanFull m" for m j
      proof -
        from found stop that obtain c where c: "knows_between rig (st i) i (c0 i) c (the_queue w')"
          "scan_cursors (the_queue w') = (scan_cursors (the_queue w))(i := c)" using same by auto
        show ?thesis
        proof (cases "j = i")
          case False
          then have "scan_cursors (the_queue w') j \<in> {c0 j, None}" using c(2) Cons.prems(2) by simp
          then show ?thesis using knows_between_trivial by (metis insertE singletonD)
        qed (use c in simp)
      qed
      have "keeps_known (the_queue w) (the_queue w')" using found stop keeps_known_trans [OF k] by blast
      moreover have "\<forall>m. e \<noteq> ScanDone m" using stop by blast
      ultimately show ?thesis using found stop full_end by blast
    qed
  qed
qed

lemma scan_instances_end:
  assumes "stores_stand_still rig st" and "\<And>i. i \<in> set ids \<Longrightarrow> length (jobs (st i)) < fuel"
  shows "fst (fst (scan_instances rig fuel ids n err w)) \<noteq> ScanEndless"
  using assms(2)
proof (induction ids arbitrary: n err w)
  case (Cons i ids)
  have "jobs_beyond c (st i) \<le> length (jobs (st i))" for c by (simp add: jobs_beyond_def)
  with Cons.prems have "jobs_beyond c (st i) < fuel" for c by (metis le_less_trans list.set_intros(1))
  with assms(1) have ends: "fst (scan_instance rig i fuel c n w) \<noteq> ScanEndless" for c w
    by (intro scan_instance_ends [of rig i "st i"]) (auto simp: stores_stand_still_def)
  have ih: "fst (fst (scan_instances rig fuel ids n err w)) \<noteq> ScanEndless" for n err w
    using Cons.prems by (intro Cons.IH) simp
  obtain e1 w1 where scan: "scan_instance rig i fuel (scan_cursors (the_queue w) i) n (advance rig w) = (e1, w1)" by fastforce
  from ends [of "scan_cursors (the_queue w) i" "advance rig w"] scan have "e1 \<noteq> ScanEndless" by simp
  with scan ih show ?case
    by (cases "open_error rig (moments w) i"; cases e1) (auto split: store_error.splits)
qed simp

lemma ordered_instances_same: "ordered_instances ids start = (ids', start') \<Longrightarrow> set ids' = set ids"
proof (cases start)
  case (Some i)
  have "set (dropWhile (\<lambda>x. x \<noteq> i) ids @ takeWhile (\<lambda>x. x \<noteq> i) ids) = set ids"
    by (metis Un_commute set_append takeWhile_dropWhile_id)
  then show "ordered_instances ids start = (ids', start') \<Longrightarrow> set ids' = set ids"
    by (auto simp: ordered_instances_def Some split: if_splits)
qed (simp add: ordered_instances_def)

lemma reconcile_body_finds:
  assumes "undisturbed rig st" and "registry_instances rig = Inr ids" and "scan_cursors (the_queue w) = c0"
    and "finite (known (the_queue w))" and "reconcile_body rig fuel w = (Scheduled n, w')"
  shows "finite (known (the_queue w'))
    \<and> (\<forall>i. knows_between rig (st i) i (c0 i) (scan_cursors (the_queue w') i) (the_queue w'))
    \<and> (full rig (the_queue w')
       \<or> (\<forall>i \<in> set ids. knows_from rig (st i) i (c0 i) (the_queue w') \<and> scan_cursors (the_queue w') i = None))"
proof -
  obtain ids' start where ids: "ordered_instances ids (next_instance_id (the_queue w)) = (ids', start)" by fastforce
  let ?w = "set_next_instance start w"
  obtain e err w1 where scan: "scan_instances rig fuel ids' 0 None ?w = ((e, err), w1)" by (metis surj_pair)
  have "\<forall>i. scan_cursors (the_queue ?w) i \<in> {c0 i, None}" using assms(3) by simp
  note all = scan_instances_find [OF assms(1) scan this]
  with assms(4) have found: "finite (known (the_queue w1))"
      "err = None \<Longrightarrow> e = ScanDone m \<Longrightarrow> \<forall>i \<in> set ids'. knows_from rig (st i) i (c0 i) (the_queue w1) \<and> scan_cursors (the_queue w1) i = None"
      "e = ScanFull m \<Longrightarrow> full rig (the_queue w1)"
      "e = ScanDone m \<or> e = ScanFull m \<Longrightarrow> \<forall>i. knows_between rig (st i) i (c0 i) (scan_cursors (the_queue w1) i) (the_queue w1)" for m
    by (auto simp: keeps_known_def)
  let ?d = "complete_reconcile (the_queue (advance rig (set_next_instance None w1)))"
  have last: "keeps_known (the_queue w1) ?d" "scan_cursors ?d = scan_cursors (the_queue w1)"
    using grows_advance [OF assms(1), of "set_next_instance None w1"] by (auto simp: keeps_known_def grows_def complete_reconcile_def)
  from assms(5) consider (ended) m where "e = ScanDone m" "err = None" "the_queue w' = ?d"
    | (filled) m where "e = ScanFull m" "w' = w1"
    by (auto simp: reconcile_body_def assms(2) ids scan Let_def split: scan_end.splits option.splits)
  then show ?thesis
  proof cases
    case (ended m)
    have "finite (known ?d)" using found(1) last(1) by (simp add: keeps_known_def)
    moreover have "\<forall>i. knows_between rig (st i) i (c0 i) (scan_cursors ?d i) ?d"
      using found(4) [of m] ended(1) knows_grows(2) [OF _ last(1)] by (simp add: last(2))
    moreover have "\<forall>i \<in> set ids. knows_from rig (st i) i (c0 i) ?d \<and> scan_cursors ?d i = None"
      using found(2) [OF ended(2,1)] knows_grows(1) [OF _ last(1)] ordered_instances_same [OF ids] by (simp add: last(2))
    ultimately show ?thesis using ended(3) by simp
  next
    case (filled m)
    with found show ?thesis by simp
  qed
qed

section \<open>A concrete engine\<close>

definition demo_settings :: dispatcher_settings where
  "demo_settings = \<lparr>maximum_pending_jobs = 2, maximum_active_workers = 1, interval_is_positive = True\<rparr>"

definition demo_reference :: "char \<Rightarrow> engine_job_reference" where
  "demo_reference c = \<lparr>workspace_instance_id = replicate 32 CHR ''a'', ref_job_id = ''job_00000000-0000-7000-8000-00000000000'' @ [c]\<rparr>"

definition demo_engine :: "engine_event list \<Rightarrow> engine" where
  "demo_engine vs = run_events demo_settings vs (new_engine (projr (new_dispatcher demo_settings)))"

lemma run_events_steps: "(engine_step cfg)\<^sup>*\<^sup>* g (run_events cfg vs g)"
proof (induction cfg vs g rule: run_events.induct)
  case (2 cfg v vs g)
  then show ?case
    by (cases "run_event cfg v g") (auto intro: converse_rtranclp_into_rtranclp engine_step.event)
qed simp

lemma demo_engine_reachable: "engine_reachable demo_settings (demo_engine vs)"
proof -
  have "settings_valid demo_settings" by code_simp
  then show ?thesis
    using run_events_steps [where cfg = demo_settings and vs = vs] by (auto simp: engine_reachable_def demo_engine_def new_dispatcher_def)
qed

text \<open>Two jobs queued, the first with a worker.\<close>

definition demo_events :: "engine_event list" where
  "demo_events = [StartLoop, Enqueue (demo_reference CHR ''1''), Enqueue (demo_reference CHR ''2''), Choose False, StartWorker]"

definition demo_job :: job_row where
  "demo_job = \<lparr>job_id = ref_job_id (demo_reference CHR ''1''), request_hash = ''h'', principal = LOCAL_USER_PRINCIPAL,
     client_request_id = None, execution_owner = ENGINE, state = QUEUED, cancellation_requested = False, retry_of_job_id = None,
     created_at = ''t'', updated_at = ''t'', request_json = None, result = None, error_json = None\<rparr>"

definition demo_scan_store :: store where
  "demo_scan_store = empty_store\<lparr>jobs := [demo_job]\<rparr>"

definition demo_scan_rig :: scan_rig where
  "demo_scan_rig = \<lparr>settings = demo_settings, registry_instances = Inr [replicate 32 CHR ''a''], open_error = (\<lambda>_ _. None),
     read_error = (\<lambda>_ _. None), store_at = (\<lambda>_ _. demo_scan_store), env_at = (\<lambda>_. \<lparr>clock = 0, utc = ''t'', new_id = (\<lambda>p _. p),
     float_repr = (\<lambda>_. None), sha256_digest = (\<lambda>s. s)\<rparr>), time_parser = Instant, meanwhile = (\<lambda>_. [])\<rparr>"

definition demo_scan_world :: scan_world where
  "demo_scan_world = \<lparr>moments = 0, the_engine = demo_engine [StartLoop]\<rparr>"

lemma demo_undisturbed: "undisturbed demo_scan_rig (\<lambda>_. demo_scan_store)" "registry_instances demo_scan_rig = Inr [replicate 32 CHR ''a'']"
  by (simp_all add: undisturbed_def stores_stand_still_def demo_scan_rig_def demo_scan_store_def)

section \<open>The theorems\<close>

text \<open>C25: A job that is queued or being worked on is so once, whatever the threads do: no job has two workers or a worker and a
  place in the queue, there are never more workers than configured, at most four, and the queue keeps its bound.\<close>

theorem one_worker_per_job:
  assumes "engine_reachable cfg g"
  shows "distinct (pending (queue g) @ admitting g @ supervised g)
    \<and> known (queue g) = set (pending (queue g) @ admitting g @ supervised g)
    \<and> int (length (admitting g @ supervised g)) \<le> maximum_active_workers cfg \<and> maximum_active_workers cfg \<le> 4
    \<and> int (length (pending (queue g) @ admitting g @ supervised g)) \<le> maximum_pending_jobs cfg \<and> maximum_pending_jobs cfg \<le> 1000"
  using engine_reachable_ok [OF assms] by (simp add: queue_ok_lists settings_valid_def MAXIMUM_ACTIVE_WORKERS_def)

lemma one_worker_per_job_witness:
  "int (length (supervised (demo_engine demo_events))) = 1 \<and> int (length (admitting (demo_engine demo_events) @ supervised (demo_engine demo_events))) \<le> 1"
proof -
  have "length (supervised (demo_engine demo_events)) = 1" by code_simp
  with one_worker_per_job [OF demo_engine_reachable [of demo_events]] show ?thesis by (simp add: demo_settings_def)
qed

text \<open>C26: As long as no shutdown empties the queue, references are given workers in the order in which they were queued: those
  taken and then those still waiting are those that waited at the beginning and then those queued since.\<close>

theorem workers_in_queue_order:
  assumes "Shutdown \<notin> set vs"
  shows "log_of taken_by cfg vs g @ pending (queue (run_events cfg vs g)) = pending (queue g) @ log_of added_by cfg vs g"
  using assms by (rule fifo_events)

lemma workers_in_queue_order_witness:
  "[demo_reference CHR ''1''] @ pending (queue (demo_engine demo_events)) = [demo_reference CHR ''1'', demo_reference CHR ''2'']"
proof -
  let ?g = "demo_engine []"
  have "log_of taken_by demo_settings demo_events ?g = [demo_reference CHR ''1'']" "pending (queue ?g) = []"
    "log_of added_by demo_settings demo_events ?g = [demo_reference CHR ''1'', demo_reference CHR ''2'']"
    "run_events demo_settings demo_events ?g = demo_engine demo_events" "Shutdown \<notin> set demo_events"
    by (code_simp, code_simp, code_simp, simp_all add: demo_engine_def demo_events_def)
  with workers_in_queue_order [of demo_events demo_settings ?g] show ?thesis by simp
qed

text \<open>C27: After a graceful shutdown no further job gets a worker, whatever the threads do: the queue stays empty and refuses every
  reference, and only the references that had a worker, or had been taken from the queue to be given one, still have or get it. No
  reconciliation begins. The dispatcher is ready to close, and closes without being forced, exactly when the last of those workers
  has ended and no reconciliation that was running at the shutdown is running any more; until then closing is refused as busy.\<close>

theorem shutdown_starts_nothing:
  assumes "engine_reachable cfg g" and "run_event cfg Shutdown g = Some g1" and "(engine_step cfg)\<^sup>*\<^sup>* g1 g'"
  shows "set (admitting g' @ supervised g') \<subseteq> set (admitting g @ supervised g) \<and> pending (queue g') = []
    \<and> enqueue cfg r (queue g') = Inl engine_draining
    \<and> (reconciling (queue g') \<longrightarrow> reconciling (queue g))
    \<and> (ready_to_close (queue g') \<longleftrightarrow> admitting g' @ supervised g' = [] \<and> \<not> reconciling (queue g'))
    \<and> (if admitting g' @ supervised g' = [] \<and> \<not> reconciling (queue g') then \<exists>d. close_dispatcher False (queue g') = Inr d \<and> stopped d
       else close_dispatcher False (queue g') = Inl ''engine_dispatcher_busy'')"
proof -
  have g1: "draining (queue g1)" "pending (queue g1) = []" "active (queue g1) = active (queue g)" "reconciling (queue g1) = reconciling (queue g)"
    using assms(2) by (auto simp: begin_graceful_shutdown_def)
  have "engine_reachable cfg g1" "engine_reachable cfg g'"
    using assms engine_step.event [OF assms(2)] unfolding engine_reachable_def by (meson rtranclp.rtrancl_into_rtrancl rtranclp_trans)+
  then have act: "active (queue g') = set (admitting g' @ supervised g')" "active (queue g) = set (admitting g @ supervised g)"
    using engine_reachable_ok [OF assms(1)] engine_reachable_ok [of cfg g'] by (simp_all add: queue_ok_def)
  then have none: "active (queue g') = {} \<longleftrightarrow> admitting g' @ supervised g' = []" by (simp only: set_empty)
  from drained_steps [OF assms(3) g1(1,2)] g1 act(2)
  have now: "draining (queue g')" "pending (queue g') = []" "active (queue g') \<subseteq> set (admitting g @ supervised g)"
    "reconciling (queue g') \<longrightarrow> reconciling (queue g)" by auto
  have "enqueue cfg r (queue g') = Inl engine_draining" using now(1) by (simp add: enqueue_def)
  moreover have "ready_to_close (queue g') \<longleftrightarrow> admitting g' @ supervised g' = [] \<and> \<not> reconciling (queue g')"
    unfolding ready_to_close_def none [symmetric] using now(1,2) by simp
  moreover have "if active (queue g') = {} \<and> \<not> reconciling (queue g') then \<exists>d. close_dispatcher False (queue g') = Inr d \<and> stopped d
      else close_dispatcher False (queue g') = Inl ''engine_dispatcher_busy''"
    using now(1,2) by (auto simp: close_dispatcher_def)
  ultimately show ?thesis using now act(1) unfolding none by blast
qed

text \<open>One worker and a running reconciliation at the shutdown; both end.\<close>

lemma shutdown_starts_nothing_witness:
  "(let g = demo_engine (demo_events @ [BeginReconcile] @ [Shutdown]) in
      enqueue demo_settings (demo_reference CHR ''2'') (queue g) = Inl engine_draining \<and> \<not> ready_to_close (queue g))
   \<and> ready_to_close (queue (demo_engine (demo_events @ [BeginReconcile] @ [Shutdown] @ [WorkerEnds (demo_reference CHR ''1'') False, EndReconcile])))"
proof -
  have runs: "run_events cfg (vs @ ws) g = run_events cfg ws (run_events cfg vs g)" for cfg vs ws g
    by (induction vs arbitrary: g) auto
  let ?g = "demo_engine (demo_events @ [BeginReconcile])" and ?g1 = "demo_engine (demo_events @ [BeginReconcile] @ [Shutdown])"
  let ?g' = "demo_engine (demo_events @ [BeginReconcile] @ [Shutdown] @ [WorkerEnds (demo_reference CHR ''1'') False, EndReconcile])"
  have down: "run_event demo_settings Shutdown ?g = Some ?g1" by (simp add: demo_engine_def runs)
  have "(engine_step demo_settings)\<^sup>*\<^sup>* ?g1 (run_events demo_settings [WorkerEnds (demo_reference CHR ''1'') False, EndReconcile] ?g1)"
    by (rule run_events_steps)
  then have later: "(engine_step demo_settings)\<^sup>*\<^sup>* ?g1 ?g'" by (simp add: demo_engine_def runs)
  have "supervised ?g1 \<noteq> []" "admitting ?g' @ supervised ?g' = []" "\<not> reconciling (queue ?g')" by code_simp+
  with shutdown_starts_nothing [OF demo_engine_reachable down rtranclp.rtrancl_refl] shutdown_starts_nothing [OF demo_engine_reachable down later]
  show ?thesis unfolding Let_def by blast
qed

text \<open>C28: A reconciliation ends: when the stores stand still, as many pages as the largest of them has jobs, and one more, are
  enough, whatever the other threads do to the queue.\<close>

theorem reconcile_ends:
  assumes "stores_stand_still rig st" and "registry_instances rig = Inr ids" and "\<And>i. i \<in> set ids \<Longrightarrow> length (jobs (st i)) < fuel"
  shows "fst (reconcile rig fuel w) \<noteq> Endless"
proof -
  have "fst (reconcile_body rig fuel w) \<noteq> Endless" for w
  proof -
    obtain ids' start where ids: "ordered_instances ids (next_instance_id (the_queue w)) = (ids', start)" by fastforce
    obtain e err w1 where scan: "scan_instances rig fuel ids' 0 None (set_next_instance start w) = ((e, err), w1)" by (metis surj_pair)
    with scan_instances_end [OF assms(1), of ids' fuel 0 None "set_next_instance start w"] assms(3) ordered_instances_same [OF ids]
    have "e \<noteq> ScanEndless" by simp
    then show ?thesis by (cases e; cases err) (simp_all add: reconcile_body_def assms(2) ids scan Let_def)
  qed
  then show ?thesis by (auto simp: reconcile_def Let_def split: prod.splits reconcile_entry.splits) (metis fst_conv)
qed

lemma reconcile_ends_witness: "fst (reconcile demo_scan_rig 2 demo_scan_world) \<noteq> Endless"
  using reconcile_ends [of demo_scan_rig "\<lambda>_. demo_scan_store" "[replicate 32 CHR ''a'']" 2 demo_scan_world] demo_undisturbed
  by (simp add: undisturbed_def demo_scan_store_def)

text \<open>C29: A reconciliation passes over no job, when meanwhile the stores stand still and other threads end no job, begin no shutdown
  and leave its cursors alone. It goes on from the cursor stored for each workspace, where the last one had to stop: whenever it
  reports a number of jobs without having been refused, every job that waits for the engine between the cursor stored at the beginning
  and the one stored at the end is queued or has a worker; and unless the queue is full, every such job beyond the cursor at the
  beginning is, in every registered workspace, and the cursor is back at the beginning, so that the next reconciliation sees the jobs
  before it. A workspace without a stored cursor is covered as a whole.\<close>

theorem reconcile_misses_nothing:
  assumes "undisturbed rig st" and "registry_instances rig = Inr ids"
    and "finite (known (the_queue w))" and "reconcile rig fuel w = (Scheduled n, w')" and "\<not> draining (the_queue w')"
  shows "(\<forall>i. \<forall>r \<in> set (jobs (st i)). waits_for_engine rig (st i) r \<and> beyond (scan_cursors (the_queue w) i) r
        \<and> \<not> beyond (scan_cursors (the_queue w') i) r \<longrightarrow> the_reference i r \<in> known (the_queue w'))
    \<and> (maximum_pending_jobs (settings rig) \<le> int (card (known (the_queue w')))
      \<or> (\<forall>i \<in> set ids. scan_cursors (the_queue w') i = None
          \<and> (\<forall>r \<in> set (jobs (st i)). waits_for_engine rig (st i) r \<and> beyond (scan_cursors (the_queue w) i) r
               \<longrightarrow> the_reference i r \<in> known (the_queue w'))))"
proof -
  let ?w = "advance rig w" and ?c0 = "scan_cursors (the_queue w)"
  have w: "grows (the_queue w) (the_queue ?w)" using assms(1) by (rule grows_advance)
  from assms(4) consider (refused) "draining (the_queue ?w)" "w' = ?w"
    | (begun) w2 where "reconcile_body rig fuel (with_queue ((the_queue ?w)\<lparr>reconciling := True, reconcile_failed := True\<rparr>) ?w) = (Scheduled n, w2)"
        "the_queue w' = end_reconcile (the_queue (advance rig w2))"
    by (auto simp: reconcile_def begin_reconcile_def Let_def split: if_splits prod.splits)
  then have "(\<forall>i. knows_between rig (st i) i (?c0 i) (scan_cursors (the_queue w') i) (the_queue w'))
    \<and> (full rig (the_queue w') \<or> (\<forall>i \<in> set ids. knows_from rig (st i) i (?c0 i) (the_queue w') \<and> scan_cursors (the_queue w') i = None))"
  proof cases
    case refused
    with assms(5) show ?thesis by simp
  next
    case begun
    have found: "finite (known (the_queue w2)) \<and> (\<forall>i. knows_between rig (st i) i (?c0 i) (scan_cursors (the_queue w2) i) (the_queue w2))
        \<and> (full rig (the_queue w2) \<or> (\<forall>i \<in> set ids. knows_from rig (st i) i (?c0 i) (the_queue w2) \<and> scan_cursors (the_queue w2) i = None))"
      by (rule reconcile_body_finds [OF assms(1,2) _ _ begun(1)]) (use w assms(3) in \<open>auto simp: grows_def\<close>)
    have last: "keeps_known (the_queue w2) (the_queue w')" "scan_cursors (the_queue w') = scan_cursors (the_queue w2)"
      using grows_advance [OF assms(1), of w2] begun(2) by (auto simp: keeps_known_def grows_def end_reconcile_def)
    have "full rig (the_queue w2) \<Longrightarrow> full rig (the_queue w')"
      using found last(1) full_grows [of rig "the_queue w2" "the_queue w'"] by (simp add: keeps_known_def)
    with found show ?thesis
      unfolding last(2) using knows_grows(1) [OF _ last(1)] knows_grows(2) [OF _ last(1)] by blast
  qed
  then show ?thesis by (simp add: knows_between_def knows_from_def full_def) blast
qed

text \<open>One job that waits, found from the beginning; and not from a cursor behind it, which is then forgotten.\<close>

lemma reconcile_misses_nothing_witness:
  "(\<exists>w'. reconcile demo_scan_rig 2 demo_scan_world = (Scheduled 1, w') \<and> the_reference (replicate 32 CHR ''a'') demo_job \<in> known (the_queue w'))
   \<and> (let w = set_cursor (replicate 32 CHR ''a'') (Some (replicate 24 CHR ''z'', job_id demo_job)) demo_scan_world in
        \<exists>w'. reconcile demo_scan_rig 2 w = (Scheduled 0, w') \<and> scan_cursors (the_queue w') (replicate 32 CHR ''a'') = None)"
proof -
  let ?i = "replicate 32 CHR ''a''"
  let ?w = "set_cursor ?i (Some (replicate 24 CHR ''z'', job_id demo_job)) demo_scan_world"
  have finite: "finite (known (the_queue demo_scan_world))" "finite (known (the_queue ?w))"
    and start: "scan_cursors (the_queue demo_scan_world) = (\<lambda>_. None)"
    by (simp_all add: demo_scan_world_def demo_engine_def new_dispatcher_def demo_settings_def settings_valid_def MAXIMUM_ACTIVE_WORKERS_def new_engine_def)
  have "waits_for_engine demo_scan_rig demo_scan_store demo_job" "demo_job \<in> set (jobs demo_scan_store)"
    by (simp_all add: waits_for_engine_def demo_job_def demo_scan_store_def empty_store_def)
  note job = this
  obtain res w' where run: "reconcile demo_scan_rig 2 demo_scan_world = (res, w')" by fastforce
  have "(case reconcile demo_scan_rig 2 demo_scan_world of (res, w') \<Rightarrow> res = Scheduled 1 \<and> \<not> draining (the_queue w') \<and> card (known (the_queue w')) = 1)"
    by code_simp
  with run have res: "res = Scheduled 1" "\<not> draining (the_queue w')" "card (known (the_queue w')) = 1" by simp_all
  from reconcile_misses_nothing [OF demo_undisturbed finite(1) run [unfolded res(1)] res(2)] res(3) job
  have found: "the_reference ?i demo_job \<in> known (the_queue w')"
    by (simp add: start beyond_simps demo_scan_rig_def demo_settings_def)
  obtain res2 w2 where run2: "reconcile demo_scan_rig 2 ?w = (res2, w2)" by fastforce
  have "(case reconcile demo_scan_rig 2 ?w of (res, w') \<Rightarrow> res = Scheduled 0 \<and> \<not> draining (the_queue w') \<and> card (known (the_queue w')) = 0)"
    by code_simp
  with run2 have res2: "res2 = Scheduled 0" "\<not> draining (the_queue w2)" "card (known (the_queue w2)) = 0" by simp_all
  from reconcile_misses_nothing [OF demo_undisturbed finite(2) run2 [unfolded res2(1)] res2(2)] res2(3)
  have "scan_cursors (the_queue w2) ?i = None" by (simp add: demo_scan_rig_def demo_settings_def)
  with run run2 res(1) res2(1) found show ?thesis by simp
qed

end
