(* ===== verification/Admission.thy ===== *)
theory Admission
  imports Flows Dispatcher
begin

text \<open>
  The worker of a job (\<open>engine/job_dispatcher.py\<close>, \<open>_WorkerAdmission\<close> and the methods around it): the dispatcher takes one
  of the machine's slots, hands its lease to the process to come, claims the job in its name and launches it; a
  supervisor settles what the process left behind and gives everything back. A flow here sees the job store of one
  workspace and the machine's lease table; other processes run their own commands on both between its transactions.
\<close>

section \<open>Worlds\<close>

datatype lease_command =
  LAcquire string resource_owner int | LHandoff string resource_lease resource_owner int
| LAdopt resource_handoff int | LHeartbeat string resource_owner nat int | LRelease string resource_owner nat

definition kept_or :: "lease_table \<Rightarrow> store_error + ('a \<times> lease_table) \<Rightarrow> lease_table" where
  "kept_or t r = (case r of Inl _ \<Rightarrow> t | Inr (_, t') \<Rightarrow> t')"

fun run_lease_command :: "int \<Rightarrow> lease_command \<Rightarrow> lease_table \<Rightarrow> lease_table" where
  "run_lease_command now (LAcquire name w ttl) t = kept_or t (acquire_resource now name w ttl t)"
| "run_lease_command now (LHandoff secret l w ttl) t = kept_or t (handoff_resource now secret l w ttl t)"
| "run_lease_command now (LAdopt h ttl) t = kept_or t (adopt_resource now h ttl t)"
| "run_lease_command now (LHeartbeat name w token ttl) t = kept_or t (heartbeat_resource now name w token ttl t)"
| "run_lease_command now (LRelease name w token) t = kept_or t (release_resource name w token t)"

fun run_lease_commands :: "(int \<times> lease_command) list \<Rightarrow> lease_table \<Rightarrow> lease_table" where
  "run_lease_commands [] t = t"
| "run_lease_commands ((now, c) # cs) t = run_lease_commands cs (run_lease_command now c t)"

record engine_world = world +
  lease_rows :: lease_table

type_synonym 'a engine_flow = "engine_world \<Rightarrow> (failure + 'a) \<times> engine_world"

record engine_rig = rig +
  machine_clock :: "nat \<Rightarrow> int"
  lease_others :: "nat \<Rightarrow> (int \<times> lease_command) list"
  lease_fault :: "nat \<Rightarrow> store_error option"
  resolve_error :: "nat \<Rightarrow> engine_job_reference \<Rightarrow> store_error option"
  instance_identity :: "string \<Rightarrow> string"
  fresh_hex :: "nat \<Rightarrow> string"
  fresh_secret :: "nat \<Rightarrow> string"
  engine_pid :: int
  monotonic :: "nat \<Rightarrow> int"
  stopping :: "nat \<Rightarrow> bool"

abbreviation store_rig :: "engine_rig \<Rightarrow> rig" where
  "store_rig \<equiv> rig.truncate"

definition on_leases :: "engine_rig \<Rightarrow> (int \<Rightarrow> lease_table \<Rightarrow> store_error + ('a \<times> lease_table)) \<Rightarrow> 'a engine_flow" where
  "on_leases rig f = (\<lambda>w.
    let t = run_lease_commands (lease_others rig (ticks w)) (lease_rows w); w1 = tick w
    in case lease_fault rig (ticks w) of
         Some err \<Rightarrow> (Inl (Failure err), w1\<lparr>lease_rows := t\<rparr>)
       | None \<Rightarrow> (case f (machine_clock rig (ticks w)) t of
                   Inl err \<Rightarrow> (Inl (Failure err), w1\<lparr>lease_rows := t\<rparr>)
                 | Inr (a, t') \<Rightarrow> (Inr a, w1\<lparr>lease_rows := t'\<rparr>)))"

text \<open>\<open>try: f except Exception: pass\<close>, \<open>try: f finally: g\<close>, and a clean-up \<open>g\<close> before an exception goes on.\<close>

definition quietly :: "'a engine_flow \<Rightarrow> unit engine_flow" where
  "quietly f = (\<lambda>w. (Inr (), snd (f w)))"

definition finally_do :: "'a engine_flow \<Rightarrow> unit engine_flow \<Rightarrow> 'a engine_flow" where
  "finally_do f g = (\<lambda>w. case f w of (r, w1) \<Rightarrow> (case g w1 of (Inl err, w2) \<Rightarrow> (Inl err, w2) | (Inr _, w2) \<Rightarrow> (r, w2)))"

definition on_error :: "'a engine_flow \<Rightarrow> unit engine_flow \<Rightarrow> 'a engine_flow" where
  "on_error f g = (\<lambda>w. case f w of (Inl err, w1) \<Rightarrow> (Inl err, snd (g w1)) | r \<Rightarrow> r)"

section \<open>Values\<close>

definition WORKER_AUTHORITY_TTL_SECONDS :: int where
  "WORKER_AUTHORITY_TTL_SECONDS = 300"

definition MAXIMUM_AUTOMATIC_WORKER_LAUNCHES :: nat where
  "MAXIMUM_AUTOMATIC_WORKER_LAUNCHES = 3"

text \<open>Times of the monotonic clock are counted in milliseconds.\<close>

definition WORKER_HEARTBEAT_INTERVAL :: int where
  "WORKER_HEARTBEAT_INTERVAL = 30000"

definition WORKER_CANCELLATION_POLL :: int where
  "WORKER_CANCELLATION_POLL = 250"

definition WORKER_CANCELLATION_GRACE :: int where
  "WORKER_CANCELLATION_GRACE = 5000"

record worker_admission =
  source_lease :: resource_lease
  adm_launch :: engine_worker_launch
  next_heartbeat :: int
  next_cancel_poll :: int
  cancellation_started :: "int option"

definition job_waits :: "job \<Rightarrow> bool" where
  "job_waits j \<longleftrightarrow> state j = QUEUED \<or> state j = RUNNING"

abbreviation release_claim :: "engine_rig \<Rightarrow> job_execution_authority \<Rightarrow> unit engine_flow" where
  "release_claim rig authority \<equiv> bind (transact (store_rig rig) (\<lambda>_. release_job_claim authority)) (\<lambda>_. return ())"

abbreviation release_lease :: "engine_rig \<Rightarrow> resource_lease \<Rightarrow> unit engine_flow" where
  "release_lease rig l \<equiv> bind (on_leases rig (\<lambda>_. release_resource (resource_name l) (m_owner l) (m_token l))) (\<lambda>_. return ())"

section \<open>A worker that failed too often\<close>

definition exhausted_error :: "nat \<Rightarrow> error_detail" where
  "exhausted_error n = \<lparr>code = ''engine_worker_retry_exhausted'', category = RETRYABLE_RUNTIME,
     message = ''Engine Worker repeatedly failed'', details = [(''automatic_launch_count'', JInt (int n))]\<rparr>"

definition exhausted_attempt :: "engine_rig \<Rightarrow> persisted_job_claim \<Rightarrow> attempt option engine_flow" where
  "exhausted_attempt rig c =
    (let auth = claim_authority c in
     case claim_active_attempt c of
       Some a \<Rightarrow> if a_state a = A_RUNNING \<and> a_token a \<noteq> fencing_token auth
                 then bind (transact (store_rig rig) (\<lambda>e. take_over_running_attempt e (job_id (claim_job_value c)) (attempt_id a) auth))
                        (\<lambda>b. return (Some b))
                 else return (Some a)
     | None \<Rightarrow> return None)"

definition fail_exhausted :: "engine_rig \<Rightarrow> persisted_job_claim \<Rightarrow> nat \<Rightarrow> attempt option \<Rightarrow> unit engine_flow" where
  "fail_exhausted rig c n attempt =
     bind (transact (store_rig rig) (\<lambda>e. fail_job_atomic e (job_id (claim_job_value c)) (exhausted_error n) (map_option attempt_id attempt)
       (Some (claim_authority c)))) (\<lambda>_. return ())"

definition settle_exhausted_attempt :: "engine_rig \<Rightarrow> persisted_job_claim \<Rightarrow> nat \<Rightarrow> attempt option \<Rightarrow> unit engine_flow" where
  "settle_exhausted_attempt rig c n attempt =
    (let jid = job_id (claim_job_value c); auth = claim_authority c in
     case attempt of
       None \<Rightarrow> fail_exhausted rig c n attempt
     | Some a \<Rightarrow>
         bind (transact (store_rig rig) (\<lambda>e. reconcile_external_operations_after_process_loss e jid auth)) (\<lambda>unknown.
         if unknown = [] then fail_exhausted rig c n attempt
         else bind (transact (store_rig rig) (\<lambda>e. pause_for_external_outcome_atomic e jid (attempt_id a) auth)) (\<lambda>_.
              bind (transact (store_rig rig) (\<lambda>_. clear_engine_worker_launches jid auth)) (\<lambda>_. return ()))))"

definition settle_exhausted_failure :: "engine_rig \<Rightarrow> persisted_job_claim \<Rightarrow> nat \<Rightarrow> unit engine_flow" where
  "settle_exhausted_failure rig c n =
    (if \<not> job_waits (claim_job_value c) then return ()
     else bind (exhausted_attempt rig c) (settle_exhausted_attempt rig c n))"

text \<open>The claim under which it happens, and is given back.\<close>

definition settle_under_claim :: "engine_rig \<Rightarrow> string \<Rightarrow> string \<Rightarrow> nat \<Rightarrow> unit engine_flow" where
  "settle_under_claim rig jid owner n =
     bind (transact (store_rig rig) (\<lambda>e. claim_job e jid owner WORKER_AUTHORITY_TTL_SECONDS)) (\<lambda>c.
     finally_do (settle_exhausted_failure rig c n) (release_claim rig (claim_authority c)))"

section \<open>The events of the scheduler\<close>

definition SCHEDULER_WAITING_EVENT :: string where
  "SCHEDULER_WAITING_EVENT = ''scheduler.waiting.v1''"

definition SCHEDULER_ADMITTED_EVENT :: string where
  "SCHEDULER_ADMITTED_EVENT = ''scheduler.admitted.v1''"

definition SCHEDULER_WAITING_PAYLOAD :: string where
  "SCHEDULER_WAITING_PAYLOAD = dumps_ascii (JObj [(''schema_version'', JInt 1), (''reason'', JStr ''resource_capacity''),
     (''resource_class'', JStr ''produce:heavy'')])"

definition SCHEDULER_ADMITTED_PAYLOAD :: string where
  "SCHEDULER_ADMITTED_PAYLOAD = dumps_ascii (JObj [(''schema_version'', JInt 1), (''resource_class'', JStr ''produce:heavy'')])"

definition latest_scheduler_event :: "job_event list \<Rightarrow> string option" where
  "latest_scheduler_event vs =
     map_option event_type (find (\<lambda>v. event_type v = SCHEDULER_WAITING_EVENT \<or> event_type v = SCHEDULER_ADMITTED_EVENT) (rev vs))"

definition resolve_repository :: "engine_rig \<Rightarrow> engine_job_reference \<Rightarrow> unit engine_flow" where
  "resolve_repository rig r = (\<lambda>w. case resolve_error rig (ticks w) r of Some err \<Rightarrow> (Inl (Failure err), tick w) | None \<Rightarrow> (Inr (), tick w))"

definition record_resource_waiting :: "engine_rig \<Rightarrow> engine_job_reference \<Rightarrow> unit engine_flow" where
  "record_resource_waiting rig r =
     bind (resolve_repository rig r) (\<lambda>_.
     bind (observe (store_rig rig) (\<lambda>_. list_events (ref_job_id r) 0)) (\<lambda>vs.
     if latest_scheduler_event vs = Some SCHEDULER_WAITING_EVENT then return ()
     else bind (transact (store_rig rig) (\<lambda>e. append_event e (ref_job_id r) SCHEDULER_WAITING_EVENT SCHEDULER_WAITING_PAYLOAD)) (\<lambda>_. return ())))"

definition record_resource_admitted :: "engine_rig \<Rightarrow> string \<Rightarrow> unit engine_flow" where
  "record_resource_admitted rig jid =
     bind (observe (store_rig rig) (\<lambda>_. list_events jid 0)) (\<lambda>vs.
     if latest_scheduler_event vs \<noteq> Some SCHEDULER_WAITING_EVENT then return ()
     else bind (transact (store_rig rig) (\<lambda>e. append_event e jid SCHEDULER_ADMITTED_EVENT SCHEDULER_ADMITTED_PAYLOAD)) (\<lambda>_. return ()))"

section \<open>Admission\<close>

text \<open>The slots in turn, passing over busy ones; the last of these errors is raised when all are.\<close>

fun acquire_slot :: "engine_rig \<Rightarrow> resource_owner \<Rightarrow> string list \<Rightarrow> failure \<Rightarrow> resource_lease engine_flow" where
  "acquire_slot rig w [] last_busy = raise last_busy"
| "acquire_slot rig w (name # names) last_busy =
     handle (on_leases rig (\<lambda>now. acquire_resource now name w WORKER_AUTHORITY_TTL_SECONDS))
       (\<lambda>c k. if c = ''resource_busy'' then acquire_slot rig w names (Failure (DomainError c k)) else raise (Failure (DomainError c k)))"

definition fresh_name :: "engine_rig \<Rightarrow> string \<Rightarrow> string engine_flow" where
  "fresh_name rig prefix = (\<lambda>w. (Inr (prefix @ fresh_hex rig (ticks w)), tick w))"

definition make_owner :: "string \<Rightarrow> string \<Rightarrow> int option \<Rightarrow> resource_owner engine_flow" where
  "make_owner identity instance_id n =
    (let q = \<lparr>workspace_identity = identity, process_instance_id = instance_id, process_id = n\<rparr> in
     if resource_owner_valid q then return q else raise (Failure (DomainError ''resource_owner_invalid'' INVALID_REQUEST)))"

text \<open>The \<open>try\<close> block of \<open>_admit_worker\<close>: what it acquired is given back, in reverse, when an exception ends it.\<close>

definition launch_under_claim ::
    "engine_rig \<Rightarrow> engine_job_reference \<Rightarrow> resource_lease \<Rightarrow> resource_handoff \<Rightarrow> persisted_job_claim \<Rightarrow> worker_admission option engine_flow" where
  "launch_under_claim rig r source h c =
    (if \<not> job_waits (claim_job_value c)
     then bind (release_claim rig (claim_authority c)) (\<lambda>_. bind (release_lease rig source) (\<lambda>_. return None))
     else let l = \<lparr>launch_version = 1, l_reference = r, l_handoff = h, l_authority = claim_authority c\<rparr> in
       if launch_consistent l
       then return (Some \<lparr>source_lease = source, adm_launch = l, next_heartbeat = 0, next_cancel_poll = 0, cancellation_started = None\<rparr>)
       else raise Crash)"

definition claim_for_worker ::
    "engine_rig \<Rightarrow> engine_job_reference \<Rightarrow> resource_lease \<Rightarrow> resource_owner \<Rightarrow> resource_handoff \<Rightarrow> worker_admission option engine_flow" where
  "claim_for_worker rig r source worker h =
     on_error
       (bind (transact (store_rig rig) (\<lambda>e. claim_job e (ref_job_id r) (process_instance_id worker) WORKER_AUTHORITY_TTL_SECONDS)) (\<lambda>c.
        on_error (launch_under_claim rig r source h c) (quietly (release_claim rig (claim_authority c)))))
       (quietly (on_leases rig (\<lambda>_. release_adopted h)))"

definition admit_with_slot :: "engine_rig \<Rightarrow> engine_job_reference \<Rightarrow> string \<Rightarrow> resource_lease \<Rightarrow> worker_admission option engine_flow" where
  "admit_with_slot rig r identity source =
     on_error
       (bind (fresh_name rig ''engine-worker-'') (\<lambda>name.
        bind (make_owner identity name None) (\<lambda>worker.
        bind (\<lambda>w. on_leases rig (\<lambda>now. handoff_resource now (fresh_secret rig (ticks w)) source worker WORKER_AUTHORITY_TTL_SECONDS) w) (\<lambda>h.
        claim_for_worker rig r source worker h))))
       (quietly (release_lease rig source))"

definition admit_worker :: "engine_rig \<Rightarrow> dispatcher_settings \<Rightarrow> engine_job_reference \<Rightarrow> worker_admission option engine_flow" where
  "admit_worker rig cfg r =
    (let jid = ref_job_id r; identity = instance_identity rig (workspace_instance_id r) in
     bind (resolve_repository rig r) (\<lambda>_.
     bind (observe (store_rig rig) (\<lambda>_ s. get_job s jid)) (\<lambda>j.
     if execution_owner j \<noteq> ENGINE \<or> principal j \<noteq> LOCAL_USER_PRINCIPAL
     then raise (Failure (DomainError ''engine_job_authority_denied'' POLICY_DENIED))
     else if \<not> job_waits j then return None
     else bind (observe (store_rig rig) (\<lambda>_. get_engine_worker_launch_count jid)) (\<lambda>n.
     if MAXIMUM_AUTOMATIC_WORKER_LAUNCHES \<le> n
     then bind (fresh_name rig ''engine-recovery-'') (\<lambda>owner. bind (settle_under_claim rig jid owner n) (\<lambda>_. return None))
     else bind (fresh_name rig ''engine-supervisor-'') (\<lambda>name.
       bind (make_owner identity name (Some (engine_pid rig))) (\<lambda>supervisor.
       bind (acquire_slot rig supervisor (take (nat (maximum_active_workers cfg)) HEAVY_PRODUCTION_RESOURCE_NAMES) Crash)
         (admit_with_slot rig r identity)))))))"

section \<open>Supervision\<close>

text \<open>
  \<open>_WorkerAdmission.check_running\<close>, which the runner of the process calls again and again: it goes on with the admission's
  timers moved, or ends the worker because the engine stops or the job was cancelled.
\<close>

datatype check_result = GoesOn worker_admission | EngineStops | WorkerCancelled

definition poll_cancellation :: "engine_rig \<Rightarrow> worker_admission \<Rightarrow> int \<Rightarrow> (check_result \<times> bool) engine_flow" where
  "poll_cancellation rig adm now =
    (if now < next_cancel_poll adm then return (GoesOn adm, True)
     else bind (observe (store_rig rig) (\<lambda>_ s. get_job s (ref_job_id (l_reference (adm_launch adm))))) (\<lambda>j.
       if state j = CANCELLED then return (WorkerCancelled, False)
       else if \<not> job_waits j then return (GoesOn adm, False)
       else if cancellation_requested j \<and> (case cancellation_started adm of None \<Rightarrow> False | Some t \<Rightarrow> WORKER_CANCELLATION_GRACE \<le> now - t)
         then return (WorkerCancelled, False)
       else return (GoesOn (adm\<lparr>cancellation_started :=
              (if cancellation_requested j then (case cancellation_started adm of None \<Rightarrow> Some now | st \<Rightarrow> st) else None),
              next_cancel_poll := now + WORKER_CANCELLATION_POLL\<rparr>), True)))"

definition beat_leases :: "engine_rig \<Rightarrow> worker_admission \<Rightarrow> int \<Rightarrow> check_result engine_flow" where
  "beat_leases rig adm now =
    (if now < next_heartbeat adm then return (GoesOn adm)
     else bind (transact (store_rig rig) (\<lambda>e. heartbeat_job_claim e (l_authority (adm_launch adm)) WORKER_AUTHORITY_TTL_SECONDS)) (\<lambda>_.
       bind (handle
         (bind (on_leases rig (\<lambda>clock. heartbeat_resource clock (resource_name (source_lease adm)) (m_owner (source_lease adm))
              (m_token (source_lease adm)) WORKER_AUTHORITY_TTL_SECONDS)) (\<lambda>l. return l))
         (\<lambda>c k. if c \<noteq> ''resource_lease_lost'' then raise (Failure (DomainError c k))
                else bind (on_leases rig (\<lambda>clock. heartbeat_adopted clock (l_handoff (adm_launch adm)) WORKER_AUTHORITY_TTL_SECONDS))
                       (\<lambda>_. return (source_lease adm)))) (\<lambda>l.
       return (GoesOn (adm\<lparr>source_lease := l, next_heartbeat := now + WORKER_HEARTBEAT_INTERVAL\<rparr>)))))"

definition check_running :: "engine_rig \<Rightarrow> worker_admission \<Rightarrow> check_result engine_flow" where
  "check_running rig adm = (\<lambda>w.
    if stopping rig (ticks w) then (Inr EngineStops, tick w)
    else let now = monotonic rig (ticks w) in
      bind (poll_cancellation rig adm now) (\<lambda>(res, on). case res of
          GoesOn adm' \<Rightarrow> if on then beat_leases rig adm' now else return res
        | _ \<Rightarrow> return res) (tick w))"

text \<open>\<open>settle_cancellation\<close>: claiming a job that was asked to cancel settles it. Domain errors end it silently.\<close>

definition settle_cancellation :: "engine_rig \<Rightarrow> worker_admission \<Rightarrow> unit engine_flow" where
  "settle_cancellation rig adm =
    (let jid = ref_job_id (l_reference (adm_launch adm)); auth = l_authority (adm_launch adm) in
     handle
       (bind (is_cancelled (store_rig rig) jid) (\<lambda>asked.
        if \<not> asked then return ()
        else bind (transact (store_rig rig) (\<lambda>e. claim_job e jid (owner_id auth) WORKER_AUTHORITY_TTL_SECONDS)) (\<lambda>c.
             if claim_authority c \<noteq> auth then release_claim rig (claim_authority c) else return ())))
       (\<lambda>_ _. return ()))"

text \<open>\<open>release\<close>: the claim, the lease as the worker may hold it, the lease as the supervisor may; whatever fails is passed over.\<close>

definition release_admission :: "engine_rig \<Rightarrow> worker_admission \<Rightarrow> unit engine_flow" where
  "release_admission rig adm =
     bind (quietly (release_claim rig (l_authority (adm_launch adm)))) (\<lambda>_.
     bind (quietly (on_leases rig (\<lambda>_. release_adopted (l_handoff (adm_launch adm))))) (\<lambda>_.
     quietly (release_lease rig (source_lease adm))))"

text \<open>How the process ended: with an exit code, on the supervisor's orders, or by another exception.\<close>

datatype run_end = Exited int | ControlledStop | RunFailed

definition settle_after_run :: "engine_rig \<Rightarrow> worker_admission \<Rightarrow> run_end \<Rightarrow> nat option \<Rightarrow> unit engine_flow" where
  "settle_after_run rig adm ending launch_count =
    (let jid = ref_job_id (l_reference (adm_launch adm)); auth = l_authority (adm_launch adm) in
     bind (settle_cancellation rig adm) (\<lambda>_.
     bind (observe (store_rig rig) (\<lambda>_ s. get_job s jid)) (\<lambda>j.
     if \<not> job_waits j
     then bind (transact (store_rig rig) (\<lambda>_. clear_engine_worker_launches jid auth)) (\<lambda>_. return ())
     else case launch_count of
       Some n \<Rightarrow> if ending \<noteq> ControlledStop \<and> MAXIMUM_AUTOMATIC_WORKER_LAUNCHES \<le> n then settle_under_claim rig jid (owner_id auth) n
                 else return ()
     | None \<Rightarrow> return ())))"

text \<open>
  \<open>_supervise_worker\<close>. The runner of the process is an argument. The result is what the supervisor tells the queue:
  whether settling failed, and whether a reconciliation is requested.
\<close>

definition run_worker :: "engine_rig \<Rightarrow> (engine_worker_launch \<Rightarrow> run_end engine_flow) \<Rightarrow> worker_admission \<Rightarrow> (run_end \<times> nat option) engine_flow" where
  "run_worker rig runner adm = (\<lambda>w.
    case transact (store_rig rig) (\<lambda>e. record_engine_worker_launch e (ref_job_id (l_reference (adm_launch adm))) (l_authority (adm_launch adm))) w of
      (Inl _, w1) \<Rightarrow> (Inr (RunFailed, None), w1)
    | (Inr n, w1) \<Rightarrow> (case runner (adm_launch adm) w1 of (Inl _, w2) \<Rightarrow> (Inr (RunFailed, Some n), w2) | (Inr r, w2) \<Rightarrow> (Inr (r, Some n), w2)))"

definition supervise_worker ::
    "engine_rig \<Rightarrow> (engine_worker_launch \<Rightarrow> run_end engine_flow) \<Rightarrow> worker_admission \<Rightarrow> (bool \<times> bool) engine_flow" where
  "supervise_worker rig runner adm =
     bind (run_worker rig runner adm) (\<lambda>(ending, launch_count).
     bind (\<lambda>w. case settle_after_run rig adm ending launch_count w of (Inl _, w1) \<Rightarrow> (Inr True, w1) | (Inr _, w1) \<Rightarrow> (Inr False, w1)) (\<lambda>failed.
     bind (release_admission rig adm) (\<lambda>_. return (failed, ending = Exited 0))))"

section \<open>The loop's step\<close>

text \<open>One reference taken from the queue, in \<open>_run\<close>: a worker to start, or none, with what is told to the queue.\<close>

datatype admission_end = Declined | AdmissionRefused | Launches worker_admission

definition is_busy :: "failure \<Rightarrow> bool" where
  "is_busy err = (case err of Failure (DomainError c _) \<Rightarrow> c = ''resource_busy'' | _ \<Rightarrow> False)"

definition refuse_reference :: "engine_rig \<Rightarrow> engine_job_reference \<Rightarrow> failure \<Rightarrow> unit engine_flow \<Rightarrow> admission_end engine_flow" where
  "refuse_reference rig r err release =
     bind (if is_busy err then handle (record_resource_waiting rig r) (\<lambda>_ _. return ()) else return ())
       (\<lambda>_. bind release (\<lambda>_. return AdmissionRefused))"

definition admit_reference :: "engine_rig \<Rightarrow> dispatcher_settings \<Rightarrow> engine_job_reference \<Rightarrow> admission_end engine_flow" where
  "admit_reference rig cfg r = (\<lambda>w.
    case admit_worker rig cfg r w of
      (Inl err, w1) \<Rightarrow> refuse_reference rig r err (return ()) w1
    | (Inr None, w1) \<Rightarrow> (Inr Declined, w1)
    | (Inr (Some adm), w1) \<Rightarrow>
        (case record_resource_admitted rig (ref_job_id r) w1 of
           (Inr _, w2) \<Rightarrow> (Inr (Launches adm), w2)
         | (Inl err, w2) \<Rightarrow> refuse_reference rig r err (release_admission rig adm) w2))"

section \<open>Notifications\<close>

text \<open>
  \<open>notify\<close> looks at the queue when it begins (\<open>before\<close>) and, after it has read the job, again to queue the reference (\<open>at\<close>).
\<close>

definition notify ::
    "engine_rig \<Rightarrow> dispatcher_settings \<Rightarrow> dispatcher \<Rightarrow> dispatcher \<Rightarrow> engine_job_reference \<Rightarrow> ((job_state \<times> bool) \<times> dispatcher) engine_flow" where
  "notify rig cfg before at r =
    (if draining before then raise (Failure engine_draining)
     else bind (resolve_repository rig r) (\<lambda>_.
       bind (observe (store_rig rig) (\<lambda>_ s. get_job s (ref_job_id r))) (\<lambda>j.
       if execution_owner j \<noteq> ENGINE \<or> principal j \<noteq> LOCAL_USER_PRINCIPAL
       then raise (Failure (DomainError ''engine_job_authority_denied'' POLICY_DENIED))
       else if \<not> job_waits j then return ((state j, False), at)
       else case enqueue cfg r at of Inl err \<Rightarrow> raise (Failure err) | Inr (new, d) \<Rightarrow> return ((state j, new), d))))"

end
