(* ===== verification/Slots.thy ===== *)
theory Slots
  imports Admission
begin

text \<open>
  What the dispatcher (\<open>engine/job_dispatcher.py\<close>) leaves of the machine's slots: who may hold what in the name of this engine
  is followed through every part of an admission and of a supervision, whatever other processes do to the lease table.
\<close>

section \<open>Flows on the store and on the leases\<close>

interpretation store_only: flow_frame "\<lambda>w w' :: engine_world. lease_rows w' = lease_rows w"
  by unfold_locales (simp_all add: tick_def)

interpretation engine_history: flow_frame "\<lambda>w w' :: engine_world. later (w_store w) (w_store w')"
  by unfold_locales (auto simp: tick_def intro: later_trans)

lemma lawful_dispatch [lawful_intros]:
  "lawful (\<lambda>e. claim_job e jid owner ttl)" "lawful (\<lambda>_. release_job_claim auth)" "lawful (\<lambda>e. take_over_running_attempt e jid aid auth)"
  "lawful (\<lambda>e. fail_job_atomic e jid err attempt authority)" "lawful (\<lambda>e. reconcile_external_operations_after_process_loss e jid auth)"
  "lawful (\<lambda>e. pause_for_external_outcome_atomic e jid aid auth)" "lawful (\<lambda>_. clear_engine_worker_launches jid auth)"
  "lawful (\<lambda>e. record_engine_worker_launch e jid auth)" "lawful (\<lambda>e. append_event e jid ty payload)"
  by (rule lawful_command; force simp: stored_Inr intro: exI [of _ "ClaimJob jid owner ttl"] exI [of _ "ReleaseClaim auth"]
      exI [of _ "TakeOverAttempt jid aid auth"] exI [of _ "FailJob jid err attempt authority"] exI [of _ "Reconcile jid auth"]
      exI [of _ "PauseForOutcome jid aid auth"] exI [of _ "ClearLaunches jid auth"] exI [of _ "RecordLaunch jid auth"]
      exI [of _ "AppendEvent jid ty payload"])+

section \<open>Slots\<close>

text \<open>
  Who may hold what in the name of this engine: rows owned by one of its names, and handoffs to one, are of
  one resource under one token.
\<close>

definition slot_row :: "string set \<Rightarrow> string \<Rightarrow> nat \<Rightarrow> resource_owner set \<Rightarrow> resource_owner set \<Rightarrow> resource_row \<Rightarrow> bool" where
  "slot_row S name token owners heirs r \<longleftrightarrow>
     (process_instance_id (row_owner r) \<in> S \<longrightarrow> row_resource r = name \<and> row_token r = token \<and> row_owner r \<in> owners)
     \<and> (\<forall>p. row_handoff r = Some p \<and> process_instance_id (to_owner p) \<in> S \<longrightarrow> row_resource r = name \<and> row_token r = token \<and> to_owner p \<in> heirs)"

definition slot :: "string set \<Rightarrow> string \<Rightarrow> nat \<Rightarrow> resource_owner set \<Rightarrow> resource_owner set \<Rightarrow> lease_table \<Rightarrow> bool" where
  "slot S name token owners heirs t \<longleftrightarrow> (\<forall>r \<in> set t. slot_row S name token owners heirs r)"

definition freed :: "resource_owner set \<Rightarrow> lease_table \<Rightarrow> bool" where
  "freed ws t \<longleftrightarrow> (\<forall>r \<in> set t. row_owner r \<in> ws \<longrightarrow> row_expires_at r \<le> 0)"

definition holds_nothing :: "string set \<Rightarrow> lease_table \<Rightarrow> bool" where
  "holds_nothing S t \<longleftrightarrow> (\<forall>r \<in> set t. process_instance_id (row_owner r) \<in> S \<longrightarrow> row_expires_at r \<le> 0)"

text \<open>Commands of processes that do not act under one of the names.\<close>

fun foreign :: "string set \<Rightarrow> lease_command \<Rightarrow> bool" where
  "foreign S (LAcquire name w ttl) \<longleftrightarrow> process_instance_id w \<notin> S"
| "foreign S (LHandoff secret l w ttl) \<longleftrightarrow> process_instance_id (m_owner l) \<notin> S \<and> process_instance_id w \<notin> S"
| "foreign S (LAdopt h ttl) \<longleftrightarrow> process_instance_id (h_owner h) \<notin> S"
| "foreign S (LHeartbeat name w token ttl) \<longleftrightarrow> process_instance_id w \<notin> S"
| "foreign S (LRelease name w token) \<longleftrightarrow> process_instance_id w \<notin> S"

lemma foreign_slot:
  assumes "foreign S c" and "slot S name token owners heirs t"
  shows "slot S name token owners heirs (run_lease_command now c t)"
  using assms
  by (cases c) (auto simp: kept_or_def slot_def slot_row_def acquire_resource_def handoff_resource_def adopt_resource_def heartbeat_resource_def
      release_resource_def held_by_def Let_def result_simps in_sql_update split: sum.splits if_splits option.splits)

lemma foreign_freed:
  assumes "foreign S c" and "freed ws t" and own: "\<And>w. w \<in> ws \<Longrightarrow> process_instance_id w \<in> S"
  shows "freed ws (run_lease_command now c t)"
  using assms(1,2)
  by (cases c) (auto simp: kept_or_def freed_def acquire_resource_def handoff_resource_def adopt_resource_def heartbeat_resource_def
      release_resource_def held_by_def Let_def result_simps in_sql_update dest: own split: sum.splits if_splits option.splits)

lemma foreign_commands:
  assumes "\<And>now c. (now, c) \<in> set cs \<Longrightarrow> foreign S c"
  shows "slot S name token owners heirs t \<Longrightarrow> slot S name token owners heirs (run_lease_commands cs t)"
    and "freed ws t \<Longrightarrow> (\<And>w. w \<in> ws \<Longrightarrow> process_instance_id w \<in> S) \<Longrightarrow> freed ws (run_lease_commands cs t)"
proof -
  show "slot S name token owners heirs t \<Longrightarrow> slot S name token owners heirs (run_lease_commands cs t)"
    using assms by (induction cs t rule: run_lease_commands.induct) (auto intro: foreign_slot)
  show "freed ws t \<Longrightarrow> (\<And>w. w \<in> ws \<Longrightarrow> process_instance_id w \<in> S) \<Longrightarrow> freed ws (run_lease_commands cs t)"
    using assms by (induction cs t rule: run_lease_commands.induct) (auto intro: foreign_freed)
qed

text \<open>What the dispatcher's own operations make of a slot.\<close>

lemma acquired_slot:
  assumes "acquire_resource now name w ttl t = Inr (l, t')" and "slot S n k {} {} t"
  shows "slot S (resource_name l) (m_token l) {m_owner l} {} t' \<and> m_owner l = w"
proof -
  have none: "\<And>r. r \<in> set t \<Longrightarrow> process_instance_id (row_owner r) \<notin> S \<and> (\<forall>p. row_handoff r = Some p \<longrightarrow> process_instance_id (to_owner p) \<notin> S)"
    using assms(2) by (auto simp: slot_def slot_row_def)
  let ?expires = "now + ttl * 1000"
  show ?thesis
  proof (cases "resource_row_of t name")
    case None
    with assms(1) have "resource_name l = name" "m_token l = 1" "m_owner l = w"
      "t' = t @ [\<lparr>row_resource = name, row_owner = w, row_token = 1, row_expires_at = ?expires, row_handoff = None\<rparr>]"
      by (auto simp: acquire_resource_def Let_def result_simps)
    with none show ?thesis by (auto simp: slot_def slot_row_def)
  next
    case (Some r)
    with assms(1) have l: "resource_name l = name" "m_token l = row_token r + 1" "m_owner l = w"
      and t': "t' = sql_update (\<lambda>r'. row_resource r' = name)
        (\<lambda>r'. r'\<lparr>row_owner := w, row_token := row_token r + 1, row_expires_at := ?expires, row_handoff := None\<rparr>) t"
      by (auto simp: acquire_resource_def Let_def result_simps split: if_splits)
    show ?thesis unfolding slot_def slot_row_def l t' using none by (auto simp: in_sql_update)
  qed
qed

lemma handed_slot:
  assumes "handoff_resource now secret l w ttl t = Inr (h, t')" and "slot S (resource_name l) (m_token l) {m_owner l} {} t"
  shows "slot S (resource_name l) (m_token l) {m_owner l} {w} t' \<and> h_owner h = w \<and> h_resource h = resource_name l \<and> h_token h = m_token l"
proof -
  let ?p = "\<lambda>r. held_by (resource_name l) (m_owner l) (m_token l) r \<and> now < row_expires_at r \<and> row_handoff r = None"
  have h: "h_owner h = w \<and> h_resource h = resource_name l \<and> h_token h = m_token l"
    using assms(1) unfolding handoff_resource_def Let_def by (clarsimp simp: result_simps split: if_splits)
  have t': "t' = sql_update ?p (\<lambda>r. r\<lparr>row_handoff := Some \<lparr>to_owner = w, to_nonce = secret, to_expires_at = now + ttl * 1000\<rparr>\<rparr>) t"
    using assms(1) by (simp add: handoff_resource_def Let_def result_simps split: if_splits)
  have "slot S (resource_name l) (m_token l) {m_owner l} {w} t'"
    unfolding slot_def
  proof
    fix r assume "r \<in> set t'"
    then obtain r0 where "r0 \<in> set t" and r: "r = r0 \<or> ?p r0 \<and> r = r0\<lparr>row_handoff := Some \<lparr>to_owner = w, to_nonce = secret, to_expires_at = now + ttl * 1000\<rparr>\<rparr>"
      unfolding t' in_sql_update by blast
    then have "slot_row S (resource_name l) (m_token l) {m_owner l} {} r0" using assms(2) by (simp add: slot_def)
    with r show "slot_row S (resource_name l) (m_token l) {m_owner l} {w} r"
      by (cases "process_instance_id (row_owner r0) \<in> S") (auto simp: slot_row_def held_by_def)
  qed
  with h show ?thesis by simp
qed

lemma released_table:
  "release_resource name w token t = Inr (b, t') \<Longrightarrow>
     t' = sql_update (\<lambda>r. held_by name w token r \<and> 0 < row_expires_at r) (\<lambda>r. r\<lparr>row_expires_at := 0, row_handoff := None\<rparr>) t"
  by (simp add: release_resource_def Let_def)

lemma released_rows:
  assumes "release_resource name w token t = Inr (b, t')" and "r \<in> set t'"
  obtains (freed) r0 where "r0 \<in> set t" "r = r0\<lparr>row_expires_at := 0, row_handoff := None\<rparr>"
    | (kept) "r \<in> set t" "held_by name w token r \<Longrightarrow> row_expires_at r \<le> 0"
  using assms(2) unfolding released_table [OF assms(1)] in_sql_update by fastforce

lemma released_slot:
  assumes "release_resource name w token t = Inr (b, t')" and "slot S name token owners heirs t"
  shows "slot S name token owners heirs t'" and "process_instance_id w \<in> S \<Longrightarrow> freed {w} t'"
proof -
  have rows: "r \<in> set t \<Longrightarrow> slot_row S name token owners heirs r" for r using assms(2) by (simp add: slot_def)
  show "slot S name token owners heirs t'"
    unfolding slot_def
  proof
    fix r assume "r \<in> set t'"
    with assms(1) show "slot_row S name token owners heirs r"
      by (cases rule: released_rows) (use rows in \<open>auto simp: slot_row_def\<close>)
  qed
  show "freed {w} t'" if "process_instance_id w \<in> S"
    unfolding freed_def
  proof (intro ballI impI)
    fix r assume "r \<in> set t'" and w: "row_owner r \<in> {w}"
    with assms(1) show "row_expires_at r \<le> 0"
    proof (cases rule: released_rows)
      case kept
      with rows [of r] w that show ?thesis by (simp add: slot_row_def held_by_def)
    qed simp
  qed
qed

lemma released_keeps_freed: "release_resource name w token t = Inr (b, t') \<Longrightarrow> freed ws t \<Longrightarrow> freed ws t'"
  unfolding freed_def by (intro ballI impI) (erule released_rows, assumption, auto)

lemma slot_freed: "slot S name token owners heirs t \<Longrightarrow> (\<And>w. w \<in> owners \<Longrightarrow> freed {w} t) \<Longrightarrow> holds_nothing S t"
  by (auto simp: slot_def slot_row_def freed_def holds_nothing_def)

lemma slot_mono: "slot S name token owners heirs t \<Longrightarrow> owners \<subseteq> owners' \<Longrightarrow> heirs \<subseteq> heirs' \<Longrightarrow> slot S name token owners' heirs' t"
  by (fastforce simp: slot_def slot_row_def)

section \<open>Runs on the leases\<close>

text \<open>No transaction on the lease table is refused, and no other process acts under one of the names.\<close>

definition calm_leases :: "string set \<Rightarrow> engine_rig \<Rightarrow> bool" where
  "calm_leases S rig \<longleftrightarrow> (\<forall>k. lease_fault rig k = None) \<and> (\<forall>k now c. (now, c) \<in> set (lease_others rig k) \<longrightarrow> foreign S c)"

definition foreign_later :: "string set \<Rightarrow> lease_table \<Rightarrow> lease_table \<Rightarrow> bool" where
  "foreign_later S t t' \<longleftrightarrow> (\<exists>cs. (\<forall>now c. (now, c) \<in> set cs \<longrightarrow> foreign S c) \<and> t' = run_lease_commands cs t)"

lemma foreign_later_slot: "foreign_later S t t' \<Longrightarrow> slot S name token owners heirs t \<Longrightarrow> slot S name token owners heirs t'"
  and foreign_later_freed: "foreign_later S t t' \<Longrightarrow> freed ws t \<Longrightarrow> (\<And>w. w \<in> ws \<Longrightarrow> process_instance_id w \<in> S) \<Longrightarrow> freed ws t'"
  by (auto simp: foreign_later_def intro: foreign_commands)

lemma on_leases_elim:
  assumes "on_leases rig f w = (res, w')" and "calm_leases S rig"
  obtains (failed) now t err where "foreign_later S (lease_rows w) t" "f now t = Inl err" "res = Inl (Failure err)" "lease_rows w' = t"
    | (worked) now t a where "foreign_later S (lease_rows w) t" "f now t = Inr (a, lease_rows w')" "res = Inr a"
proof -
  let ?t = "run_lease_commands (lease_others rig (ticks w)) (lease_rows w)" and ?now = "machine_clock rig (ticks w)"
  have reach: "foreign_later S (lease_rows w) ?t"
    using assms(2) unfolding foreign_later_def calm_leases_def by (intro exI [of _ "lease_others rig (ticks w)"]) simp
  show thesis
  proof (cases "f ?now ?t")
    case (Inl err)
    with assms have "res = Inl (Failure err)" "lease_rows w' = ?t" by (auto simp: on_leases_def calm_leases_def Let_def)
    with Inl reach show thesis by (intro failed)
  next
    case (Inr x)
    obtain a t' where x: "x = (a, t')" by fastforce
    with Inr assms have "res = Inr a" "lease_rows w' = t'" by (auto simp: on_leases_def calm_leases_def Let_def)
    with Inr x reach show thesis by (intro worked) auto
  qed
qed

text \<open>Giving a lease back never fails, frees what its owner holds of the slot and spoils nothing.\<close>

lemma release_lease_run:
  assumes "release_lease rig l w = (res, w')" and "calm_leases S rig"
    and "slot S (resource_name l) (m_token l) owners heirs (lease_rows w)" and "process_instance_id (m_owner l) \<in> S"
  shows "res = Inr ()" and "slot S (resource_name l) (m_token l) owners heirs (lease_rows w')" and "freed {m_owner l} (lease_rows w')"
    and "freed ws (lease_rows w) \<Longrightarrow> (\<And>w. w \<in> ws \<Longrightarrow> process_instance_id w \<in> S) \<Longrightarrow> freed ws (lease_rows w')"
proof -
  obtain r1 where run: "on_leases rig (\<lambda>_. release_resource (resource_name l) (m_owner l) (m_token l)) w = (r1, w')"
    and res: "res = (case r1 of Inl err \<Rightarrow> Inl err | Inr _ \<Rightarrow> Inr ())"
    using assms(1) by (rule bind_elim) auto
  from run assms(2) obtain t b where t: "foreign_later S (lease_rows w) t"
    and release: "release_resource (resource_name l) (m_owner l) (m_token l) t = Inr (b, lease_rows w')" and "r1 = Inr b"
    by (cases rule: on_leases_elim) (auto simp: release_resource_def Let_def)
  then show "res = Inr ()" using res by simp
  have s: "slot S (resource_name l) (m_token l) owners heirs t" by (rule foreign_later_slot [OF t assms(3)])
  show "slot S (resource_name l) (m_token l) owners heirs (lease_rows w')" "freed {m_owner l} (lease_rows w')"
    using released_slot [OF release s] assms(4) by auto
  show "freed ws (lease_rows w')" if "freed ws (lease_rows w)" "\<And>w. w \<in> ws \<Longrightarrow> process_instance_id w \<in> S"
    using released_keeps_freed [OF release foreign_later_freed [OF t that]] .
qed

lemma quietly_run: "quietly f w = (res, w') \<Longrightarrow> res = Inr () \<and> (\<exists>r. f w = (r, w'))"
  by (cases "f w") (auto simp: quietly_def)

lemma release_adopted_run:
  assumes "quietly (on_leases rig (\<lambda>_. release_adopted h)) w = (res, w')" and "calm_leases S rig"
    and "slot S (h_resource h) (h_token h) owners heirs (lease_rows w)"
  shows "slot S (h_resource h) (h_token h) owners heirs (lease_rows w')"
    and "process_instance_id (h_owner h) \<in> S \<Longrightarrow> freed {h_owner h} (lease_rows w')"
proof -
  from quietly_run [OF assms(1)] obtain r where run: "on_leases rig (\<lambda>_. release_adopted h) w = (r, w')" by blast
  from this assms(2) obtain t b where t: "foreign_later S (lease_rows w) t"
    and release: "release_resource (h_resource h) (h_owner h) (h_token h) t = Inr (b, lease_rows w')"
    by (cases rule: on_leases_elim) (auto simp: release_adopted_def release_resource_def Let_def)
  have s: "slot S (h_resource h) (h_token h) owners heirs t" by (rule foreign_later_slot [OF t assms(3)])
  show "slot S (h_resource h) (h_token h) owners heirs (lease_rows w')" by (rule released_slot(1) [OF release s])
  show "freed {h_owner h} (lease_rows w')" if "process_instance_id (h_owner h) \<in> S" by (rule released_slot(2) [OF release s that])
qed

section \<open>Admissions\<close>

lemma on_error_elim:
  assumes "on_error f g w = (res, w')"
  obtains (failed) err w1 r where "f w = (Inl err, w1)" "res = Inl err" "g w1 = (r, w')" | (ended) a where "f w = (Inr a, w')" "res = Inr a"
proof (cases "f w")
  case (Pair r w1)
  show thesis
  proof (cases r)
    case (Inl err)
    obtain r2 w2 where "g w1 = (r2, w2)" by fastforce
    with Pair Inl assms show thesis by (intro failed [of err w1 r2]) (auto simp: on_error_def)
  next
    case (Inr a)
    with Pair assms show thesis by (intro ended [of a]) (auto simp: on_error_def)
  qed
qed

text \<open>What the parts of an admission leave of the slot whose lease is \<open>source\<close>.\<close>

definition admitted :: "string set \<Rightarrow> resource_lease \<Rightarrow> (failure + worker_admission option) \<Rightarrow> lease_table \<Rightarrow> bool" where
  "admitted S source res t \<longleftrightarrow>
    (case res of
       Inl _ \<Rightarrow> slot S (resource_name source) (m_token source) {m_owner source} UNIV t
     | Inr None \<Rightarrow> holds_nothing S t
     | Inr (Some adm) \<Rightarrow> source_lease adm = source \<and> h_resource (l_handoff (adm_launch adm)) = resource_name source
         \<and> h_token (l_handoff (adm_launch adm)) = m_token source \<and> process_instance_id (h_owner (l_handoff (adm_launch adm))) \<in> S
         \<and> slot S (resource_name source) (m_token source) {m_owner source} {h_owner (l_handoff (adm_launch adm))} t)"

lemma release_claim_keeps: "store_only.keeps (release_claim rig auth)"
  by (intro store_only.keeps_intros lawful_intros)

lemma launch_under_claim_slot:
  assumes "launch_under_claim rig r source h c w = (res, w')" and "calm_leases S rig" and "process_instance_id (m_owner source) \<in> S"
    and "slot S (resource_name source) (m_token source) {m_owner source} {h_owner h} (lease_rows w)"
    and "h_resource h = resource_name source" "h_token h = m_token source" "process_instance_id (h_owner h) \<in> S"
  shows "admitted S source res (lease_rows w')"
proof (cases "job_waits (claim_job_value c)")
  case True
  with assms(1,4-7) show ?thesis
    by (auto simp: launch_under_claim_def Let_def admitted_def intro: slot_mono split: if_splits)
next
  case False
  with assms(1) have run: "bind (release_claim rig (claim_authority c)) (\<lambda>_. bind (release_lease rig source) (\<lambda>_. return None)) w = (res, w')"
    by (simp add: launch_under_claim_def)
  from store_only.keeps_prefix [OF run release_claim_keeps] consider (raised) err where "res = Inl err" "lease_rows w' = lease_rows w"
    | (on) w1 where "lease_rows w1 = lease_rows w" "bind (release_lease rig source) (\<lambda>_. return None) w1 = (res, w')"
    by blast
  then show ?thesis
  proof cases
    case raised
    with assms(4) show ?thesis by (auto simp: admitted_def intro: slot_mono)
  next
    case on
    obtain r1 w2 where release: "release_lease rig source w1 = (r1, w2)" by fastforce
    have "slot S (resource_name source) (m_token source) {m_owner source} {h_owner h} (lease_rows w1)" using assms(4) on(1) by simp
    note released = release_lease_run [OF release assms(2) this assms(3)]
    from on(2) release released(1) have "res = Inr None" "w' = w2" by (auto simp: bind_def)
    with released(2,3) show ?thesis by (auto simp: admitted_def intro: slot_freed)
  qed
qed

lemma claim_for_worker_slot:
  assumes "claim_for_worker rig r source worker h w = (res, w')" and "calm_leases S rig" and "process_instance_id (m_owner source) \<in> S"
    and "slot S (resource_name source) (m_token source) {m_owner source} {h_owner h} (lease_rows w)"
    and "h_resource h = resource_name source" "h_token h = m_token source" "process_instance_id (h_owner h) \<in> S"
  shows "admitted S source res (lease_rows w')"
proof -
  let ?inner = "bind (transact (store_rig rig) (\<lambda>e. claim_job e (ref_job_id r) (process_instance_id worker) WORKER_AUTHORITY_TTL_SECONDS)) (\<lambda>c.
        on_error (launch_under_claim rig r source h c) (quietly (release_claim rig (claim_authority c))))"
  have inner: "admitted S source res1 (lease_rows w1)" if "?inner w = (res1, w1)" for res1 w1
  proof -
    have claim: "store_only.keeps (transact (store_rig rig) (\<lambda>e. claim_job e (ref_job_id r) (process_instance_id worker) WORKER_AUTHORITY_TTL_SECONDS))"
      by (intro store_only.keeps_intros lawful_intros)
    from store_only.keeps_prefix [OF that claim] consider (raised) err where "res1 = Inl err" "lease_rows w1 = lease_rows w"
      | (on) c w2 where "lease_rows w2 = lease_rows w"
          "on_error (launch_under_claim rig r source h c) (quietly (release_claim rig (claim_authority c))) w2 = (res1, w1)"
      by blast
    then show ?thesis
    proof cases
      case raised
      with assms(4) show ?thesis by (auto simp: admitted_def intro: slot_mono)
    next
      case on
      from on(2) show ?thesis
      proof (cases rule: on_error_elim)
        case (failed err w3 r3)
        have "admitted S source (Inl err) (lease_rows w3)"
          using launch_under_claim_slot [OF failed(1) assms(2,3) _ assms(5-7)] assms(4) on(1) by simp
        moreover obtain r4 where "release_claim rig (claim_authority c) w3 = (r4, w1)" using quietly_run [OF failed(3)] by blast
        then have "lease_rows w1 = lease_rows w3" by (rule store_only.keepsD [OF release_claim_keeps])
        ultimately show ?thesis using failed(2) by (simp add: admitted_def)
      next
        case (ended a)
        then show ?thesis using launch_under_claim_slot [OF ended(1) assms(2,3) _ assms(5-7)] assms(4) on(1) by simp
      qed
    qed
  qed
  from assms(1) show ?thesis unfolding claim_for_worker_def
  proof (cases rule: on_error_elim)
    case (failed err w1 r1)
    have "slot S (h_resource h) (h_token h) {m_owner source} UNIV (lease_rows w1)"
      using inner [OF failed(1)] assms(5,6) by (simp add: admitted_def)
    from release_adopted_run(1) [OF failed(3) assms(2) this] failed(2) show ?thesis by (simp add: admitted_def assms(5,6))
  next
    case (ended a)
    then show ?thesis using inner [OF ended(1)] by simp
  qed
qed

definition engine_names :: "engine_rig \<Rightarrow> string set" where
  "engine_names rig = {prefix @ fresh_hex rig k | prefix k. prefix \<in> {''engine-supervisor-'', ''engine-worker-''}}"

lemma engine_namesI: "''engine-supervisor-'' @ fresh_hex rig k \<in> engine_names rig" "''engine-worker-'' @ fresh_hex rig k \<in> engine_names rig"
  unfolding engine_names_def by blast+

lemma fresh_name_run: "fresh_name rig pre w = (res, w') \<Longrightarrow> lease_rows w' = lease_rows w \<and> (\<exists>k. res = Inr (pre @ fresh_hex rig k))"
  by (auto simp: fresh_name_def tick_def)

lemma make_owner_run: "make_owner identity name n w = (res, w') \<Longrightarrow>
    w' = w \<and> ((\<exists>err. res = Inl err) \<or> res = Inr \<lparr>workspace_identity = identity, process_instance_id = name, process_id = n\<rparr>)"
  by (auto simp: make_owner_def Let_def split: if_splits)

lemma admit_with_slot_slot:
  assumes "admit_with_slot rig r identity source w = (res, w')" and "calm_leases S rig" and "process_instance_id (m_owner source) \<in> S"
    and "slot S (resource_name source) (m_token source) {m_owner source} {} (lease_rows w)"
    and names: "\<And>k. ''engine-worker-'' @ fresh_hex rig k \<in> S"
  shows "admitted S source res (lease_rows w') \<and> (\<forall>err. res = Inl err \<longrightarrow> holds_nothing S (lease_rows w'))"
proof -
  let ?handoff = "\<lambda>worker w. on_leases rig (\<lambda>now. handoff_resource now (fresh_secret rig (ticks w)) source worker WORKER_AUTHORITY_TTL_SECONDS) w"
  let ?inner = "bind (fresh_name rig ''engine-worker-'') (\<lambda>name. bind (make_owner identity name None) (\<lambda>worker.
        bind (?handoff worker) (\<lambda>h. claim_for_worker rig r source worker h)))"
  have inner: "admitted S source res1 (lease_rows w1)" if run: "?inner w = (res1, w1)" for res1 w1
  proof -
    have raised: "lease_rows w1 = lease_rows w \<Longrightarrow> res1 = Inl err \<Longrightarrow> ?thesis" for err
      using assms(4) by (auto simp: admitted_def intro: slot_mono)
    from run show ?thesis
    proof (cases rule: bind_elim)
      case (failed err)
      then show ?thesis using fresh_name_run raised by blast
    next
      case (went_on name w2)
      have w2: "lease_rows w2 = lease_rows w" "name \<in> S" using fresh_name_run [OF went_on(1)] names by blast+
      from went_on(2) show ?thesis
      proof (cases rule: bind_elim)
        case (failed err)
        then show ?thesis using make_owner_run [OF failed(1)] w2 raised by simp
      next
        case (went_on worker w3)
        have w3: "lease_rows w3 = lease_rows w" "process_instance_id worker \<in> S" using make_owner_run [OF went_on(1)] w2 by auto
        from went_on(2) show ?thesis
        proof (cases rule: bind_elim)
          case (failed err)
          from failed(1) assms(2) have "slot S (resource_name source) (m_token source) {m_owner source} {} (lease_rows w1)"
            by (cases rule: on_leases_elim) (use assms(4) w3 in \<open>auto intro: foreign_later_slot\<close>)
          then show ?thesis using failed(2) by (auto simp: admitted_def intro: slot_mono)
        next
          case (went_on h w4)
          from went_on(1) assms(2) obtain now t where t: "foreign_later S (lease_rows w3) t"
            and handoff: "handoff_resource now (fresh_secret rig (ticks w3)) source worker WORKER_AUTHORITY_TTL_SECONDS t = Inr (h, lease_rows w4)"
            by (cases rule: on_leases_elim) auto
          have "slot S (resource_name source) (m_token source) {m_owner source} {} t"
            using foreign_later_slot [OF t] assms(4) w3 by simp
          from handed_slot [OF handoff this] claim_for_worker_slot [OF went_on(2) assms(2,3)] w3(2) show ?thesis by simp
        qed
      qed
    qed
  qed
  from assms(1) show ?thesis unfolding admit_with_slot_def
  proof (cases rule: on_error_elim)
    case (failed err w1 r1)
    obtain r2 where release: "release_lease rig source w1 = (r2, w')" using quietly_run [OF failed(3)] by blast
    have "slot S (resource_name source) (m_token source) {m_owner source} UNIV (lease_rows w1)"
      using inner [OF failed(1)] by (simp add: admitted_def)
    note released = release_lease_run [OF release assms(2) this assms(3)]
    with failed(2) show ?thesis by (auto simp: admitted_def intro: slot_freed)
  next
    case (ended a)
    then show ?thesis using inner [OF ended(1)] by simp
  qed
qed

lemma slot_nothing: "slot S name token {} {} t \<Longrightarrow> holds_nothing S t"
  by (auto simp: slot_def slot_row_def holds_nothing_def)

lemma acquire_slot_slot:
  assumes "acquire_slot rig boss names err w = (res, w')" and "calm_leases S rig" and "slot S n k {} {} (lease_rows w)"
  shows "(\<forall>e. res = Inl e \<longrightarrow> slot S n k {} {} (lease_rows w'))
    \<and> (\<forall>l. res = Inr l \<longrightarrow> m_owner l = boss \<and> slot S (resource_name l) (m_token l) {m_owner l} {} (lease_rows w'))"
  using assms(1,3)
proof (induction names arbitrary: err w)
  case (Cons name names)
  have attempt: "(\<forall>e. r1 = Inl e \<longrightarrow> slot S n k {} {} (lease_rows w1))
      \<and> (\<forall>l. r1 = Inr l \<longrightarrow> m_owner l = boss \<and> slot S (resource_name l) (m_token l) {m_owner l} {} (lease_rows w1))"
    if "on_leases rig (\<lambda>now. acquire_resource now name boss WORKER_AUTHORITY_TTL_SECONDS) w = (r1, w1)" for r1 w1
    using that assms(2)
  proof (cases rule: on_leases_elim)
    case (failed now t err)
    then show ?thesis using foreign_later_slot [OF failed(1) Cons.prems(2)] by simp
  next
    case (worked now t l)
    have "slot S (resource_name l) (m_token l) {m_owner l} {} (lease_rows w1)" "m_owner l = boss"
      using acquired_slot [OF worked(2) foreign_later_slot [OF worked(1) Cons.prems(2)]] by (rule conjunct1, rule conjunct2)
    then show ?thesis using worked(3) by simp
  qed
  from Cons.prems(1) show ?case unfolding acquire_slot.simps
  proof (cases rule: handle_elim)
    case (handled c kd w1)
    have "slot S n k {} {} (lease_rows w1)" using attempt [OF handled(1)] by simp
    with handled(2) Cons.IH show ?thesis by (auto split: if_splits)
  next
    case same
    from attempt [OF same] show ?thesis .
  qed
qed simp

lemmas exhausted_defs = settle_exhausted_failure_def settle_exhausted_attempt_def exhausted_attempt_def fail_exhausted_def Let_def

lemma settle_exhausted_keeps: "store_only.keeps (settle_exhausted_failure rig c n)"
  unfolding exhausted_defs
  by (auto intro!: store_only.keeps_intros lawful_intros split: option.split)

lemma settle_under_claim_keeps: "store_only.keeps (settle_under_claim rig jid owner n)"
proof -
  have "store_only.keeps (finally_do (settle_exhausted_failure rig c n) (release_claim rig auth))" for c auth
    unfolding store_only.keeps_def finally_do_def
    using store_only.keepsD [OF settle_exhausted_keeps] store_only.keepsD [OF release_claim_keeps]
    by (fastforce split: prod.split sum.split)
  then show ?thesis unfolding settle_under_claim_def by (intro store_only.keeps_intros lawful_intros)
qed

text \<open>The last part: a job whose workers failed too often is settled, and otherwise a slot is taken.\<close>

definition keeps_slot :: "engine_rig \<Rightarrow> failure + worker_admission option \<Rightarrow> lease_table \<Rightarrow> bool" where
  "keeps_slot rig res t \<longleftrightarrow>
     (\<forall>adm. res = Inr (Some adm) \<longrightarrow> admitted (engine_names rig) (source_lease adm) res t
        \<and> process_instance_id (m_owner (source_lease adm)) \<in> engine_names rig)
     \<and> ((\<forall>adm. res \<noteq> Inr (Some adm)) \<longrightarrow> holds_nothing (engine_names rig) t)"

lemma take_slot_slot:
  assumes "bind (fresh_name rig ''engine-supervisor-'') (\<lambda>name. bind (make_owner identity name n) (\<lambda>supervisor.
       bind (acquire_slot rig supervisor names err) (admit_with_slot rig r identity))) w = (res, w')"
    and "calm_leases (engine_names rig) rig" and "slot (engine_names rig) [] 0 {} {} (lease_rows w)"
  shows "keeps_slot rig res (lease_rows w')"
proof -
  have idle: "lease_rows w' = lease_rows w \<Longrightarrow> res = Inl e \<Longrightarrow> ?thesis" for e
    using slot_nothing [OF assms(3)] by (simp add: keeps_slot_def)
  from assms(1) show ?thesis
  proof (cases rule: bind_elim)
    case (failed e)
    then show ?thesis using fresh_name_run idle by blast
  next
    case (went_on name w1)
    have w1: "lease_rows w1 = lease_rows w" "name \<in> engine_names rig" using fresh_name_run [OF went_on(1)] engine_namesI(1) by blast+
    from went_on(2) show ?thesis
    proof (cases rule: bind_elim)
      case (failed e)
      then show ?thesis using make_owner_run [OF failed(1)] w1 idle by simp
    next
      case (went_on boss w2)
      have w2: "lease_rows w2 = lease_rows w" "process_instance_id boss \<in> engine_names rig"
        using make_owner_run [OF went_on(1)] w1 by auto
      from went_on(2) show ?thesis
      proof (cases rule: bind_elim)
        case (failed e)
        then show ?thesis using acquire_slot_slot [OF failed(1) assms(2)] assms(3) w2(1) by (auto simp: keeps_slot_def intro: slot_nothing)
      next
        case (went_on source w3)
        have s: "m_owner source = boss" "slot (engine_names rig) (resource_name source) (m_token source) {m_owner source} {} (lease_rows w3)"
          using acquire_slot_slot [OF went_on(1) assms(2)] assms(3) w2(1) by auto
        with w2(2) have "process_instance_id (m_owner source) \<in> engine_names rig" by simp
        from admit_with_slot_slot [OF went_on(2) assms(2) this s(2) engine_namesI(2)] this show ?thesis
          by (cases res) (auto simp: keeps_slot_def admitted_def split: option.splits)
      qed
    qed
  qed
qed

lemma settle_instead_slot:
  assumes "bind (fresh_name rig pre) (\<lambda>owner. bind (settle_under_claim rig jid owner n) (\<lambda>_. return None)) w = (res, w')"
    and "slot (engine_names rig) [] 0 {} {} (lease_rows w)"
  shows "keeps_slot rig res (lease_rows w')"
proof -
  have "store_only.keeps (bind (fresh_name rig pre) (\<lambda>owner. bind (settle_under_claim rig jid owner n) (\<lambda>_. return None)))"
    by (intro store_only.keeps_bind store_only.keeps_return settle_under_claim_keeps) (auto simp: store_only.keeps_def fresh_name_def tick_def)
  from store_only.keepsD [OF this assms(1)] assms slot_nothing show ?thesis
    by (auto simp: keeps_slot_def elim!: bind_elim)
qed

lemma admit_worker_slot:
  assumes "admit_worker rig cfg r w = (res, w')" and "calm_leases (engine_names rig) rig"
    and "slot (engine_names rig) [] 0 {} {} (lease_rows w)"
  shows "keeps_slot rig res (lease_rows w')"
proof -
  let ?jid = "ref_job_id r"
  have idle: "lease_rows w' = lease_rows w \<Longrightarrow> (\<forall>adm. res \<noteq> Inr (Some adm)) \<Longrightarrow> ?thesis"
    using slot_nothing [OF assms(3)] by (simp add: keeps_slot_def)
  have resolve: "store_only.keeps (resolve_repository rig r)"
    by (auto simp: store_only.keeps_def resolve_repository_def tick_def split: option.split)
  from assms(1) [unfolded admit_worker_def Let_def] show ?thesis
  proof (cases rule: bind_elim)
    case (failed err)
    then show ?thesis using idle store_only.keepsD [OF resolve] by blast
  next
    case (went_on u w1)
    have w1: "lease_rows w1 = lease_rows w" by (rule store_only.keepsD [OF resolve went_on(1)])
    from went_on(2) show ?thesis
    proof (cases rule: bind_elim)
      case (failed err)
      then show ?thesis using idle store_only.keepsD [OF store_only.keeps_observe failed(1)] w1 by simp
    next
      case (went_on j w2)
      have w2: "lease_rows w2 = lease_rows w" using store_only.keepsD [OF store_only.keeps_observe went_on(1)] w1 by simp
      consider (refused) "\<forall>adm. res \<noteq> Inr (Some adm)" "w' = w2"
        | (waits) "execution_owner j = ENGINE" "principal j = LOCAL_USER_PRINCIPAL" "job_waits j"
        using went_on(2) by (auto split: if_splits)
      then show ?thesis
      proof cases
        case refused
        with w2 show ?thesis by (intro idle) simp_all
      next
        case waits
        note rest = went_on(2) [unfolded waits, simplified waits, simplified]
        from rest show ?thesis
        proof (cases rule: bind_elim)
          case (failed err)
          then show ?thesis using idle store_only.keepsD [OF store_only.keeps_observe failed(1)] w2 by simp
        next
          case (went_on n w3)
          have w3: "slot (engine_names rig) [] 0 {} {} (lease_rows w3)"
            using store_only.keepsD [OF store_only.keeps_observe went_on(1)] w2 assms(3) by simp
          from went_on(2) show ?thesis
            by (cases "MAXIMUM_AUTOMATIC_WORKER_LAUNCHES \<le> n") (auto intro: settle_instead_slot [OF _ w3] take_slot_slot [OF _ assms(2) w3])
        qed
      qed
    qed
  qed
qed

section \<open>Giving a slot back\<close>

text \<open>None of the names is in the table yet.\<close>

definition absent :: "string set \<Rightarrow> lease_table \<Rightarrow> bool" where
  "absent S t \<longleftrightarrow> (\<forall>r \<in> set t. process_instance_id (row_owner r) \<notin> S \<and> (\<forall>p. row_handoff r = Some p \<longrightarrow> process_instance_id (to_owner p) \<notin> S))"

lemma absent_slot: "absent S t \<Longrightarrow> slot S n k {} {} t"
  by (simp add: absent_def slot_def slot_row_def)

text \<open>What a worker process does to the table: it takes the handoff over, renews the lease and gives it back.\<close>

fun worker_command :: "string set \<Rightarrow> resource_handoff \<Rightarrow> lease_command \<Rightarrow> bool" where
  "worker_command S h (LAdopt h' ttl) \<longleftrightarrow> h' = h \<or> foreign S (LAdopt h' ttl)"
| "worker_command S h (LHeartbeat name w token ttl) \<longleftrightarrow> name = h_resource h \<and> token = h_token h \<or> foreign S (LHeartbeat name w token ttl)"
| "worker_command S h (LRelease name w token) \<longleftrightarrow> name = h_resource h \<and> token = h_token h \<or> foreign S (LRelease name w token)"
| "worker_command S h c \<longleftrightarrow> foreign S c"

definition tame_runner :: "string set \<Rightarrow> (engine_worker_launch \<Rightarrow> run_end engine_flow) \<Rightarrow> bool" where
  "tame_runner S runner \<longleftrightarrow> (\<forall>l w. \<exists>cs. (\<forall>now c. (now, c) \<in> set cs \<longrightarrow> worker_command S (l_handoff l) c)
      \<and> lease_rows (snd (runner l w)) = run_lease_commands cs (lease_rows w))"

lemma slot_row_renewed: "slot_row S name token owners heirs (r\<lparr>row_expires_at := x\<rparr>) \<longleftrightarrow> slot_row S name token owners heirs r"
  by (simp add: slot_row_def)

lemma updated_slot:
  assumes "slot S name token owners heirs t" and "\<And>r. p r \<Longrightarrow> slot_row S name token owners heirs r \<Longrightarrow> slot_row S name token owners heirs (f r)"
  shows "slot S name token owners heirs (sql_update p f t)"
  using assms by (auto simp: slot_def in_sql_update)

lemma worker_command_slot:
  assumes "worker_command S h c" and "slot S (h_resource h) (h_token h) owners heirs t" and "h_owner h \<in> owners"
  shows "slot S (h_resource h) (h_token h) owners heirs (run_lease_command now c t)"
proof (cases "foreign S c")
  case True
  then show ?thesis using assms(2) by (rule foreign_slot)
next
  case False
  have rows: "\<And>r. r \<in> set t \<Longrightarrow> slot_row S (h_resource h) (h_token h) owners heirs r" using assms(2) by (simp add: slot_def)
  from False assms(1) consider (adopt) ttl where "c = LAdopt h ttl"
    | (heartbeat) w ttl where "c = LHeartbeat (h_resource h) w (h_token h) ttl" | (release) w where "c = LRelease (h_resource h) w (h_token h)"
    by (cases c) auto
  then show ?thesis
  proof cases
    case adopt
    let ?f = "\<lambda>r. r\<lparr>row_owner := h_owner h, row_expires_at := now + ttl * 1000, row_handoff := None\<rparr>"
    have "run_lease_command now c t \<in> {t, sql_update (adoptable now h) ?f t}"
      by (auto simp: adopt kept_or_def adopt_resource_def Let_def result_simps split: sum.splits if_splits)
    moreover have "slot S (h_resource h) (h_token h) owners heirs (sql_update (adoptable now h) ?f t)"
      using assms(2) by (rule updated_slot) (use assms(3) in \<open>simp add: slot_row_def adoptable_def\<close>)
    ultimately show ?thesis using assms(2) by fastforce
  next
    case heartbeat
    let ?f = "\<lambda>r. r\<lparr>row_expires_at := now + ttl * 1000\<rparr>"
    let ?p = "\<lambda>r. held_by (h_resource h) w (h_token h) r \<and> now < row_expires_at r"
    have "run_lease_command now c t \<in> {t, sql_update ?p ?f t}"
      by (auto simp: heartbeat kept_or_def heartbeat_resource_def Let_def result_simps split: sum.splits if_splits)
    moreover have "slot S (h_resource h) (h_token h) owners heirs (sql_update ?p ?f t)"
      using assms(2) by (rule updated_slot) (simp only: slot_row_renewed)
    ultimately show ?thesis using assms(2) by fastforce
  next
    case release
    with assms(2) show ?thesis
      by (auto simp: kept_or_def intro: released_slot(1) split: sum.splits)
  qed
qed

lemma worker_commands_slot:
  assumes "\<And>now c. (now, c) \<in> set cs \<Longrightarrow> worker_command S h c" and "slot S (h_resource h) (h_token h) owners heirs t" and "h_owner h \<in> owners"
  shows "slot S (h_resource h) (h_token h) owners heirs (run_lease_commands cs t)"
  using assms by (induction cs t rule: run_lease_commands.induct) (auto intro: worker_command_slot)

lemma release_admission_frees:
  assumes "release_admission rig adm w = (res, w')" and "calm_leases S rig"
    and "slot S (resource_name (source_lease adm)) (m_token (source_lease adm)) {m_owner (source_lease adm), h_owner (l_handoff (adm_launch adm))} heirs (lease_rows w)"
    and "h_resource (l_handoff (adm_launch adm)) = resource_name (source_lease adm)" "h_token (l_handoff (adm_launch adm)) = m_token (source_lease adm)"
    and "process_instance_id (m_owner (source_lease adm)) \<in> S" "process_instance_id (h_owner (l_handoff (adm_launch adm))) \<in> S"
  shows "res = Inr () \<and> holds_nothing S (lease_rows w')"
proof -
  let ?l = "source_lease adm" and ?h = "l_handoff (adm_launch adm)"
  obtain r1 w1 where claim: "release_claim rig (l_authority (adm_launch adm)) w = (r1, w1)" by fastforce
  obtain r2 w2 where adopted: "quietly (on_leases rig (\<lambda>_. release_adopted ?h)) w1 = (r2, w2)" by fastforce
  obtain r3 w3 where release: "release_lease rig ?l w2 = (r3, w3)" by fastforce
  have end_run: "res = Inr ()" "w' = w3"
    using assms(1) claim adopted release quietly_run [OF adopted] by (auto simp: release_admission_def quietly_def bind_def)
  have "lease_rows w1 = lease_rows w" by (rule store_only.keepsD [OF release_claim_keeps claim])
  with assms(3-5) have s1: "slot S (h_resource ?h) (h_token ?h) {m_owner ?l, h_owner ?h} heirs (lease_rows w1)" by simp
  note heir = release_adopted_run [OF adopted assms(2) s1]
  from heir(1) assms(4,5) have s2: "slot S (resource_name ?l) (m_token ?l) {m_owner ?l, h_owner ?h} heirs (lease_rows w2)" by simp
  note own = release_lease_run [OF release assms(2) s2 assms(6)]
  have "freed {h_owner ?h} (lease_rows w3)" using own(4) [OF heir(2)] assms(7) by simp
  with own(2,3) end_run show ?thesis by (auto intro: slot_freed)
qed

lemma settle_after_run_keeps: "store_only.keeps (settle_after_run rig adm ending n)"
proof -
  have "store_only.keeps (settle_cancellation rig adm)"
    unfolding settle_cancellation_def Let_def by (intro store_only.keeps_intros lawful_intros)
  then show ?thesis unfolding settle_after_run_def Let_def
    by (intro store_only.keeps_intros lawful_intros) (auto intro!: store_only.keeps_intros settle_under_claim_keeps split: option.split)
qed

lemma run_worker_slot:
  assumes "run_worker rig runner adm w = (res, w')" and "tame_runner S runner" and "h_owner (l_handoff (adm_launch adm)) \<in> owners"
    and "slot S (h_resource (l_handoff (adm_launch adm))) (h_token (l_handoff (adm_launch adm))) owners heirs (lease_rows w)"
  shows "(\<exists>r. res = Inr r) \<and> slot S (h_resource (l_handoff (adm_launch adm))) (h_token (l_handoff (adm_launch adm))) owners heirs (lease_rows w')"
proof -
  let ?l = "adm_launch adm"
  obtain r1 w1 where record_run: "transact (store_rig rig) (\<lambda>e. record_engine_worker_launch e (ref_job_id (l_reference ?l)) (l_authority ?l)) w = (r1, w1)"
    by fastforce
  have "store_only.keeps (transact (store_rig rig) (\<lambda>e. record_engine_worker_launch e (ref_job_id (l_reference ?l)) (l_authority ?l)))"
    by (intro store_only.keeps_intros lawful_intros)
  then have w1: "lease_rows w1 = lease_rows w" using record_run by (rule store_only.keepsD)
  obtain r2 w2 where run: "runner ?l w1 = (r2, w2)" by fastforce
  obtain cs where "\<And>now c. (now, c) \<in> set cs \<Longrightarrow> worker_command S (l_handoff ?l) c" and w2: "lease_rows w2 = run_lease_commands cs (lease_rows w1)"
    using assms(2) run unfolding tame_runner_def by (metis snd_conv)
  from worker_commands_slot [OF this(1) _ assms(3)] assms(4) w1 w2 have "slot S (h_resource (l_handoff ?l)) (h_token (l_handoff ?l)) owners heirs (lease_rows w2)"
    by simp
  with assms(1,4) record_run run w1 show ?thesis by (auto simp: run_worker_def split: sum.splits)
qed

lemma supervised_slot:
  assumes "supervise_worker rig runner adm w = (res, w')" and "calm_leases S rig" and "tame_runner S runner"
    and "admitted S source (Inr (Some adm)) (lease_rows w)" and "process_instance_id (m_owner source) \<in> S"
  shows "holds_nothing S (lease_rows w')"
proof -
  let ?h = "l_handoff (adm_launch adm)"
  have adm: "source_lease adm = source" "h_resource ?h = resource_name source" "h_token ?h = m_token source"
    "process_instance_id (h_owner ?h) \<in> S" "slot S (resource_name source) (m_token source) {m_owner source} {h_owner ?h} (lease_rows w)"
    using assms(4) by (auto simp: admitted_def)
  have s: "slot S (h_resource ?h) (h_token ?h) {m_owner source, h_owner ?h} {h_owner ?h} (lease_rows w)"
    using adm by (auto intro: slot_mono)
  obtain ending n w1 where run: "run_worker rig runner adm w = (Inr (ending, n), w1)"
    and s1: "slot S (h_resource ?h) (h_token ?h) {m_owner source, h_owner ?h} {h_owner ?h} (lease_rows w1)"
  proof -
    obtain r1 w1 where run: "run_worker rig runner adm w = (r1, w1)" by fastforce
    from run_worker_slot [OF this assms(3) _ s] obtain p where "r1 = Inr p"
      "slot S (h_resource ?h) (h_token ?h) {m_owner source, h_owner ?h} {h_owner ?h} (lease_rows w1)" by auto
    with run show thesis by (cases p) (auto intro: that)
  qed
  obtain r2 w2 where settle: "settle_after_run rig adm ending n w1 = (r2, w2)" by fastforce
  have w2: "lease_rows w2 = lease_rows w1" by (rule store_only.keepsD [OF settle_after_run_keeps settle])
  obtain r3 w3 where release: "release_admission rig adm w2 = (r3, w3)" by fastforce
  have "r3 = Inr () \<and> holds_nothing S (lease_rows w3)"
    using release_admission_frees [OF release assms(2)] s1 w2 adm assms(5) by simp
  moreover have "w' = w3" if "r3 = Inr ()"
    using assms(1) run settle release that by (auto simp: supervise_worker_def bind_def return_def split: sum.splits)
  ultimately show ?thesis by simp
qed

text \<open>The loop's step: what is not launched has given everything back.\<close>

lemma refuse_reference_run:
  assumes "refuse_reference rig r err rel w = (Inr x, w')"
  obtains w1 r2 where "lease_rows w1 = lease_rows w" "rel w1 = (r2, w')" "x = AdmissionRefused"
proof -
  let ?wait = "if is_busy err then handle (record_resource_waiting rig r) (\<lambda>_ _. return ()) else return ()"
  have "store_only.keeps (resolve_repository rig r)"
    by (auto simp: store_only.keeps_def resolve_repository_def tick_def split: option.split)
  then have "store_only.keeps ?wait" unfolding record_resource_waiting_def by (intro store_only.keeps_intros lawful_intros)
  from store_only.keeps_prefix [OF assms [unfolded refuse_reference_def] this] obtain w1 where w1: "lease_rows w1 = lease_rows w"
    and run: "bind rel (\<lambda>_. return AdmissionRefused) w1 = (Inr x, w')" by auto
  from run show thesis by (rule bind_elim) (auto intro: that [OF w1])
qed

lemma admit_reference_slot:
  assumes "admit_reference rig cfg r w = (Inr x, w')" and "calm_leases (engine_names rig) rig" and "absent (engine_names rig) (lease_rows w)"
  shows "case x of Launches adm \<Rightarrow> admitted (engine_names rig) (source_lease adm) (Inr (Some adm)) (lease_rows w')
           \<and> process_instance_id (m_owner (source_lease adm)) \<in> engine_names rig
         | _ \<Rightarrow> holds_nothing (engine_names rig) (lease_rows w')"
proof -
  obtain r1 w1 where admit: "admit_worker rig cfg r w = (r1, w1)" by fastforce
  have kept: "keeps_slot rig r1 (lease_rows w1)" by (rule admit_worker_slot [OF admit assms(2) absent_slot [OF assms(3)]])
  consider (failed) err where "r1 = Inl err" | (declined) "r1 = Inr None" | (taken) adm where "r1 = Inr (Some adm)"
    by (cases r1) (auto simp: not_None_eq [symmetric])
  then show ?thesis
  proof cases
    case failed
    with assms(1) admit have "refuse_reference rig r err (return ()) w1 = (Inr x, w')" by (simp add: admit_reference_def)
    then obtain w2 where "lease_rows w2 = lease_rows w1" "w' = w2" "x = AdmissionRefused"
      by (rule refuse_reference_run) auto
    with kept failed show ?thesis by (simp add: keeps_slot_def)
  next
    case declined
    with assms(1) admit kept show ?thesis by (auto simp: admit_reference_def keeps_slot_def)
  next
    case taken
    with kept have adm: "admitted (engine_names rig) (source_lease adm) (Inr (Some adm)) (lease_rows w1)"
      "process_instance_id (m_owner (source_lease adm)) \<in> engine_names rig" by (simp_all add: keeps_slot_def)
    obtain r2 w2 where event_run: "record_resource_admitted rig (ref_job_id r) w1 = (r2, w2)" by fastforce
    have "store_only.keeps (record_resource_admitted rig (ref_job_id r))"
      unfolding record_resource_admitted_def by (intro store_only.keeps_intros lawful_intros)
    then have w2: "lease_rows w2 = lease_rows w1" using event_run by (rule store_only.keepsD)
    show ?thesis
    proof (cases r2)
      case (Inr u)
      with assms(1) admit taken event_run have "x = Launches adm" "w' = w2" by (auto simp: admit_reference_def)
      with adm w2 show ?thesis by simp
    next
      case (Inl err)
      with assms(1) admit taken event_run have "refuse_reference rig r err (release_admission rig adm) w2 = (Inr x, w')"
        by (simp add: admit_reference_def)
      then obtain w3 r3 where w3: "lease_rows w3 = lease_rows w2" and release: "release_admission rig adm w3 = (r3, w')" and "x = AdmissionRefused"
        by (rule refuse_reference_run)
      have "slot (engine_names rig) (resource_name (source_lease adm)) (m_token (source_lease adm))
          {m_owner (source_lease adm), h_owner (l_handoff (adm_launch adm))} {h_owner (l_handoff (adm_launch adm))} (lease_rows w3)"
        using adm(1) w2 w3 by (auto simp: admitted_def intro: slot_mono)
      from release_admission_frees [OF release assms(2) this] adm \<open>x = AdmissionRefused\<close> show ?thesis by (simp add: admitted_def)
    qed
  qed
qed

end
