(* ===== verification/AdmissionProperties.thy ===== *)
theory AdmissionProperties
  imports Slots JobEffects Scenarios
begin

text \<open>
  What the dispatcher makes of the machine's slots and of a job whose workers keep failing: a slot that was taken for a
  worker is given back whether the admission fails or the worker ends, unless the lease table refuses it, and a job whose workers failed too often is settled.
\<close>

section \<open>Concrete runs\<close>

definition demo_engine_rig :: "int \<Rightarrow> engine_rig" where
  "demo_engine_rig now = \<lparr>moment = (\<lambda>_. demo_env now), others = (\<lambda>_. []), fault = (\<lambda>_. None), extra_beat = (\<lambda>_. None),
     hasher = (\<lambda>p. ''h'' @ p), floats = (\<lambda>_. None), machine_clock = (\<lambda>_. now), lease_others = (\<lambda>_. []), lease_fault = (\<lambda>_. None),
     resolve_error = (\<lambda>_ _. None), instance_identity = (\<lambda>_. replicate 64 (CHR ''a'')), fresh_hex = (\<lambda>k. [char_of (97 + k)]),
     fresh_secret = (\<lambda>_. replicate 43 (CHR ''0'')), engine_pid = 7, monotonic = (\<lambda>_. 0), stopping = (\<lambda>_. False)\<rparr>"

definition demo_engine_world :: "(env \<times> command) list \<Rightarrow> engine_world" where
  "demo_engine_world cs = \<lparr>ticks = 0, w_store = demo_store cs, lease_rows = []\<rparr>"

definition demo_waiting_reference :: engine_job_reference where
  "demo_waiting_reference = \<lparr>workspace_instance_id = replicate 32 (CHR ''a''), ref_job_id = ''jobA''\<rparr>"

definition admission_settings :: dispatcher_settings where
  "admission_settings = \<lparr>maximum_pending_jobs = 10, maximum_active_workers = 2, interval_is_positive = True\<rparr>"

text \<open>A job that waits, and one another process has claimed until 61000.\<close>

definition demo_waiting :: "(env \<times> command) list" where
  "demo_waiting = [(demo_env 1000, CreateJob ''h'' None LOCAL_USER_PRINCIPAL None None [] None ENGINE)]"

definition demo_claimed :: "(env \<times> command) list" where
  "demo_claimed = demo_waiting @ [(demo_env 1000, ClaimJob ''jobA'' ''other'' 60)]"

definition demo_worker :: "engine_worker_launch \<Rightarrow> run_end engine_flow" where
  "demo_worker l w = (Inr (Exited 0), w\<lparr>lease_rows := run_lease_commands [(2000, LAdopt (l_handoff l) 300)] (lease_rows w)\<rparr>)"

lemma demo_engine_facts:
  "calm_leases S (demo_engine_rig now)" "absent S (lease_rows (demo_engine_world cs))" "tame_runner S demo_worker"
  "reachable (w_store (demo_engine_world cs))"
  by (auto simp: calm_leases_def demo_engine_rig_def absent_def demo_engine_world_def tame_runner_def demo_worker_def demo_reachable
      intro: exI [of _ "[(2000, LAdopt h 300)]" for h])

lemma demo_admissions:
  "case admit_reference (demo_engine_rig 2000) admission_settings demo_waiting_reference (demo_engine_world demo_claimed) of
     (Inr AdmissionRefused, w) \<Rightarrow> lease_rows w \<noteq> [] | _ \<Rightarrow> False"
  "case admit_reference (demo_engine_rig 2000) admission_settings demo_waiting_reference (demo_engine_world demo_waiting) of
     (Inr (Launches adm), w) \<Rightarrow> map row_expires_at (lease_rows w) = [302000] | _ \<Rightarrow> False"
  by code_simp+

section \<open>Slots are given back\<close>

text \<open>C30: An admission that launches no worker gives everything back. When the dispatcher's step for a reference ends without a
  worker, because the job does not wait, a slot could not be had, the handoff or the claim failed, or the event could not
  be recorded, then no lease of the machine is held in the name of this engine any more, whatever other processes did to the table in
  between. This holds as long as no transaction on the lease table is refused: the code passes over a release that failed, and the lease
  then lasts until its time is over. Other processes are taken not to act under the names this engine draws, which were not in the
  table before; the job store may fail and be changed in any way.
\<close>

theorem failed_admission_holds_nothing:
  assumes "admit_reference rig cfg r w = (Inr x, w')" and "calm_leases (engine_names rig) rig" and "absent (engine_names rig) (lease_rows w)"
    and "\<forall>adm. x \<noteq> Launches adm"
  shows "holds_nothing (engine_names rig) (lease_rows w')"
  using admit_reference_slot [OF assms(1-3)] assms(4) by (cases x) auto

theorem failed_admission_holds_nothing_witness:
  "\<exists>w'. admit_reference (demo_engine_rig 2000) admission_settings demo_waiting_reference (demo_engine_world demo_claimed) = (Inr AdmissionRefused, w')
     \<and> lease_rows w' \<noteq> [] \<and> holds_nothing (engine_names (demo_engine_rig 2000)) (lease_rows w')"
proof -
  obtain w' where run: "admit_reference (demo_engine_rig 2000) admission_settings demo_waiting_reference (demo_engine_world demo_claimed) = (Inr AdmissionRefused, w')"
    "lease_rows w' \<noteq> []"
    using demo_admissions(1) by (auto split: prod.splits sum.splits admission_end.splits)
  from failed_admission_holds_nothing [OF run(1) demo_engine_facts(1,2)] run show ?thesis by auto
qed

text \<open>C31: The slot of a worker is given back. Whatever the worker process does under its launch and however it ends, once the
  supervisor of an admitted worker is through, the engine holds no lease of the machine any more: neither the worker's,
  if it took the handoff over, nor the supervisor's own. This holds as long as no transaction on the lease table is refused: the code
  passes over a release that failed, and the slot is then taken until its time is over. Other processes are taken not to act under the
  names this engine draws, which were not in the table before, and the worker to act under none of them but its own, and with the
  lease it was handed only.
\<close>

theorem slot_is_given_back:
  assumes "admit_reference rig cfg r w = (Inr (Launches adm), w1)" and "calm_leases (engine_names rig) rig"
    and "absent (engine_names rig) (lease_rows w)" and "tame_runner (engine_names rig) runner"
  shows "holds_nothing (engine_names rig) (lease_rows (snd (supervise_worker rig runner adm w1)))"
proof -
  obtain res w2 where run: "supervise_worker rig runner adm w1 = (res, w2)" by fastforce
  from admit_reference_slot [OF assms(1-3)] supervised_slot [OF run assms(2,4), of "source_lease adm"] run show ?thesis by simp
qed

theorem slot_is_given_back_witness:
  "\<exists>adm w1. admit_reference (demo_engine_rig 2000) admission_settings demo_waiting_reference (demo_engine_world demo_waiting) = (Inr (Launches adm), w1)
     \<and> map row_expires_at (lease_rows w1) = [302000]
     \<and> holds_nothing (engine_names (demo_engine_rig 2000)) (lease_rows (snd (supervise_worker (demo_engine_rig 2000) demo_worker adm w1)))"
proof -
  obtain adm w1 where run: "admit_reference (demo_engine_rig 2000) admission_settings demo_waiting_reference (demo_engine_world demo_waiting) = (Inr (Launches adm), w1)"
    "map row_expires_at (lease_rows w1) = [302000]"
    using demo_admissions(2) by (auto split: prod.splits sum.splits admission_end.splits)
  from slot_is_given_back [OF run(1) demo_engine_facts(1-3)] run show ?thesis by (intro exI conjI)
qed

section \<open>Jobs whose workers failed too often\<close>

text \<open>The job ended, or waits for an answer.\<close>

definition put_down :: "string \<Rightarrow> store \<Rightarrow> bool" where
  "put_down jid s \<longleftrightarrow> (case get_row s jid of None \<Rightarrow> False | Some r \<Rightarrow> state r = FAILED \<or> state r = CANCELLED \<or> state r = WAITING_FOR_INPUT)"

lemma settle_claimed_puts_down:
  assumes "settle_claimed_cancellation e jid s = Inr s'" and "ids_ok s" and "get_row s jid = Some r"
    and "cancellation_requested r" and "state r = QUEUED \<or> state r = RUNNING"
  shows "put_down jid s'"
  using settle_claimed_effect [OF assms(1-4)] assms(5) by (auto simp: put_down_def)

lemma claim_puts_down:
  assumes "claim_job e jid owner ttl s = Inr (c, s')" and "ids_ok s" and "\<not> job_waits (claim_job_value c)"
  shows "put_down jid s'"
proof -
  from assms(1) obtain r b token s1 where r: "get_row s jid = Some r" "state r = QUEUED \<or> state r = RUNNING"
    and bind: "bind_claim e jid owner ttl s = Inr (token, s1)"
    and can: "cancellation_requested r \<longrightarrow> settle_claimed_cancellation e jid s1 = Inr s'"
    and go: "\<not> cancellation_requested r \<longrightarrow> (if state r = QUEUED then \<exists>v s2. insert_job_state_event e jid RUNNING (set_job_state e jid RUNNING s1) = Inr (v, s2)
        \<and> get_job s2 jid = Inr (claim_job_value c) else claim_job_value c = job_from_row r)"
    by (auto simp: claim_job_def result_simps split: if_splits prod.splits)
  have r1: "get_row s1 jid = Some r" using r(1) bind_claim_frame [OF bind] by (simp add: get_row_def)
  have "store_step\<^sup>*\<^sup>* s s1" using bind_claim_runs [OF bind] r(1) assms(2) by (simp add: runs_def)
  then have ids: "ids_ok s1" using assms(2) by (rule ids_ok_rtrancl)
  show ?thesis
  proof (cases "cancellation_requested r")
    case True
    with can settle_claimed_puts_down [OF _ ids r1 True r(2)] show ?thesis by simp
  next
    case False
    have "get_row s2 jid = Some (move_row (utc e) RUNNING None None r)"
      if "insert_job_state_event e jid RUNNING (set_job_state e jid RUNNING s1) = Inr (v, s2)" for v s2
    proof -
      have "get_row s2 jid = get_row (set_job_state e jid RUNNING s1) jid"
        using insert_job_state_event_frame [OF that] by (auto simp: get_row_def)
      then show ?thesis using r1 by (auto simp: set_job_state_move get_row_update_job dest: get_row_SomeD)
    qed
    with go False assms(3) r(2) show ?thesis by (auto simp: job_waits_def result_simps move_row_def split: if_splits)
  qed
qed

lemma pause_puts_down:
  assumes "pause_for_external_outcome_atomic e jid aid auth s = Inr (c, s')" and "ids_ok s"
  shows "put_down jid s'"
proof -
  from assms(1) obtain r where r: "get_row s jid = Some r" "state r = RUNNING"
    and can: "cancellation_requested r \<longrightarrow> settle_claimed_cancellation e jid s = Inr s'"
    and go: "\<not> cancellation_requested r \<longrightarrow> (\<exists>a s1 cid prompt s2. announce_attempt e aid (set_attempt_state e aid A_NEEDS_INPUT s) = Inr (a, s1)
        \<and> insert_challenge e jid aid prompt s1 = Inr (cid, s2) \<and> wait_for_input e jid WAITING_FOR_INPUT s2 = Inr s')"
    by (auto simp: pause_for_external_outcome_atomic_def Let_def result_simps split: if_splits prod.splits; blast)
  show ?thesis
  proof (cases "cancellation_requested r")
    case True
    with can settle_claimed_puts_down [OF _ assms(2) r(1) True] r(2) show ?thesis by simp
  next
    case False
    with go obtain a s1 cid prompt s2 v where s1: "announce_attempt e aid (set_attempt_state e aid A_NEEDS_INPUT s) = Inr (a, s1)"
      and s2: "insert_challenge e jid aid prompt s1 = Inr (cid, s2)"
      and s': "insert_job_state_event e jid WAITING_FOR_INPUT (clear_launches jid (set_job_state e jid WAITING_FOR_INPUT s2)) = Inr (v, s')"
      by (auto simp: wait_for_input_def result_simps)
    have "jobs s2 = jobs s" using announce_attempt_frame [OF s1] insert_challenge_frame [OF s2] by (auto simp: store_updates)
    then have "get_row s2 jid = Some r" using r(1) by (simp add: get_row_def)
    moreover have "get_row s' jid = get_row (set_job_state e jid WAITING_FOR_INPUT s2) jid"
      using insert_job_state_event_frame [OF s'] by (simp add: clear_launches_def store_updates get_row_def)
    ultimately show ?thesis using get_row_SomeD [OF r(1)]
      by (simp add: put_down_def set_job_state_move get_row_update_job move_row_def)
  qed
qed

lemma fail_puts_down:
  assumes "fail_job_atomic e jid err attempt authority s = Inr (j, s')" and "ids_ok s"
  shows "put_down jid s'"
proof -
  from assms(1) obtain r where "get_row s jid = Some r"
    by (auto simp: fail_job_atomic_def result_simps split: if_splits)
  from fail_job_effect [OF assms(1,2) this] show ?thesis by (auto simp: put_down_def split: if_splits)
qed

lemma claimed_job: "claim_job e jid owner ttl s = Inr (c, s') \<Longrightarrow> job_id (claim_job_value c) = jid"
  by (auto simp: claim_job_def result_simps dest!: get_row_SomeD split: if_splits prod.splits)

text \<open>Between two worlds of a run there is a store in which the job is put down.\<close>

definition puts_down :: "string \<Rightarrow> engine_world \<Rightarrow> engine_world \<Rightarrow> bool" where
  "puts_down jid w w' \<longleftrightarrow> (\<exists>s. later (w_store w) s \<and> later s (w_store w') \<and> put_down jid s)"

lemma puts_down_before: "later (w_store w) (w_store w1) \<Longrightarrow> puts_down jid w1 w' \<Longrightarrow> puts_down jid w w'"
  and puts_down_after: "puts_down jid w w1 \<Longrightarrow> later (w_store w1) (w_store w') \<Longrightarrow> puts_down jid w w'"
  unfolding puts_down_def by (blast intro: later_trans)+

lemma transact_puts_down:
  assumes "transact rig f w = (Inr a, w')" and "lawful f" and "reachable (w_store w)"
    and "\<And>e s s'. f e s = Inr (a, s') \<Longrightarrow> ids_ok s \<Longrightarrow> put_down jid s'"
  shows "puts_down jid w w'"
proof -
  from assms(1,2) obtain e s where s: "later (w_store w) s" and f: "f e s = Inr (a, w_store w')" by (rule transact_done)
  then have "put_down jid (w_store w')" using assms(4) [OF f reachable_ids [OF reachable_later [OF assms(3) s]]] by simp
  moreover have "later s (w_store w')" using assms(2) f by (auto simp: lawful_def)
  with s have "later (w_store w) (w_store w')" by (rule later_trans)
  ultimately show ?thesis using later_refl unfolding puts_down_def by blast
qed

lemma history_went_on:
  assumes "bind f g w = (Inr x, w')" and "engine_history.keeps f"
  obtains a w1 where "f w = (Inr a, w1)" "later (w_store w) (w_store w1)" "g a w1 = (Inr x, w')"
  using engine_history.keeps_prefix [OF assms] by auto

lemma finally_do_Inr:
  assumes "finally_do f g w = (Inr x, w')"
  obtains w1 u where "f w = (Inr x, w1)" "g w1 = (Inr u, w')"
  using assms by (cases "f w"; cases "g (snd (f w))"; cases "fst (g (snd (f w)))") (auto simp: finally_do_def)

lemma fail_exhausted_puts_down:
  assumes "fail_exhausted rig c n attempt w = (Inr (), w')" and "reachable (w_store w)"
  shows "puts_down (job_id (claim_job_value c)) w w'"
proof -
  from assms(1) obtain j where "transact (store_rig rig) (\<lambda>e. fail_job_atomic e (job_id (claim_job_value c)) (exhausted_error n)
      (map_option attempt_id attempt) (Some (claim_authority c))) w = (Inr j, w')"
    unfolding fail_exhausted_def by (rule bind_elim) (auto simp: return_def)
  then show ?thesis by (rule transact_puts_down) (use assms(2) in \<open>auto intro: lawful_intros fail_puts_down\<close>)
qed

lemma settle_attempt_puts_down:
  assumes "settle_exhausted_attempt rig c n attempt w = (Inr (), w')" and "reachable (w_store w)"
  shows "puts_down (job_id (claim_job_value c)) w w'"
proof (cases attempt)
  case None
  with assms fail_exhausted_puts_down show ?thesis by (simp add: settle_exhausted_attempt_def)
next
  case (Some a)
  let ?jid = "job_id (claim_job_value c)" and ?auth = "claim_authority c"
  let ?clear = "bind (transact (store_rig rig) (\<lambda>_. clear_engine_worker_launches ?jid ?auth)) (\<lambda>_. return ())"
  let ?pause = "transact (store_rig rig) (\<lambda>e. pause_for_external_outcome_atomic e ?jid (attempt_id a) ?auth)"
  have reconcile: "engine_history.keeps (transact (store_rig rig) (\<lambda>e. reconcile_external_operations_after_process_loss e ?jid ?auth))"
    and clear: "engine_history.keeps ?clear"
    by (intro engine_history.keeps_intros lawful_intros)+
  from assms(1) have "bind (transact (store_rig rig) (\<lambda>e. reconcile_external_operations_after_process_loss e ?jid ?auth))
      (\<lambda>unknown. if unknown = [] then fail_exhausted rig c n attempt else bind ?pause (\<lambda>_. ?clear)) w = (Inr (), w')"
    unfolding Some by (simp add: settle_exhausted_attempt_def Let_def)
  from this reconcile obtain unknown w1 where w1: "later (w_store w) (w_store w1)"
    and run: "(if (unknown :: external_operation list) = [] then fail_exhausted rig c n attempt else bind ?pause (\<lambda>_. ?clear)) w1 = (Inr (), w')"
    by (rule history_went_on) (rule that; assumption)
  have reach: "reachable (w_store w1)" by (rule reachable_later [OF assms(2) w1])
  have "puts_down ?jid w1 w'"
  proof (cases "unknown = []")
    case True
    with run reach fail_exhausted_puts_down show ?thesis by simp
  next
    case False
    with run have "bind ?pause (\<lambda>_. ?clear) w1 = (Inr (), w')" by simp
    then obtain x w2 where pause: "?pause w1 = (Inr x, w2)" and rest: "?clear w2 = (Inr (), w')" by (rule bind_elim) auto
    have "puts_down ?jid w1 w2"
      by (rule transact_puts_down [OF pause _ reach]) (auto intro: lawful_intros pause_puts_down)
    then show ?thesis using engine_history.keepsD [OF clear rest] by (rule puts_down_after)
  qed
  with w1 show ?thesis by (rule puts_down_before)
qed

lemma settle_exhausted_puts_down:
  assumes "settle_exhausted_failure rig c n w = (Inr (), w')" and "reachable (w_store w)" and "job_waits (claim_job_value c)"
  shows "puts_down (job_id (claim_job_value c)) w w'"
proof -
  have keeps: "engine_history.keeps (exhausted_attempt rig c)"
    unfolding exhausted_defs by (auto intro!: engine_history.keeps_intros lawful_intros split: option.split)
  from assms(1,3) have "bind (exhausted_attempt rig c) (settle_exhausted_attempt rig c n) w = (Inr (), w')"
    by (simp add: settle_exhausted_failure_def)
  from this keeps obtain attempt w1 where w1: "later (w_store w) (w_store w1)"
    and "settle_exhausted_attempt rig c n attempt w1 = (Inr (), w')" by (rule history_went_on) (rule that; assumption)
  from puts_down_before [OF w1 settle_attempt_puts_down [OF this(2) reachable_later [OF assms(2) w1]]] show ?thesis .
qed

text \<open>C32: A job whose workers failed too often is settled. When the dispatcher's settling of it returns, then at some moment
  of it, whatever other processes did to the store between its transactions, the job had failed, was cancelled (when that had
  been asked for), or waited for an answer about calls whose outcome is unknown: it does not go on being retried.
\<close>

theorem exhausted_job_is_settled:
  assumes "settle_under_claim rig jid owner n w = (Inr (), w')" and "reachable (w_store w)"
  shows "\<exists>s. later (w_store w) s \<and> later s (w_store w')
    \<and> (\<exists>r. get_row s jid = Some r \<and> (state r = FAILED \<or> state r = CANCELLED \<or> state r = WAITING_FOR_INPUT))"
proof -
  from assms(1) obtain c w1 where claim: "transact (store_rig rig) (\<lambda>e. claim_job e jid owner WORKER_AUTHORITY_TTL_SECONDS) w = (Inr c, w1)"
    and rest: "finally_do (settle_exhausted_failure rig c n) (release_claim rig (claim_authority c)) w1 = (Inr (), w')"
    unfolding settle_under_claim_def by (rule bind_elim) auto
  have claim_lawful: "lawful (\<lambda>e. claim_job e jid owner WORKER_AUTHORITY_TTL_SECONDS)" by (intro lawful_intros)
  from claim this obtain e s where s: "later (w_store w) s" "claim_job e jid owner WORKER_AUTHORITY_TTL_SECONDS s = Inr (c, w_store w1)"
    by (rule transact_done)
  then have w1: "later (w_store w) (w_store w1)" using claim_lawful by (auto simp: lawful_def intro: later_trans)
  from rest obtain w2 u where settle: "settle_exhausted_failure rig c n w1 = (Inr (), w2)"
    and release: "release_claim rig (claim_authority c) w2 = (Inr u, w')"
    by (rule finally_do_Inr)
  have "engine_history.keeps (release_claim rig (claim_authority c))" by (intro engine_history.keeps_intros lawful_intros)
  from engine_history.keepsD [OF this release] have w2: "later (w_store w2) (w_store w')" .
  have "puts_down jid w w2"
  proof (cases "job_waits (claim_job_value c)")
    case True
    from settle_exhausted_puts_down [OF settle reachable_later [OF assms(2) w1] True] claimed_job [OF s(2)] w1 show ?thesis
      by (auto intro: puts_down_before)
  next
    case False
    with settle have "w2 = w1" by (simp add: settle_exhausted_failure_def return_def)
    moreover have "put_down jid (w_store w1)"
      using claim_puts_down [OF s(2) reachable_ids [OF reachable_later [OF assms(2) s(1)]] False] .
    ultimately show ?thesis using w1 later_refl unfolding puts_down_def by blast
  qed
  from puts_down_after [OF this w2] obtain t where "later (w_store w) t" "later t (w_store w')" "put_down jid t"
    unfolding puts_down_def by blast
  then show ?thesis by (intro exI [of _ t]) (simp add: put_down_def split: option.splits)
qed

theorem exhausted_job_is_settled_witness:
  "\<exists>w'. settle_under_claim (demo_engine_rig 100000) ''jobA'' ''recovery'' 3 (demo_engine_world demo_running) = (Inr (), w')
     \<and> (\<exists>s. later (demo_store demo_running) s \<and> later s (w_store w')
        \<and> (\<exists>r. get_row s ''jobA'' = Some r \<and> (state r = FAILED \<or> state r = CANCELLED \<or> state r = WAITING_FOR_INPUT)))"
proof -
  have "case settle_under_claim (demo_engine_rig 100000) ''jobA'' ''recovery'' 3 (demo_engine_world demo_running) of
      (Inr u, w) \<Rightarrow> True | _ \<Rightarrow> False" by code_simp
  then obtain w' where run: "settle_under_claim (demo_engine_rig 100000) ''jobA'' ''recovery'' 3 (demo_engine_world demo_running) = (Inr (), w')"
    by (auto split: prod.splits sum.splits)
  from exhausted_job_is_settled [OF run demo_engine_facts(4)] run show ?thesis by (auto simp: demo_engine_world_def)
qed

end
