(* ===== verification/MarkdownPaths.thy ===== *)
theory MarkdownPaths
  imports Prelude
begin

text \<open>
  Where a link of a draft may lead (\<open>core/portable/markdown_safety.py\<close>, \<open>_validate_destination\<close> and
  \<open>_is_portable_bundle_path\<close>), with the functions of Python's library it calls: \<open>html.unescape\<close>, \<open>urllib.parse.unquote\<close> and
  \<open>urlsplit\<close>, \<open>posixpath\<close>. Texts are lists of Unicode code points. The table of named character references, and the
  checks \<open>urlsplit\<close> makes of a network location (IPv6 addresses, NFKC), are arguments.
\<close>

section \<open>Texts\<close>

type_synonym utext = "nat list"

definition ascii :: "string \<Rightarrow> utext" where
  "ascii s = map of_char s"

definition starts_with :: "utext \<Rightarrow> utext \<Rightarrow> bool" where
  "starts_with p s \<longleftrightarrow> take (length p) s = p"

definition uspace :: "nat \<Rightarrow> bool" where
  "uspace c \<longleftrightarrow> (9 \<le> c \<and> c \<le> 13) \<or> (28 \<le> c \<and> c \<le> 32) \<or> c = 0x85 \<or> c = 0xA0 \<or> c = 0x1680 \<or> (0x2000 \<le> c \<and> c \<le> 0x200A)
     \<or> c = 0x2028 \<or> c = 0x2029 \<or> c = 0x202F \<or> c = 0x205F \<or> c = 0x3000"

definition strip_by :: "(nat \<Rightarrow> bool) \<Rightarrow> utext \<Rightarrow> utext" where
  "strip_by p s = rev (dropWhile p (rev (dropWhile p s)))"

definition ustrip :: "utext \<Rightarrow> utext" where
  "ustrip s = strip_by uspace s"

text \<open>\<open>text.split(sep)\<close>, and what comes before the first \<open>sep\<close>.\<close>

fun split_on :: "nat \<Rightarrow> utext \<Rightarrow> utext list" where
  "split_on sep [] = [[]]"
| "split_on sep (c # cs) = (if c = sep then [] # split_on sep cs
     else (case split_on sep cs of [] \<Rightarrow> [[c]] | w # ws \<Rightarrow> (c # w) # ws))"

definition before :: "nat \<Rightarrow> utext \<Rightarrow> utext" where
  "before sep s = takeWhile (\<lambda>c. c \<noteq> sep) s"

fun join_with :: "nat \<Rightarrow> utext list \<Rightarrow> utext" where
  "join_with sep [] = []"
| "join_with sep [w] = w"
| "join_with sep (w # ws) = w @ sep # join_with sep ws"

definition ascii_letter :: "nat \<Rightarrow> bool" where
  "ascii_letter c \<longleftrightarrow> (65 \<le> c \<and> c \<le> 90) \<or> (97 \<le> c \<and> c \<le> 122)"

definition ascii_lower :: "nat \<Rightarrow> nat" where
  "ascii_lower c = (if 65 \<le> c \<and> c \<le> 90 then c + 32 else c)"

definition ascii_digit :: "nat \<Rightarrow> bool" where
  "ascii_digit c \<longleftrightarrow> 48 \<le> c \<and> c \<le> 57"

definition hex_value :: "nat \<Rightarrow> nat option" where
  "hex_value c = (if ascii_digit c then Some (c - 48) else if 97 \<le> ascii_lower c \<and> ascii_lower c \<le> 102 then Some (ascii_lower c - 87) else None)"

section \<open>Percent escapes\<close>

fun unquote_to_bytes :: "utext \<Rightarrow> nat list" where
  "unquote_to_bytes [] = []"
| "unquote_to_bytes (c # cs) =
    (if c = 37 then (case cs of
        a # b # rest \<Rightarrow> (case (hex_value a, hex_value b) of
            (Some x, Some y) \<Rightarrow> (16 * x + y) # unquote_to_bytes rest
          | _ \<Rightarrow> 37 # unquote_to_bytes cs)
      | _ \<Rightarrow> 37 # unquote_to_bytes cs)
     else c # unquote_to_bytes cs)"

text \<open>UTF-8 as \<open>decode('utf-8', 'replace')\<close> reads it: the longest beginning of a sequence that fails becomes one U+FFFD.\<close>

definition sequence_length :: "nat \<Rightarrow> nat" where
  "sequence_length b = (if b < 0x80 then 1 else if 0xC2 \<le> b \<and> b \<le> 0xDF then 2 else if 0xE0 \<le> b \<and> b \<le> 0xEF then 3
     else if 0xF0 \<le> b \<and> b \<le> 0xF4 then 4 else 0)"

definition second_byte_ok :: "nat \<Rightarrow> nat \<Rightarrow> bool" where
  "second_byte_ok b c \<longleftrightarrow> (if b = 0xE0 then 0xA0 else if b = 0xF0 then 0x90 else 0x80) \<le> c
     \<and> c \<le> (if b = 0xED then 0x9F else if b = 0xF4 then 0x8F else 0xBF)"

definition continuation :: "nat \<Rightarrow> nat list \<Rightarrow> nat list" where
  "continuation b bs = (case take (sequence_length b - 1) bs of
      [] \<Rightarrow> []
    | c # cs \<Rightarrow> if second_byte_ok b c then c # takeWhile (\<lambda>x. 0x80 \<le> x \<and> x \<le> 0xBF) cs else [])"

definition lead_bits :: "nat \<Rightarrow> nat" where
  "lead_bits b = (if sequence_length b = 2 then b - 0xC0 else if sequence_length b = 3 then b - 0xE0 else if sequence_length b = 4 then b - 0xF0 else b)"

function utf8_replace :: "nat list \<Rightarrow> utext" where
  "utf8_replace [] = []"
| "utf8_replace (b # bs) =
    (let cs = continuation b bs in
     (if sequence_length b = length cs + 1 then foldl (\<lambda>acc c. acc * 64 + (c - 0x80)) (lead_bits b) cs else 0xFFFD)
       # utf8_replace (drop (length cs) bs))"
  by pat_completeness auto
termination by (relation "measure length") auto

function unquote_runs :: "utext \<Rightarrow> utext" where
  "unquote_runs [] = []"
| "unquote_runs (c # cs) =
    (if c < 0x80 then utf8_replace (unquote_to_bytes (takeWhile (\<lambda>x. x < 0x80) (c # cs))) @ unquote_runs (dropWhile (\<lambda>x. x < 0x80) cs)
     else c # unquote_runs cs)"
  by pat_completeness auto
termination by (relation "measure length") (auto simp: le_imp_less_Suc length_dropWhile_le)

definition unquote :: "utext \<Rightarrow> utext" where
  "unquote s = (if 37 \<notin> set s then s else unquote_runs s)"

section \<open>Character references\<close>

definition INVALID_CHARREFS :: "(nat \<times> nat) list" where
  "INVALID_CHARREFS = [(0, 0xFFFD), (0x0D, 0x0D), (0x80, 0x20AC), (0x81, 0x81), (0x82, 0x201A), (0x83, 0x192), (0x84, 0x201E), (0x85, 0x2026),
     (0x86, 0x2020), (0x87, 0x2021), (0x88, 0x2C6), (0x89, 0x2030), (0x8A, 0x160), (0x8B, 0x2039), (0x8C, 0x152), (0x8D, 0x8D), (0x8E, 0x17D),
     (0x8F, 0x8F), (0x90, 0x90), (0x91, 0x2018), (0x92, 0x2019), (0x93, 0x201C), (0x94, 0x201D), (0x95, 0x2022), (0x96, 0x2013), (0x97, 0x2014),
     (0x98, 0x2DC), (0x99, 0x2122), (0x9A, 0x161), (0x9B, 0x203A), (0x9C, 0x153), (0x9D, 0x9D), (0x9E, 0x17E), (0x9F, 0x178)]"

definition invalid_codepoint :: "nat \<Rightarrow> bool" where
  "invalid_codepoint n \<longleftrightarrow> (1 \<le> n \<and> n \<le> 8) \<or> n = 0xB \<or> (0xE \<le> n \<and> n \<le> 0x1F) \<or> (0x7F \<le> n \<and> n \<le> 0x9F) \<or> (0xFDD0 \<le> n \<and> n \<le> 0xFDEF)
     \<or> (n mod 0x10000 \<in> {0xFFFE, 0xFFFF} \<and> n \<le> 0x10FFFF)"

definition numeric_reference :: "nat \<Rightarrow> utext" where
  "numeric_reference n =
    (case map_of INVALID_CHARREFS n of Some x \<Rightarrow> [x]
     | None \<Rightarrow> if (0xD800 \<le> n \<and> n \<le> 0xDFFF) \<or> 0x10FFFF < n then [0xFFFD] else if invalid_codepoint n then [] else [n])"

text \<open>The longest beginning of at least two characters that is in the table.\<close>

fun longest_name :: "(utext \<Rightarrow> utext option) \<Rightarrow> utext \<Rightarrow> nat \<Rightarrow> utext" where
  "longest_name named s 0 = 38 # s"
| "longest_name named s (Suc x) = (if Suc x < 2 then 38 # s
     else case named (take (Suc x) s) of Some t \<Rightarrow> t @ drop (Suc x) s | None \<Rightarrow> longest_name named s x)"

definition named_reference :: "(utext \<Rightarrow> utext option) \<Rightarrow> utext \<Rightarrow> utext" where
  "named_reference named s = (case named s of Some t \<Rightarrow> t | None \<Rightarrow> longest_name named s (length s - 1))"

definition number_of :: "nat \<Rightarrow> utext \<Rightarrow> nat" where
  "number_of base ds = foldl (\<lambda>acc d. acc * base + the (hex_value d)) 0 ds"

definition reference_char :: "nat \<Rightarrow> bool" where
  "reference_char c \<longleftrightarrow> c \<notin> {9, 10, 12, 32, 60, 38, 35, 59}"

text \<open>
  What stands after an ampersand: the replacement of a reference and the number of characters it takes, or nothing.
  \<open>int\<close> refuses decimal numerals of more than 4300 digits: a \<open>ValueError\<close>.
\<close>

datatype char_reference = NoReference | Reference utext nat | RefusedNumeral

definition semicolon :: "utext \<Rightarrow> nat" where
  "semicolon s = (case s of c # _ \<Rightarrow> if c = 59 then 1 else 0 | [] \<Rightarrow> 0)"

definition match_reference :: "(utext \<Rightarrow> utext option) \<Rightarrow> utext \<Rightarrow> char_reference" where
  "match_reference named s =
    (case s of
       [] \<Rightarrow> NoReference
     | c # rest \<Rightarrow>
         if c = 35 then
           let ds = takeWhile ascii_digit rest; xs = takeWhile (\<lambda>d. hex_value d \<noteq> None) (tl rest) in
           if ds \<noteq> [] then (if 4300 < length ds then RefusedNumeral
             else Reference (numeric_reference (number_of 10 ds)) (1 + length ds + semicolon (drop (length ds) rest)))
           else if rest \<noteq> [] \<and> (hd rest = 120 \<or> hd rest = 88) \<and> xs \<noteq> []
             then Reference (numeric_reference (number_of 16 xs)) (2 + length xs + semicolon (drop (length xs) (tl rest)))
           else NoReference
         else let name = takeWhile reference_char (take 32 s); k = semicolon (drop (length name) s) in
           if name = [] then NoReference else Reference (named_reference named (take (length name + k) s)) (length name + k))"

function unescape :: "(utext \<Rightarrow> utext option) \<Rightarrow> utext \<Rightarrow> utext option" where
  "unescape named [] = Some []"
| "unescape named (c # cs) =
    (if c \<noteq> 38 then map_option ((#) c) (unescape named cs)
     else case match_reference named cs of
            RefusedNumeral \<Rightarrow> None
          | NoReference \<Rightarrow> map_option ((#) c) (unescape named cs)
          | Reference t n \<Rightarrow> map_option ((@) t) (unescape named (drop n cs)))"
  by pat_completeness auto
termination by (relation "measure (length \<circ> snd)") auto

section \<open>Paths\<close>

definition dots :: utext where
  "dots = ascii ''..''"

text \<open>\<open>posixpath.normpath\<close>, its components collected one by one; \<open>posixpath.dirname\<close> and \<open>join\<close>.\<close>

fun norm_components :: "bool \<Rightarrow> utext list \<Rightarrow> utext list \<Rightarrow> utext list" where
  "norm_components rooted acc [] = acc"
| "norm_components rooted acc (c # cs) =
    (if c = [] \<or> c = ascii ''.'' then norm_components rooted acc cs
     else if c \<noteq> dots \<or> (\<not> rooted \<and> acc = []) \<or> (acc \<noteq> [] \<and> last acc = dots) then norm_components rooted (acc @ [c]) cs
     else norm_components rooted (butlast acc) cs)"

definition leading_slashes :: "utext \<Rightarrow> nat" where
  "leading_slashes s = (if starts_with (ascii ''//'') s \<and> \<not> starts_with (ascii ''///'') s then 2 else if starts_with (ascii ''/'') s then 1 else 0)"

definition normpath :: "utext \<Rightarrow> utext" where
  "normpath s = (if s = [] then ascii ''.''
     else let n = leading_slashes s; t = replicate n 47 @ join_with 47 (norm_components (0 < n) [] (split_on 47 s))
          in if t = [] then ascii ''.'' else t)"

definition dirname :: "utext \<Rightarrow> utext" where
  "dirname s = (let head = rev (dropWhile (\<lambda>c. c \<noteq> 47) (rev s)) in
     if head \<noteq> [] \<and> list_all (\<lambda>c. c = 47) head then head else rev (dropWhile (\<lambda>c. c = 47) (rev head)))"

definition path_join :: "utext \<Rightarrow> utext \<Rightarrow> utext" where
  "path_join a b = (if starts_with (ascii ''/'') b then b else if a = [] \<or> last a = 47 then a @ b else a @ 47 # b)"

section \<open>Destinations\<close>

text \<open>Patterns without case, as \<open>re.IGNORECASE\<close> compares them: four more code points match \<open>i\<close>, \<open>s\<close> and \<open>k\<close>.\<close>

definition same_letter :: "nat \<Rightarrow> nat \<Rightarrow> bool" where
  "same_letter p c \<longleftrightarrow> ascii_lower c = p \<or> (p = 105 \<and> c \<in> {0x130, 0x131}) \<or> (p = 115 \<and> c = 0x17F) \<or> (p = 107 \<and> c = 0x212A)"

definition starts_with_fold :: "utext \<Rightarrow> utext \<Rightarrow> bool" where
  "starts_with_fold p s \<longleftrightarrow> list_all2 same_letter p (take (length p) s)"

fun occurs :: "(utext \<Rightarrow> bool) \<Rightarrow> utext \<Rightarrow> bool" where
  "occurs p [] \<longleftrightarrow> p []"
| "occurs p (c # cs) \<longleftrightarrow> p (c # cs) \<or> occurs p cs"

definition dangerous_scheme_at :: "utext \<Rightarrow> bool" where
  "dangerous_scheme_at s \<longleftrightarrow> list_ex (\<lambda>w. starts_with_fold w s \<and> starts_with (ascii '':'') (dropWhile uspace (drop (length w) s)))
     (map ascii [''javascript'', ''vbscript'', ''file'', ''data''])"

definition encoded_control_at :: "utext \<Rightarrow> bool" where
  "encoded_control_at s \<longleftrightarrow> list_ex (\<lambda>w. starts_with_fold w s) (map ascii [''%2e'', ''%2f'', ''%5c''])"

definition windows_drive :: "utext \<Rightarrow> bool" where
  "windows_drive s = (case s of a # b # c # _ \<Rightarrow> ascii_letter a \<and> b = 58 \<and> (c = 47 \<or> c = 92) | _ \<Rightarrow> False)"

text \<open>The loops over at most eight rounds of \<open>unquote\<close>; one of them also refuses some characters.\<close>

fun decode_fully :: "(utext \<Rightarrow> bool) \<Rightarrow> nat \<Rightarrow> utext \<Rightarrow> utext option" where
  "decode_fully bad 0 s = None"
| "decode_fully bad (Suc n) s =
    (if bad s \<or> occurs encoded_control_at s then None
     else let next_value = unquote s in if next_value = s then Some s else decode_fully bad n next_value)"

text \<open>\<open>urlsplit\<close>, as far as its scheme and its \<open>ValueError\<close> go: \<open>None\<close> stands for the error.\<close>

definition scheme_char :: "nat \<Rightarrow> bool" where
  "scheme_char c \<longleftrightarrow> ascii_letter c \<or> ascii_digit c \<or> c = 43 \<or> c = 45 \<or> c = 46"

definition url_scheme :: "(utext \<Rightarrow> bool) \<Rightarrow> utext \<Rightarrow> utext option" where
  "url_scheme netloc_ok s =
    (let url = filter (\<lambda>c. c \<notin> {9, 10, 13}) (dropWhile (\<lambda>c. c \<le> 32) s); name = before 58 url;
         found = 58 \<in> set url \<and> name \<noteq> [] \<and> ascii_letter (hd url) \<and> list_all scheme_char name;
         rest = (if found then drop (length name + 1) url else url);
         netloc = takeWhile (\<lambda>c. c \<notin> {47, 63, 35}) (drop 2 rest)
     in if starts_with (ascii ''//'') rest \<and> ((91 \<in> set netloc) \<noteq> (93 \<in> set netloc) \<or> \<not> netloc_ok netloc) then None
        else Some (if found then map ascii_lower name else []))"

text \<open>The two ways a check ends: the policy's \<open>DomainError\<close>, and the \<open>ValueError\<close> of an oversized character reference.\<close>

datatype markdown_error = MarkdownUnsafe | NumeralRefused

definition validate_destination ::
    "(utext \<Rightarrow> utext option) \<Rightarrow> (utext \<Rightarrow> bool) \<Rightarrow> utext \<Rightarrow> utext \<Rightarrow> bool \<Rightarrow> markdown_error + utext option" where
  "validate_destination named netloc_ok destination bundle_path allow_external =
    (case unescape named (ustrip destination) of
       None \<Rightarrow> Inl NumeralRefused
     | Some v \<Rightarrow>
         let value = (if starts_with [60] v \<and> v \<noteq> [] \<and> last v = 62 then ustrip (butlast (tl v)) else v) in
         if value = [] then Inl MarkdownUnsafe
         else case decode_fully (\<lambda>_. False) 8 value of
                None \<Rightarrow> Inl MarkdownUnsafe
              | Some decoded \<Rightarrow>
                  if occurs dangerous_scheme_at decoded \<or> 92 \<in> set decoded \<or> windows_drive decoded then Inl MarkdownUnsafe
                  else case url_scheme netloc_ok decoded of
                         None \<Rightarrow> Inl MarkdownUnsafe
                       | Some scheme \<Rightarrow>
                           if scheme \<noteq> [] then
                             (if (scheme \<noteq> ascii ''http'' \<and> scheme \<noteq> ascii ''https'') \<or> \<not> allow_external then Inl MarkdownUnsafe else Inr None)
                           else if starts_with (ascii ''/'') decoded then Inl MarkdownUnsafe
                           else if starts_with (ascii ''#'') decoded then Inr None
                           else let relative = before 63 (before 35 decoded) in
                             if relative = [] then Inr None
                             else let normalized = normpath (path_join (dirname bundle_path) relative) in
                               if normalized = dots \<or> starts_with (ascii ''../'') normalized \<or> starts_with (ascii ''/'') normalized
                               then Inl MarkdownUnsafe else Inr (Some normalized))"

text \<open>The device names of Windows; only ASCII capitals fold to their letters.\<close>

definition WINDOWS_DEVICE_STEMS :: "utext list" where
  "WINDOWS_DEVICE_STEMS = map ascii [''con'', ''prn'', ''aux'', ''nul'']
     @ concat (map (\<lambda>p. map (\<lambda>i. ascii p @ [i]) ([49..<58] @ [0xB9, 0xB2, 0xB3])) [''com'', ''lpt''])"

definition is_portable_bundle_path :: "utext \<Rightarrow> bool" where
  "is_portable_bundle_path value =
    (case decode_fully (list_ex (\<lambda>c. c < 32 \<or> c = 127)) 8 value of
       None \<Rightarrow> False
     | Some s \<Rightarrow> s \<noteq> [] \<and> 58 \<notin> set s \<and> 92 \<notin> set s \<and> \<not> starts_with (ascii ''/'') s \<and> \<not> windows_drive s \<and> normpath s = s
         \<and> \<not> starts_with (ascii ''../'') (normpath s)
         \<and> list_all (\<lambda>seg. \<not> (seg \<noteq> [] \<and> (last seg = 46 \<or> last seg = 32)) \<and> map ascii_lower (before 46 seg) \<notin> set WINDOWS_DEVICE_STEMS) (split_on 47 s))"

end
