(* ===== verification/MarkdownScan.thy ===== *)
theory MarkdownScan
  imports MarkdownPaths
begin

text \<open>
  Which parts of a Markdown text are shown (\<open>core/portable/markdown_safety.py\<close>, \<open>_scan_markdown\<close> and
  \<open>downgrade_mermaid_fences\<close>): fenced and indented code and code spans are hidden by a mask over the text. Positions are
  natural numbers, a mask is a list of truth values as long as the text.
\<close>

section \<open>Fences\<close>

definition backslash_escaped :: "utext \<Rightarrow> nat \<Rightarrow> bool" where
  "backslash_escaped t i \<longleftrightarrow> odd (length (takeWhile (\<lambda>c. c = 92) (rev (take i t))))"

definition fence_run :: "utext \<Rightarrow> (nat \<times> nat \<times> nat) option" where
  "fence_run line =
    (let indent = length (takeWhile (\<lambda>c. c = 32) (take 4 line)) in
     case drop indent line of
       [] \<Rightarrow> None
     | marker # rest \<Rightarrow>
         let n = length (takeWhile (\<lambda>c. c = marker) (marker # rest)) in
         if 3 < indent \<or> (marker \<noteq> 96 \<and> marker \<noteq> 126) \<or> n < 3 then None else Some (indent, marker, n))"

definition blank_tail :: "utext \<Rightarrow> bool" where
  "blank_tail s \<longleftrightarrow> list_all (\<lambda>c. c = 32 \<or> c = 9) s"

definition rstrip_by :: "(nat \<Rightarrow> bool) \<Rightarrow> utext \<Rightarrow> utext" where
  "rstrip_by p s = rev (dropWhile p (rev s))"

definition closes_fence :: "nat \<times> nat \<Rightarrow> utext \<Rightarrow> bool" where
  "closes_fence fence line = (case fence_run line of
     None \<Rightarrow> False
   | Some (i, m, n) \<Rightarrow> m = fst fence \<and> snd fence \<le> n \<and> blank_tail (drop (i + n) line))"

definition is_mermaid :: "utext \<Rightarrow> bool" where
  "is_mermaid w \<longleftrightarrow> map ascii_lower w = ascii ''mermaid''"

text \<open>
  One line: whether it is shown, the fence that is open after it, and whether it opens a Mermaid fence. A fence of backticks
  has none in its info string.
\<close>

definition opened_fence :: "utext \<Rightarrow> (nat \<times> nat) option" where
  "opened_fence line = (case fence_run line of
     None \<Rightarrow> None
   | Some (i, m, n) \<Rightarrow> if m \<noteq> 96 \<or> 96 \<notin> set (drop (i + n) line) then Some (m, n) else None)"

definition info_word :: "utext \<Rightarrow> utext" where
  "info_word line = (case fence_run line of
     None \<Rightarrow> []
   | Some (i, m, n) \<Rightarrow> takeWhile (\<lambda>c. \<not> uspace c) (dropWhile uspace (drop (i + n) line)))"

definition scan_line :: "(nat \<times> nat) option \<Rightarrow> utext \<Rightarrow> bool \<times> (nat \<times> nat) option \<times> bool" where
  "scan_line fence line =
    (case fence of
       Some f \<Rightarrow> (False, if closes_fence f line then None else fence, False)
     | None \<Rightarrow> (case opened_fence line of
         Some f \<Rightarrow> (False, Some f, is_mermaid (info_word line))
       | None \<Rightarrow> (\<not> (starts_with (replicate 4 32) line \<or> starts_with [9] line), None, False)))"

function scan_blocks :: "(nat \<times> nat) option \<Rightarrow> utext \<Rightarrow> bool list \<times> bool" where
  "scan_blocks fence t =
    (if t = [] then ([], False)
     else let body = takeWhile (\<lambda>c. c \<noteq> 10) t; k = (if 10 \<in> set t then length body + 1 else length body) in
       case scan_line fence (rstrip_by (\<lambda>c. c = 13) body) of
         (shown, fence', mermaid) \<Rightarrow> (case scan_blocks fence' (drop k t) of
            (shown_mask, found) \<Rightarrow> (replicate k shown @ shown_mask, mermaid \<or> found)))"
  by pat_completeness auto
termination
  by (relation "measure (length \<circ> snd)") (auto simp: Let_def neq_Nil_conv split: if_splits)

declare scan_blocks.simps [simp del]

section \<open>Code spans\<close>

definition hide :: "nat \<Rightarrow> nat \<Rightarrow> bool list \<Rightarrow> bool list" where
  "hide i j shown_mask = take i shown_mask @ replicate (j - i) False @ drop j shown_mask"

definition restore :: "nat \<Rightarrow> nat \<Rightarrow> bool list \<Rightarrow> bool list \<Rightarrow> bool list" where
  "restore i j block shown_mask = take i shown_mask @ take (j - i) (drop i block) @ drop j shown_mask"

definition run_end :: "utext \<Rightarrow> bool list \<Rightarrow> nat \<Rightarrow> nat" where
  "run_end t block i = i + length (takeWhile (\<lambda>(shown, c). shown \<and> c = 96) (drop i (zip block t)))"

lemma run_end_gt:
  assumes "i < length t" and "length block = length t" and "block ! i" and "t ! i = 96"
  shows "i < run_end t block i"
proof -
  have "drop i (zip block t) = (block ! i, t ! i) # drop (Suc i) (zip block t)"
    using assms by (subst Cons_nth_drop_Suc [symmetric]) simp_all
  with assms show ?thesis by (simp add: run_end_def)
qed

text \<open>
  The second loop of \<open>_scan_markdown\<close>. \<open>span\<close> is the beginning and the number of backticks of an open code span; a span that
  is not closed within its block is shown again.
\<close>

function scan_spans :: "utext \<Rightarrow> bool list \<Rightarrow> nat \<Rightarrow> (nat \<times> nat) option \<Rightarrow> bool list \<Rightarrow> bool list" where
  "scan_spans t block i span shown_mask =
    (if length t \<le> i \<or> length block \<noteq> length t then (case span of None \<Rightarrow> shown_mask | Some (a, _) \<Rightarrow> restore a (length t) block shown_mask)
     else if \<not> block ! i then scan_spans t block (i + 1) None (case span of None \<Rightarrow> shown_mask | Some (a, _) \<Rightarrow> restore a i block shown_mask)
     else if t ! i \<noteq> 96 \<or> (span = None \<and> backslash_escaped t i)
       then scan_spans t block (i + 1) span (if span = None then shown_mask else shown_mask[i := False])
     else let e = run_end t block i in
       scan_spans t block e (case span of None \<Rightarrow> Some (i, e - i) | Some (a, n) \<Rightarrow> if e - i = n then None else span) (hide i e shown_mask))"
  by pat_completeness auto
termination
  by (relation "measure (\<lambda>(t, block, i, span, shown_mask). length t - i)") (auto intro!: diff_less_mono2 run_end_gt)

declare scan_spans.simps [simp del]

definition visible_mask :: "utext \<Rightarrow> bool list" where
  "visible_mask t = (let block = fst (scan_blocks None t) in scan_spans t block 0 None block)"

definition has_mermaid_fence :: "utext \<Rightarrow> bool" where
  "has_mermaid_fence t = snd (scan_blocks None t)"

definition blanked :: "utext \<Rightarrow> bool list \<Rightarrow> utext" where
  "blanked t shown_mask = map2 (\<lambda>c shown. if shown then c else if c = 10 then 10 else 32) t shown_mask"

definition visible_text :: "utext \<Rightarrow> utext" where
  "visible_text t = blanked t (visible_mask t)"

section \<open>Downgrading Mermaid fences\<close>

text \<open>\<open>splitlines(keepends=True)\<close>.\<close>

definition line_break :: "nat \<Rightarrow> bool" where
  "line_break c \<longleftrightarrow> (10 \<le> c \<and> c \<le> 13) \<or> (28 \<le> c \<and> c \<le> 30) \<or> c = 0x85 \<or> c = 0x2028 \<or> c = 0x2029"

fun split_lines :: "utext \<Rightarrow> utext list" where
  "split_lines [] = []"
| "split_lines (c # cs) =
    (if c = 13 \<and> cs \<noteq> [] \<and> hd cs = 10 then (case split_lines cs of [] \<Rightarrow> [[c]] | w # ws \<Rightarrow> (c # w) # ws)
     else if line_break c then [c] # split_lines cs
     else (case split_lines cs of [] \<Rightarrow> [[c]] | w # ws \<Rightarrow> (c # w) # ws))"

definition downgrade_line :: "utext \<Rightarrow> utext" where
  "downgrade_line line =
    (case fence_run line of
       None \<Rightarrow> line
     | Some (i, m, n) \<Rightarrow>
         let suffix = drop (i + n) line; gap = takeWhile (\<lambda>c. c = 32 \<or> c = 9) suffix;
             word = takeWhile (\<lambda>c. c \<noteq> 32 \<and> c \<noteq> 9) (drop (length gap) suffix)
         in if is_mermaid word then take (i + n) line @ gap @ ascii ''text'' @ drop (length gap + length word) suffix else line)"

fun downgrade_lines :: "(nat \<times> nat) option \<Rightarrow> utext list \<Rightarrow> utext" where
  "downgrade_lines fence [] = []"
| "downgrade_lines fence (source # sources) =
    (let line = rstrip_by (\<lambda>c. c = 13 \<or> c = 10) source; ending = drop (length line) source in
     case fence of
       Some f \<Rightarrow> source @ downgrade_lines (if closes_fence f line then None else fence) sources
     | None \<Rightarrow> (case opened_fence line of
         None \<Rightarrow> source @ downgrade_lines None sources
       | Some f \<Rightarrow> downgrade_line line @ ending @ downgrade_lines (Some f) sources))"

definition downgrade_mermaid_fences :: "utext \<Rightarrow> utext" where
  "downgrade_mermaid_fences t = downgrade_lines None (split_lines t)"

end
