(* ===== verification/MarkdownProperties.thy ===== *)
theory MarkdownProperties
  imports MarkdownScan "HOL-Library.Code_Target_Nat"
begin

text \<open>
  What the checks of a draft guarantee: where its links lead, and that a text whose Mermaid fences were downgraded has none.
\<close>

section \<open>Walking a path\<close>

text \<open>A walk from the root of the bundle, one component after the other; above the root there is nothing.\<close>

fun walk :: "utext list \<Rightarrow> utext list \<Rightarrow> utext list option" where
  "walk at [] = Some at"
| "walk at (c # cs) =
    (if c = [] \<or> c = ascii ''.'' then walk at cs
     else if c = dots then (if at = [] then None else walk (butlast at) cs)
     else walk (at @ [c]) cs)"

lemma walk_components:
  assumes "walk at cs = Some there" and "c \<in> set there"
  shows "c \<in> set at \<or> (c \<in> set cs \<and> c \<noteq> [] \<and> c \<noteq> ascii ''.'' \<and> c \<noteq> dots)"
  using assms
proof (induction "at" cs rule: walk.induct)
  case (2 "at" c' cs)
  then show ?case by (fastforce split: if_splits dest: in_set_butlastD)
qed simp

lemma last_other: "at \<noteq> [] \<Longrightarrow> x \<notin> set at \<Longrightarrow> last at \<noteq> x"
  using last_in_set by fastforce

lemma norm_walk: "walk at cs = Some there \<Longrightarrow> dots \<notin> set at \<Longrightarrow> norm_components False at cs = there"
proof (induction "at" cs rule: walk.induct)
  case (2 "at" c cs)
  then show ?case using last_other [of "at" dots] by (auto split: if_splits dest: in_set_butlastD)
qed simp

lemma norm_stays_out:
  "acc \<noteq> [] \<Longrightarrow> hd acc = dots \<Longrightarrow> norm_components False acc cs \<noteq> [] \<and> hd (norm_components False acc cs) = dots"
proof (induction cs arbitrary: acc)
  case (Cons c cs)
  have "hd (butlast acc) = dots \<and> butlast acc \<noteq> []" if "last acc \<noteq> dots"
  proof -
    from Cons.prems that obtain x y zs where "acc = x # y # zs" by (cases acc; cases "tl acc") auto
    with Cons.prems show ?thesis by simp
  qed
  with Cons show ?case by (auto simp: hd_append)
qed simp

lemma norm_leaves: "walk at cs = None \<Longrightarrow> dots \<notin> set at \<Longrightarrow> norm_components False at cs \<noteq> [] \<and> hd (norm_components False at cs) = dots"
proof (induction "at" cs rule: walk.induct)
  case (2 "at" c cs)
  have "dots \<notin> set (butlast at)" using 2(5) by (auto dest: in_set_butlastD)
  moreover have "at \<noteq> [] \<Longrightarrow> last at \<noteq> dots" using 2(5) by (intro last_other)
  ultimately show ?case using 2 norm_stays_out [of "[dots]" cs] by (auto split: if_splits simp: dots_def ascii_def)
qed simp

lemma split_on_append: "split_on sep (a @ sep # b) = split_on sep a @ split_on sep b"
proof (induction a)
  case (Cons c a)
  have "split_on sep a \<noteq> []" by (induction a) (auto split: list.split)
  with Cons show ?case by (auto split: list.split)
qed simp

lemma split_on_pieces: "w \<in> set (split_on sep s) \<Longrightarrow> sep \<notin> set w \<and> set w \<subseteq> set s"
proof (induction s arbitrary: w)
  case (Cons c s)
  show ?case
  proof (cases "split_on sep s")
    case (Cons a ws)
    with Cons.IH [of a] Cons.IH [of w] Cons.prems show ?thesis by (auto split: if_splits)
  qed (use Cons.prems in \<open>auto split: if_splits\<close>)
qed simp

section \<open>Destinations\<close>

lemma decode_fully_Some:
  "decode_fully bad n s = Some t \<Longrightarrow> unquote t = t \<and> \<not> bad t \<and> \<not> occurs encoded_control_at t"
  by (induction bad n s rule: decode_fully.induct) (auto simp: Let_def split: if_splits)

lemma occurs_append: "occurs p (a @ b) \<Longrightarrow> occurs p b \<or> (\<exists>i < length a. p (drop i a @ b))"
proof (induction a)
  case (Cons c a)
  from Cons.prems consider "p (c # a @ b)" | "occurs p (a @ b)" by auto
  then show ?case
  proof cases
    case 2
    with Cons.IH consider "occurs p b" | i where "i < length a" "p (drop i a @ b)" by blast
    then show ?thesis by cases (auto intro: exI [of _ "Suc i" for i])
  qed (auto intro: exI [of _ 0])
qed simp

lemma normpath_inside:
  assumes "\<not> starts_with (ascii ''/'') s" and "s \<noteq> []" and "n = normpath s"
    and "n \<noteq> dots" "\<not> starts_with (ascii ''../'') n"
  shows "\<exists>there. walk [] (split_on 47 s) = Some there \<and> n = (if there = [] then ascii ''.'' else join_with 47 there)"
proof -
  have slash: "ascii ''/'' = [47]" by (simp add: ascii_def)
  have "leading_slashes s = 0"
    using assms(1) by (cases s) (auto simp: leading_slashes_def starts_with_def ascii_def)
  then have n: "n = (let t = join_with 47 (norm_components False [] (split_on 47 s)) in if t = [] then ascii ''.'' else t)"
    using assms(2,3) by (simp add: normpath_def)
  show ?thesis
  proof (cases "walk [] (split_on 47 s)")
    case None
    from norm_leaves [OF this] obtain cs where "norm_components False [] (split_on 47 s) = dots # cs"
      by (cases "norm_components False [] (split_on 47 s)") auto
    with n have "n = dots \<or> starts_with (ascii ''../'') n"
      by (cases cs) (auto simp: dots_def ascii_def starts_with_def)
    with assms(4,5) show ?thesis by blast
  next
    case (Some st)
    have "norm_components False [] (split_on 47 s) = st" using norm_walk [OF Some] by simp
    moreover have "join_with 47 (w # ws) \<noteq> []" if "st = w # ws" for w ws
      using walk_components [OF Some, of w] that by (cases ws) auto
    then have "st \<noteq> [] \<Longrightarrow> join_with 47 st \<noteq> []" by (cases st) auto
    ultimately show ?thesis using Some n by auto
  qed
qed

lemma normpath_rooted: "starts_with (ascii ''/'') s \<Longrightarrow> starts_with (ascii ''/'') (normpath s)"
proof -
  assume slash: "starts_with (ascii ''/'') s"
  then obtain n where "leading_slashes s = Suc n" by (cases "leading_slashes s") (auto simp: leading_slashes_def split: if_splits)
  moreover have "s \<noteq> []" using slash by (auto simp: starts_with_def ascii_def)
  ultimately have "normpath s = 47 # replicate n 47 @ join_with 47 (norm_components True [] (split_on 47 s))"
    unfolding normpath_def by (simp only: Let_def if_False) simp
  then show ?thesis by (simp only: starts_with_def ascii_def) simp
qed

lemma dirname_slash: "dirname s \<noteq> [] \<Longrightarrow> last (dirname s) = 47 \<Longrightarrow> starts_with (ascii ''/'') (dirname s)"
proof -
  assume d: "dirname s \<noteq> []" "last (dirname s) = 47"
  define head where "head = rev (dropWhile (\<lambda>c. c \<noteq> 47) (rev s))"
  have "dirname s = head \<and> list_all (\<lambda>c. c = 47) head \<or> dirname s = rev (dropWhile (\<lambda>c. c = 47) (rev head))"
    by (simp add: dirname_def head_def Let_def)
  moreover have "rev (dropWhile p t) \<noteq> [] \<Longrightarrow> \<not> p (last (rev (dropWhile p t)))" for p and t :: utext
    using hd_dropWhile [of p t] by (simp add: last_rev)
  note this [of "\<lambda>c. c = 47" "rev head"]
  ultimately have "dirname s = head" "list_all (\<lambda>c. c = 47) head" using d by fastforce+
  with d(1) show ?thesis by (cases head) (simp_all add: starts_with_def ascii_def)
qed

lemma walk_joined:
  assumes "\<not> starts_with (ascii ''/'') (path_join d r)" and "d \<noteq> [] \<Longrightarrow> last d = 47 \<Longrightarrow> starts_with (ascii ''/'') d" and "\<not> starts_with (ascii ''/'') r"
  shows "walk [] (split_on 47 (path_join d r)) = walk [] (split_on 47 d @ split_on 47 r)"
proof (cases "d = []")
  case False
  then have "starts_with (ascii ''/'') d \<Longrightarrow> starts_with (ascii ''/'') (path_join d r)"
    by (cases d) (auto simp: path_join_def starts_with_def ascii_def)
  with False assms have "path_join d r = d @ 47 # r" by (auto simp: path_join_def)
  then show ?thesis by (simp add: split_on_append)
qed (use assms(3) in \<open>simp add: path_join_def\<close>)

text \<open>What is left of a destination in angle brackets.\<close>

definition bare :: "utext \<Rightarrow> utext" where
  "bare v = (if starts_with [60] v \<and> v \<noteq> [] \<and> last v = 62 then ustrip (butlast (tl v)) else v)"

lemma decode_fully_rounds:
  "decode_fully bad n s = Some t \<Longrightarrow> \<exists>k < n. t = (unquote ^^ k) s \<and> (\<forall>i \<le> k. \<not> bad ((unquote ^^ i) s) \<and> \<not> occurs encoded_control_at ((unquote ^^ i) s))"
proof (induction bad n s rule: decode_fully.induct)
  case (2 bad n s)
  then have ok: "\<not> bad s" "\<not> occurs encoded_control_at s" by (auto split: if_splits)
  show ?case
  proof (cases "unquote s = s")
    case True
    with 2(2) ok show ?thesis by (intro exI [of _ 0]) auto
  next
    case False
    with 2 ok obtain k where k: "k < n" "t = (unquote ^^ k) (unquote s)"
      "\<forall>i \<le> k. \<not> bad ((unquote ^^ i) (unquote s)) \<and> \<not> occurs encoded_control_at ((unquote ^^ i) (unquote s))"
      by (auto simp: Let_def)
    have "\<not> bad ((unquote ^^ i) s) \<and> \<not> occurs encoded_control_at ((unquote ^^ i) s)" if "i \<le> Suc k" for i
      using that k(3) ok by (cases i) (auto simp: funpow_Suc_right simp del: funpow.simps)
    with k(1,2) show ?thesis by (intro exI [of _ "Suc k"]) (simp add: funpow_Suc_right del: funpow.simps)
  qed
qed simp

lemma path_stays_inside:
  assumes "relative = before 63 (before 35 decoded)" and "relative \<noteq> []" and "\<not> starts_with (ascii ''/'') decoded"
    and "path = normpath (path_join (dirname document) relative)"
    and "path \<noteq> dots" "\<not> starts_with (ascii ''../'') path" "\<not> starts_with (ascii ''/'') path"
  shows "\<not> starts_with (ascii ''/'') relative \<and> (\<exists>there. walk [] (split_on 47 (dirname document) @ split_on 47 relative) = Some there
    \<and> path = (if there = [] then ascii ''.'' else join_with 47 there)
    \<and> (\<forall>c \<in> set there. c \<noteq> [] \<and> c \<noteq> ascii ''.'' \<and> c \<noteq> dots \<and> 47 \<notin> set c))"
proof -
  let ?d = "dirname document" and ?s = "path_join (dirname document) relative"
  obtain c cs where r: "relative = c # cs" using assms(2) by (cases relative) auto
  then have "starts_with (ascii ''/'') relative \<longleftrightarrow> starts_with (ascii ''/'') decoded"
    using assms(1) by (cases decoded) (auto simp: before_def starts_with_def ascii_def split: if_splits)
  with assms(3) have local: "\<not> starts_with (ascii ''/'') relative" by simp
  have rooted: "\<not> starts_with (ascii ''/'') ?s" using normpath_rooted [of ?s] assms(4,7) by blast
  moreover have "?s \<noteq> []" using r by (auto simp: path_join_def)
  ultimately obtain there where "walk [] (split_on 47 ?s) = Some there" and p: "path = (if there = [] then ascii ''.'' else join_with 47 there)"
    using normpath_inside [OF _ _ assms(4-6)] by blast
  then have there: "walk [] (split_on 47 ?d @ split_on 47 relative) = Some there"
    using walk_joined [OF rooted dirname_slash local] by simp
  have "c \<noteq> [] \<and> c \<noteq> ascii ''.'' \<and> c \<noteq> dots \<and> 47 \<notin> set c" if "c \<in> set there" for c
    using walk_components [OF there that] split_on_pieces by auto
  with there p local show ?thesis by blast
qed

text \<open>C20: A destination that is accepted is safe. It is the destination as written, its character references resolved and its angle
  brackets taken off, and then unquoted, at most seven times, until unquoting changes nothing; none of the texts on the way has an
  escaped dot, slash or backslash, and the last has no dangerous scheme, no backslash and no drive letter. When a path is returned, it
  leads to a place inside the bundle: there is no scheme, the path part is relative, and walking it from the directory of the document,
  which is part of the walk from the bundle's root, never goes above the root and ends at the path that is returned. When none is
  returned, the destination is an HTTP or HTTPS address where such addresses are allowed, or it has neither a scheme nor a path part
  and does not begin with a slash: a fragment or a query of the document itself.\<close>

theorem destination_stays_in_bundle:
  assumes "validate_destination named netloc_ok destination document external = Inr res"
  shows "\<exists>v k decoded relative. unescape named (ustrip destination) = Some v \<and> bare v \<noteq> [] \<and> k < 8 \<and> decoded = (unquote ^^ k) (bare v)
    \<and> unquote decoded = decoded \<and> (\<forall>i \<le> k. \<not> occurs encoded_control_at ((unquote ^^ i) (bare v)))
    \<and> \<not> occurs dangerous_scheme_at decoded \<and> 92 \<notin> set decoded \<and> \<not> windows_drive decoded \<and> relative = before 63 (before 35 decoded)
    \<and> (case res of
         None \<Rightarrow> external \<and> url_scheme netloc_ok decoded \<in> {Some (ascii ''http''), Some (ascii ''https'')}
           \<or> url_scheme netloc_ok decoded = Some [] \<and> \<not> starts_with (ascii ''/'') decoded \<and> relative = []
       | Some path \<Rightarrow> url_scheme netloc_ok decoded = Some [] \<and> relative \<noteq> [] \<and> \<not> starts_with (ascii ''/'') relative
           \<and> (\<exists>there. walk [] (split_on 47 (dirname document) @ split_on 47 relative) = Some there
             \<and> path = (if there = [] then ascii ''.'' else join_with 47 there)
             \<and> (\<forall>c \<in> set there. c \<noteq> [] \<and> c \<noteq> ascii ''.'' \<and> c \<noteq> dots \<and> 47 \<notin> set c)))"
proof -
  from assms obtain v where v: "unescape named (ustrip destination) = Some v" "bare v \<noteq> []"
    by (cases "unescape named (ustrip destination)") (auto simp: validate_destination_def bare_def Let_def split: if_splits)
  note check = assms [unfolded validate_destination_def v(1) option.case bare_def [symmetric], simplified Let_def if_not_P [OF v(2)]]
  obtain decoded where decoded: "decode_fully (\<lambda>_. False) 8 (bare v) = Some decoded"
    using check by (cases "decode_fully (\<lambda>_. False) 8 (bare v)") simp_all
  have safe: "\<not> occurs dangerous_scheme_at decoded" "92 \<notin> set decoded" "\<not> windows_drive decoded"
    using check decoded by (simp_all split: if_splits)
  obtain scheme where scheme: "url_scheme netloc_ok decoded = Some scheme"
    using check decoded safe by (cases "url_scheme netloc_ok decoded") simp_all
  note res = check [unfolded decoded option.case scheme, simplified if_not_P safe simp_thms]
  define relative where "relative = before 63 (before 35 decoded)"
  have fragment: "starts_with (ascii ''#'') decoded \<Longrightarrow> relative = []"
    by (cases decoded) (auto simp: relative_def before_def starts_with_def ascii_def)
  have "case res of
         None \<Rightarrow> external \<and> url_scheme netloc_ok decoded \<in> {Some (ascii ''http''), Some (ascii ''https'')}
           \<or> url_scheme netloc_ok decoded = Some [] \<and> \<not> starts_with (ascii ''/'') decoded \<and> relative = []
       | Some path \<Rightarrow> url_scheme netloc_ok decoded = Some [] \<and> relative \<noteq> [] \<and> \<not> starts_with (ascii ''/'') relative
           \<and> (\<exists>there. walk [] (split_on 47 (dirname document) @ split_on 47 relative) = Some there
             \<and> path = (if there = [] then ascii ''.'' else join_with 47 there)
             \<and> (\<forall>c \<in> set there. c \<noteq> [] \<and> c \<noteq> ascii ''.'' \<and> c \<noteq> dots \<and> 47 \<notin> set c))"
  proof (cases res)
    case None
    with res scheme fragment show ?thesis by (auto simp: relative_def [symmetric] Let_def split: if_splits)
  next
    case (Some path)
    with res have path: "scheme = []" "relative \<noteq> []" "\<not> starts_with (ascii ''/'') decoded"
      "path = normpath (path_join (dirname document) relative)"
      "path \<noteq> dots" "\<not> starts_with (ascii ''../'') path" "\<not> starts_with (ascii ''/'') path"
      by (auto simp: relative_def [symmetric] Let_def split: if_splits)
    from path_stays_inside [OF relative_def path(2-7)] scheme path(1,2) Some show ?thesis by simp
  qed
  moreover obtain k where "k < 8" "decoded = (unquote ^^ k) (bare v)" "\<forall>i \<le> k. \<not> occurs encoded_control_at ((unquote ^^ i) (bare v))"
    using decode_fully_rounds [OF decoded] by blast
  ultimately show ?thesis using v decode_fully_Some [OF decoded] safe
    by (intro exI [of _ v] exI [of _ k] exI [of _ decoded] exI [of _ relative]) (simp add: relative_def)
qed

text \<open>The link \<open>../img/a%20b.webp#x\<close> of the document \<open>notes/en.md\<close>, and the fragment \<open>#x\<close>.\<close>

lemma destination_stays_in_bundle_witness:
  "(\<exists>decoded relative there. unquote decoded = decoded \<and> relative = before 63 (before 35 decoded)
      \<and> walk [] (split_on 47 (dirname (ascii ''notes/en.md'')) @ split_on 47 relative) = Some there
      \<and> ascii ''img/a b.webp'' = (if there = [] then ascii ''.'' else join_with 47 there))
    \<and> (\<exists>decoded. unquote decoded = decoded \<and> url_scheme (\<lambda>_. True) decoded = Some [] \<and> before 63 (before 35 decoded) = [])"
proof -
  have "validate_destination (\<lambda>_. None) (\<lambda>_. True) (ascii ''../img/a%20b.webp#x'') (ascii ''notes/en.md'') False
      = Inr (Some (ascii ''img/a b.webp''))" by code_simp
  note path = destination_stays_in_bundle [OF this]
  have "validate_destination (\<lambda>_. None) (\<lambda>_. True) (ascii ''#x'') (ascii ''notes/en.md'') False = Inr None" by code_simp
  note fragment = destination_stays_in_bundle [OF this]
  show ?thesis
  proof (rule conjI, goal_cases)
    case 1
    from path show ?case unfolding option.case by blast
  next
    case 2
    from fragment show ?case unfolding option.case by blast
  qed
qed

section \<open>Mermaid fences\<close>

lemma takeWhile_run: "p x \<Longrightarrow> ys = [] \<or> \<not> p (hd ys) \<Longrightarrow> takeWhile p (replicate i x @ ys) = replicate i x"
  by (induction i) (cases ys; auto)+

lemma fence_run_iff:
  "fence_run line = Some (i, m, n) \<longleftrightarrow>
     (\<exists>rest. line = replicate i 32 @ replicate n m @ rest \<and> i \<le> 3 \<and> (m = 96 \<or> m = 126) \<and> 3 \<le> n \<and> (rest = [] \<or> hd rest \<noteq> m))"
proof
  assume run: "fence_run line = Some (i, m, n)"
  define k where "k = length (takeWhile (\<lambda>c. c = 32) (take 4 line))"
  obtain cs where d: "drop k line = m # cs" and n: "n = length (takeWhile (\<lambda>c. c = m) (m # cs))" and ok: "i = k" "k \<le> 3" "m = 96 \<or> m = 126" "3 \<le> n"
    using run by (auto simp: fence_run_def k_def Let_def split: list.splits if_splits)
  have "take k line = replicate k 32"
  proof -
    have "takeWhile (\<lambda>c. c = 32) (take 4 line) = take k line"
      unfolding k_def by (metis (no_types, lifting) min.absorb2 length_take nat_le_linear take_all take_take takeWhile_eq_take)
    then show ?thesis using replicate_length_same [of "take k line" 32] set_takeWhileD [of _ "\<lambda>c. c = 32" "take 4 line"]
      by (metis k_def)
  qed
  then have "line = replicate k 32 @ (m # cs)" using append_take_drop_id [of k line] by (simp add: d)
  moreover define rest where "rest = dropWhile (\<lambda>c. c = m) (m # cs)"
  moreover have "takeWhile (\<lambda>c. c = m) (m # cs) = replicate n m"
    unfolding n by (rule replicate_length_same [symmetric]) (auto dest: set_takeWhileD)
  then have "m # cs = replicate n m @ rest" unfolding rest_def by (metis takeWhile_dropWhile_id)
  moreover have "rest = [] \<or> hd rest \<noteq> m" unfolding rest_def using hd_dropWhile by blast
  ultimately show "\<exists>rest. line = replicate i 32 @ replicate n m @ rest \<and> i \<le> 3 \<and> (m = 96 \<or> m = 126) \<and> 3 \<le> n \<and> (rest = [] \<or> hd rest \<noteq> m)"
    using ok by (metis)
next
  assume "\<exists>rest. line = replicate i 32 @ replicate n m @ rest \<and> i \<le> 3 \<and> (m = 96 \<or> m = 126) \<and> 3 \<le> n \<and> (rest = [] \<or> hd rest \<noteq> m)"
  then obtain rest where line: "line = replicate i 32 @ replicate n m @ rest" and ok: "i \<le> 3" "m = 96 \<or> m = 126" "3 \<le> n" "rest = [] \<or> hd rest \<noteq> m" by blast
  have run: "replicate n m @ rest = m # replicate (n - 1) m @ rest" using ok(3) by (cases n) auto
  have "take 4 line = replicate i 32 @ take (4 - i) (replicate n m @ rest)" using ok(1) by (simp add: line take_append)
  moreover have "take (4 - i) (replicate n m @ rest) = m # take (3 - i) (replicate (n - 1) m @ rest)"
    unfolding run using ok(1) by (simp add: take_Cons')
  ultimately have "takeWhile (\<lambda>c. c = 32) (take 4 line) = replicate i 32" using ok(2) by (simp only:) (intro takeWhile_run; auto)
  moreover have "takeWhile (\<lambda>c. c = m) (replicate n m @ rest) = replicate n m" using ok(4) by (intro takeWhile_run) auto
  ultimately show "fence_run line = Some (i, m, n)" using ok run by (auto simp: fence_run_def line Let_def)
qed

definition calm_line :: "utext \<Rightarrow> bool" where
  "calm_line s \<longleftrightarrow> (\<forall>c \<in> set s. uspace c \<longrightarrow> c = 32 \<or> c = 9)"

lemma gap_space: "c = 32 \<or> c = 9 \<Longrightarrow> uspace c"
  by (auto simp: uspace_def)

lemma calm_word:
  assumes "calm_line s"
  shows "takeWhile (\<lambda>c. \<not> uspace c) (dropWhile uspace s) = takeWhile (\<lambda>c. c \<noteq> 32 \<and> c \<noteq> 9) (dropWhile (\<lambda>c. c = 32 \<or> c = 9) s)"
proof -
  have same: "c \<in> set s \<Longrightarrow> uspace c \<longleftrightarrow> c = 32 \<or> c = 9" for c using assms gap_space by (auto simp: calm_line_def)
  then have d: "dropWhile uspace s = dropWhile (\<lambda>c. c = 32 \<or> c = 9) s" by (intro dropWhile_cong) auto
  show ?thesis unfolding d by (intro takeWhile_cong) (auto dest: set_dropWhileD simp: same)
qed

text \<open>Whatever line opens a fence, its downgraded form opens the same fence and is not a Mermaid line.\<close>

lemma downgraded_line:
  assumes "opened_fence line = Some f" and "calm_line line"
  shows "opened_fence (downgrade_line line) = Some f \<and> \<not> is_mermaid (info_word (downgrade_line line))
    \<and> (\<not> is_mermaid (info_word line) \<longrightarrow> downgrade_line line = line)"
proof -
  obtain i m n where run: "fence_run line = Some (i, m, n)" and f: "f = (m, n)" and ticks: "m = 96 \<longrightarrow> 96 \<notin> set (drop (i + n) line)"
    using assms(1) by (auto simp: opened_fence_def split: option.splits if_splits)
  from run obtain rest where line: "line = replicate i 32 @ replicate n m @ rest" and ok: "i \<le> 3" "m = 96 \<or> m = 126" "3 \<le> n" "rest = [] \<or> hd rest \<noteq> m"
    unfolding fence_run_iff by blast
  then have rest: "drop (i + n) line = rest" "take (i + n) line = replicate i 32 @ replicate n m" by simp_all
  define gap where "gap = takeWhile (\<lambda>c. c = 32 \<or> c = 9) rest"
  define more where "more = dropWhile (\<lambda>c. c = 32 \<or> c = 9) rest"
  define word where "word = takeWhile (\<lambda>c. c \<noteq> 32 \<and> c \<noteq> 9) more"
  define tail where "tail = dropWhile (\<lambda>c. c \<noteq> 32 \<and> c \<noteq> 9) more"
  have parts: "rest = gap @ more" "more = word @ tail" by (simp_all add: gap_def more_def word_def tail_def)
  have calm: "calm_line rest" using assms(2) by (auto simp: calm_line_def line)
  have w: "takeWhile (\<lambda>c. \<not> uspace c) (dropWhile uspace rest) = word" using calm_word [OF calm] by (simp add: word_def more_def)
  have cuts: "drop (length gap) rest = more" "drop (length gap + length word) rest = tail" by (simp_all add: parts)
  then have "drop (length gap + (i + n)) line = more" using rest(1) by (metis drop_drop)
  note cuts = cuts this
  have down: "downgrade_line line = (if is_mermaid word then replicate i 32 @ replicate n m @ gap @ ascii ''text'' @ tail else line)"
    unfolding downgrade_line_def run by (simp add: Let_def rest cuts flip: gap_def word_def)
  have same: "\<not> is_mermaid (info_word line) \<longrightarrow> downgrade_line line = line" using down w rest(1) run by (simp add: info_word_def)
  show ?thesis
  proof (cases "is_mermaid word")
    case False
    with down w rest(1) run assms(1) show ?thesis by (simp add: info_word_def)
  next
    case True
    let ?rest = "gap @ ascii ''text'' @ tail"
    have text_is: "ascii ''text'' = [116, 101, 120, 116]" by (simp add: ascii_def)
    have gap: "c \<in> set gap \<Longrightarrow> c = 32 \<or> c = 9" for c unfolding gap_def by (blast dest: set_takeWhileD)
    have tail: "tail = [] \<or> hd tail = 32 \<or> hd tail = 9" using hd_dropWhile [of "\<lambda>c. c \<noteq> 32 \<and> c \<noteq> 9" more] by (auto simp: tail_def)
    from True down have d: "downgrade_line line = replicate i 32 @ replicate n m @ ?rest" by simp
    have "hd ?rest \<noteq> m" using ok(2) gap [of "hd gap"] by (cases gap) (auto simp: text_is)
    then have run': "fence_run (downgrade_line line) = Some (i, m, n)" unfolding fence_run_iff d using ok by blast
    have rest': "drop (i + n) (downgrade_line line) = ?rest" by (simp add: d)
    have "m = 96 \<longrightarrow> 96 \<notin> set ?rest" using ticks gap [of 96] by (auto simp: text_is rest(1) parts)
    then have "opened_fence (downgrade_line line) = Some f" by (auto simp: opened_fence_def run' rest' f)
    moreover have "dropWhile uspace ?rest = ascii ''text'' @ tail"
      using gap gap_space by (subst dropWhile_append2) (auto simp: text_is uspace_def)
    moreover have "takeWhile (\<lambda>c. \<not> uspace c) (ascii ''text'' @ tail) = ascii ''text''"
      using tail gap_space by (cases tail) (auto simp: text_is uspace_def)
    then have "info_word (downgrade_line line) = ascii ''text''" using calculation(2) by (simp add: info_word_def run' rest')
    moreover have "\<not> is_mermaid (ascii ''text'')" by code_simp
    ultimately show ?thesis using same by simp
  qed
qed

text \<open>White space other than spaces, tabs and line ends, and carriage returns that do not belong to a line end, are absent.\<close>

fun calm_text :: "utext \<Rightarrow> bool" where
  "calm_text [] \<longleftrightarrow> True"
| "calm_text (c # cs) \<longleftrightarrow> (uspace c \<longrightarrow> c = 9 \<or> c = 10 \<or> c = 32 \<or> (c = 13 \<and> cs \<noteq> [] \<and> hd cs = 10)) \<and> calm_text cs"

lemma calm_append: "calm_text (a @ b) \<Longrightarrow> calm_text b"
  by (induction a) auto

lemma break_space: "line_break c \<Longrightarrow> uspace c"
  by (auto simp: line_break_def uspace_def)

text \<open>The first line of a calm text, and the others.\<close>

lemma split_calm:
  assumes "calm_line body"
  shows "split_lines (body @ s) = (case split_lines s of [] \<Rightarrow> (if body = [] then [] else [body]) | w # ws \<Rightarrow> (body @ w) # ws)"
  using assms
proof (induction body)
  case (Cons c body)
  have "line_break c \<longrightarrow> c = 32 \<or> c = 9" using Cons.prems break_space by (simp add: calm_line_def)
  moreover have "\<not> line_break 32" "\<not> line_break 9" "line_break 13" by code_simp+
  ultimately have "\<not> line_break c" "c \<noteq> 13" by auto
  moreover have "calm_line body" using Cons.prems by (simp add: calm_line_def)
  ultimately show ?case by (simp add: Cons.IH split: list.split)
qed (simp split: list.split)

lemma split_body:
  assumes "calm_line body"
  shows "split_lines (body @ 10 # more) = (body @ [10]) # split_lines more"
    and "split_lines (body @ 13 # 10 # more) = (body @ [13, 10]) # split_lines more"
    and "body \<noteq> [] \<Longrightarrow> split_lines body = [body]"
proof -
  have "line_break 10" by (simp add: line_break_def)
  then have "split_lines (10 # more) = [10] # split_lines more" "split_lines (13 # 10 # more) = [13, 10] # split_lines more" by simp_all
  then show "split_lines (body @ 10 # more) = (body @ [10]) # split_lines more" "split_lines (body @ 13 # 10 # more) = (body @ [13, 10]) # split_lines more"
    by (simp_all only: split_calm [OF assms] list.case append_Cons append_Nil append_assoc)
  show "split_lines body = [body]" if "body \<noteq> []" using split_calm [OF assms, of "[]"] that by (simp only: append_Nil2 split_lines.simps list.case if_False)
qed

lemma calm_first_line:
  assumes "calm_text t" and "t \<noteq> []"
  obtains (last) "calm_line t" | (line) body ends more where "t = body @ ends @ more" "calm_line body" "ends = [10] \<or> ends = [13, 10]"
proof -
  have "calm_line t \<or> (\<exists>body ends more. t = body @ ends @ more \<and> calm_line body \<and> (ends = [10] \<or> ends = [13, 10]))"
    using assms(1)
  proof (induction t)
    case (Cons c t)
    show ?case
    proof (cases "c = 10 \<or> c = 13")
      case True
      with Cons.prems have "c # t = [] @ [10] @ t \<or> c # t = [] @ [13, 10] @ tl t" by (auto simp: uspace_def neq_Nil_conv)
      moreover have "calm_line []" by (simp add: calm_line_def)
      ultimately show ?thesis by blast
    next
      case False
      with Cons.prems have c: "uspace c \<longrightarrow> c = 32 \<or> c = 9" "calm_text t" by auto
      from Cons.IH [OF c(2)] consider (whole) "calm_line t"
        | (cut) body ends more where "t = body @ ends @ more" "calm_line body" "ends = [10] \<or> ends = [13, 10]" by blast
      then show ?thesis
      proof cases
        case whole
        with c(1) show ?thesis by (simp add: calm_line_def)
      next
        case cut
        with c(1) have "c # t = (c # body) @ ends @ more" "calm_line (c # body)" by (auto simp: calm_line_def)
        with cut(3) show ?thesis by blast
      qed
    qed
  qed (simp add: calm_line_def)
  with that show thesis by blast
qed

lemma rstrip_ends:
  assumes "body = [] \<or> (last body \<noteq> 13 \<and> last body \<noteq> 10)" and "ends = [] \<or> ends = [10] \<or> ends = [13, 10]"
  shows "rstrip_by (\<lambda>c. c = 13 \<or> c = 10) (body @ ends) = body" "rstrip_by (\<lambda>c. c = 13) (body @ filter (\<lambda>c. c = 13) ends) = body"
proof -
  have "dropWhile p (rev body) = rev body" if "\<And>c. p c \<Longrightarrow> c = 13 \<or> c = 10" for p
    using assms(1) that by (cases body rule: rev_cases) auto
  then show "rstrip_by (\<lambda>c. c = 13 \<or> c = 10) (body @ ends) = body" "rstrip_by (\<lambda>c. c = 13) (body @ filter (\<lambda>c. c = 13) ends) = body"
    using assms(2) by (auto simp: rstrip_by_def)
qed

text \<open>The scan of a text that begins with one line.\<close>

lemma scan_one_line:
  assumes "10 \<notin> set body" and "body = [] \<or> last body \<noteq> 13" and "ends = [10] \<or> ends = [13, 10] \<or> (ends = [] \<and> more = [])" and "body @ ends \<noteq> []"
  shows "snd (scan_blocks fence (body @ ends @ more)) \<longleftrightarrow>
    snd (snd (scan_line fence body)) \<or> snd (scan_blocks (fst (snd (scan_line fence body))) more)"
proof -
  let ?t = "body @ ends @ more"
  have t: "takeWhile (\<lambda>c. c \<noteq> 10) ?t = body @ filter (\<lambda>c. c = 13) ends"
  proof -
    have "takeWhile (\<lambda>c. c \<noteq> 10) (body @ s) = body @ takeWhile (\<lambda>c. c \<noteq> 10) s" for s
      using assms(1) by (intro takeWhile_append2) auto
    with assms(3) show ?thesis by auto
  qed
  have strip: "rstrip_by (\<lambda>c. c = 13) (body @ filter (\<lambda>c. c = 13) ends) = body"
    using assms(1-3) by (intro rstrip_ends(2)) (auto dest: last_in_set)
  have cut: "drop (if 10 \<in> set ?t then length (body @ filter (\<lambda>c. c = 13) ends) + 1 else length (body @ filter (\<lambda>c. c = 13) ends)) ?t = more"
    using assms(1,3) by auto
  have one: "snd (scan_blocks fence t) \<longleftrightarrow> snd (snd (scan_line fence (rstrip_by (\<lambda>c. c = 13) (takeWhile (\<lambda>c. c \<noteq> 10) t))))
      \<or> snd (scan_blocks (fst (snd (scan_line fence (rstrip_by (\<lambda>c. c = 13) (takeWhile (\<lambda>c. c \<noteq> 10) t)))))
          (drop (if 10 \<in> set t then length (takeWhile (\<lambda>c. c \<noteq> 10) t) + 1 else length (takeWhile (\<lambda>c. c \<noteq> 10) t)) t))" if "t \<noteq> []" for t
    using that by (subst scan_blocks.simps) (simp add: Let_def split: prod.split)
  have "?t \<noteq> []" using assms(4) by auto
  from one [OF this, unfolded t strip cut] show ?thesis .
qed

lemma calm_body:
  assumes "calm_line body"
  shows "10 \<notin> set body \<and> (body = [] \<or> (last body \<noteq> 13 \<and> last body \<noteq> 10)) \<and> 13 \<notin> set body"
proof -
  have space: "c \<in> set body \<Longrightarrow> uspace c \<Longrightarrow> c = 32 \<or> c = 9" for c using assms by (simp add: calm_line_def)
  have "uspace 10" "uspace 13" by code_simp+
  then have none: "10 \<notin> set body" "13 \<notin> set body" using space [of 10] space [of 13] by auto
  show ?thesis
  proof (cases "body = []")
    case False
    then have "last body \<in> set body" by simp
    with none have "last body \<noteq> 13" "last body \<noteq> 10" by metis+
    with none show ?thesis by simp
  qed simp
qed

lemma downgraded_ends:
  assumes "opened_fence line = Some f" and "calm_line line"
  shows "calm_line (downgrade_line line) \<and> downgrade_line line \<noteq> []"
proof -
  obtain i m n where run: "fence_run line = Some (i, m, n)" using assms(1) by (auto simp: opened_fence_def split: option.splits)
  let ?gap = "takeWhile (\<lambda>c. c = 32 \<or> c = 9) (drop (i + n) line)"
  have "downgrade_line line = line \<or> (\<exists>k. downgrade_line line = take (i + n) line @ ?gap @ ascii ''text'' @ drop k (drop (i + n) line))"
    unfolding downgrade_line_def run option.case prod.case Let_def by (simp only: split: if_split) blast
  moreover have "set ?gap \<subseteq> set line" by (rule subset_trans [OF _ set_drop_subset [of "i + n"]]) (auto dest: set_takeWhileD)
  moreover have "set (take (i + n) line) \<subseteq> set line" by (rule set_take_subset)
  moreover have "set (drop k (drop (i + n) line)) \<subseteq> set line" for k unfolding drop_drop by (rule set_drop_subset)
  ultimately have "set (downgrade_line line) \<subseteq> set line \<union> set (ascii ''text'')"
    by (elim disjE exE) (simp_all only: set_append Un_least Un_upper1 le_supI1 Un_upper2 le_supI2)
  moreover have "calm_line (ascii ''text'')" by (simp add: calm_line_def ascii_def uspace_def)
  ultimately have "calm_line (downgrade_line line)" using assms(2) unfolding calm_line_def by blast
  moreover have "fence_run [] = None" by (simp add: fence_run_def)
  then have "downgrade_line line \<noteq> []" using downgraded_line [OF assms] by (auto simp: opened_fence_def)
  ultimately show ?thesis ..
qed

lemma scan_nil: "\<not> snd (scan_blocks f [])"
  by (subst scan_blocks.simps) simp

lemma calm_lines:
  assumes "calm_text t"
  obtains (empty) "t = []" | (text_line) body ends more where "t = body @ ends @ more" "calm_line body" "body @ ends \<noteq> []"
      "ends = [10] \<or> ends = [13, 10] \<or> (ends = [] \<and> more = [])" "split_lines t = (body @ ends) # split_lines more"
      "length more < length t" "calm_text more"
proof (cases "t = []")
  case False
  from assms False show thesis
  proof (cases rule: calm_first_line)
    case last
    with False show ?thesis by (intro text_line [of t "[]" "[]"]) (auto simp: split_body(3))
  next
    case (line body ends more)
    have "calm_text more" using assms line(1) calm_append [of "body @ ends" more] by simp
    with line show ?thesis by (intro text_line [of body ends more]) (auto simp: split_body)
  qed
qed simp

lemma ends_stripped:
  assumes "calm_line body" and "ends = [10] \<or> ends = [13, 10] \<or> (ends = [] \<and> more = [])"
  shows "rstrip_by (\<lambda>c. c = 13 \<or> c = 10) (body @ ends) = body"
  using calm_body [OF assms(1)] assms(2) by (intro rstrip_ends(1)) auto

lemma downgraded_scan:
  assumes "calm_text t"
  shows "\<not> snd (scan_blocks fence (downgrade_lines fence (split_lines t)))"
  using assms
proof (induction "length t" arbitrary: t fence rule: less_induct)
  case less
  from less.prems show ?case
  proof (cases rule: calm_lines)
    case empty
    then show ?thesis by (simp add: scan_nil)
  next
    case (text_line body ends more)
    note calm = calm_body [OF text_line(2)]
    then have plain: "10 \<notin> set body" "body = [] \<or> last body \<noteq> 13" by auto
    note rest = less.hyps [OF text_line(6,7)]
    note line = ends_stripped [OF text_line(2,4)]
    show ?thesis
    proof (cases "fence = None \<and> opened_fence body \<noteq> None")
      case False
      have "downgrade_lines fence (split_lines t) = body @ ends @ downgrade_lines (fst (snd (scan_line fence body))) (split_lines more)"
        using False by (auto simp: text_line(5) line scan_line_def Let_def split: option.splits)
      moreover have "\<not> snd (snd (scan_line fence body))" using False by (auto simp: scan_line_def split: option.splits)
      moreover have "ends = [10] \<or> ends = [13, 10] \<or> (ends = [] \<and> downgrade_lines g (split_lines more) = [])" for g
        using text_line(4) by auto
      note scan_one_line [OF plain this text_line(3)]
      ultimately show ?thesis using rest by simp
    next
      case True
      then obtain f where f: "fence = None" "opened_fence body = Some f" by blast
      note down = downgraded_line [OF f(2) text_line(2)] downgraded_ends [OF f(2) text_line(2)]
      have "downgrade_lines fence (split_lines t) = downgrade_line body @ ends @ downgrade_lines (Some f) (split_lines more)"
        by (simp add: text_line(5) line f Let_def)
      moreover have "scan_line None (downgrade_line body) = (False, Some f, False)" using down by (simp add: scan_line_def)
      moreover have "ends = [10] \<or> ends = [13, 10] \<or> (ends = [] \<and> downgrade_lines g (split_lines more) = [])" for g
        using text_line(4) by auto
      moreover have "10 \<notin> set (downgrade_line body)" "downgrade_line body = [] \<or> last (downgrade_line body) \<noteq> 13"
        "downgrade_line body @ ends \<noteq> []" using calm_body [of "downgrade_line body"] down by auto
      note scan_one_line [OF this(1,2) calculation(3) this(3)]
      ultimately show ?thesis using rest f(1) by simp
    qed
  qed
qed

lemma downgraded_same:
  assumes "calm_text t" and "\<not> snd (scan_blocks fence t)"
  shows "downgrade_lines fence (split_lines t) = t"
  using assms
proof (induction "length t" arbitrary: t fence rule: less_induct)
  case less
  from less.prems(1) show ?case
  proof (cases rule: calm_lines)
    case (text_line body ends more)
    note calm = calm_body [OF text_line(2)]
    then have plain: "10 \<notin> set body" "body = [] \<or> last body \<noteq> 13" by auto
    note line = ends_stripped [OF text_line(2,4)]
    from less.prems(2) have none: "\<not> snd (snd (scan_line fence body))" "\<not> snd (scan_blocks (fst (snd (scan_line fence body))) more)"
      unfolding text_line(1) scan_one_line [OF plain text_line(4,3)] by simp_all
    note rest = less.hyps [OF text_line(6,7) none(2)]
    show ?thesis
    proof (cases "fence = None \<and> opened_fence body \<noteq> None")
      case False
      then have "downgrade_lines fence (split_lines t) = body @ ends @ downgrade_lines (fst (snd (scan_line fence body))) (split_lines more)"
        by (auto simp: text_line(5) line scan_line_def Let_def split: option.splits)
      with rest show ?thesis by (simp add: text_line(1))
    next
      case True
      then obtain f where f: "fence = None" "opened_fence body = Some f" by blast
      with none(1) have "downgrade_line body = body" using downgraded_line [OF f(2) text_line(2)] by (simp add: scan_line_def)
      with rest f show ?thesis by (simp add: text_line(5) line Let_def scan_line_def) (simp add: text_line(1))
    qed
  qed simp
qed

text \<open>C21: For a text whose only white space are spaces, tabs and the line ends LF and CRLF: after its Mermaid fences were downgraded
  it has no Mermaid fence for the scan that rejects them, and if it had none it is left as it is. For other texts this is false, as
  \<open>lone_carriage_return_defeats_downgrade\<close> shows.\<close>

theorem downgraded_text_has_no_mermaid:
  assumes "calm_text t"
  shows "\<not> has_mermaid_fence (downgrade_mermaid_fences t) \<and> (\<not> has_mermaid_fence t \<longrightarrow> downgrade_mermaid_fences t = t)"
  using downgraded_scan [OF assms] downgraded_same [OF assms] by (simp add: has_mermaid_fence_def downgrade_mermaid_fences_def)

definition demo_diagram :: utext where
  "demo_diagram = ascii ''A'' @ [13, 10] @ ascii ''~~~ Mermaid'' @ [10] @ ascii ''a-->b'' @ [10] @ ascii ''~~~'' @ [10]"

lemma downgraded_text_has_no_mermaid_witness:
  "has_mermaid_fence demo_diagram \<and> \<not> has_mermaid_fence (downgrade_mermaid_fences demo_diagram)"
proof -
  have "has_mermaid_fence demo_diagram" "calm_text demo_diagram" by code_simp+
  with downgraded_text_has_no_mermaid show ?thesis by blast
qed

text \<open>
  The restriction to plain line ends is needed: \<open>splitlines\<close> ends a line at a lone carriage return, the scan does not, so the
  two disagree on where a fence begins, and the text stays rejected.
\<close>

lemma lone_carriage_return_defeats_downgrade:
  "has_mermaid_fence (downgrade_mermaid_fences (ascii ''x'' @ [13] @ ascii ''~~~'' @ [10] @ ascii ''~~~mermaid'' @ [10]))"
  by code_simp

end
