(* ===== verification/MarkdownRegions.thy ===== *)
theory MarkdownRegions
  imports MarkdownScan
begin

text \<open>
  The parts of a Markdown text that are not rendered as text (\<open>core/portable/markdown_safety.py\<close>): HTML tags, link
  destinations, definitions, images. Of Python's Unicode database the code asks whether a character is alphanumeric and how a text
  is case-folded; both are arguments.
\<close>

record unicode_data =
  alnum :: "nat \<Rightarrow> bool"
  folded :: "utext \<Rightarrow> utext"

section \<open>Brackets and parentheses\<close>

fun match_brackets :: "utext \<Rightarrow> nat list \<Rightarrow> nat list \<Rightarrow> (nat \<Rightarrow> nat option) \<Rightarrow> nat \<Rightarrow> nat option" where
  "match_brackets t [] stack m = m"
| "match_brackets t (i # is) stack m =
    (if (t ! i = 91 \<or> t ! i = 93) \<and> backslash_escaped t i then match_brackets t is stack m
     else if t ! i = 91 then match_brackets t is (i # stack) m
     else if t ! i = 93 \<and> stack \<noteq> [] then match_brackets t is (tl stack) (m(hd stack \<mapsto> i))
     else match_brackets t is stack m)"

definition bracket_matches :: "utext \<Rightarrow> nat \<Rightarrow> nat option" where
  "bracket_matches t = match_brackets t [0..<length t] [] Map.empty"

text \<open>A closing bracket lies after the opening one it belongs to (\<open>closing_of_matches\<close> below), so the test here never fails.\<close>

definition closing_of :: "(nat \<Rightarrow> nat option) \<Rightarrow> nat \<Rightarrow> nat option" where
  "closing_of m i = (case m i of None \<Rightarrow> None | Some j \<Rightarrow> if i < j then Some j else None)"

fun parenthesized :: "int \<Rightarrow> nat option \<Rightarrow> nat \<Rightarrow> nat \<Rightarrow> utext \<Rightarrow> nat option" where
  "parenthesized depth quote slashes i [] = None"
| "parenthesized depth quote slashes i (c # cs) =
    (if c = 92 then parenthesized depth quote (slashes + 1) (i + 1) cs
     else let escaped = odd slashes in
       if (c = 13 \<or> c = 10) \<and> quote = None \<and> \<not> escaped then None
       else case quote of
         Some q \<Rightarrow> parenthesized depth (if c = q \<and> \<not> escaped then None else quote) 0 (i + 1) cs
       | None \<Rightarrow>
           if (c = 34 \<or> c = 39) \<and> \<not> escaped then parenthesized depth (Some c) 0 (i + 1) cs
           else if c = 40 \<and> \<not> escaped then parenthesized (depth + 1) None 0 (i + 1) cs
           else if c = 41 \<and> \<not> escaped then (if depth = 1 then Some (i + 1) else parenthesized (depth - 1) None 0 (i + 1) cs)
           else parenthesized depth None 0 (i + 1) cs)"

definition parenthesized_end :: "utext \<Rightarrow> nat \<Rightarrow> nat option" where
  "parenthesized_end t start = parenthesized 0 None 0 start (drop start t)"

section \<open>HTML tags\<close>

fun find_at :: "utext \<Rightarrow> nat \<Rightarrow> utext \<Rightarrow> nat option" where
  "find_at p i [] = None"
| "find_at p i (c # cs) = (if starts_with p (c # cs) then Some i else find_at p (i + 1) cs)"

fun declaration_end :: "nat \<Rightarrow> utext \<Rightarrow> nat option" where
  "declaration_end i [] = None"
| "declaration_end i (c # cs) = (if c = 62 then Some (i + 1) else if c = 60 then None else declaration_end (i + 1) cs)"

fun attributes_end :: "nat option \<Rightarrow> nat \<Rightarrow> utext \<Rightarrow> nat option" where
  "attributes_end quote i [] = None"
| "attributes_end quote i (c # cs) =
    (case quote of
       Some q \<Rightarrow> attributes_end (if c = q then None else quote) (i + 1) cs
     | None \<Rightarrow> if c = 34 \<or> c = 39 then attributes_end (Some c) (i + 1) cs
               else if c = 60 then None else if c = 62 then Some (i + 1) else attributes_end None (i + 1) cs)"

definition tag_space :: "nat \<Rightarrow> bool" where
  "tag_space c \<longleftrightarrow> c = 32 \<or> c = 9 \<or> c = 13 \<or> c = 10"

definition name_char :: "unicode_data \<Rightarrow> nat \<Rightarrow> bool" where
  "name_char u c \<longleftrightarrow> alnum u c \<or> c = 45 \<or> c = 58"

definition html_tag_end :: "unicode_data \<Rightarrow> utext \<Rightarrow> nat \<Rightarrow> nat option" where
  "html_tag_end u t i =
    (if starts_with (ascii ''<!--'') (drop i t)
     then Some (case find_at (ascii ''-->'') (i + 4) (drop (i + 4) t) of None \<Rightarrow> length t | Some j \<Rightarrow> j + 3)
     else case drop (i + 1) t of
       [] \<Rightarrow> None
     | c # rest \<Rightarrow>
         if c = 33 \<or> c = 63 then declaration_end (i + 2) rest
         else let start = (if c = 47 then i + 2 else i + 1); name = takeWhile (name_char u) (drop start t); j = start + length name in
           if name = [] \<or> (j < length t \<and> \<not> (tag_space (t ! j) \<or> t ! j = 47 \<or> t ! j = 62)) then None
           else attributes_end None j (drop j t))"

text \<open>The regular expressions of literal elements, \<open><(code|pre)(?=[\s/>])\<close> and \<open></\s*name\s*>\<close>, without case.\<close>

definition literal_open :: "utext \<Rightarrow> utext option" where
  "literal_open s = find (\<lambda>w. starts_with [60] s \<and> starts_with_fold w (tl s)
     \<and> (case drop (length w) (tl s) of [] \<Rightarrow> False | c # _ \<Rightarrow> uspace c \<or> c = 47 \<or> c = 62)) [ascii ''code'', ascii ''pre'']"

definition literal_close_at :: "utext \<Rightarrow> utext \<Rightarrow> nat option" where
  "literal_close_at name s =
    (let a = dropWhile uspace (drop 2 s); b = dropWhile uspace (drop (length name) a) in
     if starts_with (ascii ''</'') s \<and> starts_with_fold name a \<and> b \<noteq> [] \<and> hd b = 62 then Some (length s - length b + 1) else None)"

fun literal_close :: "utext \<Rightarrow> nat \<Rightarrow> utext \<Rightarrow> nat option" where
  "literal_close name i [] = None"
| "literal_close name i (c # cs) = (case literal_close_at name (c # cs) of Some k \<Rightarrow> Some (i + k) | None \<Rightarrow> literal_close name (i + 1) cs)"

definition html_literal_end :: "utext \<Rightarrow> utext \<Rightarrow> nat \<Rightarrow> nat" where
  "html_literal_end t name i = (case literal_close name i (drop i t) of None \<Rightarrow> length t | Some j \<Rightarrow> j)"

text \<open>The end of the tag that begins at \<open>i\<close>, or of the literal element it opens.\<close>

definition tag_region :: "unicode_data \<Rightarrow> utext \<Rightarrow> nat \<Rightarrow> nat option" where
  "tag_region u t i =
    (if t ! i \<noteq> 60 \<or> backslash_escaped t i then None
     else case html_tag_end u t i of
       None \<Rightarrow> None
     | Some e \<Rightarrow> (case literal_open (drop i t) of Some name \<Rightarrow> Some (html_literal_end t name e) | None \<Rightarrow> Some e))"

section \<open>Bounds\<close>

lemma starts_with_length: "starts_with p s \<Longrightarrow> length p \<le> length s"
  by (auto simp: starts_with_def dest: arg_cong [of _ _ length])

lemma find_at_bounds: "find_at p i s = Some j \<Longrightarrow> i \<le> j \<and> j + length p \<le> i + length s"
proof (induction s arbitrary: i)
  case (Cons c s)
  show ?case
  proof (cases "starts_with p (c # s)")
    case True
    from Cons.prems True have "j = i" by simp
    with starts_with_length [OF True] show ?thesis by simp
  next
    case False
    with Cons.prems have "find_at p (Suc i) s = Some j" by simp
    from Cons.IH [OF this] show ?thesis by simp
  qed
qed simp

lemma declaration_end_bounds: "declaration_end i s = Some j \<Longrightarrow> i < j \<and> j \<le> i + length s"
proof (induction s arbitrary: i)
  case (Cons c s)
  from Cons.prems consider "j = Suc i" | "declaration_end (Suc i) s = Some j" by (auto split: if_splits)
  then show ?case by cases (simp, auto dest: Cons.IH)
qed simp

lemma attributes_end_bounds: "attributes_end q i s = Some j \<Longrightarrow> i < j \<and> j \<le> i + length s"
proof (induction s arbitrary: i q)
  case (Cons c s)
  from Cons.prems consider "j = Suc i" | q' where "attributes_end q' (Suc i) s = Some j"
    by (auto split: option.splits if_splits)
  then show ?case by cases (simp, auto dest: Cons.IH)
qed simp

lemma parenthesized_bounds: "parenthesized d q k i s = Some j \<Longrightarrow> i < j \<and> j \<le> i + length s"
proof (induction s arbitrary: d q k i)
  case (Cons c s)
  from Cons.prems consider "j = Suc i" | d' q' k' where "parenthesized d' q' k' (Suc i) s = Some j"
    by (simp add: Let_def split: option.splits if_splits)
  then show ?case by cases (simp, auto dest: Cons.IH)
qed simp

lemma parenthesized_end_bounds: "parenthesized_end t i = Some j \<Longrightarrow> i < j \<and> j \<le> length t"
  by (cases "i \<le> length t") (auto simp: parenthesized_end_def dest: parenthesized_bounds)

lemma html_tag_end_bounds:
  assumes "html_tag_end u t i = Some j"
  shows "i < j \<and> j \<le> length t"
proof (cases "starts_with (ascii ''<!--'') (drop i t)")
  case True
  from starts_with_length [OF this] have "i + 4 \<le> length t" by (simp add: ascii_def)
  with assms True show ?thesis
    by (auto simp: html_tag_end_def ascii_def dest: find_at_bounds split: option.splits)
next
  case False
  note open_tag = assms [unfolded html_tag_end_def if_not_P [OF False]]
  show ?thesis
  proof (cases "drop (i + 1) t")
    case (Cons c rest)
    from arg_cong [OF this, of length] have "length t = i + 2 + length rest" by (simp only: length_drop list.size)
    with open_tag Cons show ?thesis
      by (auto simp: Let_def split: if_splits dest!: declaration_end_bounds attributes_end_bounds)
  qed (use open_tag in simp)
qed

lemma literal_close_bounds: "literal_close name i s = Some j \<Longrightarrow> i \<le> j \<and> j \<le> i + length s"
proof (induction s arbitrary: i)
  case (Cons c s)
  show ?case
  proof (cases "literal_close_at name (c # s)")
    case None
    with Cons.prems have "literal_close name (Suc i) s = Some j" by simp
    from Cons.IH [OF this] show ?thesis by simp
  next
    case (Some k)
    then obtain b :: utext where "b \<noteq> []" "k = length (c # s) - length b + 1"
      by (auto simp: literal_close_at_def Let_def simp del: dropWhile_eq_Nil_conv split: if_splits)
    then have "k \<le> length (c # s)" by (cases b) auto
    with Some Cons.prems show ?thesis by simp
  qed
qed simp

lemma html_literal_end_bounds: "i \<le> length t \<Longrightarrow> i \<le> html_literal_end t name i \<and> html_literal_end t name i \<le> length t"
  by (auto simp: html_literal_end_def dest: literal_close_bounds split: option.split)

lemma tag_region_bounds: "tag_region u t i = Some j \<Longrightarrow> i < j \<and> j \<le> length t"
  by (auto simp: tag_region_def split: if_splits option.splits dest!: html_tag_end_bounds)
    (meson html_literal_end_bounds le_trans less_le_trans less_imp_le)+

lemma match_brackets_bounds:
  assumes "match_brackets t is stack m a = Some b" and "sorted_wrt (<) is" "\<forall>x \<in> set stack. \<forall>k \<in> set is. x < k" "\<forall>k \<in> set is. k < n"
    and "\<And>i j. m i = Some j \<Longrightarrow> i < j \<and> j < n"
  shows "a < b \<and> b < n"
  using assms
proof (induction "is" arbitrary: stack m)
  case (Cons i "is")
  from Cons.prems(1) consider (skip) "match_brackets t is stack m a = Some b" | (push) "match_brackets t is (i # stack) m a = Some b"
    | (pop) "stack \<noteq> []" "match_brackets t is (tl stack) (m(hd stack \<mapsto> i)) a = Some b"
    by (auto split: if_splits)
  then show ?case
  proof cases
    case skip
    with Cons.prems show ?thesis by (intro Cons.IH [OF skip]) auto
  next
    case push
    with Cons.prems show ?thesis by (intro Cons.IH [OF push]) auto
  next
    case pop
    then have "hd stack < i" "i < n" using Cons.prems(3,4) by auto
    with Cons.prems pop(1) show ?thesis by (intro Cons.IH [OF pop(2)]) (auto dest: list.set_sel(2) split: if_splits)
  qed
qed simp

lemma closing_of_matches: "closing_of (bracket_matches t) = bracket_matches t"
  by (rule ext) (auto simp: closing_of_def bracket_matches_def split: option.split dest: match_brackets_bounds [where n = "length t"])

lemma closing_of_bounds: "closing_of (bracket_matches t) i = Some j \<Longrightarrow> i < j \<and> j < length t"
  unfolding closing_of_matches unfolding bracket_matches_def by (erule match_brackets_bounds) auto

section \<open>Hiding what is not rendered\<close>

definition slice :: "nat \<Rightarrow> nat \<Rightarrow> utext \<Rightarrow> utext" where
  "slice i j t = take (j - i) (drop i t)"

definition line_end :: "utext \<Rightarrow> nat \<Rightarrow> nat" where
  "line_end t i = i + length (takeWhile (\<lambda>c. c \<noteq> 10) (drop i t))"

text \<open>A link definition at the beginning of a line: \<open>[label]: destination\<close>, indented by at most three spaces.\<close>

definition is_definition :: "utext \<Rightarrow> nat \<Rightarrow> nat \<Rightarrow> nat \<Rightarrow> bool" where
  "is_definition t line_start i closing \<longleftrightarrow>
     \<not> starts_with [94] (slice (i + 1) closing t) \<and> closing + 1 < length t \<and> t ! (closing + 1) = 58
     \<and> i - line_start \<le> 3 \<and> list_all (\<lambda>c. c = 32) (slice line_start i t)"

text \<open>What an opening bracket leads to: a region to hide, if any, and the position to go on at.\<close>

definition link_region :: "utext \<Rightarrow> (nat \<Rightarrow> nat option) \<Rightarrow> nat \<Rightarrow> nat \<Rightarrow> (nat \<times> nat) option \<times> nat" where
  "link_region t m line_start i =
    (if t ! i \<noteq> 91 \<or> backslash_escaped t i then (None, i + 1)
     else case closing_of m i of
       None \<Rightarrow> (None, i + 1)
     | Some closing \<Rightarrow>
         let after = closing + 1 in
         if is_definition t line_start i closing then let e = line_end t (after + 1) in (Some (line_start, e), e)
         else case (if after < length t \<and> t ! after = 40 then parenthesized_end t after else None) of
           Some e \<Rightarrow> (Some (after, e), e)
         | None \<Rightarrow>
             if starts_with [94] (slice (i + 1) closing t) then (None, after)
             else let r = after + length (takeWhile (\<lambda>c. c = 32 \<or> c = 9) (drop after t)) in
               case (if r < length t \<and> t ! r = 91 then closing_of m r else None) of
                 Some rc \<Rightarrow> (Some (r, rc + 1), rc + 1)
               | None \<Rightarrow> (None, after))"

lemma closing_of_gt: "closing_of m i = Some j \<Longrightarrow> i < j"
  by (auto simp: closing_of_def split: option.splits if_splits)

lemma link_region_gt: "i < snd (link_region t m line_start i)"
  by (auto simp: link_region_def line_end_def Let_def split: option.split if_splits dest!: closing_of_gt parenthesized_end_bounds)

function hide_regions :: "unicode_data \<Rightarrow> utext \<Rightarrow> (nat \<Rightarrow> nat option) \<Rightarrow> nat \<Rightarrow> nat \<Rightarrow> bool list \<Rightarrow> bool list" where
  "hide_regions u t m i line_start shown_mask =
    (if length t \<le> i then shown_mask
     else if t ! i = 10 then hide_regions u t m (i + 1) (i + 1) shown_mask
     else if \<not> shown_mask ! i then hide_regions u t m (i + 1) line_start shown_mask
     else case tag_region u t i of
       Some e \<Rightarrow> hide_regions u t m e line_start (hide i e shown_mask)
     | None \<Rightarrow> (case link_region t m line_start i of
         (None, n) \<Rightarrow> hide_regions u t m n line_start shown_mask
       | (Some (a, e), n) \<Rightarrow> hide_regions u t m n line_start (hide a e shown_mask)))"
  by pat_completeness auto
termination
proof (relation "measure (\<lambda>(u, t, m, i, line_start, shown_mask). length t - i)", goal_cases)
  case (4 u t m i line_start shown_mask)
  show ?case using link_region_gt [of i t m line_start] 4 by (cases "link_region t m line_start i") auto
next
  case (5 u t m i line_start shown_mask)
  show ?case using link_region_gt [of i t m line_start] 5 by (cases "link_region t m line_start i") auto
next
  case (6 u t m i line_start shown_mask)
  show ?case using 6 by (auto dest: tag_region_bounds)
qed auto

declare hide_regions.simps [simp del]

end
