(* ===== verification/MarkdownLinks.thy ===== *)
theory MarkdownLinks
  imports MarkdownRegions
begin

text \<open>
  The links and images of a Markdown text (\<open>core/portable/markdown_safety.py\<close>): destinations, the images that are rendered,
  raw HTML images among them, and the mask of the text that is shown as text.
\<close>

section \<open>Destinations\<close>

text \<open>The whitespace-separated words of a text, joined by single spaces and case-folded.\<close>

definition uwords :: "utext \<Rightarrow> utext list" where
  "uwords s = filter (\<lambda>w. w \<noteq> []) (split_on 32 (map (\<lambda>c. if uspace c then 32 else c) s))"

definition reference_label :: "unicode_data \<Rightarrow> utext \<Rightarrow> utext" where
  "reference_label u s = folded u (join_with 32 (uwords s))"

fun bare_end :: "utext \<Rightarrow> nat \<Rightarrow> nat \<Rightarrow> utext \<Rightarrow> nat" where
  "bare_end t parens i [] = i"
| "bare_end t parens i (c # cs) =
    (if tag_space c \<and> parens = 0 then i
     else if c = 40 \<and> \<not> backslash_escaped t i then bare_end t (parens + 1) (i + 1) cs
     else if c = 41 \<and> \<not> backslash_escaped t i then (if parens = 0 then i else bare_end t (parens - 1) (i + 1) cs)
     else bare_end t parens (i + 1) cs)"

definition destination_after :: "utext \<Rightarrow> nat \<Rightarrow> (utext \<times> nat) option" where
  "destination_after t start =
    (let i = start + length (takeWhile (\<lambda>c. c = 32 \<or> c = 9) (drop start t)) in
     if length t \<le> i then None
     else if t ! i = 60 then
       (case find (\<lambda>p. (t ! p = 62 \<and> \<not> backslash_escaped t p) \<or> t ! p = 13 \<or> t ! p = 10) [i + 1..<length t] of
          None \<Rightarrow> None
        | Some p \<Rightarrow> if t ! p = 62 then Some (slice i (p + 1) t, p + 1) else None)
     else let e = bare_end t 0 i (drop i t) in if i < e then Some (slice i e t, e) else None)"

lemma bare_end_ge: "i \<le> bare_end t k i s"
proof (induction s arbitrary: k i)
  case (Cons c s)
  have "i \<le> bare_end t k' (i + 1) s" for k' using Cons.IH [of "i + 1" k'] by simp
  then show ?case by simp
qed simp

lemma destination_after_gt: "destination_after t start = Some (d, e) \<Longrightarrow> start < e"
proof -
  define i where "i = start + length (takeWhile (\<lambda>c. c = 32 \<or> c = 9) (drop start t))"
  assume "destination_after t start = Some (d, e)"
  then consider p where "find (\<lambda>p. (t ! p = 62 \<and> \<not> backslash_escaped t p) \<or> t ! p = 13 \<or> t ! p = 10) [i + 1..<length t] = Some p" "e = p + 1"
    | "i < e"
    unfolding destination_after_def i_def [symmetric] Let_def by (simp split: if_splits option.splits)
  moreover have "start \<le> i" by (simp add: i_def)
  moreover have "i < p" if "find P [i + 1..<length t] = Some p" for P p
  proof -
    from that obtain k where "k < length [i + 1..<length t]" "p = [i + 1..<length t] ! k" by (auto simp: find_Some_iff)
    then show ?thesis by simp
  qed
  ultimately show "start < e" by cases force+
qed

text \<open>The label of a definition and the position after its colon.\<close>

definition definition_at :: "utext \<Rightarrow> (nat \<Rightarrow> nat option) \<Rightarrow> nat \<Rightarrow> nat \<Rightarrow> (utext \<times> nat) option" where
  "definition_at t m line_start i =
    (if t ! i \<noteq> 91 then None
     else if backslash_escaped t i then None
     else case closing_of m i of
       None \<Rightarrow> None
     | Some closing \<Rightarrow> if is_definition t line_start i closing then Some (slice (i + 1) closing t, closing + 2) else None)"

section \<open>Links\<close>

text \<open>What a step over the text finds: a destination and whether it is an image's, a definition, a reference.\<close>

datatype link = Leads utext bool | Defines utext utext | RefersTo utext bool

definition bracketed_link :: "unicode_data \<Rightarrow> utext \<Rightarrow> (nat \<Rightarrow> nat option) \<Rightarrow> nat \<Rightarrow> bool \<Rightarrow> nat \<Rightarrow> nat \<Rightarrow> link list \<times> nat" where
  "bracketed_link u t m line_start is_image i closing =
    (let label = slice (i + 1) closing t; after = closing + 1 in
     case (if \<not> is_image \<and> is_definition t line_start i closing then destination_after t (after + 1) else None) of
       Some (d, e) \<Rightarrow> ([Defines (reference_label u label) d, Leads d False], e)
     | None \<Rightarrow>
         case (if after < length t \<and> t ! after = 40 then destination_after t (after + 1) else None) of
           Some (d, e) \<Rightarrow> ([Leads d is_image], e + (if e < length t \<and> t ! e = 41 then 1 else 0))
         | None \<Rightarrow>
             if starts_with [94] label then ([], after)
             else case (if after < length t \<and> t ! after = 91 then closing_of m after else None) of
               None \<Rightarrow> ([RefersTo (reference_label u label) is_image], after)
             | Some rc \<Rightarrow> let explicit = slice (after + 1) rc t in
                 ([RefersTo (reference_label u (if explicit = [] then label else explicit)) is_image], rc + 1))"

definition link_step :: "unicode_data \<Rightarrow> utext \<Rightarrow> (nat \<Rightarrow> nat option) \<Rightarrow> nat \<Rightarrow> nat \<Rightarrow> link list \<times> nat" where
  "link_step u t m line_start i =
    (let is_image = 0 < i \<and> t ! (i - 1) = 33 \<and> \<not> backslash_escaped t (i - 1) in
     if t ! i \<noteq> 91 \<or> backslash_escaped t i then ([], i + 1)
     else if i + 1 < length t \<and> t ! (i + 1) = 91 then
       (case closing_of m (i + 1) of
          None \<Rightarrow> ([], i + 1)
        | Some closing \<Rightarrow> if closing_of m i \<noteq> Some (closing + 1) then ([], i + 1)
            else ([Leads (before 124 (slice (i + 2) closing t)) is_image], closing + 2))
     else case closing_of m i of
       None \<Rightarrow> ([], i + 1)
     | Some closing \<Rightarrow> bracketed_link u t m line_start is_image i closing)"

lemma bracketed_link_gt:
  assumes "i < closing"
  shows "i < snd (bracketed_link u t m line_start is_image i closing)"
proof -
  have "closing < e" if "destination_after t (closing + 2) = Some (d, e)" for d e
    using destination_after_gt [OF that] by simp
  moreover have "closing < rc + 1" if "closing_of m (closing + 1) = Some rc" for rc
    using closing_of_gt [OF that] by simp
  ultimately have "closing < snd (bracketed_link u t m line_start is_image i closing)"
    by (auto simp: bracketed_link_def Let_def split: option.split)
  with assms show ?thesis by simp
qed

lemma link_step_gt: "i < snd (link_step u t m line_start i)"
  using closing_of_gt [of m i] closing_of_gt [of m "i + 1"]
  by (auto simp: link_step_def Let_def split: option.split intro!: bracketed_link_gt)

function links_from :: "unicode_data \<Rightarrow> utext \<Rightarrow> (nat \<Rightarrow> nat option) \<Rightarrow> nat \<Rightarrow> nat \<Rightarrow> link list" where
  "links_from u t m i line_start =
    (if length t \<le> i then []
     else if t ! i = 10 then links_from u t m (i + 1) (i + 1)
     else (case link_step u t m line_start i of (ls, n) \<Rightarrow> ls @ links_from u t m n line_start))"
  by pat_completeness auto
termination
proof (relation "measure (\<lambda>(u, t, m, i, line_start). length t - i)", goal_cases)
  case (3 u t m i line_start ls n)
  then show ?case using link_step_gt [of i u t m line_start] by (cases "link_step u t m line_start i") simp
qed auto

declare links_from.simps [simp del]

text \<open>The destinations in the order they are yielded: the direct ones, then those of the references that are defined.\<close>

definition defined_links :: "link list \<Rightarrow> (utext \<times> utext) list" where
  "defined_links ls = concat (map (\<lambda>l. case l of Defines label d \<Rightarrow> [(label, d)] | _ \<Rightarrow> []) ls)"

definition markdown_destinations :: "unicode_data \<Rightarrow> utext \<Rightarrow> (utext \<times> bool) list" where
  "markdown_destinations u t =
    (let ls = links_from u t (bracket_matches t) 0 0 in
     concat (map (\<lambda>l. case l of Leads d is_image \<Rightarrow> [(d, is_image)] | _ \<Rightarrow> []) ls)
     @ concat (map (\<lambda>l. case l of RefersTo label is_image \<Rightarrow> (case map_of (defined_links ls) label of Some d \<Rightarrow> [(d, is_image)] | None \<Rightarrow> []) | _ \<Rightarrow> []) ls))"

section \<open>Raw HTML images\<close>

text \<open>
  The attributes of a tag: the values of those named \<open>src\<close>, or nothing where the tag is refused. A value after the equals sign
  is quoted or ends at a space or the end of the tag.
\<close>

definition attribute_value :: "utext \<Rightarrow> (utext \<times> utext) option" where
  "attribute_value s =
    (if s \<noteq> [] \<and> hd s = 61 then
       let v = dropWhile tag_space (tl s) in
       if v \<noteq> [] \<and> (hd v = 34 \<or> hd v = 39) then
         let value = takeWhile (\<lambda>c. c \<noteq> hd v) (tl v) in
         if length value = length (tl v) then None else Some (value, drop (length value + 1) (tl v))
       else let value = takeWhile (\<lambda>c. \<not> tag_space c \<and> c \<noteq> 62) v in Some (value, drop (length value) v)
     else Some ([], s))"

definition attribute_char :: "nat \<Rightarrow> bool" where
  "attribute_char c \<longleftrightarrow> \<not> tag_space c \<and> c \<notin> {47, 62, 61, 34, 39}"

lemma attribute_value_shorter: "attribute_value s = Some (v, r) \<Longrightarrow> length r \<le> length s"
proof -
  have "length (dropWhile p xs) \<le> length xs" for p and xs :: utext by (rule length_dropWhile_le)
  note this [of tag_space "tl s"]
  then show "attribute_value s = Some (v, r) \<Longrightarrow> length r \<le> length s"
    by (auto simp: attribute_value_def Let_def split: if_splits)
qed

function source_attributes :: "utext \<Rightarrow> utext list option" where
  "source_attributes s =
    (let s1 = dropWhile tag_space s; name = takeWhile attribute_char s1 in
     if s1 = [] \<or> hd s1 = 47 \<or> hd s1 = 62 then Some []
     else if name = [] then None
     else case attribute_value (dropWhile tag_space (drop (length name) s1)) of
       None \<Rightarrow> None
     | Some (value, rest) \<Rightarrow>
         map_option (\<lambda>vs. if map ascii_lower name = ascii ''src'' then value # vs else vs) (source_attributes rest))"
  by pat_completeness auto
termination
proof (relation "measure length", goal_cases)
  case (2 s s1 name p v rest)
  have "length rest \<le> length (dropWhile tag_space (drop (length name) s1))" using 2 attribute_value_shorter by metis
  also have "\<dots> \<le> length (drop (length name) s1)" by (rule length_dropWhile_le)
  also have "\<dots> < length s1" using 2 by (cases s1) auto
  also have "\<dots> \<le> length s" using 2 by (simp add: length_dropWhile_le)
  finally show ?case by simp
qed auto

declare source_attributes.simps [simp del]

definition raw_html_image_source :: "unicode_data \<Rightarrow> utext \<Rightarrow> markdown_error + utext option" where
  "raw_html_image_source u s =
    (case source_attributes (dropWhile (name_char u) (dropWhile tag_space (tl s))) of
       None \<Rightarrow> Inl MarkdownUnsafe
     | Some [d] \<Rightarrow> Inr (Some d)
     | Some _ \<Rightarrow> Inr None)"

text \<open>The regular expression \<open><\s*img(?=[\s/>])\<close>, without case.\<close>

definition image_open :: "utext \<Rightarrow> bool" where
  "image_open s \<longleftrightarrow>
    (let r = dropWhile uspace (tl s) in starts_with [60] s \<and> starts_with_fold (ascii ''img'') r
       \<and> (case drop 3 r of [] \<Rightarrow> False | c # _ \<Rightarrow> uspace c \<or> c = 47 \<or> c = 62))"

section \<open>Rendered images\<close>

record rendered_image =
  img_destination :: "utext option"
  img_start :: nat
  img_end :: nat

text \<open>Where the labels of images that began so far end: tags inside them are left to the Markdown image.\<close>

definition image_label_intervals :: "utext \<Rightarrow> (nat \<Rightarrow> nat option) \<Rightarrow> (nat \<times> nat) list" where
  "image_label_intervals v m = concat (map (\<lambda>i.
     if v ! i = 91 \<and> 0 < i \<and> v ! (i - 1) = 33 \<and> \<not> backslash_escaped v (i - 1)
     then (case closing_of m i of Some closing \<Rightarrow> [(i + 1, closing)] | None \<Rightarrow> []) else []) [0..<length v])"

definition image_label_end :: "(nat \<times> nat) list \<Rightarrow> nat \<Rightarrow> nat" where
  "image_label_end intervals i = foldl max 0 (map snd (filter (\<lambda>(a, _). a \<le> i) intervals))"

definition hide_context :: "nat \<Rightarrow> nat \<Rightarrow> utext \<Rightarrow> utext" where
  "hide_context i j cs = take i cs @ map (\<lambda>c. if c = 10 then 10 else 32) (slice i j cs) @ drop j cs"

text \<open>The first loop of \<open>_rendered_images\<close>: the text without its tags, and the images among them.\<close>

definition add_image :: "rendered_image \<Rightarrow> markdown_error + (utext \<times> rendered_image list) \<Rightarrow> markdown_error + (utext \<times> rendered_image list)" where
  "add_image r res = (case res of Inl err \<Rightarrow> Inl err | Inr (cs, rs) \<Rightarrow> Inr (cs, r # rs))"

definition tag_cut :: "unicode_data \<Rightarrow> utext \<Rightarrow> (nat \<times> nat) list \<Rightarrow> nat \<Rightarrow> nat option" where
  "tag_cut u v intervals i =
    (if v ! i \<noteq> 60 then None
     else if i < image_label_end intervals i \<or> backslash_escaped v i then None
     else case html_tag_end u v i of
       None \<Rightarrow> None
     | Some e \<Rightarrow> if starts_with (ascii ''<!--'') (drop i v) then Some e
         else (case literal_open (drop i v) of Some name \<Rightarrow> Some (html_literal_end v name e) | None \<Rightarrow> Some e))"

lemma tag_cut_bounds: "tag_cut u v intervals i = Some j \<Longrightarrow> i < j \<and> j \<le> length v"
  by (auto simp: tag_cut_def split: if_splits option.splits dest!: html_tag_end_bounds)
    (meson html_literal_end_bounds le_trans less_le_trans less_imp_le)+

function cut_tags :: "unicode_data \<Rightarrow> utext \<Rightarrow> (nat \<times> nat) list \<Rightarrow> nat \<Rightarrow> utext \<Rightarrow> markdown_error + (utext \<times> rendered_image list)" where
  "cut_tags u v intervals i cs =
    (if length v \<le> i then Inr (cs, [])
     else case tag_cut u v intervals i of
       None \<Rightarrow> cut_tags u v intervals (i + 1) cs
     | Some e \<Rightarrow>
         if image_open (slice i e v)
         then (case raw_html_image_source u (slice i e v) of
             Inl err \<Rightarrow> Inl err
           | Inr source \<Rightarrow> add_image \<lparr>img_destination = source, img_start = i, img_end = e\<rparr> (cut_tags u v intervals e (hide_context i e cs)))
         else cut_tags u v intervals e (hide_context i e cs))"
  by pat_completeness auto
termination
  by (relation "measure (\<lambda>(u, v, intervals, i, cs). length v - i)") (auto dest!: tag_cut_bounds)

declare cut_tags.simps [simp del]

text \<open>
  The second loop: the images of the text without its tags, in order, and the definitions among the lines. Where a tag's image
  began its position is looked up first. A tag's image ends after it begins, so the test of that never fails.
\<close>

datatype found_image = Direct rendered_image | ByReference utext nat nat | Definition utext utext

definition wiki_image :: "utext \<Rightarrow> (nat \<Rightarrow> nat option) \<Rightarrow> nat \<Rightarrow> rendered_image option" where
  "wiki_image c m i =
    (if starts_with (ascii ''![['') (drop i c) then
       (case (closing_of m (i + 2), closing_of m (i + 1)) of
          (Some inner, Some outer) \<Rightarrow> if outer = inner + 1
            then Some \<lparr>img_destination = Some (before 124 (slice (i + 3) inner c)), img_start = i, img_end = outer + 1\<rparr> else None
        | _ \<Rightarrow> None)
     else None)"

definition inline_image :: "utext \<Rightarrow> nat \<Rightarrow> nat \<Rightarrow> rendered_image option" where
  "inline_image c i after =
    (if after < length c \<and> c ! after = 40 then
       (case (parenthesized_end c after, destination_after c (after + 1)) of
          (Some e, Some (d, p)) \<Rightarrow> if p < e then Some \<lparr>img_destination = Some d, img_start = i, img_end = e\<rparr> else None
        | _ \<Rightarrow> None)
     else None)"

definition reference_image :: "unicode_data \<Rightarrow> nat \<Rightarrow> nat \<Rightarrow> utext \<Rightarrow> found_image list \<times> nat" where
  "reference_image u i e label = (if starts_with [94] (reference_label u label) then [] else [ByReference (reference_label u label) i e], e)"

definition image_at :: "unicode_data \<Rightarrow> utext \<Rightarrow> (nat \<Rightarrow> nat option) \<Rightarrow> nat \<Rightarrow> found_image list \<times> nat" where
  "image_at u c m i =
    (if c ! i \<noteq> 33 then ([], i + 1)
     else if backslash_escaped c i \<or> length c \<le> i + 1 \<or> c ! (i + 1) \<noteq> 91 then ([], i + 1)
     else case wiki_image c m i of
       Some r \<Rightarrow> ([Direct r], img_end r)
     | None \<Rightarrow> (case closing_of m (i + 1) of
         None \<Rightarrow> ([], i + 1)
       | Some closing \<Rightarrow>
           let label = slice (i + 2) closing c; after = closing + 1 in
           case inline_image c i after of
             Some r \<Rightarrow> ([Direct r], img_end r)
           | None \<Rightarrow>
               if after < length c \<and> c ! after = 91 then
                 (case closing_of m after of
                    None \<Rightarrow> ([], i + 1)
                  | Some rc \<Rightarrow> let explicit = slice (after + 1) rc c in
                      reference_image u i (rc + 1) (if explicit = [] then label else explicit))
               else reference_image u i after label))"

definition image_step :: "unicode_data \<Rightarrow> utext \<Rightarrow> (nat \<Rightarrow> nat option) \<Rightarrow> nat \<Rightarrow> nat \<Rightarrow> found_image list \<times> nat" where
  "image_step u c m line_start i =
    (case definition_at c m line_start i of
       Some (label, p) \<Rightarrow>
         ((case destination_after c p of Some (d, _) \<Rightarrow> [Definition (reference_label u label) d] | None \<Rightarrow> []), line_end c p)
     | None \<Rightarrow> image_at u c m i)"

lemma image_at_gt: "i < snd (image_at u c m i)"
proof -
  have inline: "img_end r > i" if "closing_of m (i + 1) = Some closing" "inline_image c i (closing + 1) = Some r" for closing r
    using closing_of_gt [OF that(1)] that(2)
    by (auto simp: inline_image_def split: if_splits option.splits dest!: parenthesized_end_bounds)
  have wiki: "img_end r > i" if "wiki_image c m i = Some r" for r
    using that by (auto simp: wiki_image_def split: if_splits option.splits dest!: closing_of_gt)
  have closing: "i < closing" if "closing_of m (i + 1) = Some closing" for closing
    using closing_of_gt [OF that] by simp
  show ?thesis
  proof (cases "closing_of m (i + 1)")
    case None
    then show ?thesis using wiki by (simp add: image_at_def split: option.split)
  next
    case (Some k)
    have "i < rc" if "closing_of m (k + 1) = Some rc" for rc using closing_of_gt [OF that] closing [OF Some] by simp
    then show ?thesis unfolding image_at_def Let_def Some option.case reference_image_def
      by (simp only: split: if_split option.split) (use closing [OF Some] inline [OF Some] wiki in \<open>auto simp: less_SucI\<close>)
  qed
qed

lemma image_step_gt: "i < snd (image_step u c m line_start i)"
proof -
  have "i < p" if "definition_at c m line_start i = Some (label, p)" for label p
    using that by (auto simp: definition_at_def split: if_splits option.splits dest!: closing_of_gt)
  then have "i < line_end c p" if "definition_at c m line_start i = Some (label, p)" for label p
    using that unfolding line_end_def by (meson trans_less_add1)
  then show ?thesis unfolding image_step_def
    by (simp only: split: option.split prod.split) (simp add: image_at_gt)
qed

function found_images :: "unicode_data \<Rightarrow> utext \<Rightarrow> (nat \<Rightarrow> nat option) \<Rightarrow> rendered_image list \<Rightarrow> nat \<Rightarrow> nat \<Rightarrow> found_image list" where
  "found_images u c m raws i line_start =
    (if length c \<le> i then []
     else case find (\<lambda>r. img_start r = i \<and> i < img_end r) raws of
       Some r \<Rightarrow> Direct r # found_images u c m raws (img_end r) line_start
     | None \<Rightarrow>
         if c ! i = 10 then found_images u c m raws (i + 1) (i + 1)
         else (case image_step u c m line_start i of (fs, n) \<Rightarrow> fs @ found_images u c m raws n line_start))"
  by pat_completeness auto
termination
proof (relation "measure (\<lambda>(u, c, m, raws, i, line_start). length c - i)", goal_cases)
  case (3 u c m raws i line_start fs n)
  then show ?case using image_step_gt [of i u c m line_start] by (cases "image_step u c m line_start i") simp
next
  case (4 u c m raws i line_start r)
  then show ?case by (auto simp: find_Some_iff)
qed auto

declare found_images.simps [simp del]

definition defined_images :: "found_image list \<Rightarrow> (utext \<times> utext) list" where
  "defined_images fs = concat (map (\<lambda>f. case f of Definition label d \<Rightarrow> [(label, d)] | _ \<Rightarrow> []) fs)"

definition rendered_images :: "unicode_data \<Rightarrow> utext \<Rightarrow> markdown_error + rendered_image list" where
  "rendered_images u t =
    (let v = visible_text t in
     case cut_tags u v (image_label_intervals v (bracket_matches v)) 0 v of
       Inl err \<Rightarrow> Inl err
     | Inr (c, raws) \<Rightarrow>
         let fs = found_images u c (bracket_matches c) raws 0 0 in
         Inr (concat (map (\<lambda>f. case f of
             Direct r \<Rightarrow> [r]
           | ByReference label i e \<Rightarrow> (case map_of (defined_images fs) label of
               Some d \<Rightarrow> [\<lparr>img_destination = Some d, img_start = i, img_end = e\<rparr>] | None \<Rightarrow> [])
           | Definition _ _ \<Rightarrow> []) fs)))"

section \<open>The text that is shown\<close>

definition markdown_visible_mask :: "unicode_data \<Rightarrow> utext \<Rightarrow> markdown_error + bool list" where
  "markdown_visible_mask u t =
    (case rendered_images u t of
       Inl err \<Rightarrow> Inl err
     | Inr images \<Rightarrow> Inr (foldl (\<lambda>shown_mask r. hide (img_start r) (img_end r) shown_mask)
         (hide_regions u t (bracket_matches t) 0 0 (visible_mask t)) images))"

definition markdown_visible_lines :: "unicode_data \<Rightarrow> utext \<Rightarrow> markdown_error + utext list" where
  "markdown_visible_lines u t = map_sum id (\<lambda>shown_mask. map (rstrip_by line_break) (split_lines (blanked t shown_mask))) (markdown_visible_mask u t)"

end
