(* ===== verification/MarkdownChecks.thy ===== *)
theory MarkdownChecks
  imports MarkdownLinks
begin

text \<open>
  The checks of a whole draft (\<open>core/portable/markdown_safety.py\<close>): \<open>validate_markdown_safety\<close>, the bundle paths of its
  images, and the footnotes and sections that the quality report counts.
\<close>

section \<open>Searching\<close>

text \<open>\<open>re.finditer\<close>: a matcher sees the position and the text from there on and says what it matched and how far (at least one
  character); the search goes on behind a match.\<close>

function find_iter :: "(nat \<Rightarrow> utext \<Rightarrow> ('a \<times> nat) option) \<Rightarrow> nat \<Rightarrow> utext \<Rightarrow> (nat \<times> 'a) list" where
  "find_iter f i [] = []"
| "find_iter f i (c # cs) = (case f i (c # cs) of
     None \<Rightarrow> find_iter f (i + 1) cs
   | Some (x, k) \<Rightarrow> (i, x) # find_iter f (i + max 1 k) (drop (max 1 k - 1) cs))"
  by pat_completeness auto
termination by (relation "measure (\<lambda>(f, i, s). length s)") auto

definition word_char :: "unicode_data \<Rightarrow> nat \<Rightarrow> bool" where
  "word_char u c \<longleftrightarrow> alnum u c \<or> c = 95"

definition word_before :: "unicode_data \<Rightarrow> utext \<Rightarrow> nat \<Rightarrow> bool" where
  "word_before u t i \<longleftrightarrow> 0 < i \<and> word_char u (t ! (i - 1))"

definition equals_after :: "utext \<Rightarrow> bool" where
  "equals_after s \<longleftrightarrow> starts_with [61] (dropWhile uspace s)"

section \<open>Active content\<close>

definition ACTIVE_TAGS :: "utext list" where
  "ACTIVE_TAGS = map ascii [''script'', ''iframe'', ''object'', ''embed'', ''form'', ''input'', ''button'', ''svg'', ''style'', ''link'',
     ''meta'', ''base'', ''math'', ''video'', ''audio'', ''source'', ''track'', ''canvas'']"

definition active_tag_at :: "unicode_data \<Rightarrow> utext \<Rightarrow> bool" where
  "active_tag_at u s \<longleftrightarrow>
    (let a = dropWhile uspace (tl s); b = (if starts_with [47] a then dropWhile uspace (tl a) else a) in
     starts_with [60] s \<and> list_ex (\<lambda>w. starts_with_fold w b \<and> (case drop (length w) b of [] \<Rightarrow> True | c # _ \<Rightarrow> \<not> word_char u c)) ACTIVE_TAGS)"

definition event_char :: "nat \<Rightarrow> bool" where
  "event_char c \<longleftrightarrow> ascii_letter c \<or> ascii_digit c \<or> c = 95 \<or> c = 45 \<or> c \<in> {0x130, 0x131, 0x17F, 0x212A}"

definition active_attribute_at :: "utext \<Rightarrow> bool" where
  "active_attribute_at s \<longleftrightarrow>
    (starts_with_fold (ascii ''on'') s \<and> takeWhile event_char (drop 2 s) \<noteq> [] \<and> equals_after (dropWhile event_char (drop 2 s)))
    \<or> list_ex (\<lambda>w. starts_with_fold w s \<and> equals_after (drop (length w) s)) (map ascii [''style'', ''srcdoc'', ''srcset'', ''ping'', ''formaction''])"

fun active_attribute :: "unicode_data \<Rightarrow> bool \<Rightarrow> utext \<Rightarrow> bool" where
  "active_attribute u after_word [] \<longleftrightarrow> False"
| "active_attribute u after_word (c # cs) \<longleftrightarrow> (\<not> after_word \<and> active_attribute_at (c # cs)) \<or> active_attribute u (word_char u c) cs"

section \<open>Links in HTML\<close>

definition autolink_at :: "nat \<Rightarrow> utext \<Rightarrow> (utext \<times> nat) option" where
  "autolink_at i s =
    (let scheme = takeWhile scheme_char (tl s); r = drop (length scheme) (tl s);
         body = takeWhile (\<lambda>c. c \<noteq> 60 \<and> c \<noteq> 62 \<and> \<not> uspace c) (tl r) in
     if starts_with [60] s \<and> scheme \<noteq> [] \<and> ascii_letter (hd scheme) \<and> starts_with [58] r \<and> starts_with [62] (drop (length body) (tl r))
     then Some (scheme @ 58 # body, length scheme + length body + 3) else None)"

definition quoted_value :: "utext \<Rightarrow> (utext \<times> nat) option" where
  "quoted_value s = (if s \<noteq> [] \<and> (hd s = 34 \<or> hd s = 39) \<and> hd s \<in> set (tl s)
     then Some (before (hd s) (tl s), length (before (hd s) (tl s)) + 2)
     else let v = takeWhile (\<lambda>c. \<not> uspace c \<and> c \<noteq> 62) s in if v = [] then None else Some (v, length v))"

definition html_link_at :: "unicode_data \<Rightarrow> utext \<Rightarrow> nat \<Rightarrow> utext \<Rightarrow> (utext \<times> nat) option" where
  "html_link_at u t i s =
    (if word_before u t i then None
     else case find (\<lambda>w. starts_with_fold w s \<and> equals_after (drop (length w) s)) (map ascii [''href'', ''src'', ''data'', ''action'', ''poster'']) of
       None \<Rightarrow> None
     | Some w \<Rightarrow> let r = dropWhile uspace (tl (dropWhile uspace (drop (length w) s))) in
         map_option (\<lambda>(v, k). (v, length s - length r + k)) (quoted_value r))"

section \<open>Drafts\<close>

fun check_destinations ::
    "(utext \<Rightarrow> utext option) \<Rightarrow> (utext \<Rightarrow> bool) \<Rightarrow> utext \<Rightarrow> (utext \<times> bool) list \<Rightarrow> markdown_error + unit" where
  "check_destinations named netloc_ok path [] = Inr ()"
| "check_destinations named netloc_ok path ((d, is_image) # ds) =
    (case validate_destination named netloc_ok d path (\<not> is_image) of
       Inl err \<Rightarrow> Inl err
     | Inr _ \<Rightarrow> check_destinations named netloc_ok path ds)"

definition draft_destinations :: "unicode_data \<Rightarrow> utext \<Rightarrow> (utext \<times> bool) list" where
  "draft_destinations u visible = markdown_destinations u visible
     @ map (\<lambda>(_, d). (d, False)) (find_iter autolink_at 0 visible) @ map (\<lambda>(_, d). (d, False)) (find_iter (html_link_at u visible) 0 visible)"

definition validate_markdown_safety ::
    "unicode_data \<Rightarrow> (utext \<Rightarrow> utext option) \<Rightarrow> (utext \<Rightarrow> bool) \<Rightarrow> utext \<Rightarrow> utext \<Rightarrow> markdown_error + unit" where
  "validate_markdown_safety u named netloc_ok markdown path =
    (if \<not> is_portable_bundle_path path \<or> list_ex (\<lambda>c. c < 32 \<and> c \<notin> {9, 10, 13}) markdown \<or> has_mermaid_fence markdown then Inl MarkdownUnsafe
     else let visible = visible_text markdown in
       case unescape named visible of
         None \<Rightarrow> Inl NumeralRefused
       | Some decoded \<Rightarrow>
           if occurs (active_tag_at u) decoded \<or> active_attribute u False decoded \<or> occurs dangerous_scheme_at decoded then Inl MarkdownUnsafe
           else case rendered_images u markdown of
             Inl err \<Rightarrow> Inl err
           | Inr images \<Rightarrow>
               if list_ex (\<lambda>r. img_destination r = None) images then Inl MarkdownUnsafe
               else check_destinations named netloc_ok path
                 (draft_destinations u visible @ map (\<lambda>r. (the (img_destination r), True)) images))"

fun image_paths ::
    "(utext \<Rightarrow> utext option) \<Rightarrow> (utext \<Rightarrow> bool) \<Rightarrow> utext \<Rightarrow> rendered_image list \<Rightarrow> markdown_error + utext list" where
  "image_paths named netloc_ok path [] = Inr []"
| "image_paths named netloc_ok path (r # rs) =
    (case img_destination r of
       None \<Rightarrow> Inl MarkdownUnsafe
     | Some d \<Rightarrow> (case validate_destination named netloc_ok d path False of
         Inl err \<Rightarrow> Inl err
       | Inr None \<Rightarrow> Inl MarkdownUnsafe
       | Inr (Some p) \<Rightarrow> map_sum id ((#) p) (image_paths named netloc_ok path rs)))"

definition rendered_image_bundle_paths ::
    "unicode_data \<Rightarrow> (utext \<Rightarrow> utext option) \<Rightarrow> (utext \<Rightarrow> bool) \<Rightarrow> utext \<Rightarrow> utext \<Rightarrow> markdown_error + utext list" where
  "rendered_image_bundle_paths u named netloc_ok markdown path =
    (if \<not> is_portable_bundle_path path then Inl MarkdownUnsafe
     else case rendered_images u markdown of Inl err \<Rightarrow> Inl err | Inr images \<Rightarrow> image_paths named netloc_ok path images)"

section \<open>Footnotes and sections\<close>

text \<open>Up to three spaces at the beginning of a line, as the patterns \<open>^ {0,3}\<close> take them.\<close>

definition indented :: "(utext \<Rightarrow> bool) \<Rightarrow> utext \<Rightarrow> bool" where
  "indented p line = (let k = length (takeWhile (\<lambda>c. c = 32) line) in k \<le> 3 \<and> p (drop k line))"

definition evidence_char :: "nat \<Rightarrow> bool" where
  "evidence_char c \<longleftrightarrow> ascii_digit c \<or> (97 \<le> c \<and> c \<le> 102) \<or> c = 45"

definition footnote_at :: "nat \<Rightarrow> utext \<Rightarrow> (utext \<times> nat) option" where
  "footnote_at i s =
    (let w = takeWhile evidence_char (drop 5 s) in
     if starts_with (ascii ''[^ev_'') s \<and> w \<noteq> [] \<and> starts_with [93] (drop (5 + length w) s) then Some (ascii ''ev_'' @ w, length w + 6) else None)"

definition footnote_definition :: "utext \<Rightarrow> utext option" where
  "footnote_definition line =
    (let s = dropWhile (\<lambda>c. c = 32) line in
     case footnote_at 0 s of
       None \<Rightarrow> None
     | Some (w, k) \<Rightarrow> if length line - length s \<le> 3 \<and> starts_with [58] (drop k s) then Some w else None)"

definition segment_citation_at :: "nat \<Rightarrow> utext \<Rightarrow> (utext \<times> nat) option" where
  "segment_citation_at i s =
    (let w = takeWhile (\<lambda>c. c \<noteq> 93 \<and> c \<noteq> 13 \<and> c \<noteq> 10) (drop 6 s) in
     if starts_with (ascii ''[^seg_'') s \<and> starts_with [93] (drop (6 + length w) s) then Some (w, length w + 7) else None)"

definition h2_line :: "utext \<Rightarrow> bool" where
  "h2_line = indented (\<lambda>s. starts_with [35, 35] s \<and> \<not> starts_with [35] (drop 2 s)
     \<and> takeWhile uspace (drop 2 s) \<noteq> [] \<and> dropWhile uspace (drop 2 s) \<noteq> [])"

definition setext_h2_underline :: "utext \<Rightarrow> bool" where
  "setext_h2_underline = indented (\<lambda>s. starts_with [45] s \<and> blank_tail (dropWhile (\<lambda>c. c = 45) s))"

text \<open>A line whose first character was escaped defines no footnote; pairs of backslashes are dropped.\<close>

definition definition_line :: "utext \<Rightarrow> utext" where
  "definition_line line =
    (let indent = length (takeWhile (\<lambda>c. c = 32) line); slashes = length (takeWhile (\<lambda>c. c = 92) (drop indent line)) in
     if 3 < indent then line
     else if odd slashes then []
     else if 0 < slashes then take indent line @ drop (indent + slashes) line
     else line)"

record markdown_analysis =
  citation_ids :: "utext list"
  definition_ids :: "utext list"
  duplicate_definition_ids :: "utext set"
  substantive_h2_citations :: "utext list list"
  has_segment_citation :: bool

text \<open>The open section: whether it has text, and its citations.\<close>

definition finish_section :: "(bool \<times> utext list) option \<Rightarrow> markdown_analysis \<Rightarrow> markdown_analysis" where
  "finish_section sect a = (case sect of
     Some (True, cits) \<Rightarrow> a\<lparr>substantive_h2_citations := substantive_h2_citations a @ [cits]\<rparr>
   | _ \<Rightarrow> a)"

definition unescaped_matches :: "(nat \<Rightarrow> utext \<Rightarrow> (utext \<times> nat) option) \<Rightarrow> utext \<Rightarrow> utext list" where
  "unescaped_matches f line = map snd (filter (\<lambda>(i, _). \<not> backslash_escaped line i) (find_iter f 0 line))"

definition analyze_text_line :: "utext \<Rightarrow> (bool \<times> utext list) option \<Rightarrow> markdown_analysis \<Rightarrow> (bool \<times> utext list) option \<times> markdown_analysis" where
  "analyze_text_line line sect a =
    (case footnote_definition (definition_line line) of
       Some w \<Rightarrow> (sect, a\<lparr>definition_ids := definition_ids a @ [w],
           duplicate_definition_ids := (if w \<in> set (definition_ids a) then insert w (duplicate_definition_ids a) else duplicate_definition_ids a)\<rparr>)
     | None \<Rightarrow>
         let found = unescaped_matches footnote_at line in
         (if ustrip line = [] then sect else map_option (\<lambda>(_, cits). (True, cits @ found)) sect,
          a\<lparr>citation_ids := citation_ids a @ found,
            has_segment_citation := has_segment_citation a \<or> unescaped_matches segment_citation_at line \<noteq> []\<rparr>))"

definition setext_title :: "utext list \<Rightarrow> bool" where
  "setext_title lines = (case lines of line # underline # _ \<Rightarrow> ustrip line \<noteq> [] \<and> setext_h2_underline underline | _ \<Rightarrow> False)"

text \<open>The first argument says whether the line before was a title that this line underlines.\<close>

fun analyze_lines :: "bool \<Rightarrow> utext list \<Rightarrow> (bool \<times> utext list) option \<Rightarrow> markdown_analysis \<Rightarrow> markdown_analysis" where
  "analyze_lines underlines [] sect a = finish_section sect a"
| "analyze_lines underlines (line # lines) sect a =
    (if setext_title (line # lines) then analyze_lines True lines (Some (False, [])) (finish_section sect a)
     else if underlines then analyze_lines False lines sect a
     else if h2_line line then analyze_lines False lines (Some (False, [])) (finish_section sect a)
     else case analyze_text_line line sect a of (sect', a') \<Rightarrow> analyze_lines False lines sect' a')"

definition analyze_markdown :: "unicode_data \<Rightarrow> utext \<Rightarrow> markdown_error + markdown_analysis" where
  "analyze_markdown u markdown = map_sum id (\<lambda>lines. analyze_lines False lines None
     \<lparr>citation_ids = [], definition_ids = [], duplicate_definition_ids = {}, substantive_h2_citations = [], has_segment_citation = False\<rparr>)
     (markdown_visible_lines u markdown)"

end
