(* ===== verification/Citations.thy ===== *)
theory Citations
  imports MarkdownChecks
begin

text \<open>
  What a model's note cites and which screenshots it asks for (\<open>core/recipes/video/citation_parser.py\<close>). Texts, positions and
  masks as in \<open>MarkdownScan\<close>.
\<close>

section \<open>Segment identifiers and titles\<close>

definition is_segment_id :: "utext \<Rightarrow> bool" where
  "is_segment_id s \<longleftrightarrow> starts_with (ascii ''seg_'') s \<and> 6 \<le> length (drop 4 s) \<and> list_all ascii_digit (drop 4 s)"

definition visible_control_end :: "utext \<Rightarrow> bool list \<Rightarrow> nat \<Rightarrow> nat option" where
  "visible_control_end t shown_mask start =
    (let closing = start + length (takeWhile (\<lambda>c. c \<noteq> 93 \<and> c \<noteq> 13 \<and> c \<noteq> 10) (drop start t)) in
     if length t \<le> closing \<or> t ! closing \<noteq> 93 \<or> \<not> list_all id (take (closing + 1 - start) (drop start shown_mask)) then None
     else Some closing)"

definition atx_h2 :: "utext \<Rightarrow> bool" where
  "atx_h2 = indented (\<lambda>s. starts_with [35, 35] s \<and> (case drop 2 s of [] \<Rightarrow> True | c # _ \<Rightarrow> c = 32 \<or> c = 9))"

definition line_content :: "utext \<Rightarrow> utext" where
  "line_content line = rstrip_by (\<lambda>c. c = 13 \<or> c = 10) line"

fun title_ranges :: "nat \<Rightarrow> utext list \<Rightarrow> (nat \<times> nat) list" where
  "title_ranges offset [] = []"
| "title_ranges offset (line # lines) =
    (if atx_h2 (line_content line)
        \<or> (lines \<noteq> [] \<and> ustrip (line_content line) \<noteq> [] \<and> setext_h2_underline (line_content (hd lines)))
     then [(offset, offset + length (line_content line))] else [])
    @ title_ranges (offset + length line) lines"

definition h2_title_ranges :: "utext \<Rightarrow> (nat \<times> nat) list" where
  "h2_title_ranges visible = title_ranges 0 (split_lines visible)"

definition inside_ranges :: "nat \<Rightarrow> (nat \<times> nat) list \<Rightarrow> bool" where
  "inside_ranges p ranges \<longleftrightarrow> list_ex (\<lambda>(a, e). a \<le> p \<and> p < e) ranges"

definition defines_footnote :: "utext \<Rightarrow> bool" where
  "defines_footnote visible \<longleftrightarrow> list_ex (indented (\<lambda>s. starts_with (ascii ''[^'') s
     \<and> starts_with (ascii '']:'') (dropWhile (\<lambda>c. c \<noteq> 93 \<and> c \<noteq> 13) (drop 2 s)))) (split_on 10 visible)"

section \<open>Controls\<close>

datatype citation_error = ParseError string | MarkdownRaised markdown_error

record parse_rules =
  known_segment_ids :: "utext list"
  allow_screenshots :: bool
  preserve_screenshot_anchors :: bool

record parsed_controls =
  citations :: "utext list"
  screenshots :: "utext list"
  removals :: "(nat \<times> nat) list"

definition citation_prefix :: utext where
  "citation_prefix = ascii ''[^seg_''"

definition screenshot_prefix :: utext where
  "screenshot_prefix = ascii ''[SCREENSHOT:''"

text \<open>One position of the text: nothing, a citation or a screenshot request and where it closes, or an error.\<close>

definition citation_control :: "parse_rules \<Rightarrow> utext \<Rightarrow> bool list \<Rightarrow> (nat \<times> nat) list \<Rightarrow> nat \<Rightarrow> parsed_controls \<Rightarrow> citation_error + (parsed_controls \<times> nat)" where
  "citation_control rules t shown_mask titles i s =
    (case visible_control_end t shown_mask i of
       None \<Rightarrow> Inl (ParseError ''model_citation_invalid'')
     | Some closing \<Rightarrow>
         let segment_id = slice (i + 2) closing t in
         if \<not> is_segment_id segment_id then Inl (ParseError ''model_citation_invalid'')
         else if segment_id \<notin> set (known_segment_ids rules) then Inl (ParseError ''model_citation_unknown'')
         else if inside_ranges i titles then Inr (s\<lparr>removals := removals s @ [(i, closing + 1)]\<rparr>, closing + 1)
         else Inr ((if segment_id \<in> set (citations s) then s else s\<lparr>citations := citations s @ [segment_id]\<rparr>), closing + 1))"

definition screenshot_control :: "parse_rules \<Rightarrow> utext \<Rightarrow> bool list \<Rightarrow> nat \<Rightarrow> parsed_controls \<Rightarrow> citation_error + (parsed_controls \<times> nat)" where
  "screenshot_control rules t shown_mask i s =
    (case visible_control_end t shown_mask i of
       None \<Rightarrow> Inl (ParseError ''model_screenshot_invalid'')
     | Some closing \<Rightarrow>
         let segment_id = slice (i + length screenshot_prefix) closing t in
         if \<not> is_segment_id segment_id then Inl (ParseError ''model_screenshot_invalid'')
         else if \<not> allow_screenshots rules then Inl (ParseError ''model_screenshot_not_allowed'')
         else if segment_id \<notin> set (known_segment_ids rules) then Inl (ParseError ''model_screenshot_unknown'')
         else if segment_id \<in> set (screenshots s) then Inl (ParseError ''model_screenshot_duplicate'')
         else Inr (s\<lparr>screenshots := screenshots s @ [segment_id],
           removals := (if preserve_screenshot_anchors rules then removals s else removals s @ [(i, closing + 1)])\<rparr>, closing + 1))"

definition control_at :: "parse_rules \<Rightarrow> utext \<Rightarrow> bool list \<Rightarrow> (nat \<times> nat) list \<Rightarrow> nat \<Rightarrow> parsed_controls \<Rightarrow> citation_error + (parsed_controls \<times> nat)" where
  "control_at rules t shown_mask titles i s =
    (if \<not> shown_mask ! i \<or> backslash_escaped t i then Inr (s, i + 1)
     else if starts_with citation_prefix (drop i t) then citation_control rules t shown_mask titles i s
     else if starts_with (ascii ''[^'') (drop i t) then Inl (ParseError ''model_citation_invalid'')
     else if starts_with screenshot_prefix (drop i t) then screenshot_control rules t shown_mask i s
     else if starts_with (ascii ''[SCREENSHOT'') (drop i t) then Inl (ParseError ''model_screenshot_invalid'')
     else Inr (s, i + 1))"

lemma visible_control_end_ge: "visible_control_end t shown_mask i = Some closing \<Longrightarrow> i \<le> closing \<and> closing < length t"
  by (auto simp: visible_control_end_def Let_def split: if_splits)

lemma control_at_gt: "control_at rules t shown_mask titles i s = Inr (s', n) \<Longrightarrow> i < n"
  by (auto simp: control_at_def citation_control_def screenshot_control_def Let_def split: if_splits option.splits
      dest!: visible_control_end_ge)

function controls_from :: "parse_rules \<Rightarrow> utext \<Rightarrow> bool list \<Rightarrow> (nat \<times> nat) list \<Rightarrow> nat \<Rightarrow> parsed_controls \<Rightarrow> citation_error + parsed_controls" where
  "controls_from rules t shown_mask titles i s =
    (if length t \<le> i then Inr s
     else case control_at rules t shown_mask titles i s of
       Inl err \<Rightarrow> Inl err
     | Inr (s', n) \<Rightarrow> controls_from rules t shown_mask titles n s')"
  by pat_completeness auto
termination
  by (relation "measure (\<lambda>(rules, t, shown_mask, titles, i, s). length t - i)") (auto dest!: control_at_gt)

declare controls_from.simps [simp del]

section \<open>The note\<close>

fun without_ranges :: "nat \<Rightarrow> (nat \<times> nat) list \<Rightarrow> utext \<Rightarrow> utext" where
  "without_ranges copied [] t = drop copied t"
| "without_ranges copied ((a, e) # rs) t = slice copied a t @ without_ranges e rs t"

record parsed_output =
  parsed_markdown :: utext
  cited_segment_ids :: "utext list"
  screenshot_segment_ids :: "utext list"

definition finish_output :: "unicode_data \<Rightarrow> utext \<Rightarrow> parsed_controls \<Rightarrow> citation_error + parsed_output" where
  "finish_output u markdown s =
    (let parsed = ustrip (without_ranges 0 (removals s) markdown) in
     if citations s = [] then Inl (ParseError ''model_citation_missing'')
     else if parsed = [] then Inl (ParseError ''model_output_invalid'')
     else case markdown_visible_mask u parsed of
       Inl err \<Rightarrow> Inl (MarkdownRaised err)
     | Inr shown_mask \<Rightarrow>
         if ustrip (blanked parsed shown_mask) = [] then Inl (ParseError ''model_output_invalid'')
         else Inr \<lparr>parsed_markdown = parsed, cited_segment_ids = citations s, screenshot_segment_ids = screenshots s\<rparr>)"

definition parse_model_output :: "unicode_data \<Rightarrow> parse_rules \<Rightarrow> utext \<Rightarrow> citation_error + parsed_output" where
  "parse_model_output u rules markdown =
    (if ustrip markdown = [] then Inl (ParseError ''model_output_invalid'')
     else case markdown_visible_mask u markdown of
       Inl err \<Rightarrow> Inl (MarkdownRaised err)
     | Inr shown_mask \<Rightarrow>
         let visible = blanked markdown shown_mask in
         if ustrip visible = [] then Inl (ParseError ''model_output_invalid'')
         else if defines_footnote visible then Inl (ParseError ''model_citation_definition_forbidden'')
         else case controls_from rules markdown shown_mask (h2_title_ranges visible) 0 \<lparr>citations = [], screenshots = [], removals = []\<rparr> of
             Inl err \<Rightarrow> Inl err
           | Inr s \<Rightarrow> finish_output u markdown s)"

end
