(* ===== verification/MarkdownMasks.thy ===== *)
theory MarkdownMasks
  imports MarkdownLinks
begin

text \<open>
  A mask only ever hides: the mask of the text that is shown has the length of the text and shows nothing that lies in a code block
  or in a code span. The code spans are found by a search of their own, which the scan is proved to agree with.
\<close>

definition shows_less :: "bool list \<Rightarrow> bool list \<Rightarrow> bool" where
  "shows_less = list_all2 (\<longrightarrow>)"

lemma shows_less_nth: "shows_less m b \<longleftrightarrow> length m = length b \<and> (\<forall>i < length b. m ! i \<longrightarrow> b ! i)"
  by (auto simp: shows_less_def list_all2_conv_all_nth)

lemma shows_less_hide: "shows_less m b \<Longrightarrow> i \<le> j \<Longrightarrow> j \<le> length b \<Longrightarrow> shows_less (hide i j m) b"
  by (auto simp: shows_less_nth hide_def nth_append)

lemma shows_less_restore: "shows_less m b \<Longrightarrow> i \<le> j \<Longrightarrow> j \<le> length b \<Longrightarrow> shows_less (restore i j b m) b"
  by (auto simp: shows_less_nth restore_def nth_append)

lemma shows_less_update: "shows_less m b \<Longrightarrow> shows_less (m[i := False]) b"
  unfolding shows_less_nth by (metis length_list_update nth_list_update_eq nth_list_update_neq)

section \<open>The scan\<close>

lemma scan_blocks_length: "length (fst (scan_blocks fence t)) = length t"
proof (induction "length t" arbitrary: fence t rule: less_induct)
  case less
  let ?body = "takeWhile (\<lambda>c. c \<noteq> 10) t"
  define k where "k = (if 10 \<in> set t then length ?body + 1 else length ?body)"
  show ?case
  proof (cases "t = []")
    case False
    have k: "0 < k" "k \<le> length t"
    proof -
      have "length ?body < length t" if "10 \<in> set t"
      proof -
        from split_list_first [OF that] obtain a b where "t = a @ 10 # b" "10 \<notin> set a" by blast
        moreover from this(2) have "takeWhile (\<lambda>c. c \<noteq> 10) (a @ 10 # b) = a @ takeWhile (\<lambda>c. c \<noteq> 10) (10 # b)"
          by (intro takeWhile_append2) auto
        ultimately show ?thesis by simp
      qed
      moreover have "k = length t" if "10 \<notin> set t"
      proof -
        have "?body = t" using that by (metis (mono_tags, lifting) takeWhile_eq_all_conv)
        with that show ?thesis by (simp only: k_def if_False)
      qed
      ultimately show "0 < k" "k \<le> length t" using False by (cases "10 \<in> set t"; simp add: k_def)+
    qed
    have "length (fst (scan_blocks fence' (drop k t))) = length t - k" for fence' using less [of "drop k t" fence'] k by simp
    moreover obtain shown fence' mermaid where line: "scan_line fence (rstrip_by (\<lambda>c. c = 13) ?body) = (shown, fence', mermaid)"
      by (cases "scan_line fence (rstrip_by (\<lambda>c. c = 13) ?body)")
    have "fst (scan_blocks fence t) = replicate k shown @ fst (scan_blocks fence' (drop k t))"
      unfolding scan_blocks.simps [of fence t] Let_def k_def [symmetric] using False line by (simp split: prod.split)
    ultimately show ?thesis using k by simp
  qed (simp add: scan_blocks.simps)
qed

lemma run_end_bound: "length block = length t \<Longrightarrow> i \<le> length t \<Longrightarrow> run_end t block i \<le> length t"
  using length_takeWhile_le [of "\<lambda>(shown, c). shown \<and> c = 96" "drop i (zip block t)"] by (simp add: run_end_def)

lemma scan_spans_shows_less:
  assumes "length block = length t" and "shows_less m block" and "\<And>a n. span = Some (a, n) \<Longrightarrow> a \<le> i \<and> a \<le> length t"
  shows "shows_less (scan_spans t block i span m) block"
  using assms
proof (induction t block i span m rule: scan_spans.induct)
  case (1 t block i span m)
  show ?case
  proof (cases "i < length t")
    case False
    with 1 show ?thesis by (subst scan_spans.simps) (auto split: option.split intro!: shows_less_restore)
  next
    case inside: True
    then have here: "\<not> (length t \<le> i \<or> length block \<noteq> length t)" using 1 by simp
    consider (hidden) "\<not> block ! i" | (plain) "block ! i" "t ! i \<noteq> 96 \<or> (span = None \<and> backslash_escaped t i)"
      | (ticks) "block ! i" "\<not> (t ! i \<noteq> 96 \<or> (span = None \<and> backslash_escaped t i))" by blast
    then show ?thesis
    proof cases
      case hidden
      have "shows_less (case span of None \<Rightarrow> m | Some (a, _) \<Rightarrow> restore a i block m) block"
        using 1 inside by (auto split: option.split intro!: shows_less_restore)
      with hidden here 1(1) [OF here hidden] 1(4) show ?thesis by (subst scan_spans.simps) simp
    next
      case plain
      have "shows_less (if span = None then m else m[i := False]) block" using 1 by (simp add: shows_less_update)
      moreover have "\<not> \<not> block ! i" using plain by simp
      moreover have "a \<le> i + 1 \<and> a \<le> length t" if "span = Some (a, n)" for a n using 1(6) [OF that] by simp
      ultimately show ?thesis using plain here 1(2) [OF here _ plain(2)] 1(4) by (subst scan_spans.simps) auto
    next
      case ticks
      let ?e = "run_end t block i"
      have e: "i < ?e" "?e \<le> length t" using ticks inside 1 by (auto intro!: run_end_gt run_end_bound)
      then have "shows_less (hide i ?e m) block" using 1 by (intro shows_less_hide) auto
      moreover have "\<not> \<not> block ! i" using ticks by simp
      moreover have "a \<le> ?e \<and> a \<le> length t"
        if "(case span of None \<Rightarrow> Some (i, ?e - i) | Some (a, n) \<Rightarrow> if ?e - i = n then None else span) = Some (a, n)" for a n
        using that 1(6) [of a n] e by (auto split: option.splits if_splits prod.splits)
      ultimately show ?thesis using ticks here 1(3) [OF here _ ticks(2) refl] 1(4) by (subst scan_spans.simps) (auto simp: Let_def)
    qed
  qed
qed

lemma visible_mask_shows_less: "shows_less (visible_mask t) (fst (scan_blocks None t))"
proof -
  have "shows_less b b" for b by (simp add: shows_less_nth)
  then show ?thesis unfolding visible_mask_def Let_def by (intro scan_spans_shows_less) (simp_all add: scan_blocks_length)
qed

section \<open>The code spans\<close>

text \<open>
  The code spans of a text, by search: the first run of \<open>n\<close> backticks from a position on, within the code-free block it lies in,
  and the spans that begin at a position or after it. A run of backticks that none of the same length closes begins no span, and
  neither does any later run of its block.
\<close>

function close_from :: "utext \<Rightarrow> bool list \<Rightarrow> nat \<Rightarrow> nat \<Rightarrow> nat option" where
  "close_from t block n j =
    (if length t \<le> j \<or> length block \<noteq> length t then None
     else if \<not> block ! j then None
     else if t ! j \<noteq> 96 then close_from t block n (j + 1)
     else if run_end t block j - j = n then Some (run_end t block j)
     else close_from t block n (run_end t block j))"
  by pat_completeness auto
termination
  by (relation "measure (\<lambda>(t, block, n, j). length t - j)") (auto intro!: diff_less_mono2 run_end_gt)

declare close_from.simps [simp del]

lemma close_from_bounds: "close_from t block n j = Some e \<Longrightarrow> j < e \<and> e \<le> length t"
proof (induction t block n j rule: close_from.induct)
  case (1 t block n j)
  note simps = close_from.simps [of t block n j]
  show ?case
  proof (cases "length t \<le> j \<or> length block \<noteq> length t \<or> \<not> block ! j")
    case True
    with 1(3) simps show ?thesis by (auto split: if_splits)
  next
    case here: False
    then have e: "t ! j = 96 \<Longrightarrow> j < run_end t block j \<and> run_end t block j \<le> length t" by (simp add: run_end_gt run_end_bound)
    consider "t ! j \<noteq> 96" | "t ! j = 96" "run_end t block j - j = n" | "t ! j = 96" "run_end t block j - j \<noteq> n" by blast
    then show ?thesis
    proof cases
      case 1
      with here simps "1.prems" "1.IH"(1) show ?thesis by simp
    next
      case 2
      with here simps "1.prems" e show ?thesis by simp
    next
      case 3
      with here simps "1.prems" "1.IH"(2) e show ?thesis by fastforce
    qed
  qed
qed

definition block_end :: "bool list \<Rightarrow> nat \<Rightarrow> nat" where
  "block_end block i = i + length (takeWhile id (drop i block))"

function code_spans :: "utext \<Rightarrow> bool list \<Rightarrow> nat \<Rightarrow> (nat \<times> nat) list" where
  "code_spans t block i =
    (if length t \<le> i \<or> length block \<noteq> length t then []
     else if \<not> block ! i \<or> t ! i \<noteq> 96 \<or> backslash_escaped t i then code_spans t block (i + 1)
     else case close_from t block (run_end t block i - i) (run_end t block i) of
       Some e \<Rightarrow> (i, e) # code_spans t block e
     | None \<Rightarrow> code_spans t block (block_end block (run_end t block i)))"
  by pat_completeness auto
termination
proof (relation "measure (\<lambda>(t, block, i). length t - i)", goal_cases)
  case (3 t block i)
  then have "i < run_end t block i" by (intro run_end_gt) auto
  with 3 show ?case by (auto simp: block_end_def)
next
  case (4 t block i e)
  then have "i < run_end t block i" by (intro run_end_gt) auto
  with 4 close_from_bounds [of t block _ "run_end t block i" e] show ?case by fastforce
qed auto

declare code_spans.simps [simp del]

lemma block_end_bound: "i \<le> length block \<Longrightarrow> i \<le> block_end block i \<and> block_end block i \<le> length block"
  using length_takeWhile_le [of id "drop i block"] by (simp add: block_end_def)

lemma block_end_here: "length block \<le> i \<or> \<not> block ! i \<Longrightarrow> block_end block i = i"
  by (cases "i < length block") (auto simp: block_end_def Cons_nth_drop_Suc [symmetric])

lemma block_end_step: "i < length block \<Longrightarrow> block ! i \<Longrightarrow> block_end block (i + 1) = block_end block i"
  by (simp add: block_end_def Cons_nth_drop_Suc [symmetric])

lemma run_shown: "length block = length t \<Longrightarrow> i \<le> p \<Longrightarrow> p < run_end t block i \<Longrightarrow> block ! p"
proof -
  assume len: "length block = length t" and p: "i \<le> p" "p < run_end t block i"
  define f where "f = (\<lambda>(shown, c). shown \<and> c = (96 :: nat))"
  from p have inside: "p - i < length (takeWhile f (drop i (zip block t)))" by (simp add: run_end_def f_def)
  then have "f (takeWhile f (drop i (zip block t)) ! (p - i))" by (meson nth_mem set_takeWhileD)
  moreover have "takeWhile f (drop i (zip block t)) ! (p - i) = zip block t ! p" "p < length t"
    using takeWhile_nth [OF inside] less_le_trans [OF inside length_takeWhile_le] p(1) len by simp_all
  ultimately show ?thesis using len by (simp add: f_def)
qed

lemma block_end_run: "length block = length t \<Longrightarrow> i \<le> length t \<Longrightarrow> block_end block (run_end t block i) = block_end block i"
proof -
  assume len: "length block = length t" and i: "i \<le> length t"
  have same: "block_end block e = block_end block i" if "i \<le> e" "e \<le> length t" "\<forall>p. i \<le> p \<and> p < e \<longrightarrow> block ! p" for e
    using that
  proof (induction e rule: dec_induct)
    case (step e)
    then have "block_end block (e + 1) = block_end block e" using len by (intro block_end_step) auto
    with step show ?case by simp
  qed simp
  have "i \<le> run_end t block i" by (simp add: run_end_def)
  moreover have "run_end t block i \<le> length t" using len i by (rule run_end_bound)
  moreover have "\<forall>p. i \<le> p \<and> p < run_end t block i \<longrightarrow> block ! p" using run_shown [OF len] by blast
  ultimately show ?thesis by (rule same)
qed

lemma restore_update: "a \<le> i \<Longrightarrow> i < b \<Longrightarrow> restore a b block (m[i := False]) = restore a b block m"
  by (simp add: restore_def)

lemma restore_hide: "a \<le> i \<Longrightarrow> i \<le> e \<Longrightarrow> e \<le> b \<Longrightarrow> e \<le> length m \<Longrightarrow> restore a b block (hide i e m) = restore a b block m"
  by (simp add: restore_def hide_def)

lemma hide_twice: "i \<le> e' \<Longrightarrow> e' \<le> e \<Longrightarrow> e \<le> length m \<Longrightarrow> hide e' e (hide i e' m) = hide i e m"
  by (auto simp: hide_def list_eq_iff_nth_eq nth_append)

lemma hide_length: "i \<le> e \<Longrightarrow> e \<le> length m \<Longrightarrow> length (hide i e m) = length m"
  by (simp add: hide_def)

lemma hide_nth: "i \<le> e \<Longrightarrow> e \<le> length m \<Longrightarrow> p < length m \<Longrightarrow> hide i e m ! p \<longleftrightarrow> m ! p \<and> \<not> (i \<le> p \<and> p < e)"
  by (auto simp: hide_def nth_append)

lemma restore_hidden: "i \<le> e \<Longrightarrow> e \<le> b \<Longrightarrow> b \<le> length m \<Longrightarrow> length block = length m \<Longrightarrow> (\<forall>p. i \<le> p \<and> p < length m \<longrightarrow> m ! p = block ! p)
  \<Longrightarrow> restore i b block (hide i e m) = m"
  by (auto simp: restore_def hide_def list_eq_iff_nth_eq nth_append)

lemma hide_update: "i < e \<Longrightarrow> e \<le> length m \<Longrightarrow> hide (i + 1) e (m[i := False]) = hide i e m"
  by (rule nth_equalityI) (auto simp: hide_length hide_nth nth_list_update)

text \<open>An open span: it is hidden up to its closing run, or shown again up to the end of its block.\<close>

lemma scan_open_span:
  assumes "length block = length t" and "length m = length t" and "a \<le> j" "j \<le> length t"
  shows "scan_spans t block j (Some (a, n)) m =
    (case close_from t block n j of
       Some e \<Rightarrow> scan_spans t block e None (hide j e m)
     | None \<Rightarrow> scan_spans t block (block_end block j) None (restore a (block_end block j) block m))"
  using assms
proof (induction t block n j arbitrary: m rule: close_from.induct)
  case (1 t block n j)
  note simps = close_from.simps [of t block n j] and scan = scan_spans.simps [of t block j "Some (a, n)" m]
  consider (out) "length t \<le> j" | (hidden) "\<not> length t \<le> j" "\<not> block ! j" | (plain) "\<not> length t \<le> j" "block ! j" "t ! j \<noteq> 96"
    | (closing) "\<not> length t \<le> j" "block ! j" "t ! j = 96" "run_end t block j - j = n"
    | (ticks) "\<not> length t \<le> j" "block ! j" "t ! j = 96" "run_end t block j - j \<noteq> n" by blast
  then show ?case
  proof cases
    case out
    then have "j = length t" using 1 by simp
    then show ?thesis using simps scan scan_spans.simps [of t block "length t" None] 1(3) by (simp add: block_end_here)
  next
    case hidden
    then have "scan_spans t block j None m' = scan_spans t block (j + 1) None m'" for m'
      using 1(3) by (subst scan_spans.simps) simp
    then show ?thesis using simps scan hidden 1(3) by (simp add: block_end_here)
  next
    case plain
    have step: "close_from t block n j = close_from t block n (j + 1)" "scan_spans t block j (Some (a, n)) m = scan_spans t block (j + 1) (Some (a, n)) (m[j := False])"
      using simps scan plain 1(3) by simp_all
    have fin: "block_end block (j + 1) = block_end block j" "j + 1 \<le> block_end block (j + 1)"
      using plain 1(3) block_end_step [of j block] block_end_bound [of "j + 1" block] by simp_all
    have "scan_spans t block (j + 1) (Some (a, n)) (m[j := False]) =
      (case close_from t block n (j + 1) of
         Some e \<Rightarrow> scan_spans t block e None (hide (j + 1) e (m[j := False]))
       | None \<Rightarrow> scan_spans t block (block_end block (j + 1)) None (restore a (block_end block (j + 1)) block (m[j := False])))"
      using plain 1(3-6) by (intro "1.IH"(1)) auto
    then show ?thesis using step fin 1(4,5) close_from_bounds [of t block n "j + 1"]
      by (auto split: option.split simp: hide_update [simplified] restore_update)
  next
    case closing
    then have "j < run_end t block j" "run_end t block j \<le> length t" using 1(3,6) by (auto intro: run_end_gt run_end_bound)
    then show ?thesis using simps scan closing 1(3) by (simp add: Let_def)
  next
    case ticks
    let ?e = "run_end t block j"
    have e: "j < ?e" "?e \<le> length t" using ticks 1(3,6) by (auto intro: run_end_gt run_end_bound)
    have step: "close_from t block n j = close_from t block n ?e" "scan_spans t block j (Some (a, n)) m = scan_spans t block ?e (Some (a, n)) (hide j ?e m)"
      using simps scan ticks 1(3) by (simp_all add: Let_def)
    have fin: "block_end block ?e = block_end block j" "?e \<le> block_end block ?e"
      using 1(3,6) e block_end_run [of block t j] block_end_bound [of ?e block] by simp_all
    have "scan_spans t block ?e (Some (a, n)) (hide j ?e m) =
      (case close_from t block n ?e of
         Some k \<Rightarrow> scan_spans t block k None (hide ?e k (hide j ?e m))
       | None \<Rightarrow> scan_spans t block (block_end block ?e) None (restore a (block_end block ?e) block (hide j ?e m)))"
      using ticks 1(3-6) e by (intro "1.IH"(2)) (auto simp: hide_length)
    then show ?thesis using step fin e 1(4,5) close_from_bounds [of t block n ?e]
      by (auto split: option.split simp: hide_twice restore_hide)
  qed
qed

text \<open>So the scan hides exactly the code spans.\<close>

lemma scan_hides_code_spans:
  assumes "length block = length t" and "length m = length t" and "\<forall>p. i \<le> p \<and> p < length t \<longrightarrow> m ! p = block ! p"
  shows "scan_spans t block i None m = foldl (\<lambda>m (a, e). hide a e m) m (code_spans t block i)"
  using assms
proof (induction t block i arbitrary: m rule: code_spans.induct)
  case (1 t block i)
  note simps = code_spans.simps [of t block i] and scan = scan_spans.simps [of t block i None m]
  consider (out) "length t \<le> i" | (plain) "\<not> length t \<le> i" "\<not> block ! i \<or> t ! i \<noteq> 96 \<or> backslash_escaped t i"
    | (ticks) "\<not> length t \<le> i" "block ! i" "t ! i = 96" "\<not> backslash_escaped t i" by blast
  then show ?case
  proof cases
    case out
    then show ?thesis using simps scan by simp
  next
    case plain
    then have "scan_spans t block i None m = scan_spans t block (i + 1) None m" using scan 1(4) by auto
    moreover have "scan_spans t block (i + 1) None m = foldl (\<lambda>m (a, e). hide a e m) m (code_spans t block (i + 1))"
      using plain 1(4-6) by (intro "1.IH"(1)) auto
    ultimately show ?thesis using simps plain 1(4) by auto
  next
    case ticks
    let ?e = "run_end t block i"
    have e: "i < ?e" "?e \<le> length t" using ticks 1(4) by (auto intro: run_end_gt run_end_bound)
    have step: "scan_spans t block i None m = scan_spans t block ?e (Some (i, ?e - i)) (hide i ?e m)"
      using scan ticks 1(4) by (simp add: Let_def)
    have go: "scan_spans t block ?e (Some (i, ?e - i)) (hide i ?e m) =
      (case close_from t block (?e - i) ?e of
         Some k \<Rightarrow> scan_spans t block k None (hide ?e k (hide i ?e m))
       | None \<Rightarrow> scan_spans t block (block_end block ?e) None (restore i (block_end block ?e) block (hide i ?e m)))"
      using e 1(4,5) by (intro scan_open_span) (auto simp: hide_length)
    show ?thesis
    proof (cases "close_from t block (?e - i) ?e")
      case None
      have fin: "?e \<le> block_end block ?e" "block_end block ?e \<le> length t" using block_end_bound [of ?e block] e 1(4) by simp_all
      have "scan_spans t block i None m = scan_spans t block (block_end block ?e) None m"
        using step go None restore_hidden [of i ?e "block_end block ?e" m block] e fin 1(4-6) by simp
      also have "\<dots> = foldl (\<lambda>m (a, e). hide a e m) m (code_spans t block (block_end block ?e))"
        using ticks None fin e 1(4-6) by (intro "1.IH"(2)) auto
      finally show ?thesis using simps ticks None 1(4) by simp
    next
      case (Some k)
      note k = close_from_bounds [OF Some]
      have "scan_spans t block i None m = scan_spans t block k None (hide i k m)"
        using step go Some hide_twice [of i ?e k m] e k 1(5) by simp
      also have "\<dots> = foldl (\<lambda>m (a, e). hide a e m) (hide i k m) (code_spans t block k)"
        using ticks Some k e 1(4-6) by (intro "1.IH"(3)) (auto simp: hide_length hide_nth)
      finally show ?thesis using simps ticks Some 1(4) by simp
    qed
  qed
qed

lemma code_span_bounds: "(a, e) \<in> set (code_spans t block i) \<Longrightarrow> a < e \<and> e \<le> length t"
proof (induction t block i rule: code_spans.induct)
  case (1 t block i)
  note simps = code_spans.simps [of t block i]
  show ?case
  proof (cases "length t \<le> i \<or> length block \<noteq> length t \<or> \<not> block ! i \<or> t ! i \<noteq> 96 \<or> backslash_escaped t i")
    case True
    with "1.prems" "1.IH"(1) simps show ?thesis by (auto split: if_splits)
  next
    case here: False
    then have e: "i < run_end t block i" by (intro run_end_gt) auto
    show ?thesis
    proof (cases "close_from t block (run_end t block i - i) (run_end t block i)")
      case None
      with here "1.prems" "1.IH"(2) simps show ?thesis by auto
    next
      case (Some k)
      with here "1.prems" "1.IH"(3) simps close_from_bounds [OF Some] e show ?thesis by auto
    qed
  qed
qed

definition in_code :: "utext \<Rightarrow> nat \<Rightarrow> bool" where
  "in_code t i \<longleftrightarrow> \<not> fst (scan_blocks None t) ! i \<or> (\<exists>(a, e) \<in> set (code_spans t (fst (scan_blocks None t)) 0). a \<le> i \<and> i < e)"

lemma visible_mask_exact: "i < length t \<Longrightarrow> visible_mask t ! i \<longleftrightarrow> \<not> in_code t i"
proof -
  let ?block = "fst (scan_blocks None t)"
  assume i: "i < length t"
  have hides: "length (foldl (\<lambda>m (a, e). hide a e m) m rs) = length m
      \<and> (foldl (\<lambda>m (a, e). hide a e m) m rs ! i \<longleftrightarrow> m ! i \<and> \<not> (\<exists>(a, e) \<in> set rs. a \<le> i \<and> i < e))"
    if "length m = length t" "\<forall>(a, e) \<in> set rs. a < e \<and> e \<le> length t" for m rs
    using that
  proof (induction rs arbitrary: m)
    case (Cons r rs)
    obtain a e where r: "r = (a, e)" by (cases r)
    then have "a < e" "e \<le> length t" using Cons.prems by auto
    then show ?case using Cons.IH [of "hide a e m"] Cons.prems r i by (auto simp: hide_length hide_nth)
  qed simp
  have "visible_mask t = foldl (\<lambda>m (a, e). hide a e m) ?block (code_spans t ?block 0)"
    unfolding visible_mask_def Let_def by (rule scan_hides_code_spans) (simp_all add: scan_blocks_length)
  then show ?thesis using hides [of ?block "code_spans t ?block 0"] code_span_bounds [of _ _ t ?block 0]
    by (auto simp: in_code_def scan_blocks_length)
qed

text \<open>A run that is not closed shows the spans after it: here \<open>b\<close> stands between two single backticks, and is shown.\<close>

lemma open_run_shows_later_spans: "visible_mask [96, 96, 97, 96, 98, 96] = replicate 6 True"
  by code_simp

section \<open>What is not rendered\<close>

lemma line_end_bound: "i \<le> length t \<Longrightarrow> line_end t i \<le> length t"
  using length_takeWhile_le [of "\<lambda>c. c \<noteq> 10" "drop i t"] by (simp add: line_end_def)

lemma link_region_bounds:
  assumes "link_region t (bracket_matches t) line_start i = (Some (a, e), n)" and "i < length t" "line_start \<le> i"
  shows "a \<le> e \<and> e \<le> length t"
proof -
  from assms(1) obtain closing where closing: "closing_of (bracket_matches t) i = Some closing"
    by (auto simp: link_region_def split: if_splits option.splits)
  note bound = closing_of_bounds [OF closing]
  from assms(1) consider "is_definition t line_start i closing" "a = line_start" "e = line_end t (closing + 2)"
    | "parenthesized_end t (closing + 1) = Some e" "a = closing + 1"
    | r where "closing_of (bracket_matches t) a = Some r" "e = r + 1"
    unfolding link_region_def closing option.case Let_def by (auto split: if_splits option.splits)
  then show ?thesis
  proof cases
    case 1
    then have "line_end t (closing + 2) \<le> length t" by (intro line_end_bound) (simp add: is_definition_def)
    moreover have "closing + 2 \<le> line_end t (closing + 2)" by (simp add: line_end_def)
    ultimately show ?thesis using 1 bound assms(3) by linarith
  next
    case 2
    then show ?thesis using parenthesized_end_bounds [OF 2(1)] by simp
  next
    case 3
    then show ?thesis using closing_of_bounds [OF 3(1)] by simp
  qed
qed

lemma hide_regions_shows_less:
  assumes "shows_less shown_mask b" and "length b = length t" "line_start \<le> i" and "m = bracket_matches t"
  shows "shows_less (hide_regions u t m i line_start shown_mask) b"
  using assms
proof (induction u t m i line_start shown_mask rule: hide_regions.induct)
  case (1 u t m i line_start shown_mask)
  note steps = hide_regions.simps [of u t m i line_start shown_mask]
  consider (finished) "length t \<le> i" | (newline) "\<not> length t \<le> i" "t ! i = 10" | (hidden) "\<not> length t \<le> i" "t ! i \<noteq> 10" "\<not> shown_mask ! i"
    | (here) "\<not> length t \<le> i" "t ! i \<noteq> 10" "\<not> \<not> shown_mask ! i" by blast
  then show ?case
  proof cases
    case finished
    with 1(6) steps show ?thesis by simp
  next
    case newline
    with 1(1) [OF newline 1(6,7) order_refl 1(9)] steps show ?thesis by simp
  next
    case hidden
    have "line_start \<le> i + 1" using 1(8) by simp
    from 1(2) [OF hidden 1(6,7) this 1(9)] hidden steps show ?thesis by simp
  next
    case here
    show ?thesis
    proof (cases "tag_region u t i")
      case (Some e)
      note bound = tag_region_bounds [OF Some]
      then have "shows_less (hide i e shown_mask) b" "line_start \<le> e" using 1(6-8) by (auto intro!: shows_less_hide)
      from 1(5) [OF here Some this(1) 1(7) this(2) 1(9)] here Some steps show ?thesis by simp
    next
      case None
      obtain r n where link: "(r, n) = link_region t m line_start i" by (cases "link_region t m line_start i") simp
      then have n: "line_start \<le> n" using link_region_gt [of i t m line_start] 1(8) by (metis less_imp_le le_trans snd_conv)
      show ?thesis
      proof (cases r)
        case r: None
        from 1(3) [OF here None link r 1(6,7) n 1(9)] here None link [symmetric] r steps show ?thesis by simp
      next
        case (Some ae)
        obtain a e where ae: "(a, e) = ae" by (cases ae) simp
        have "a \<le> e \<and> e \<le> length t" using link Some ae 1(8,9) here(1) by (intro link_region_bounds [of t line_start i a e n]) auto
        then have "shows_less (hide a e shown_mask) b" using 1(6,7) by (intro shows_less_hide) auto
        from 1(4) [OF here None link Some ae this 1(7) n 1(9)] here None link [symmetric] Some ae [symmetric] steps show ?thesis by simp
      qed
    qed
  qed
qed

section \<open>Images\<close>

lemma hide_context_length: "i \<le> j \<Longrightarrow> j \<le> length cs \<Longrightarrow> length (hide_context i j cs) = length cs"
  by (simp add: hide_context_def slice_def)

lemma cut_tags_bounds:
  assumes "cut_tags u v intervals i cs = Inr (c, raws)" and "length cs = length v"
  shows "length c = length v \<and> (\<forall>r \<in> set raws. img_start r \<le> img_end r \<and> img_end r \<le> length v)"
  using assms
proof (induction u v intervals i cs arbitrary: c raws rule: cut_tags.induct)
  case (1 u v intervals i cs)
  note steps = cut_tags.simps [of u v intervals i cs]
  show ?case
  proof (cases "length v \<le> i")
    case True
    with 1(4,5) steps show ?thesis by simp
  next
    case here: False
    show ?thesis
    proof (cases "tag_cut u v intervals i")
      case None
      with 1(4) steps here have "cut_tags u v intervals (i + 1) cs = Inr (c, raws)" by simp
      from 1(1) [OF here None this 1(5)] show ?thesis .
    next
      case (Some e)
      note bound = tag_cut_bounds [OF Some]
      then have len: "length (hide_context i e cs) = length v" using hide_context_length [of i e cs] 1(5) by simp
      show ?thesis
      proof (cases "image_open (slice i e v)")
        case False
        with 1(4) steps here Some have "cut_tags u v intervals e (hide_context i e cs) = Inr (c, raws)" by simp
        from 1(3) [OF here Some False this len] show ?thesis .
      next
        case True
        from 1(4) steps here Some True obtain source where source: "raw_html_image_source u (slice i e v) = Inr source"
          and "add_image \<lparr>img_destination = source, img_start = i, img_end = e\<rparr> (cut_tags u v intervals e (hide_context i e cs)) = Inr (c, raws)"
          by (simp split: sum.splits)
        then obtain raws' where rest: "cut_tags u v intervals e (hide_context i e cs) = Inr (c, raws')"
          and raws: "raws = \<lparr>img_destination = source, img_start = i, img_end = e\<rparr> # raws'"
          by (simp add: add_image_def split: sum.splits prod.splits)
        from 1(2) [OF here Some True source rest len] raws bound show ?thesis by simp
      qed
    qed
  qed
qed

lemma bracket_image_bounds:
  assumes "image_at u c (bracket_matches c) i = (fs, n)" and "i < length c"
  shows "(\<forall>r. Direct r \<in> set fs \<longrightarrow> img_start r \<le> img_end r \<and> img_end r \<le> length c)
    \<and> (\<forall>label a e. ByReference label a e \<in> set fs \<longrightarrow> a \<le> e \<and> e \<le> length c)"
proof -
  have wiki: "img_start r \<le> img_end r \<and> img_end r \<le> length c" if "wiki_image c (bracket_matches c) i = Some r" for r
    using that by (auto simp: wiki_image_def split: if_splits option.splits dest!: closing_of_bounds)
  have "fs = [] \<or> (\<exists>r. fs = [Direct r] \<and> img_start r \<le> img_end r \<and> img_end r \<le> length c)
      \<or> (\<exists>label e. fs = [ByReference label i e] \<and> i \<le> e \<and> e \<le> length c)"
  proof (cases "closing_of (bracket_matches c) (i + 1)")
    case None
    with assms(1) wiki show ?thesis by (auto simp: image_at_def split: if_splits option.splits)
  next
    case (Some closing)
    note bound = closing_of_bounds [OF Some]
    have inline: "img_start r \<le> img_end r \<and> img_end r \<le> length c" if "inline_image c i (closing + 1) = Some r" for r
      using that bound by (auto simp: inline_image_def split: if_splits option.splits dest!: parenthesized_end_bounds)
    have rc: "i \<le> rc + 1 \<and> rc + 1 \<le> length c" if "closing_of (bracket_matches c) (closing + 1) = Some rc" for rc
      using closing_of_bounds [OF that] bound by simp
    have ref: "fst (reference_image u i e label) = [] \<or> (\<exists>l. fst (reference_image u i e label) = [ByReference l i e])" for e label
      by (simp add: reference_image_def)
    consider "fs = []" | r where "fs = [Direct r]" "wiki_image c (bracket_matches c) i = Some r \<or> inline_image c i (closing + 1) = Some r"
      | rc label where "closing_of (bracket_matches c) (closing + 1) = Some rc" "reference_image u i (rc + 1) label = (fs, n)"
      | label where "reference_image u i (closing + 1) label = (fs, n)"
      using assms(1) unfolding image_at_def Some option.case Let_def by (auto split: if_splits option.splits)
    then show ?thesis
    proof cases
      case 1
      then show ?thesis by simp
    next
      case (2 r)
      then show ?thesis using wiki inline by blast
    next
      case (3 rc label)
      then show ?thesis using rc [OF 3(1)] ref [of "rc + 1" label] by auto
    next
      case (4 label)
      have "i \<le> closing + 1 \<and> closing + 1 \<le> length c" using bound by simp
      then show ?thesis using ref [of "closing + 1" label] 4 by auto
    qed
  qed
  then show ?thesis by auto
qed

lemma found_images_bounds:
  assumes "\<forall>r \<in> set raws. img_start r \<le> img_end r \<and> img_end r \<le> length c" and "m = bracket_matches c"
  shows "(\<forall>r. Direct r \<in> set (found_images u c m raws i line_start) \<longrightarrow> img_start r \<le> img_end r \<and> img_end r \<le> length c)
    \<and> (\<forall>label a e. ByReference label a e \<in> set (found_images u c m raws i line_start) \<longrightarrow> a \<le> e \<and> e \<le> length c)"
  using assms
proof (induction u c m raws i line_start rule: found_images.induct)
  case (1 u c m raws i line_start)
  note steps = found_images.simps [of u c m raws i line_start]
  show ?case
  proof (cases "length c \<le> i")
    case True
    with steps show ?thesis by simp
  next
    case here: False
    show ?thesis
    proof (cases "find (\<lambda>r. img_start r = i \<and> i < img_end r) raws")
      case (Some r)
      then have "r \<in> set raws" by (auto simp: find_Some_iff)
      with 1(3) [OF here Some 1(4,5)] 1(4) steps here Some show ?thesis by auto
    next
      case None
      show ?thesis
      proof (cases "c ! i = 10")
        case True
        with 1(1) [OF here None True 1(4,5)] steps here None show ?thesis by simp
      next
        case False
        obtain fs n where step: "(fs, n) = image_step u c m line_start i" by (cases "image_step u c m line_start i") simp
        have "(\<forall>r. Direct r \<in> set fs \<longrightarrow> img_start r \<le> img_end r \<and> img_end r \<le> length c)
            \<and> (\<forall>label a e. ByReference label a e \<in> set fs \<longrightarrow> a \<le> e \<and> e \<le> length c)"
        proof (cases "definition_at c m line_start i")
          case None
          with step here 1(5) show ?thesis by (intro bracket_image_bounds [of u c i fs n]) (simp_all add: image_step_def)
        next
          case (Some lp)
          with step show ?thesis by (auto simp: image_step_def split: prod.splits option.splits)
        qed
        with 1(2) [OF here None False step 1(4,5)] steps here None False step [symmetric] show ?thesis by auto
      qed
    qed
  qed
qed

lemma blanked_length: "length m = length t \<Longrightarrow> length (blanked t m) = length t"
  by (simp add: blanked_def)

lemma visible_mask_length: "length (visible_mask t) = length t"
  using visible_mask_shows_less [of t] by (simp add: shows_less_nth scan_blocks_length)

lemma visible_text_length: "length (visible_text t) = length t"
  using visible_mask_shows_less [of t] by (simp add: visible_text_def blanked_length shows_less_nth scan_blocks_length)

lemma rendered_images_bounds:
  assumes "rendered_images u t = Inr images" and "r \<in> set images"
  shows "img_start r \<le> img_end r \<and> img_end r \<le> length t"
proof -
  let ?v = "visible_text t"
  from assms(1) obtain c raws where cut: "cut_tags u ?v (image_label_intervals ?v (bracket_matches ?v)) 0 ?v = Inr (c, raws)"
    by (auto simp: rendered_images_def Let_def split: sum.splits)
  note raws = cut_tags_bounds [OF cut refl]
  let ?fs = "found_images u c (bracket_matches c) raws 0 0"
  have bounds: "\<forall>r \<in> set raws. img_start r \<le> img_end r \<and> img_end r \<le> length c" using raws by simp
  from assms obtain f where "f \<in> set ?fs" and f: "r \<in> set (case f of Direct r \<Rightarrow> [r]
      | ByReference label i e \<Rightarrow> (case map_of (defined_images ?fs) label of
          Some d \<Rightarrow> [\<lparr>img_destination = Some d, img_start = i, img_end = e\<rparr>] | None \<Rightarrow> [])
      | Definition _ _ \<Rightarrow> [])"
    by (auto simp: rendered_images_def Let_def cut)
  from f have "f = Direct r \<or> (\<exists>label. f = ByReference label (img_start r) (img_end r))"
    by (cases f) (auto split: option.splits)
  with \<open>f \<in> set ?fs\<close> have "Direct r \<in> set ?fs \<or> (\<exists>label. ByReference label (img_start r) (img_end r) \<in> set ?fs)" by metis
  then show ?thesis using found_images_bounds [OF bounds refl, of u 0 0] raws visible_text_length [of t] by auto
qed

text \<open>The mask of the text that is shown as text.\<close>

lemma markdown_visible_mask_shows_less:
  assumes "markdown_visible_mask u t = Inr m"
  shows "shows_less m (visible_mask t)"
proof -
  from assms obtain images where images: "rendered_images u t = Inr images"
    and m: "m = foldl (\<lambda>shown_mask r. hide (img_start r) (img_end r) shown_mask) (hide_regions u t (bracket_matches t) 0 0 (visible_mask t)) images"
    by (auto simp: markdown_visible_mask_def split: sum.splits)
  have fold: "shows_less (foldl (\<lambda>shown_mask r. hide (img_start r) (img_end r) shown_mask) m' rs) (visible_mask t)"
    if "set rs \<subseteq> set images" "shows_less m' (visible_mask t)" for m' rs
    using that
  proof (induction rs arbitrary: m')
    case (Cons r rs)
    then have "img_start r \<le> img_end r \<and> img_end r \<le> length t" using rendered_images_bounds [OF images] by simp
    with Cons show ?case by (simp add: shows_less_hide visible_mask_length)
  qed simp
  then show ?thesis unfolding m
    by (intro fold hide_regions_shows_less) (simp_all add: visible_mask_length shows_less_nth)
qed

end
