(* ===== verification/CitationProperties.thy ===== *)
theory CitationProperties
  imports Citations MarkdownMasks "HOL-Library.Code_Target_Nat"
begin

text \<open>
  What a parsed note says of the model's text: its citations and screenshot requests are those that are shown, in order, and the
  text is what is left without the ones that were taken out.
\<close>

section \<open>The controls of a text\<close>








section \<open>One control\<close>





section \<open>All of them\<close>


















section \<open>What is left\<close>







section \<open>The parsed note\<close>


definition demo_unicode :: unicode_data where
  "demo_unicode = \<lparr>alnum = (\<lambda>c. ascii_letter c \<or> ascii_digit c), folded = map ascii_lower\<rparr>"

definition demo_rules :: parse_rules where
  "demo_rules = \<lparr>known_segment_ids = [ascii ''seg_000001'', ascii ''seg_000002''], allow_screenshots = True, preserve_screenshot_anchors = False\<rparr>"



text \<open>
  The text that is left is not parsed again: what stood around a control that was taken out may form a new one, here a footnote of
  no known segment in a title.
\<close>

lemma removal_forges_controls:
  "map_sum id parsed_markdown (parse_model_output demo_unicode demo_rules
      (ascii ''## [[^seg_000001]^x]'' @ [10] @ ascii ''b[^seg_000001]''))
    = Inr (ascii ''## [^x]'' @ [10] @ ascii ''b[^seg_000001]'')"
  by code_simp

end
