(* ===== verification/Spec2Isabelle.thy ===== *)
theory Spec2Isabelle
  imports TypedIds JobResults SensitiveIdentifiers JsonText JobMachine JobProperties OperationProperties ClaimProperties EndingProperties LeaseProperties QueryProperties WebpProperties ChunkingProperties ModelCallProperties RunnerProperties ContractProperties DispatchProperties AdmissionProperties MarkdownProperties CitationProperties
begin

text \<open>
  AllToNote turns videos and documents into portable notes. The part verified here is the core under
  \<open>src/backend/app\<close> that has to stay right across crashes, cancellations and competing processes: the durable job
  store of a workspace, the machine-wide resource leases, the coordination of recoverable model calls, the runner of
  checkpointed steps, the queries and their cursors, the prompts' chunk plan, and the checks of drafts, of images
  and of secret-bearing names.

  \<^bold>\<open>How the parts interact.\<close> A client or the engine creates a job in the job store. A process that wants to
  work on it claims it (a lease with a fencing token), creates or takes over an attempt, and runs the steps of the
  recipe: each step is asked of the runner, which keeps checkpoints in files and their metadata in the store, and which
  calls language models through the coordinator, which records every call in the store before it is made. A job ends by
  a commit under a guard, a failure, or a cancellation, all transactions of the store. Readers page through jobs and
  events. Processes on one machine share slots by the resource leases.

  \<^bold>\<open>How the code is modelled.\<close> A transaction of a repository is a function from what it draws from outside
  (clock, fresh identifiers, the record \<open>env\<close>) and the tables before it to an error, in which case nothing is
  committed, or to its value and the tables after it. Code that runs across several transactions is a flow
  (\<open>Flows\<close>): it returns a value or an exception and the world it leaves, and between any two of its transactions
  other processes may run any commands of the store, as the \<open>rig\<close> says. A theorem holds for every rig unless it names what it asks of it, and
  five do: \<open>reconcile_ends\<close> and \<open>reconcile_misses_nothing\<close> of stores that stand still, the latter also of threads that end no job
  meanwhile; \<open>failed_admission_holds_nothing\<close> and \<open>slot_is_given_back\<close> that no transaction on the lease table is refused and nobody
  else uses the names of the engine (the code passes over a failed release, and the lease then lasts until its time is over);
  \<open>returned_result_is_recovered\<close> that meanwhile nobody else writes to the store and nothing is refused. Beside that,
  \<open>finished_step_is_on_record\<close> asks that \<open>uuid4().hex\<close> consists of hexadecimal digits and that an action only runs commands on
  the store, and \<open>returned_result_is_final\<close> that the files of results are kept and hashes do not
  change. What \<open>recovery_resumes_at_first_gap\<close> says for every rig is sharper when nobody else writes and the storage does not fail. Texts are lists of
  characters with codes below 256 (for JSON and prompts: the bytes of the UTF-8 form), SQLite tables lists of rows in
  rowid order, files a map from names to bytes, integers of Python \<open>int\<close> and those that cannot be negative \<open>nat\<close>.

  \<^bold>\<open>The theories.\<close>
  \<^item> \<open>Prelude\<close>, \<open>Systems\<close>, \<open>Fencing\<close>: results that may raise, SQL statements over tables, ASCII text; the contracts
    \<open>guarded_system\<close> (a state machine with an invariant), \<open>fencing_tokens\<close>, \<open>owned_tokens\<close> and \<open>timed_lease\<close>
    (who holds a lease, and who never will again). The store, the scheduler lease, the claim of every job and the
    machine's leases are their interpretations.
  \<^item> \<open>JobModel\<close>, \<open>TypedIds\<close>, \<open>JobResults\<close>: errors, enumerations, records, transition tables, authorities
    (\<open>core/errors.py\<close>, \<open>core/jobs\<close>, \<open>core/domain/ids.py\<close>, \<open>core/domain/production.py\<close>), and the
    validation of planned and received results.
  \<^item> \<open>JobTables\<close>, \<open>JobLifecycle\<close>, \<open>JobClaims\<close>, \<open>Challenges\<close>, \<open>ExternalOps\<close>, \<open>Commits\<close>: the operations of
    \<open>adapters/jobs/sqlite_repository.py\<close>, one function each. \<open>JobMachine\<close> makes every one that changes the store a
    command and defines the reachable stores.
  \<^item> \<open>StoreSteps\<close>, \<open>StoreInvariants\<close>, \<open>StoreHistory\<close>, \<open>OperationHistory\<close>: the abstract specification the
    operations refine, a relation of guarded atomic changes; what these keep of every store, and how a row may differ
    in any later store. \<open>JobEffects\<close> says exactly what the operations that end a job do.
  \<^item> \<open>JobProperties\<close>, \<open>OperationProperties\<close>, \<open>ClaimProperties\<close>, \<open>EndingProperties\<close>: the theorems on reachable
    stores, with the runs of \<open>Scenarios\<close> as witnesses.
  \<^item> \<open>MachineLease\<close>, \<open>LeaseProperties\<close>: \<open>adapters/jobs/machine_resource_lease.py\<close> and
    \<open>core/jobs/workspace_publish.py\<close>; generations, handoffs, the publish lease.
  \<^item> \<open>JsonText\<close>, \<open>JsonRoundTrip\<close>, \<open>Base64\<close>: \<open>json.dumps\<close> and \<open>json.loads\<close> as the program calls them, the
    contract \<open>json_codec\<close> of a way to escape characters and to collect pairs with its interpretations, and the round trip; URL-safe base64.
  \<^item> \<open>JobQueries\<close>, \<open>JobQueryService\<close>, \<open>QueryProperties\<close>: the reads of the store, the public views and
    cursors of \<open>core/application/job_query_service.py\<close>; pages are complete.
  \<^item> \<open>Flows\<close>, \<open>ModelCalls\<close>, \<open>CallHistory\<close>, \<open>ModelCallProperties\<close>: \<open>core/application/model_call_coordinator.py\<close>,
    its guard and its result store. \<open>flow_frame\<close> is the contract of a relation that every part of a flow keeps.
  \<^item> \<open>StepRunner\<close>, \<open>RunnerProperties\<close>: \<open>core/application/checkpoint_runner.py\<close>, the checkpoints of
    \<open>adapters/jobs/file_attempt_storage.py\<close> and the recovery planner of \<open>core/jobs/recovery.py\<close>.
  \<^item> \<open>EngineContracts\<close>, \<open>ContractProperties\<close>: the messages of \<open>engine/contracts.py\<close>, read and written; a worker's launch
    is read exactly from its own encoding.
  \<^item> \<open>Dispatcher\<close>, \<open>Reconciliation\<close>, \<open>DispatchProperties\<close>: the queue of \<open>engine/job_dispatcher.py\<close>, section by section
    under its condition, an interpretation of \<open>guarded_system\<close>; the threads are the order of these sections. The scan for
    waiting jobs runs between them and reads the stores through \<open>list_engine_execution_candidates\<close>.
  \<^item> \<open>Admission\<close>, \<open>Slots\<close>, \<open>AdmissionProperties\<close>: the life of a worker, from the slot taken for it to the one given back: flows over
    the job store and the machine's lease table. \<open>store_only\<close> and \<open>engine_history\<close> interpret \<open>flow_frame\<close>.
  \<^item> \<open>Chunking\<close>, \<open>ChunkingProperties\<close>: the prompts of the note compiler and the division of a transcript
    among them. \<open>Webp\<close>, \<open>WebpProperties\<close>: the two WebP modules against a grammar of still images.
    \<open>SensitiveIdentifiers\<close>: the recogniser of secret-bearing field names.
  \<^item> \<open>MarkdownPaths\<close>, \<open>MarkdownScan\<close>, \<open>MarkdownRegions\<close>, \<open>MarkdownLinks\<close>, \<open>MarkdownChecks\<close>: the module
    \<open>core/portable/markdown_safety.py\<close>: where a link may lead, which part of a draft is shown, tags, links and images, the checks of a
    whole draft. \<open>MarkdownMasks\<close>: a mask only hides, and it hides code spans, which are
    found by a search of their own; \<open>MarkdownProperties\<close>: links stay in the bundle, downgraded drafts have no Mermaid fence. Texts are lists of Unicode code points here; the table of named character references, \<open>urlsplit\<close>'s checks
    of a network location and the Unicode database are arguments.
  \<^item> \<open>Citations\<close>, \<open>CitationProperties\<close>: \<open>core/recipes/video/citation_parser.py\<close>; a parsed note cites what is shown.

  \<^bold>\<open>Fuel.\<close> The JSON reader takes twice the length of the text, which \<open>JsonRoundTrip\<close> proves to be enough for
  every text \<open>dumps\<close> writes. The loop of a model call takes one unit per turn; \<open>model_call_ends\<close> proves that one more than
  the budget of attempts is enough, the last for the turn that finds the budget used up. The scan of a store takes one unit per page; \<open>reconcile_ends\<close> proves that one more than the
  largest store has jobs is enough. Every other recursion is structural or has a measure: the loops over positions of a text move on, as the lemmas \<open>_gt\<close> say.

  \<^bold>\<open>Not modelled.\<close> SHA-256, the clock, random identifiers and what other processes and providers do are
  parameters, and so is the worker process a dispatcher starts; the sockets and the descriptor file of the engine are not modelled. The heartbeat thread of the runner is part of what other parties do to the store. Opening databases, migrating
  schemas and file-system safety checks are input and output without a decision of their own, as are the command line,
  the HTTP services of the original application, downloads, transcription, packaging and installation.
  PROJECT.json lists every part with its status.
\<close>

end
